(* ===== verification/Prelude.thy ===== *)
theory Prelude
  imports Main "HOL-Library.Word" "HOL-Library.Monad_Syntax"
begin

text \<open>
  Shared vocabulary of the development: names for the machine integer types the sources use,
  the generic facts on options, lists and words that the component theories share, and the
  interface of a self-delimiting byte codec (the contract that the LEB128 encoders and
  decoders of \<open>libartbase/base/leb128.h\<close> keep).

  Conventions used throughout.  A C++ unsigned or signed integer of width \<open>w\<close> is a
  \<open>w word\<close>; signed values are read with \<open>sint\<close>, signed comparisons are \<open><s\<close> and
  \<open>\<le>s\<close>.  A pointer into a byte or code-unit buffer is the list of the remaining elements or
  an index into the whole list.  A result \<open>None\<close> stands for a read outside the modelled
  buffer, a register index outside the frame, or a failed \<open>CHECK\<close>.
\<close>

unbundle bit_operations_syntax

section \<open>Machine integers\<close>

type_synonym u8 = "8 word"
type_synonym u16 = "16 word"
type_synonym u32 = "32 word"
type_synonym u64 = "64 word"

named_theorems bit_rules \<open>bitwise readings of the shift and mask operations\<close>

lemmas [bit_rules] =
  bit_push_bit_iff bit_drop_bit_eq bit_and_iff bit_or_iff bit_xor_iff
  bit_mask_iff bit_unsigned_iff bit_take_bit_iff

lemma mask7: "(0x7f :: 'a::len word) = mask 7"
  by (simp add: mask_eq_exp_minus_1)

lemma word_neq_0_iff_bit: "(w :: 'a::len word) \<noteq> 0 \<longleftrightarrow> (\<exists>n < LENGTH('a). bit w n)"
  by (metis bit_0_eq bit_imp_le_length bit_word_eqI bot_apply bot_bool_def)

lemma unat_drop_bit_less:
  assumes "(w :: 'a::len word) \<noteq> 0" and "0 < n"
  shows "unat (drop_bit n w) < unat w"
proof -
  have "(1::nat) < 2 ^ n" using assms(2) by (intro one_less_power) simp_all
  moreover have "0 < unat w" using assms(1) by (simp add: unat_gt_0)
  ultimately show ?thesis
    by (simp only: unat_drop_bit_eq drop_bit_eq_div [of n "unat w"] div_less_dividend)
qed

lemma bit_below:
  assumes "unat (w :: 'a::len word) < 2 ^ k" "bit w n"
  shows "n < k"
proof (rule ccontr)
  assume "\<not> n < k"
  then have "unat w < 2 ^ n" using assms(1) less_le_trans [OF _ power_increasing [of k n "2 :: nat"]] by simp
  then have "unat w div 2 ^ n = 0" by (rule div_less)
  moreover have "bit (unat w) n" using assms(2) by (simp add: bit_unsigned_iff)
  ultimately show False by (simp add: bit_iff_odd)
qed

lemma unat_ucast_up:
  "LENGTH('a::len) \<le> LENGTH('b::len) \<Longrightarrow> unat (ucast (w :: 'a word) :: 'b word) = unat w"
  by (metis is_up uint_up_ucast unat_eq_nat_uint)

lemma sint_scast_up:
  "LENGTH('a::len) \<le> LENGTH('b::len) \<Longrightarrow> sint (scast (w :: 'a word) :: 'b word) = sint w"
  by (simp add: is_up sint_up_scast)

lemma sint_ucast_up:
  assumes "LENGTH('a::len) < LENGTH('b::len)"
  shows "sint (ucast (w :: 'a word) :: 'b word) = uint w"
proof -
  have "uint w < 2 ^ LENGTH('a)" by simp
  also have "(2::int) ^ LENGTH('a) \<le> 2 ^ (LENGTH('b) - 1)" using assms by (intro power_increasing) simp_all
  finally have "uint w < 2 ^ (LENGTH('b) - 1)" .
  moreover have "uint (ucast w :: 'b word) = uint w" using assms by (intro uint_up_ucast) (simp add: is_up)
  moreover have "- (2 ^ (LENGTH('b) - 1)) \<le> uint w" using order_trans [OF _ uint_ge_0 [of w]] by simp
  ultimately show ?thesis by (simp add: sint_uint signed_take_bit_int_eq_self_iff)
qed

lemma word_sless_0: "0 <s (w :: 'a::len word) \<longleftrightarrow> 0 < sint w"
  by (simp add: word_sless_alt)
lemma sint_bounds: "- (2 ^ (LENGTH('a) - 1)) \<le> sint (w :: 'a::len word) \<and> sint w < 2 ^ (LENGTH('a) - 1)"
  using sint_ge [of w] sint_less [of w] by simp
lemma sint_add_in_range:
  fixes v w :: "'a::len word"
  assumes "- (2 ^ (LENGTH('a) - 1)) \<le> sint v + sint w" "sint v + sint w < 2 ^ (LENGTH('a) - 1)"
  shows "sint (v + w) = sint v + sint w"
  using assms by (simp add: sint_word_ariths signed_take_bit_int_eq_self_iff)
lemma sint_diff_in_range:
  fixes v w :: "'a::len word"
  assumes "- (2 ^ (LENGTH('a) - 1)) \<le> sint v - sint w" "sint v - sint w < 2 ^ (LENGTH('a) - 1)"
  shows "sint (v - w) = sint v - sint w"
  using assms by (simp add: sint_word_ariths signed_take_bit_int_eq_self_iff)
lemma sint_dec: "0 < sint (w::u32) \<Longrightarrow> sint (w - 1) = sint w - 1"
  using sint_bounds [of w] by (subst sint_diff_in_range) simp_all

section \<open>Options\<close>

lemma bind_neq_None_iff:
  "Option.bind x f \<noteq> None \<longleftrightarrow> (\<exists>z. x = Some z \<and> f z \<noteq> None)"
  by (cases x) simp_all

lemma bind_Some_ex:
  "(\<exists>y. Option.bind x f = Some y) \<longleftrightarrow> (\<exists>z. x = Some z \<and> (\<exists>y. f z = Some y))"
  by (cases x) simp_all

section \<open>Self-delimiting byte codecs\<close>

text \<open>
  A codec writes a value as a byte string and reads it back from the front of a buffer,
  returning the bytes it did not consume.  Everything about sequences of encoded values
  follows from the one-value round trip.
\<close>

locale byte_codec =
  fixes encode :: "'v \<Rightarrow> u8 list"
    and decode :: "u8 list \<Rightarrow> ('v \<times> u8 list) option"
  assumes decode_encode: "decode (encode v @ rest) = Some (v, rest)"
begin

lemma encode_prefix_free: "encode v @ xs = encode w @ ys \<Longrightarrow> v = w \<and> xs = ys"
  by (metis decode_encode option.inject prod.inject)

lemma encode_inj: "encode v = encode w \<Longrightarrow> v = w"
  by (metis encode_prefix_free)

lemma decode_of_encode: "decode (encode v) = Some (v, [])"
  using decode_encode [of v "[]"] by simp

end

primrec decode_many :: "(u8 list \<Rightarrow> ('v \<times> u8 list) option) \<Rightarrow> nat \<Rightarrow> u8 list \<Rightarrow> ('v list \<times> u8 list) option" where
  "decode_many dec 0 bs = Some ([], bs)"
| "decode_many dec (Suc n) bs =
     do { (v, bs') \<leftarrow> dec bs; (vs, bs'') \<leftarrow> decode_many dec n bs'; Some (v # vs, bs'') }"

context byte_codec
begin

lemma decode_many_encode:
  "decode_many decode (length vs) (concat (map encode vs) @ rest) = Some (vs, rest)"
  by (induction vs) (simp_all add: decode_encode)

lemma concat_encode_inj:
  "length vs = length ws \<Longrightarrow> concat (map encode vs) = concat (map encode ws) \<Longrightarrow> vs = ws"
  by (metis decode_many_encode option.inject prod.inject)

end

section \<open>Searching a sorted table\<close>

text \<open>
  A table is searched with two tests of a key against an element: the key lies before it, or
  after it.  An element for which neither holds is a hit.  The binary searches of the sources
  keep an interval \<open>lo\<close>, \<open>hi\<close> with the key after everything below \<open>lo\<close> and before everything
  from \<open>hi\<close> on; the interface asks of the table that the tests are ordered along it.
\<close>

definition search_ok :: "('e \<Rightarrow> 'k \<Rightarrow> bool) \<Rightarrow> ('e \<Rightarrow> 'k \<Rightarrow> bool) \<Rightarrow> 'e list \<Rightarrow> 'k \<Rightarrow> bool" where
  "search_ok before after xs k \<longleftrightarrow>
     (\<forall>i j. i < j \<longrightarrow> j < length xs \<longrightarrow>
        (before (xs ! i) k \<longrightarrow> before (xs ! j) k) \<and> (after (xs ! j) k \<longrightarrow> after (xs ! i) k) \<and>
        (before (xs ! j) k \<or> after (xs ! i) k))"

definition hits :: "('e \<Rightarrow> 'k \<Rightarrow> bool) \<Rightarrow> ('e \<Rightarrow> 'k \<Rightarrow> bool) \<Rightarrow> 'e list \<Rightarrow> 'k \<Rightarrow> nat set" where
  "hits before after xs k = {i. i < length xs \<and> \<not> before (xs ! i) k \<and> \<not> after (xs ! i) k}"

definition narrowed :: "('e \<Rightarrow> 'k \<Rightarrow> bool) \<Rightarrow> ('e \<Rightarrow> 'k \<Rightarrow> bool) \<Rightarrow> 'e list \<Rightarrow> 'k \<Rightarrow> nat \<Rightarrow> nat \<Rightarrow> bool" where
  "narrowed before after xs k lo hi \<longleftrightarrow>
     (\<forall>i < lo. after (xs ! i) k) \<and> (\<forall>i. hi \<le> i \<longrightarrow> i < length xs \<longrightarrow> before (xs ! i) k)"

locale sorted_table =
  fixes before after :: "'e \<Rightarrow> 'k \<Rightarrow> bool" and table_ok :: "'e list \<Rightarrow> bool"
  assumes table_order: "table_ok xs \<Longrightarrow> search_ok before after xs k"
begin

lemma narrow_start: "narrowed before after xs k 0 (length xs)"
  by (simp add: narrowed_def)

lemma narrow_left:
  assumes "table_ok xs" "narrowed before after xs k lo hi" "before (xs ! mid) k"
  shows "narrowed before after xs k lo mid"
proof -
  note ok = table_order [OF assms(1), of k, unfolded search_ok_def]
  have "before (xs ! i) k" if "mid \<le> i" "i < length xs" for i
    using that ok [rule_format, of mid i] assms(3) by (cases "mid = i") auto
  then show ?thesis using assms(2) by (simp add: narrowed_def)
qed

lemma narrow_right:
  assumes "table_ok xs" "narrowed before after xs k lo hi" "after (xs ! mid) k" "mid < length xs"
  shows "narrowed before after xs k (Suc mid) hi"
proof -
  note ok = table_order [OF assms(1), of k, unfolded search_ok_def]
  have "after (xs ! i) k" if "i < Suc mid" for i
    using that ok [rule_format, of i mid] assms(3,4) by (cases "mid = i") auto
  then show ?thesis using assms(2) by (simp add: narrowed_def)
qed

lemma narrow_hit:
  assumes "table_ok xs" "mid < length xs" "\<not> before (xs ! mid) k" "\<not> after (xs ! mid) k"
  shows "hits before after xs k = {mid}"
proof -
  note ok = table_order [OF assms(1), of k, unfolded search_ok_def]
  have "i = mid" if "i < length xs" "\<not> before (xs ! i) k" "\<not> after (xs ! i) k" for i
  proof (rule ccontr)
    assume "i \<noteq> mid"
    then show False
      using ok [rule_format, of i mid] ok [rule_format, of mid i] that assms(2-4)
      by (cases "i < mid") auto
  qed
  then show ?thesis using assms(2-4) unfolding hits_def by blast
qed

lemma narrow_empty:
  assumes "narrowed before after xs k lo hi" "hi \<le> lo"
  shows "hits before after xs k = {}"
proof -
  have "before (xs ! i) k \<or> after (xs ! i) k" if "i < length xs" for i
  proof (cases "i < lo")
    case False
    with assms(2) have "hi \<le> i" by simp
    with assms(1) that show ?thesis by (simp add: narrowed_def)
  qed (use assms(1) in \<open>simp add: narrowed_def\<close>)
  then show ?thesis by (auto simp: hits_def)
qed

end

end
