(* ===== verification/Leb128.thy ===== *)
theory Leb128
  imports Prelude
begin

text \<open>
  \<open>libartbase/base/leb128.h\<close>: the variable-length integer encoding used by every dex file
  structure.  The encoders produce the bytes they would store; the decoders consume the
  front of a buffer and return the rest.  Running off the buffer is \<open>None\<close>: for the checked
  decoders this is their \<open>false\<close> result, for the unchecked ones the read would leave the
  buffer.  Shown here: the round trips of all three encoders, the closed-form sizes, the
  in-place update and the backwards search.
\<close>

section \<open>Decoding\<close>

definition max_bytes :: "'a::len itself \<Rightarrow> nat" where
  "max_bytes _ = (LENGTH('a) + 6) div 7"

fun DecodeLeb128Loop :: "bool \<Rightarrow> nat \<Rightarrow> 'a::len word \<Rightarrow> u8 list \<Rightarrow> ('a word \<times> u8 list) option" where
  "DecodeLeb128Loop is_signed index result ptr =
     (if index < max_bytes TYPE('a) then
        (case ptr of
           [] \<Rightarrow> None
         | b # ptr' \<Rightarrow>
             (let curr = (ucast b :: 'a word);
                  result' = result OR push_bit (index * 7) (curr AND 0x7f)
              in if curr \<le> 0x7f then
                   Some (if is_signed \<and> index < max_bytes TYPE('a) - 1
                         then (let shift = LENGTH('a) - (index + 1) * 7
                               in signed_drop_bit shift (push_bit shift result'))
                         else result',
                         ptr')
                 else DecodeLeb128Loop is_signed (index + 1) result' ptr'))
      else Some (result, ptr))"

declare DecodeLeb128Loop.simps [simp del]

definition DecodeLeb128Helper :: "bool \<Rightarrow> u8 list \<Rightarrow> ('a::len word \<times> u8 list) option" where
  "DecodeLeb128Helper is_signed data = DecodeLeb128Loop is_signed 0 0 data"

definition DecodeUnsignedLeb128 :: "u8 list \<Rightarrow> (u32 \<times> u8 list) option" where
  "DecodeUnsignedLeb128 data = DecodeLeb128Helper False data"

definition DecodeUnsignedLeb128_u64 :: "u8 list \<Rightarrow> (u64 \<times> u8 list) option" where
  "DecodeUnsignedLeb128_u64 data = DecodeLeb128Helper False data"

definition DecodeUnsignedLeb128WithoutMovingCursor :: "u8 list \<Rightarrow> u32 option" where
  "DecodeUnsignedLeb128WithoutMovingCursor data = map_option fst (DecodeUnsignedLeb128 data)"

definition DecodeUnsignedLeb128P1 :: "u8 list \<Rightarrow> (u32 \<times> u8 list) option" where
  "DecodeUnsignedLeb128P1 data =
     do { (v, data') \<leftarrow> DecodeUnsignedLeb128 data; Some (v - 1, data') }"

definition DecodeSignedLeb128 :: "u8 list \<Rightarrow> (u32 \<times> u8 list) option" where
  "DecodeSignedLeb128 data = DecodeLeb128Helper True data"

definition DecodeSignedLeb128_i64 :: "u8 list \<Rightarrow> (u64 \<times> u8 list) option" where
  "DecodeSignedLeb128_i64 data = DecodeLeb128Helper True data"

text \<open>
  The checked versions stop at \<open>end\<close>, an index into the buffer: \<open>None\<close> is their answer
  \<open>false\<close>, with the cursor and the output untouched; otherwise the value and the index of the
  cursor.
\<close>

definition DecodeUnsignedLeb128Checked :: "u8 list \<Rightarrow> nat \<Rightarrow> (u32 \<times> nat) option" where
  "DecodeUnsignedLeb128Checked data end =
     do { (v, rest) \<leftarrow> DecodeLeb128Helper False (take end data);
          Some (v, length (take end data) - length rest) }"

definition DecodeSignedLeb128Checked :: "u8 list \<Rightarrow> nat \<Rightarrow> (u32 \<times> nat) option" where
  "DecodeSignedLeb128Checked data end =
     do { (v, rest) \<leftarrow> DecodeLeb128Helper True (take end data);
          Some (v, length (take end data) - length rest) }"

section \<open>Encoding\<close>

function EncodeUnsignedLoop :: "u8 \<Rightarrow> u64 \<Rightarrow> u8 list" where
  "EncodeUnsignedLoop out value =
     (if value \<noteq> 0
      then (out OR 0x80) # EncodeUnsignedLoop (ucast (value AND 0x7f)) (drop_bit 7 value)
      else [out])"
  by pat_completeness auto
termination
  by (relation "measure (\<lambda>(out, value). unat value)") (simp_all add: unat_drop_bit_less)

declare EncodeUnsignedLoop.simps [simp del]

definition EncodeUnsignedLeb128 :: "u64 \<Rightarrow> u8 list" where
  "EncodeUnsignedLeb128 value = EncodeUnsignedLoop (ucast (value AND 0x7f)) (drop_bit 7 value)"

function EncodeSignedLoop :: "u8 \<Rightarrow> u64 \<Rightarrow> 'e::len word \<Rightarrow> u8 list" where
  "EncodeSignedLoop out value extra_bits =
     (if extra_bits \<noteq> 0
      then (out OR 0x80) #
           (let value' = signed_drop_bit 7 value
            in EncodeSignedLoop (ucast (value' AND 0x7f)) value' (drop_bit 7 extra_bits))
      else [out])"
  by pat_completeness auto
termination
  by (relation "measure (\<lambda>(out, value, extra_bits). unat extra_bits)")
    (simp_all add: unat_drop_bit_less)

declare EncodeSignedLoop.simps [simp del]

definition EncodeSignedLeb128 :: "u64 \<Rightarrow> u8 list" where
  "EncodeSignedLeb128 value =
     (let extra_bits = drop_bit 6 (value XOR signed_drop_bit 63 value)
      in EncodeSignedLoop (ucast (value AND 0x7f)) value extra_bits)"

definition EncodeSignedLeb128_vector :: "u8 list \<Rightarrow> u64 \<Rightarrow> u8 list" where
  "EncodeSignedLeb128_vector dest value =
     (let extra_bits = drop_bit 6 (ucast (value XOR signed_drop_bit 31 value) :: u32)
      in dest @ EncodeSignedLoop (ucast (value AND 0x7f)) value extra_bits)"

definition EncodeUnsignedLeb128_vector :: "u8 list \<Rightarrow> u64 \<Rightarrow> u8 list" where
  "EncodeUnsignedLeb128_vector dest value = dest @ EncodeUnsignedLeb128 value"

subsection \<open>The encoder class\<close>

definition PushBackUnsigned :: "u8 list \<Rightarrow> u32 \<Rightarrow> u8 list" where
  "PushBackUnsigned data value = EncodeUnsignedLeb128_vector data (ucast value)"

definition InsertBackUnsigned :: "u8 list \<Rightarrow> u32 list \<Rightarrow> u8 list" where
  "InsertBackUnsigned data values = foldl PushBackUnsigned data values"

definition PushBackSigned :: "u8 list \<Rightarrow> u32 \<Rightarrow> u8 list" where
  "PushBackSigned data value = EncodeSignedLeb128_vector data (scast value)"

definition InsertBackSigned :: "u8 list \<Rightarrow> u32 list \<Rightarrow> u8 list" where
  "InsertBackSigned data values = foldl PushBackSigned data values"

section \<open>Sizes\<close>

fun bit_length :: "nat \<Rightarrow> nat" where
  "bit_length n = (if n = 0 then 0 else Suc (bit_length (n div 2)))"

declare bit_length.simps [simp del]

definition CLZ :: "'a::len word \<Rightarrow> nat" where
  "CLZ x = LENGTH('a) - bit_length (unat x)"

definition UnsignedLeb128Size :: "u64 \<Rightarrow> u32" where
  "UnsignedLeb128Size data =
     (let x = (6 + 64 - of_nat (CLZ (data OR 1)) :: u32) in drop_bit 8 (x * 37))"

definition SignedLeb128Size :: "u64 \<Rightarrow> u32" where
  "SignedLeb128Size data =
     (let bits_to_encode = data XOR signed_drop_bit 63 data;
          num_bits = (1 + 6 + 64 - of_nat (CLZ (bits_to_encode OR 1)) :: u32)
      in drop_bit 8 (num_bits * 37))"

section \<open>In-place update and backwards search\<close>

definition IsLeb128Terminator :: "u8 \<Rightarrow> bool" where
  "IsLeb128Terminator b \<longleftrightarrow> b \<le> 0x7f"

text \<open>
  The buffer starts at \<open>dest\<close>; \<open>end\<close> and \<open>old_end\<close> are indices into it.
\<close>

function PadLoop :: "u8 list \<Rightarrow> nat \<Rightarrow> nat \<Rightarrow> u8 list" where
  "PadLoop buf end old_end =
     (if end < old_end
      then PadLoop (buf[end - 1 := (buf ! (end - 1)) OR 0x80, end := 0]) (end + 1) old_end
      else buf)"
  by pat_completeness auto
termination by (relation "measure (\<lambda>(buf, end, old_end). old_end - end)") auto

declare PadLoop.simps [simp del]

definition UpdateUnsignedLeb128 :: "u8 list \<Rightarrow> u32 \<Rightarrow> u8 list option" where
  "UpdateUnsignedLeb128 dest value =
     do { (old_value, rest) \<leftarrow> DecodeUnsignedLeb128 dest;
          let old_end = length dest - length rest;
          let enc = EncodeUnsignedLeb128 (ucast value);
          if length enc \<le> length dest
          then Some (PadLoop (enc @ drop (length enc) dest) (length enc) old_end)
          else None }"

text \<open>
  \<open>ptr\<close> counts the bytes before the cursor; reading before the start of the buffer is
  \<open>None\<close>.
\<close>

primrec ReverseSearchLoop :: "u8 list \<Rightarrow> nat \<Rightarrow> nat option" where
  "ReverseSearchLoop buf 0 = None"
| "ReverseSearchLoop buf (Suc p) =
     (if \<not> IsLeb128Terminator (buf ! p) then ReverseSearchLoop buf p else Some (Suc p))"

definition ReverseSearchUnsignedLeb128 :: "u8 list \<Rightarrow> nat \<Rightarrow> nat option" where
  "ReverseSearchUnsignedLeb128 buf end_ptr =
     (if end_ptr = 0 then None else ReverseSearchLoop buf (end_ptr - 1))"

section \<open>Vocabulary of the proofs\<close>

text \<open>
  The extra bits that the signed encoders keep beside the value: bit \<open>n\<close> says whether bit
  \<open>n + 6\<close> of the value still differs from the sign.  And the shape of an encoded value: bytes
  with the continuation bit, then one byte without it.
\<close>

definition extra_of :: "u64 \<Rightarrow> 'e::len word \<Rightarrow> bool" where
  "extra_of v e \<longleftrightarrow> (\<forall>n. bit e n \<longleftrightarrow> n + 6 < 64 \<and> bit v (n + 6) \<noteq> bit v 63)"

definition leb_shape :: "u8 list \<Rightarrow> bool" where
  "leb_shape bs \<longleftrightarrow> (\<exists>xs t. bs = xs @ [t] \<and> (\<forall>x \<in> set xs. bit x 7) \<and> \<not> bit t 7)"

section \<open>Unsigned round trip\<close>

lemma u8_le_7f: "(b::u8) \<le> 0x7f \<longleftrightarrow> \<not> bit b 7"
proof -
  have "b \<le> 0x7f \<longleftrightarrow> take_bit 7 (uint b) = uint b"
    by (auto simp: word_le_def take_bit_int_eq_self_iff)
  also have "... \<longleftrightarrow> take_bit 7 b = b"
    by (metis unsigned_take_bit_eq word_uint_eqI)
  also have "... \<longleftrightarrow> \<not> bit b 7"
  proof
    assume "take_bit 7 b = b" then show "\<not> bit b 7" by (metis bit_take_bit_iff less_irrefl)
  next
    assume a: "\<not> bit b 7"
    show "take_bit 7 b = b"
    proof (rule bit_word_eqI)
      fix n assume "n < LENGTH(8)"
      then have "n < 7 \<or> n = 7" by auto
      then show "bit (take_bit 7 b) n = bit b n" using a by (auto simp: bit_take_bit_iff)
    qed
  qed
  finally show ?thesis .
qed

lemma uint_7f: "8 \<le> LENGTH('a::len) \<Longrightarrow> uint (0x7f :: 'a word) = 0x7f"
proof -
  assume "8 \<le> LENGTH('a)"
  then have "(2::int) ^ 8 \<le> 2 ^ LENGTH('a)" by (intro power_increasing) simp_all
  then show ?thesis by (simp add: take_bit_int_eq_self_iff)
qed

lemma ucast_le_7f: "8 \<le> LENGTH('a::len) \<Longrightarrow> ((ucast (b::u8) :: 'a word) \<le> 0x7f) = (\<not> bit b 7)"
proof -
  assume a: "8 \<le> LENGTH('a)"
  then have "uint (ucast b :: 'a word) = uint b" by (intro uint_up_ucast) (simp add: is_up)
  with a show ?thesis by (simp only: u8_le_7f [symmetric] word_le_def uint_7f) simp
qed

lemma max_bytes_bound: "i < max_bytes TYPE('a::len) \<longleftrightarrow> 7 * i < LENGTH('a)"
  by (auto simp: max_bytes_def)

lemma cont_bit7: "bit ((x::u8) OR 0x80) 7" 
  by (simp add: bit_simps)

lemma low7_bit7: "\<not> bit (ucast (w AND 0x7f :: u64) :: u8) 7"
  by (simp add: bit_simps mask7)

lemma split7:
  fixes w :: u64
  assumes "8 \<le> LENGTH('a::len)"
  shows "push_bit k (ucast (ucast (w AND 0x7f) :: u8) AND 0x7f :: 'a word) OR push_bit (k + 7) (ucast (drop_bit 7 w)) 
    = push_bit k (ucast w :: 'a word)"
proof (rule bit_word_eqI)
  fix n assume n: "n < LENGTH('a)"
  show "bit (push_bit k (ucast (ucast (w AND 0x7f) :: u8) AND 0x7f) OR push_bit (k + 7) (ucast (drop_bit 7 w)) :: 'a word) n 
    = bit (push_bit k (ucast w :: 'a word)) n"
  proof (cases "k \<le> n")
    case True
    then obtain m where m: "n = k + m" by (auto simp: le_iff_add)
    show ?thesis using n unfolding m mask7 by (cases "m < 7") (auto simp: bit_simps)
  qed (simp add: bit_simps)
qed

lemma EncodeUnsignedLeb128_small:
  "drop_bit 7 w = 0 \<Longrightarrow> EncodeUnsignedLeb128 w = [ucast (w AND 0x7f)]"
  by (simp add: EncodeUnsignedLeb128_def EncodeUnsignedLoop.simps)

lemma EncodeUnsignedLeb128_large:
  "drop_bit 7 w \<noteq> 0 \<Longrightarrow>
   EncodeUnsignedLeb128 w = (ucast (w AND 0x7f) OR 0x80) # EncodeUnsignedLeb128 (drop_bit 7 w)"
  by (simp add: EncodeUnsignedLeb128_def EncodeUnsignedLoop.simps [of _ "drop_bit 7 w"])

lemma EncodeUnsignedLeb128_induct [case_names small large]:
  assumes "\<And>w. drop_bit 7 w = 0 \<Longrightarrow> P w"
    and "\<And>w. drop_bit 7 w \<noteq> 0 \<Longrightarrow> P (drop_bit 7 w) \<Longrightarrow> P w"
  shows "P (w :: u64)"
proof (induction w rule: measure_induct_rule [of unat])
  case (less w)
  show ?case
  proof (cases "drop_bit 7 w = 0")
    case False
    then have "w \<noteq> 0" by auto
    then have "unat (drop_bit 7 w) < unat w" by (rule unat_drop_bit_less) simp
    then have "P (drop_bit 7 w)" by (rule less)
    with False show ?thesis by (rule assms(2))
  qed (rule assms(1))
qed

lemma DecodeLeb128Loop_last:
  assumes "7 * i < LENGTH('a::len)" "8 \<le> LENGTH('a)" "\<not> bit b 7"
  shows "DecodeLeb128Loop False i (r :: 'a word) (b # bs)
    = Some (r OR push_bit (7 * i) (ucast b AND 0x7f), bs)"
  using assms by (subst DecodeLeb128Loop.simps) (simp add: max_bytes_bound ucast_le_7f mult.commute)

lemma DecodeLeb128Loop_more:
  assumes "7 * i < LENGTH('a::len)" "8 \<le> LENGTH('a)" "bit b 7"
  shows "DecodeLeb128Loop is_signed i (r :: 'a word) (b # bs)
    = DecodeLeb128Loop is_signed (Suc i) (r OR push_bit (7 * i) (ucast b AND 0x7f)) bs"
  using assms by (subst DecodeLeb128Loop.simps) (simp add: max_bytes_bound ucast_le_7f mult.commute)

lemma cont_low7: "ucast ((x :: u8) OR 0x80) AND 0x7f = (ucast x AND 0x7f :: 'a::len word)"
proof -
  have "bit (0x80 :: u8) n \<longleftrightarrow> n = 7" for n
    using bit_exp_iff [where 'a = u8, of 7 n] by (auto dest: bit_imp_le_length)
  then show ?thesis by (simp only: mask7) (rule bit_word_eqI, auto simp: bit_simps)
qed

lemma DecodeUnsigned_loop:
  fixes w :: u64 and r :: "'a::len word"
  assumes "8 \<le> LENGTH('a)" "7 * i < LENGTH('a)" "drop_bit (LENGTH('a) - 7 * i) w = 0"
  shows "DecodeLeb128Loop False i r (EncodeUnsignedLeb128 w @ bs)
    = Some (r OR push_bit (7 * i) (ucast w), bs)"
  using assms(2,3)
proof (induction w arbitrary: i r rule: EncodeUnsignedLeb128_induct)
  case (small w)
  have "ucast (ucast (w AND 0x7f) :: u8) AND 0x7f = (ucast w :: 'a word)"
    using split7 [OF assms(1), of 0 w] small.hyps by simp
  with small assms(1) show ?case
    by (simp add: EncodeUnsignedLeb128_small DecodeLeb128Loop_last low7_bit7)
next
  case (large w)
  let ?r = "r OR push_bit (7 * i) (ucast (ucast (w AND 0x7f) :: u8) AND 0x7f)"
  have i: "7 * Suc i < LENGTH('a)"
  proof (rule ccontr)
    assume "\<not> 7 * Suc i < LENGTH('a)"
    then have "LENGTH('a) - 7 * i \<le> 7" by simp
    then obtain d where "7 = (LENGTH('a) - 7 * i) + d" by (auto simp: le_iff_add)
    then have "drop_bit 7 w = drop_bit d (drop_bit (LENGTH('a) - 7 * i) w)"
      by (simp add: drop_bit_drop_bit add.commute)
    with large show False by simp
  qed
  have 0: "drop_bit (LENGTH('a) - 7 * Suc i) (drop_bit 7 w) = 0"
    using large.prems(2) i by (simp add: drop_bit_drop_bit)
  have "DecodeLeb128Loop False i r (EncodeUnsignedLeb128 w @ bs)
    = DecodeLeb128Loop False (Suc i) ?r (EncodeUnsignedLeb128 (drop_bit 7 w) @ bs)"
    using large assms(1)
    by (simp add: EncodeUnsignedLeb128_large DecodeLeb128Loop_more cont_bit7 cont_low7)
  also have "\<dots> = Some (?r OR push_bit (7 * Suc i) (ucast (drop_bit 7 w)), bs)"
    by (rule large.IH [OF i 0])
  also have "\<dots> = Some (r OR push_bit (7 * i) (ucast w), bs)"
    using split7 [OF assms(1), of "7 * i" w] by (simp add: or.assoc add.commute)
  finally show ?case .
qed

lemma ucast_ucast_u32: "ucast (ucast (v :: u32) :: u64) = v"
  by (rule bit_word_eqI) (auto simp: bit_simps)

interpretation uleb: byte_codec "\<lambda>v :: u32. EncodeUnsignedLeb128 (ucast v)" DecodeUnsignedLeb128
proof
  fix v :: u32 and rest
  have "drop_bit 32 (ucast v :: u64) = 0"
    by (rule bit_word_eqI) (auto simp: bit_simps dest: bit_imp_le_length)
  then show "DecodeUnsignedLeb128 (EncodeUnsignedLeb128 (ucast v) @ rest) = Some (v, rest)"
    by (simp add: DecodeUnsignedLeb128_def DecodeLeb128Helper_def DecodeUnsigned_loop ucast_ucast_u32)
qed

interpretation uleb64: byte_codec EncodeUnsignedLeb128 DecodeUnsignedLeb128_u64
proof
  fix v :: u64 and rest
  have "drop_bit 64 v = 0" by (rule bit_word_eqI) (auto simp: bit_simps dest: bit_imp_le_length)
  then show "DecodeUnsignedLeb128_u64 (EncodeUnsignedLeb128 v @ rest) = Some (v, rest)"
    by (simp add: DecodeUnsignedLeb128_u64_def DecodeLeb128Helper_def DecodeUnsigned_loop)
qed

section \<open>Signed round trip\<close>

lemma bit_sdrop7: "n < 64 \<Longrightarrow> bit (signed_drop_bit 7 (v::u64)) n = bit v (if n + 7 < 64 then n + 7 else 63)"
  unfolding bit_signed_drop_bit_iff by (rule arg_cong [of _ _ "bit v"]) auto

lemma bit_sign_shift:
  fixes x :: "'a::len word"
  shows "s < LENGTH('a) \<Longrightarrow> n < LENGTH('a) \<Longrightarrow>
    bit (signed_drop_bit s (push_bit s x)) n = bit x (if n < LENGTH('a) - s then n else LENGTH('a) - s - 1)"
  by (auto simp: bit_signed_drop_bit_iff bit_push_bit_iff)

lemma extra_of_step: "extra_of v e \<Longrightarrow> extra_of (signed_drop_bit 7 v) (drop_bit 7 e)"
proof -
  assume "extra_of v e"
  then have "bit (drop_bit 7 e) n \<longleftrightarrow> n + 13 < 64 \<and> bit v (n + 13) \<noteq> bit v 63" for n
    unfolding extra_of_def by (simp add: bit_drop_bit_eq add.commute [of _ n])
  moreover have "n + 6 < 64 \<and> bit (signed_drop_bit 7 v) (n + 6) \<noteq> bit (signed_drop_bit 7 v) 63 \<longleftrightarrow>
      n + 13 < 64 \<and> bit v (n + 13) \<noteq> bit v 63" for n
    by (cases "n + 6 < 64") (auto simp: bit_sdrop7 add.commute [of _ n])
  ultimately show ?thesis unfolding extra_of_def by blast
qed

lemma extra_of_0: "extra_of v (0 :: 'e::len word) \<Longrightarrow> 6 \<le> n \<Longrightarrow> n < 64 \<Longrightarrow> bit v n = bit v 63"
  unfolding extra_of_def by (drule spec [of _ "n - 6"]) simp

lemma EncodeSignedLoop_last: "EncodeSignedLoop out v 0 = [out]"
  by (simp add: EncodeSignedLoop.simps)

lemma EncodeSignedLoop_more:
  "e \<noteq> 0 \<Longrightarrow> EncodeSignedLoop out v e = (out OR 0x80) #
     EncodeSignedLoop (ucast (signed_drop_bit 7 v AND 0x7f)) (signed_drop_bit 7 v) (drop_bit 7 e)"
  by (subst EncodeSignedLoop.simps) (simp add: Let_def)

lemma less_max_bytes: "i < max_bytes TYPE('a) - Suc 0 \<longleftrightarrow> 7 * Suc i < LENGTH('a::len)"
  unfolding max_bytes_bound [symmetric] by linarith

lemma DecodeLeb128Loop_signed_byte:
  fixes r :: "'a::len word"
  assumes "8 \<le> LENGTH('a)" "7 * i < LENGTH('a)" "\<not> bit b 7"
  defines "r' \<equiv> r OR push_bit (7 * i) (ucast b AND 0x7f)" and "s \<equiv> LENGTH('a) - 7 * Suc i"
  shows "DecodeLeb128Loop True i r (b # bs) =
    Some (if 7 * Suc i < LENGTH('a) then signed_drop_bit s (push_bit s r') else r', bs)"
  using assms by (subst DecodeLeb128Loop.simps)
    (simp only: max_bytes_bound ucast_le_7f less_max_bytes list.case Let_def if_True simp_thms
       mult.commute [of _ 7] add_Suc_right add_0_right One_nat_def)

lemma DecodeLeb128Loop_signed_last:
  fixes r :: "'a::len word" and v :: u64
  assumes N: "8 \<le> LENGTH('a)" "LENGTH('a) \<le> 64" and i: "7 * i < LENGTH('a)"
    and r: "\<And>n. 7 * i \<le> n \<Longrightarrow> \<not> bit r n"
    and v: "\<And>n. 6 \<le> n \<Longrightarrow> n < 64 \<Longrightarrow> bit v n = bit v 63"
  shows "DecodeLeb128Loop True i r (ucast (v AND 0x7f) # bs) = Some (r OR push_bit (7 * i) (scast v), bs)"
proof -
  let ?r = "r OR push_bit (7 * i) (ucast (ucast (v AND 0x7f) :: u8) AND 0x7f)"
  let ?s = "LENGTH('a) - 7 * Suc i"
  have low: "n < 7 * Suc i \<Longrightarrow> n < LENGTH('a) \<Longrightarrow> bit ?r n = bit (r OR push_bit (7 * i) (scast v)) n" for n
    using N by (auto simp: bit_simps mask7 min_def)
  have high: "7 * Suc i \<le> n \<Longrightarrow> n < LENGTH('a) \<Longrightarrow> bit (r OR push_bit (7 * i) (scast v)) n = bit v 63" for n
    using N r [of n] v [of "n - 7 * i"] by (auto simp: bit_simps min_def)
  have "signed_drop_bit ?s (push_bit ?s ?r) = r OR push_bit (7 * i) (scast v)" if "7 * Suc i < LENGTH('a)"
  proof (rule bit_word_eqI)
    fix n assume n: "n < LENGTH('a)"
    show "bit (signed_drop_bit ?s (push_bit ?s ?r)) n = bit (r OR push_bit (7 * i) (scast v)) n"
    proof (cases "n < 7 * Suc i")
      case True
      then have "bit (signed_drop_bit ?s (push_bit ?s ?r)) n = bit ?r n"
        using that n by (subst bit_sign_shift) auto
      then show ?thesis using low [OF True n] by simp
    next
      case False
      then have "bit (signed_drop_bit ?s (push_bit ?s ?r)) n = bit ?r (7 * i + 6)"
        using that n by (subst bit_sign_shift) (auto simp: add.commute)
      also have "\<dots> = bit v 63"
        using that r [of "7 * i + 6"] v [of 6] by (simp add: bit_simps mask7)
      finally show ?thesis using high [of n] False n by simp
    qed
  qed
  moreover have "?r = r OR push_bit (7 * i) (scast v)" if "\<not> 7 * Suc i < LENGTH('a)"
    using that by (intro bit_word_eqI low) simp_all
  moreover have "\<not> bit (ucast (v AND 0x7f) :: u8) 7"
    by (simp add: low7_bit7)
  ultimately show ?thesis
    using DecodeLeb128Loop_signed_byte [OF N(1) i, of "ucast (v AND 0x7f)" r bs] by (cases "7 * Suc i < LENGTH('a)") simp_all
qed

lemma bit_scast_u64:
  "m < 64 \<Longrightarrow> bit (scast (v::u64) :: 'a::len word) m \<longleftrightarrow> m < LENGTH('a) \<and> bit v m"
  by (cases "m = 63") (auto simp: bit_signed_iff min_def dest: bit_imp_le_length)

lemma signed_split7:
  fixes v :: u64
  assumes "8 \<le> LENGTH('a::len)" "LENGTH('a) \<le> 64"
  shows "push_bit k (ucast (ucast (v AND 0x7f) :: u8) AND 0x7f :: 'a word) OR push_bit (k + 7) (scast (signed_drop_bit 7 v))
    = push_bit k (scast v :: 'a word)"
proof (rule bit_word_eqI)
  fix n assume n: "n < LENGTH('a)"
  show "bit (push_bit k (ucast (ucast (v AND 0x7f) :: u8) AND 0x7f) OR push_bit (k + 7) (scast (signed_drop_bit 7 v)) :: 'a word) n
    = bit (push_bit k (scast v :: 'a word)) n"
  proof (cases "k \<le> n")
    case True
    then obtain m where m: "n = k + m" by (auto simp: le_iff_add)
    then have m64: "m < 64" using n assms by simp
    show ?thesis using n m64 assms unfolding m mask7
      by (cases "m < 7") (auto simp: bit_push_bit_iff bit_or_iff bit_and_iff bit_mask_iff bit_scast_u64 bit_unsigned_iff bit_sdrop7)
  qed (simp add: bit_simps)
qed

lemma DecodeSigned_loop:
  fixes v :: u64 and r :: "'a::len word" and e :: "'e::len word"
  assumes N: "8 \<le> LENGTH('a)" "LENGTH('a) \<le> 64"
    and "7 * i < LENGTH('a)" "\<And>n. 7 * i \<le> n \<Longrightarrow> \<not> bit r n" "extra_of v e"
    and "\<And>n. LENGTH('a) - 7 * i - 1 \<le> n \<Longrightarrow> n < 64 \<Longrightarrow> bit v n = bit v 63"
  shows "DecodeLeb128Loop True i r (EncodeSignedLoop (ucast (v AND 0x7f)) v e @ bs)
    = Some (r OR push_bit (7 * i) (scast v), bs)"
  using assms(3-)
proof (induction e arbitrary: i r v rule: measure_induct_rule [of unat])
  case (less e)
  show ?case
  proof (cases "e = 0")
    case True
    then show ?thesis
      using DecodeLeb128Loop_signed_last [OF N less.prems(1,2) extra_of_0] less.prems(3)
      by (simp add: EncodeSignedLoop_last)
  next
    case False
    let ?r = "r OR push_bit (7 * i) (ucast (ucast (v AND 0x7f) :: u8) AND 0x7f)"
    let ?v = "signed_drop_bit 7 v"
    obtain m where m: "m + 6 < 64" "bit v (m + 6) \<noteq> bit v 63"
      using False less.prems(3) by (auto simp: word_neq_0_iff_bit extra_of_def)
    have i: "7 * Suc i < LENGTH('a)"
    proof (rule ccontr)
      assume "\<not> 7 * Suc i < LENGTH('a)"
      then have "LENGTH('a) - 7 * i - 1 \<le> m + 6" by simp
      with m less.prems(4) show False by blast
    qed
    have "DecodeLeb128Loop True i r (EncodeSignedLoop (ucast (v AND 0x7f)) v e @ bs)
      = DecodeLeb128Loop True (Suc i) ?r (EncodeSignedLoop (ucast (?v AND 0x7f)) ?v (drop_bit 7 e) @ bs)"
      using less.prems(1) N False
      by (simp add: EncodeSignedLoop_more DecodeLeb128Loop_more cont_bit7 cont_low7)
    also have "\<dots> = Some (?r OR push_bit (7 * Suc i) (scast ?v), bs)"
    proof (rule less.IH)
      show "unat (drop_bit 7 e) < unat e" using False by (simp add: unat_drop_bit_less)
      show "\<not> bit ?r n" if "7 * Suc i \<le> n" for n
        using that less.prems(2) [of n] by (auto simp: bit_simps mask7)
      show "extra_of ?v (drop_bit 7 e)" by (rule extra_of_step [OF less.prems(3)])
      show "bit ?v n = bit ?v 63" if "LENGTH('a) - 7 * Suc i - 1 \<le> n" "n < 64" for n
        using that i less.prems(4) [of "n + 7"] by (simp add: bit_sdrop7)
    qed (rule i)
    also have "\<dots> = Some (r OR push_bit (7 * i) (scast v), bs)"
      using signed_split7 [OF N, of "7 * i" v] by (simp add: or.assoc add.commute)
    finally show ?thesis .
  qed
qed

lemma bit_sdrop_sign: "n < 64 \<Longrightarrow> bit (signed_drop_bit 63 (v::u64)) n = bit v 63"
  unfolding bit_signed_drop_bit_iff by (rule arg_cong [of _ _ "bit v"]) auto

lemma extra_of_64: "extra_of v (drop_bit 6 (v XOR signed_drop_bit 63 v))"
proof -
  have "bit (drop_bit 6 (v XOR signed_drop_bit 63 v)) n \<longleftrightarrow> n + 6 < 64 \<and> bit v (n + 6) \<noteq> bit v 63" for n
    by (cases "n + 6 < 64") (auto simp: bit_drop_bit_eq bit_xor_iff bit_sdrop_sign add.commute [of 6]
      dest: bit_imp_le_length)
  then show ?thesis by (simp add: extra_of_def)
qed

lemma bit_scast_u32: "n < 64 \<Longrightarrow> bit (scast (x :: u32) :: u64) n = bit x (if n < 32 then n else 31)"
  by (cases "n = 31") (auto simp: bit_signed_iff min_def)

lemma extra_of_32:
  "extra_of (scast (x :: u32)) (drop_bit 6 (ucast (scast x XOR signed_drop_bit 31 (scast x :: u64)) :: u32))"
proof -
  have "bit (signed_drop_bit 31 (scast x :: u64)) n = bit x 31" if "n < 64" for n
    using that unfolding bit_signed_drop_bit_iff by (auto simp: bit_scast_u32)
  then have "bit (drop_bit 6 (ucast (scast x XOR signed_drop_bit 31 (scast x :: u64)) :: u32)) n \<longleftrightarrow>
      n + 6 < 64 \<and> bit (scast x :: u64) (n + 6) \<noteq> bit (scast x :: u64) 63" for n
    by (cases "n + 6 < 32") (auto simp: bit_drop_bit_eq bit_unsigned_iff bit_xor_iff bit_scast_u32 add.commute [of 6]
        dest: bit_imp_le_length)
  then show ?thesis by (simp add: extra_of_def)
qed

lemma eq63: "63 \<le> n \<Longrightarrow> n < 64 \<Longrightarrow> n = (63::nat)" and eq31: "31 \<le> n \<Longrightarrow> n < 32 \<Longrightarrow> n = (31::nat)"
  by simp_all

lemma scast_scast_u32: "scast (scast (v :: u32) :: u64) = v"
  by (rule bit_word_eqI) (simp add: bit_scast_u64 bit_scast_u32)

interpretation sleb: byte_codec EncodeSignedLeb128 DecodeSignedLeb128_i64
proof
  fix v :: u64 and rest
  show "DecodeSignedLeb128_i64 (EncodeSignedLeb128 v @ rest) = Some (v, rest)"
    unfolding DecodeSignedLeb128_i64_def DecodeLeb128Helper_def EncodeSignedLeb128_def Let_def
    by (subst DecodeSigned_loop [OF _ _ _ _ extra_of_64]) (auto simp: scast_id dest!: eq63)
qed

interpretation sleb32: byte_codec "\<lambda>v :: u32. EncodeSignedLeb128_vector [] (scast v)" DecodeSignedLeb128
proof
  fix v :: u32 and rest
  show "DecodeSignedLeb128 (EncodeSignedLeb128_vector [] (scast v) @ rest) = Some (v, rest)"
    unfolding DecodeSignedLeb128_def DecodeLeb128Helper_def EncodeSignedLeb128_vector_def Let_def
    by (simp, subst DecodeSigned_loop [OF _ _ _ _ extra_of_32]) (auto simp: bit_scast_u32 scast_scast_u32 dest!: eq31)
qed

section \<open>Lengths of encodings\<close>

lemma bit_length_0 [simp]: "bit_length 0 = 0" by (simp add: bit_length.simps)
lemma bit_length_div2: "bit_length (n div 2) = bit_length n - 1"
  by (subst (2) bit_length.simps) (auto simp: bit_length.simps)

lemma bit_length_div_pow: "bit_length (n div 2 ^ k) = bit_length n - k"
proof (induction k)
  case (Suc k)
  have "n div 2 ^ Suc k = n div 2 ^ k div 2" by (simp only: power_Suc2 div_mult2_eq)
  then show ?case by (simp add: bit_length_div2 Suc)
qed simp

lemma bit_length_eq_0_iff: "bit_length n = 0 \<longleftrightarrow> n = 0"
  by (subst bit_length.simps) simp

lemma bit_length_le_iff: "bit_length n \<le> k \<longleftrightarrow> n < 2 ^ k"
proof -
  have "bit_length n \<le> k \<longleftrightarrow> bit_length (n div 2 ^ k) = 0" by (simp add: bit_length_div_pow)
  also have "\<dots> \<longleftrightarrow> n < 2 ^ k" by (simp add: bit_length_eq_0_iff div_eq_0_iff)
  finally show ?thesis .
qed

lemma bit_length_word: "bit_length (unat (w :: 'a::len word)) \<le> LENGTH('a)"
  by (simp add: bit_length_le_iff)

lemma bit_length_drop_bit: "bit_length (unat (drop_bit k (w :: 'a::len word))) = bit_length (unat w) - k"
  by (simp only: unat_drop_bit_eq drop_bit_eq_div [of k "unat w"] bit_length_div_pow)

lemma bit_length_or_1: "bit_length (unat (w OR 1 :: 'a::len word)) = max 1 (bit_length (unat w))"
proof -
  have "unat (w OR 1) = (unat w) OR 1" by (simp add: unsigned_or_eq)
  moreover have "(m OR 1) div 2 = m div 2" for m :: nat
    by (simp add: or_one_eq del: One_nat_def)
  moreover have "m OR 1 \<noteq> 0" for m :: nat by (cases m) (simp_all add: or_one_eq del: One_nat_def)
  ultimately show ?thesis
    by (simp only:) (subst bit_length.simps, subst (2) bit_length.simps, simp)
qed

lemma times37_div7:
  assumes "n \<le> 85"
  shows "unat (drop_bit 8 (of_nat n * 37 :: u32)) = n div 7"
proof -
  have "unat (of_nat n * 37 :: u32) = n * 37"
    using assms by (simp add: unat_word_ariths unat_of_nat take_bit_nat_eq_self_iff)
  moreover have "n * 37 div 256 = n div 7"
  proof -
    have "256 * q \<le> n * 37 \<and> n * 37 < 256 * Suc q" if "7 * q \<le> n" "n < 7 * q + 7" for q
      using assms that by simp
    from this [of "n div 7"] show ?thesis by (intro div_nat_eqI) simp_all
  qed
  ultimately show ?thesis by (simp only: unat_drop_bit_eq drop_bit_eq_div [of 8 "_ :: nat"]) simp
qed

lemma length_step: "0 < b \<Longrightarrow> Suc ((b - 7 + 6) div 7) = (b + 6) div (7::nat)"
proof (cases "b < 7")
  case True
  moreover assume "0 < b"
  ultimately have "(b + 6) div 7 = 1" by (intro div_nat_eqI) simp_all
  with True show ?thesis by simp
next
  case False
  then obtain c where "b = c + 7" by (auto simp: not_less le_iff_add add.commute)
  then show ?thesis using div_add_self2 [of 7 "c + 6"] by (simp add: add.commute add.left_commute)
qed

lemma length_first_unsigned: "Suc ((b - 7 + 6) div 7) = (6 + max 1 b) div (7::nat)"
  using length_step [of b] by (cases "b = 0") (auto simp: max_def add.commute)

lemma length_first_signed: "Suc ((b - 6 + 6) div 7) = (7 + max 1 b) div (7::nat)"
  by (cases "b < 6") (auto simp: max_def)

lemma bit_length_pos: "(w :: 'a::len word) \<noteq> 0 \<Longrightarrow> 0 < bit_length (unat w)"
  by (metis bit_length_eq_0_iff gr0I unat_eq_zero)

lemma length_EncodeUnsignedLoop:
  "length (EncodeUnsignedLoop out w) = Suc ((bit_length (unat w) + 6) div 7)"
proof (induction out w rule: EncodeUnsignedLoop.induct)
  case (1 out v)
  then show ?case
    by (subst EncodeUnsignedLoop.simps)
      (simp add: bit_length_drop_bit length_step bit_length_pos del: add_Suc_right)
qed

lemma length_EncodeSignedLoop:
  "length (EncodeSignedLoop out v e) = Suc ((bit_length (unat e) + 6) div 7)"
proof (induction out v e rule: EncodeSignedLoop.induct)
  case (1 out v e)
  then show ?case
    by (subst EncodeSignedLoop.simps)
      (simp add: bit_length_drop_bit length_step bit_length_pos Let_def del: add_Suc_right)
qed

lemma CLZ_or_1: "of_nat (CLZ (w OR 1 :: u64)) = (64 - of_nat (max 1 (bit_length (unat w))) :: u32)"
proof -
  have "max 1 (bit_length (unat w)) \<le> 64" using bit_length_word [of w] by simp
  then show ?thesis by (simp add: CLZ_def bit_length_or_1 of_nat_diff del: max.bounded_iff)
qed

lemma length_EncodeUnsignedLeb128:
  "length (EncodeUnsignedLeb128 w) = unat (UnsignedLeb128Size w)"
proof -
  let ?b = "max 1 (bit_length (unat w))"
  have "?b \<le> 64" using bit_length_word [of w] by simp
  then have "unat (UnsignedLeb128Size w) = (6 + ?b) div 7"
    using times37_div7 [of "6 + ?b"] by (simp add: UnsignedLeb128Size_def CLZ_or_1 algebra_simps)
  moreover have "length (EncodeUnsignedLeb128 w) = (6 + ?b) div 7"
    by (simp only: EncodeUnsignedLeb128_def length_EncodeUnsignedLoop bit_length_drop_bit length_first_unsigned)
  ultimately show ?thesis by simp
qed

lemma length_EncodeSignedLeb128:
  "length (EncodeSignedLeb128 w) = unat (SignedLeb128Size w)"
proof -
  let ?x = "w XOR signed_drop_bit 63 w"
  let ?b = "max 1 (bit_length (unat ?x))"
  have "?b \<le> 64" using bit_length_word [of ?x] by simp
  then have "unat (SignedLeb128Size w) = (7 + ?b) div 7"
    using times37_div7 [of "7 + ?b"] by (simp add: SignedLeb128Size_def CLZ_or_1 algebra_simps)
  moreover have "length (EncodeSignedLeb128 w) = (7 + ?b) div 7"
    by (simp only: EncodeSignedLeb128_def length_EncodeSignedLoop bit_length_drop_bit length_first_signed Let_def)
  ultimately show ?thesis by simp
qed

section \<open>Updating in place, searching backwards\<close>

lemma leb_shape_encode: "leb_shape (EncodeUnsignedLeb128 w)"
proof (induction w rule: EncodeUnsignedLeb128_induct)
  case (small w)
  then show ?case by (auto simp: leb_shape_def EncodeUnsignedLeb128_small low7_bit7)
next
  case (large w)
  then obtain xs t where "EncodeUnsignedLeb128 (drop_bit 7 w) = xs @ [t]" "\<forall>x \<in> set xs. bit x 7" "\<not> bit t 7"
    by (auto simp: leb_shape_def)
  with large.hyps show ?case
    unfolding leb_shape_def EncodeUnsignedLeb128_large [OF large.hyps]
    by (intro exI [of _ "(ucast (w AND 0x7f) OR 0x80) # xs"] exI [of _ t]) (simp add: cont_bit7)
qed

lemma DecodeUnsigned_pad1:
  fixes r :: "'a::len word"
  assumes "8 \<le> LENGTH('a)" "\<forall>x \<in> set xs. bit x 7" "\<not> bit t 7"
    "7 * (i + length xs + 1) < LENGTH('a)"
  shows "DecodeLeb128Loop False i r (xs @ (t OR 0x80) # 0 # bs) = DecodeLeb128Loop False i r (xs @ t # bs)"
  using assms(2,4)
proof (induction xs arbitrary: i r)
  case Nil
  then show ?case using assms(1,3)
    by (simp add: DecodeLeb128Loop_more DecodeLeb128Loop_last cont_bit7 cont_low7)
next
  case (Cons x xs)
  then show ?case using assms(1) by (simp add: DecodeLeb128Loop_more)
qed

lemma PadLoop_correct:
  fixes r :: "'a::len word"
  assumes "8 \<le> LENGTH('a)" "leb_shape enc" "end = length enc" "end \<le> old_end" "length junk = old_end - end"
    "7 * (i + old_end - 1) < LENGTH('a)"
  shows "\<exists>enc'. PadLoop (enc @ junk @ rest) end old_end = enc' @ rest \<and> length enc' = old_end \<and> leb_shape enc' \<and>
    DecodeLeb128Loop False i r (enc' @ rest) = DecodeLeb128Loop False i r (enc @ rest)"
  using assms(2-)
proof (induction "old_end - end" arbitrary: "end" enc junk)
  case 0
  then show ?case by (intro exI [of _ enc]) (simp add: PadLoop.simps)
next
  case (Suc k)
  obtain xs t where enc: "enc = xs @ [t]" "\<forall>x \<in> set xs. bit x 7" "\<not> bit t 7"
    using Suc.prems(1) by (auto simp: leb_shape_def)
  obtain j js where junk: "junk = j # js" using Suc by (cases junk) auto
  let ?enc = "xs @ [t OR 0x80, 0]"
  have shape: "leb_shape ?enc"
    unfolding leb_shape_def using enc(2) by (intro exI [of _ "xs @ [t OR 0x80]"] exI [of _ 0]) (auto simp: cont_bit7)
  have "PadLoop (enc @ junk @ rest) end old_end = PadLoop (?enc @ js @ rest) (Suc end) old_end"
  proof -
    have "end < old_end" using Suc.hyps(2) by simp
    then show ?thesis
      using Suc.prems(2) by (subst PadLoop.simps) (simp add: enc(1) junk nth_append list_update_append)
  qed
  moreover have "\<exists>enc'. PadLoop (?enc @ js @ rest) (Suc end) old_end = enc' @ rest \<and> length enc' = old_end \<and> leb_shape enc' \<and>
      DecodeLeb128Loop False i r (enc' @ rest) = DecodeLeb128Loop False i r (?enc @ rest)"
    using Suc.hyps(2) Suc.prems enc(1) junk shape by (intro Suc.hyps(1)) auto
  moreover have "DecodeLeb128Loop False i r (?enc @ rest) = DecodeLeb128Loop False i r (enc @ rest)"
    using DecodeUnsigned_pad1 [OF assms(1) enc(2,3), of i r rest] Suc.hyps(2) Suc.prems enc(1) by simp
  ultimately show ?case by simp
qed

lemma DecodeLeb128Loop_consumes:
  "DecodeLeb128Loop sg i r bs = Some (v, rest) \<Longrightarrow> \<exists>used. bs = used @ rest \<and> i + length used \<le> max i (max_bytes TYPE('a))"
  for r :: "'a::len word"
proof (induction sg i r bs rule: DecodeLeb128Loop.induct)
  case (1 sg i r bs)
  show ?case
  proof (cases "i < max_bytes TYPE('a)")
    case True
    note 1(2) [unfolded DecodeLeb128Loop.simps [of sg i r bs]]
    with True obtain b bs' where bs: "bs = b # bs'" by (cases bs) auto
    have i: "max i (max_bytes TYPE('a)) = max_bytes TYPE('a)" "max (i + 1) (max_bytes TYPE('a)) = max_bytes TYPE('a)"
      using True by simp_all
    show ?thesis
    proof (cases "(ucast b :: 'a word) \<le> 0x7f")
      case le: True
      then have "rest = bs'" using 1(2) True bs by (simp add: DecodeLeb128Loop.simps [of sg i r "b # bs'"] Let_def)
      then show ?thesis using True bs i by (intro exI [of _ "[b]"]) simp
    next
      case False
      with 1(1) [OF True bs refl refl False] 1(2) True bs obtain used where
        "bs' = used @ rest" "i + 1 + length used \<le> max_bytes TYPE('a)"
        unfolding i by (auto simp: DecodeLeb128Loop.simps [of sg i r "b # bs'"] Let_def)
      then show ?thesis using bs i by (intro exI [of _ "b # used"]) simp
    qed
  next
    case False
    then show ?thesis using 1(2) by (simp add: DecodeLeb128Loop.simps [of sg i r bs])
  qed
qed

lemma UpdateUnsignedLeb128_correct:
  assumes "DecodeUnsignedLeb128 (old @ rest) = Some (v0, rest)"
    and "unat (UnsignedLeb128Size (ucast v)) \<le> length old"
  shows "\<exists>new. UpdateUnsignedLeb128 (old @ rest) v = Some (new @ rest) \<and> length new = length old \<and>
    DecodeUnsignedLeb128 (new @ rest) = Some (v, rest)"
proof -
  let ?enc = "EncodeUnsignedLeb128 (ucast v)" and ?r = "0 :: u32"
  have le: "length ?enc \<le> length old" using assms(2) by (simp add: length_EncodeUnsignedLeb128)
  have "length old \<le> 5"
    using DecodeLeb128Loop_consumes [of False 0 0 "old @ rest" v0 rest] assms(1)
    by (auto simp: DecodeUnsignedLeb128_def DecodeLeb128Helper_def max_bytes_def)
  then have "7 * (0 + length old - 1) < LENGTH(32)" by simp
  from PadLoop_correct [OF _ leb_shape_encode refl le, of "drop (length ?enc) old" 0 rest ?r] this le
  obtain new where new: "PadLoop (?enc @ drop (length ?enc) old @ rest) (length ?enc) (length old) = new @ rest"
    "length new = length old"
    "DecodeLeb128Loop False 0 ?r (new @ rest) = DecodeLeb128Loop False 0 ?r (?enc @ rest)"
    by auto
  have "UpdateUnsignedLeb128 (old @ rest) v = Some (new @ rest)"
    using assms(1) le new(1) by (simp add: UpdateUnsignedLeb128_def Let_def)
  moreover have "DecodeUnsignedLeb128 (new @ rest) = Some (v, rest)"
    using new(3) uleb.decode_encode [of v rest] by (simp add: DecodeUnsignedLeb128_def DecodeLeb128Helper_def)
  ultimately show ?thesis using new(2) by blast
qed

lemma ReverseSearchLoop_shape:
  assumes "\<forall>x \<in> set xs. bit x 7" "\<not> bit t 7"
  shows "ReverseSearchLoop (pre @ [t] @ xs @ post) (length pre + 1 + length xs) = Some (length pre + 1)"
  using assms
proof (induction xs arbitrary: post rule: rev_induct)
  case Nil
  then show ?case by (simp add: IsLeb128Terminator_def u8_le_7f nth_append)
next
  case (snoc x xs)
  then show ?case by (simp add: IsLeb128Terminator_def u8_le_7f nth_append)
qed

lemma ReverseSearch_encode:
  assumes "\<not> bit t 7"
  shows "ReverseSearchUnsignedLeb128 (pre @ [t] @ EncodeUnsignedLeb128 w) (length (pre @ [t] @ EncodeUnsignedLeb128 w)) =
    Some (length (pre @ [t]))"
proof -
  obtain xs u where "EncodeUnsignedLeb128 w = xs @ [u]" "\<forall>x \<in> set xs. bit x 7"
    using leb_shape_encode [of w] by (auto simp: leb_shape_def)
  then show ?thesis
    using ReverseSearchLoop_shape [OF _ assms, of xs pre "[u]"] by (simp add: ReverseSearchUnsignedLeb128_def)
qed

section \<open>Properties\<close>

lemma foldl_append_concat:
  "(\<And>data v. push data v = data @ f v) \<Longrightarrow> foldl push data vs = data @ concat (map f vs)"
  by (induction vs arbitrary: data) simp_all

text \<open>
  C36.  \<open>Leb128Encoder::InsertBackUnsigned\<close> appends to the buffer a byte string from which
  as many \<open>DecodeUnsignedLeb128\<close> calls as values were inserted read back exactly these
  values, in order, and stop exactly at its end, whatever follows it.
\<close>

theorem InsertBackUnsigned_roundtrip:
  "\<exists>bytes. InsertBackUnsigned data vs = data @ bytes \<and>
     decode_many DecodeUnsignedLeb128 (length vs) (bytes @ rest) = Some (vs, rest)"
proof -
  have "InsertBackUnsigned data vs = data @ concat (map (\<lambda>v. EncodeUnsignedLeb128 (ucast v)) vs)"
    unfolding InsertBackUnsigned_def
    by (rule foldl_append_concat) (simp add: PushBackUnsigned_def EncodeUnsignedLeb128_vector_def)
  then show ?thesis using uleb.decode_many_encode [of vs rest] by blast
qed

text \<open>
  C37.  The same for \<open>Leb128Encoder::InsertBackSigned\<close> and \<open>DecodeSignedLeb128\<close>, over
  all 32-bit signed values.
\<close>

theorem InsertBackSigned_roundtrip:
  "\<exists>bytes. InsertBackSigned data vs = data @ bytes \<and>
     decode_many DecodeSignedLeb128 (length vs) (bytes @ rest) = Some (vs, rest)"
proof -
  have "InsertBackSigned data vs = data @ concat (map (\<lambda>v. EncodeSignedLeb128_vector [] (scast v)) vs)"
    unfolding InsertBackSigned_def
    by (rule foldl_append_concat) (simp add: PushBackSigned_def EncodeSignedLeb128_vector_def Let_def)
  then show ?thesis using sleb32.decode_many_encode [of vs rest] by blast
qed

text \<open>
  \<open>UnsignedLeb128Size\<close> and \<open>SignedLeb128Size\<close>, which divide by seven with a
  multiplication by 37 and a shift, are the numbers of bytes the pointer versions of
  \<open>EncodeUnsignedLeb128\<close> and \<open>EncodeSignedLeb128\<close> write, for every 64-bit value.
\<close>

theorem Leb128Size_correct:
  "unat (UnsignedLeb128Size v) = length (EncodeUnsignedLeb128 v) \<and>
   unat (SignedLeb128Size v) = length (EncodeSignedLeb128 v)"
  by (simp add: length_EncodeUnsignedLeb128 length_EncodeSignedLeb128)

text \<open>
  \<open>UpdateUnsignedLeb128\<close> overwrites an encoded value by another one that needs no more
  bytes: the buffer keeps its length and everything after the value, and decoding it gives
  the new value and the same rest.
\<close>

theorem UpdateUnsignedLeb128_ok:
  assumes "DecodeUnsignedLeb128 (old @ rest) = Some (v0, rest)"
    and "unat (UnsignedLeb128Size (ucast v)) \<le> length old"
  shows "\<exists>new. UpdateUnsignedLeb128 (old @ rest) v = Some (new @ rest) \<and> length new = length old \<and>
    DecodeUnsignedLeb128 (new @ rest) = Some (v, rest)"
  by (rule UpdateUnsignedLeb128_correct [OF assms])

theorem UpdateUnsignedLeb128_ok_witness:
  "\<exists>new. UpdateUnsignedLeb128 ([0x80, 0x80, 1] @ [7]) 5 = Some (new @ [7]) \<and>
    length new = length [0x80 :: u8, 0x80, 1] \<and> DecodeUnsignedLeb128 (new @ [7]) = Some (5, [7])"
  by (rule UpdateUnsignedLeb128_ok [of _ _ 16384])
    (simp_all add: DecodeUnsignedLeb128_def DecodeLeb128Helper_def DecodeLeb128Loop.simps
      max_bytes_def UnsignedLeb128Size_def CLZ_def bit_length.simps)

text \<open>
  The vector version of \<open>EncodeSignedLeb128\<close> takes an \<open>int64_t\<close> but keeps its extra bits in
  a \<open>uint32_t\<close>: outside the 32-bit range it drops bytes.
\<close>

lemma EncodeSignedLeb128_vector_truncates:
  "EncodeSignedLeb128_vector [] 0x100000000 = [0]"
  "EncodeSignedLeb128 0x100000000 = [0x80, 0x80, 0x80, 0x80, 0x10]"
  by (simp_all add: EncodeSignedLeb128_vector_def EncodeSignedLeb128_def EncodeSignedLoop.simps)

end
