(* ===== verification/DexOpcodes.thy ===== *)
theory DexOpcodes
  imports Prelude
begin

text \<open>
  The opcode table of \<open>libdexfile/dex/dex_instruction_list.h\<close> and the enumerations and
  constant-expression descriptors of \<open>libdexfile/dex/dex_instruction.h\<close> built from it.
  A row of the table is a tuple of the columns the runtime reads (opcode, format, index type,
  flags, verify flags); the printed name and the unused extended flags are left out.  An opcode is
  the byte it is encoded with, so a table lookup is total.
\<close>

section \<open>Enumerations\<close>

datatype Format =
    k10x | k12x | k11n | k11x | k10t | k20t | k22x | k21t | k21s | k21h | k21c | k23x
  | k22b | k22t | k22s | k22c | k32x | k30t | k31t | k31i | k31c | k35c | k3rc | k45cc
  | k4rcc | k51l | kInvalidFormat

datatype IndexType =
    kIndexUnknown | kIndexNone | kIndexTypeRef | kIndexStringRef | kIndexMethodRef
  | kIndexFieldRef | kIndexMethodAndProtoRef | kIndexCallSiteRef | kIndexMethodHandleRef
  | kIndexProtoRef

abbreviation (input) kBranch :: u8 where "kBranch \<equiv> 0x01"
abbreviation (input) kContinue :: u8 where "kContinue \<equiv> 0x02"
abbreviation (input) kSwitch :: u8 where "kSwitch \<equiv> 0x04"
abbreviation (input) kThrow :: u8 where "kThrow \<equiv> 0x08"
abbreviation (input) kReturn :: u8 where "kReturn \<equiv> 0x10"
abbreviation (input) kInvoke :: u8 where "kInvoke \<equiv> 0x20"
abbreviation (input) kUnconditional :: u8 where "kUnconditional \<equiv> 0x40"
abbreviation (input) kExperimental :: u8 where "kExperimental \<equiv> 0x80"

abbreviation (input) kVerifyNothing :: u32 where "kVerifyNothing \<equiv> 0x0000000"
abbreviation (input) kVerifyRegA :: u32 where "kVerifyRegA \<equiv> 0x0000001"
abbreviation (input) kVerifyRegAWide :: u32 where "kVerifyRegAWide \<equiv> 0x0000002"
abbreviation (input) kVerifyRegB :: u32 where "kVerifyRegB \<equiv> 0x0000004"
abbreviation (input) kVerifyRegBField :: u32 where "kVerifyRegBField \<equiv> 0x0000008"
abbreviation (input) kVerifyRegBMethod :: u32 where "kVerifyRegBMethod \<equiv> 0x0000010"
abbreviation (input) kVerifyRegBNewInstance :: u32 where "kVerifyRegBNewInstance \<equiv> 0x0000020"
abbreviation (input) kVerifyRegBString :: u32 where "kVerifyRegBString \<equiv> 0x0000040"
abbreviation (input) kVerifyRegBType :: u32 where "kVerifyRegBType \<equiv> 0x0000080"
abbreviation (input) kVerifyRegBWide :: u32 where "kVerifyRegBWide \<equiv> 0x0000100"
abbreviation (input) kVerifyRegC :: u32 where "kVerifyRegC \<equiv> 0x0000200"
abbreviation (input) kVerifyRegCField :: u32 where "kVerifyRegCField \<equiv> 0x0000400"
abbreviation (input) kVerifyRegCNewArray :: u32 where "kVerifyRegCNewArray \<equiv> 0x0000800"
abbreviation (input) kVerifyRegCType :: u32 where "kVerifyRegCType \<equiv> 0x0001000"
abbreviation (input) kVerifyRegCWide :: u32 where "kVerifyRegCWide \<equiv> 0x0002000"
abbreviation (input) kVerifyArrayData :: u32 where "kVerifyArrayData \<equiv> 0x0004000"
abbreviation (input) kVerifyBranchTarget :: u32 where "kVerifyBranchTarget \<equiv> 0x0008000"
abbreviation (input) kVerifySwitchTargets :: u32 where "kVerifySwitchTargets \<equiv> 0x0010000"
abbreviation (input) kVerifyVarArg :: u32 where "kVerifyVarArg \<equiv> 0x0020000"
abbreviation (input) kVerifyVarArgNonZero :: u32 where "kVerifyVarArgNonZero \<equiv> 0x0040000"
abbreviation (input) kVerifyVarArgRange :: u32 where "kVerifyVarArgRange \<equiv> 0x0080000"
abbreviation (input) kVerifyVarArgRangeNonZero :: u32 where "kVerifyVarArgRangeNonZero \<equiv> 0x0100000"
abbreviation (input) kVerifyError :: u32 where "kVerifyError \<equiv> 0x0200000"
abbreviation (input) kVerifyRegHPrototype :: u32 where "kVerifyRegHPrototype \<equiv> 0x0400000"
abbreviation (input) kVerifyRegBCallSite :: u32 where "kVerifyRegBCallSite \<equiv> 0x0800000"
abbreviation (input) kVerifyRegBMethodHandle :: u32 where "kVerifyRegBMethodHandle \<equiv> 0x1000000"
abbreviation (input) kVerifyRegBPrototype :: u32 where "kVerifyRegBPrototype \<equiv> 0x2000000"
abbreviation (input) kVerifyRegBFilledNewArray :: u32 where "kVerifyRegBFilledNewArray \<equiv> 0x4000000"

text \<open>The enumerators of \<open>Format\<close> are compared by their position.\<close>

fun format_ord :: "Format \<Rightarrow> nat" where
  "format_ord k10x = 0"
| "format_ord k12x = 1"
| "format_ord k11n = 2"
| "format_ord k11x = 3"
| "format_ord k10t = 4"
| "format_ord k20t = 5"
| "format_ord k22x = 6"
| "format_ord k21t = 7"
| "format_ord k21s = 8"
| "format_ord k21h = 9"
| "format_ord k21c = 10"
| "format_ord k23x = 11"
| "format_ord k22b = 12"
| "format_ord k22t = 13"
| "format_ord k22s = 14"
| "format_ord k22c = 15"
| "format_ord k32x = 16"
| "format_ord k30t = 17"
| "format_ord k31t = 18"
| "format_ord k31i = 19"
| "format_ord k31c = 20"
| "format_ord k35c = 21"
| "format_ord k3rc = 22"
| "format_ord k45cc = 23"
| "format_ord k4rcc = 24"
| "format_ord k51l = 25"
| "format_ord kInvalidFormat = 26"

instantiation Format :: linorder
begin

definition less_eq_Format :: "Format \<Rightarrow> Format \<Rightarrow> bool" where
  "less_eq_Format f g \<longleftrightarrow> format_ord f \<le> format_ord g"

definition less_Format :: "Format \<Rightarrow> Format \<Rightarrow> bool" where
  "less_Format f g \<longleftrightarrow> format_ord f < format_ord g"

instance
proof
  fix f g :: Format
  show "f \<le> g \<Longrightarrow> g \<le> f \<Longrightarrow> f = g"
    by (cases f; cases g; simp add: less_eq_Format_def)
qed (auto simp: less_eq_Format_def less_Format_def)

end

section \<open>The table\<close>

abbreviation (input) NOP :: u8 where "NOP \<equiv> 0x00"
abbreviation (input) MOVE :: u8 where "MOVE \<equiv> 0x01"
abbreviation (input) MOVE_FROM16 :: u8 where "MOVE_FROM16 \<equiv> 0x02"
abbreviation (input) MOVE_16 :: u8 where "MOVE_16 \<equiv> 0x03"
abbreviation (input) MOVE_WIDE :: u8 where "MOVE_WIDE \<equiv> 0x04"
abbreviation (input) MOVE_WIDE_FROM16 :: u8 where "MOVE_WIDE_FROM16 \<equiv> 0x05"
abbreviation (input) MOVE_WIDE_16 :: u8 where "MOVE_WIDE_16 \<equiv> 0x06"
abbreviation (input) MOVE_OBJECT :: u8 where "MOVE_OBJECT \<equiv> 0x07"
abbreviation (input) MOVE_OBJECT_FROM16 :: u8 where "MOVE_OBJECT_FROM16 \<equiv> 0x08"
abbreviation (input) MOVE_OBJECT_16 :: u8 where "MOVE_OBJECT_16 \<equiv> 0x09"
abbreviation (input) MOVE_RESULT :: u8 where "MOVE_RESULT \<equiv> 0x0A"
abbreviation (input) MOVE_RESULT_WIDE :: u8 where "MOVE_RESULT_WIDE \<equiv> 0x0B"
abbreviation (input) MOVE_RESULT_OBJECT :: u8 where "MOVE_RESULT_OBJECT \<equiv> 0x0C"
abbreviation (input) MOVE_EXCEPTION :: u8 where "MOVE_EXCEPTION \<equiv> 0x0D"
abbreviation (input) RETURN_VOID :: u8 where "RETURN_VOID \<equiv> 0x0E"
abbreviation (input) RETURN :: u8 where "RETURN \<equiv> 0x0F"
abbreviation (input) RETURN_WIDE :: u8 where "RETURN_WIDE \<equiv> 0x10"
abbreviation (input) RETURN_OBJECT :: u8 where "RETURN_OBJECT \<equiv> 0x11"
abbreviation (input) CONST_4 :: u8 where "CONST_4 \<equiv> 0x12"
abbreviation (input) CONST_16 :: u8 where "CONST_16 \<equiv> 0x13"
abbreviation (input) CONST_INSN :: u8 where "CONST_INSN \<equiv> 0x14"
abbreviation (input) CONST_HIGH16 :: u8 where "CONST_HIGH16 \<equiv> 0x15"
abbreviation (input) CONST_WIDE_16 :: u8 where "CONST_WIDE_16 \<equiv> 0x16"
abbreviation (input) CONST_WIDE_32 :: u8 where "CONST_WIDE_32 \<equiv> 0x17"
abbreviation (input) CONST_WIDE :: u8 where "CONST_WIDE \<equiv> 0x18"
abbreviation (input) CONST_WIDE_HIGH16 :: u8 where "CONST_WIDE_HIGH16 \<equiv> 0x19"
abbreviation (input) CONST_STRING :: u8 where "CONST_STRING \<equiv> 0x1A"
abbreviation (input) CONST_STRING_JUMBO :: u8 where "CONST_STRING_JUMBO \<equiv> 0x1B"
abbreviation (input) CONST_CLASS :: u8 where "CONST_CLASS \<equiv> 0x1C"
abbreviation (input) MONITOR_ENTER :: u8 where "MONITOR_ENTER \<equiv> 0x1D"
abbreviation (input) MONITOR_EXIT :: u8 where "MONITOR_EXIT \<equiv> 0x1E"
abbreviation (input) CHECK_CAST :: u8 where "CHECK_CAST \<equiv> 0x1F"
abbreviation (input) INSTANCE_OF :: u8 where "INSTANCE_OF \<equiv> 0x20"
abbreviation (input) ARRAY_LENGTH :: u8 where "ARRAY_LENGTH \<equiv> 0x21"
abbreviation (input) NEW_INSTANCE :: u8 where "NEW_INSTANCE \<equiv> 0x22"
abbreviation (input) NEW_ARRAY :: u8 where "NEW_ARRAY \<equiv> 0x23"
abbreviation (input) FILLED_NEW_ARRAY :: u8 where "FILLED_NEW_ARRAY \<equiv> 0x24"
abbreviation (input) FILLED_NEW_ARRAY_RANGE :: u8 where "FILLED_NEW_ARRAY_RANGE \<equiv> 0x25"
abbreviation (input) FILL_ARRAY_DATA :: u8 where "FILL_ARRAY_DATA \<equiv> 0x26"
abbreviation (input) THROW :: u8 where "THROW \<equiv> 0x27"
abbreviation (input) GOTO :: u8 where "GOTO \<equiv> 0x28"
abbreviation (input) GOTO_16 :: u8 where "GOTO_16 \<equiv> 0x29"
abbreviation (input) GOTO_32 :: u8 where "GOTO_32 \<equiv> 0x2A"
abbreviation (input) PACKED_SWITCH :: u8 where "PACKED_SWITCH \<equiv> 0x2B"
abbreviation (input) SPARSE_SWITCH :: u8 where "SPARSE_SWITCH \<equiv> 0x2C"
abbreviation (input) CMPL_FLOAT :: u8 where "CMPL_FLOAT \<equiv> 0x2D"
abbreviation (input) CMPG_FLOAT :: u8 where "CMPG_FLOAT \<equiv> 0x2E"
abbreviation (input) CMPL_DOUBLE :: u8 where "CMPL_DOUBLE \<equiv> 0x2F"
abbreviation (input) CMPG_DOUBLE :: u8 where "CMPG_DOUBLE \<equiv> 0x30"
abbreviation (input) CMP_LONG :: u8 where "CMP_LONG \<equiv> 0x31"
abbreviation (input) IF_EQ :: u8 where "IF_EQ \<equiv> 0x32"
abbreviation (input) IF_NE :: u8 where "IF_NE \<equiv> 0x33"
abbreviation (input) IF_LT :: u8 where "IF_LT \<equiv> 0x34"
abbreviation (input) IF_GE :: u8 where "IF_GE \<equiv> 0x35"
abbreviation (input) IF_GT :: u8 where "IF_GT \<equiv> 0x36"
abbreviation (input) IF_LE :: u8 where "IF_LE \<equiv> 0x37"
abbreviation (input) IF_EQZ :: u8 where "IF_EQZ \<equiv> 0x38"
abbreviation (input) IF_NEZ :: u8 where "IF_NEZ \<equiv> 0x39"
abbreviation (input) IF_LTZ :: u8 where "IF_LTZ \<equiv> 0x3A"
abbreviation (input) IF_GEZ :: u8 where "IF_GEZ \<equiv> 0x3B"
abbreviation (input) IF_GTZ :: u8 where "IF_GTZ \<equiv> 0x3C"
abbreviation (input) IF_LEZ :: u8 where "IF_LEZ \<equiv> 0x3D"
abbreviation (input) UNUSED_3E :: u8 where "UNUSED_3E \<equiv> 0x3E"
abbreviation (input) UNUSED_3F :: u8 where "UNUSED_3F \<equiv> 0x3F"
abbreviation (input) UNUSED_40 :: u8 where "UNUSED_40 \<equiv> 0x40"
abbreviation (input) UNUSED_41 :: u8 where "UNUSED_41 \<equiv> 0x41"
abbreviation (input) UNUSED_42 :: u8 where "UNUSED_42 \<equiv> 0x42"
abbreviation (input) UNUSED_43 :: u8 where "UNUSED_43 \<equiv> 0x43"
abbreviation (input) AGET :: u8 where "AGET \<equiv> 0x44"
abbreviation (input) AGET_WIDE :: u8 where "AGET_WIDE \<equiv> 0x45"
abbreviation (input) AGET_OBJECT :: u8 where "AGET_OBJECT \<equiv> 0x46"
abbreviation (input) AGET_BOOLEAN :: u8 where "AGET_BOOLEAN \<equiv> 0x47"
abbreviation (input) AGET_BYTE :: u8 where "AGET_BYTE \<equiv> 0x48"
abbreviation (input) AGET_CHAR :: u8 where "AGET_CHAR \<equiv> 0x49"
abbreviation (input) AGET_SHORT :: u8 where "AGET_SHORT \<equiv> 0x4A"
abbreviation (input) APUT :: u8 where "APUT \<equiv> 0x4B"
abbreviation (input) APUT_WIDE :: u8 where "APUT_WIDE \<equiv> 0x4C"
abbreviation (input) APUT_OBJECT :: u8 where "APUT_OBJECT \<equiv> 0x4D"
abbreviation (input) APUT_BOOLEAN :: u8 where "APUT_BOOLEAN \<equiv> 0x4E"
abbreviation (input) APUT_BYTE :: u8 where "APUT_BYTE \<equiv> 0x4F"
abbreviation (input) APUT_CHAR :: u8 where "APUT_CHAR \<equiv> 0x50"
abbreviation (input) APUT_SHORT :: u8 where "APUT_SHORT \<equiv> 0x51"
abbreviation (input) IGET :: u8 where "IGET \<equiv> 0x52"
abbreviation (input) IGET_WIDE :: u8 where "IGET_WIDE \<equiv> 0x53"
abbreviation (input) IGET_OBJECT :: u8 where "IGET_OBJECT \<equiv> 0x54"
abbreviation (input) IGET_BOOLEAN :: u8 where "IGET_BOOLEAN \<equiv> 0x55"
abbreviation (input) IGET_BYTE :: u8 where "IGET_BYTE \<equiv> 0x56"
abbreviation (input) IGET_CHAR :: u8 where "IGET_CHAR \<equiv> 0x57"
abbreviation (input) IGET_SHORT :: u8 where "IGET_SHORT \<equiv> 0x58"
abbreviation (input) IPUT :: u8 where "IPUT \<equiv> 0x59"
abbreviation (input) IPUT_WIDE :: u8 where "IPUT_WIDE \<equiv> 0x5A"
abbreviation (input) IPUT_OBJECT :: u8 where "IPUT_OBJECT \<equiv> 0x5B"
abbreviation (input) IPUT_BOOLEAN :: u8 where "IPUT_BOOLEAN \<equiv> 0x5C"
abbreviation (input) IPUT_BYTE :: u8 where "IPUT_BYTE \<equiv> 0x5D"
abbreviation (input) IPUT_CHAR :: u8 where "IPUT_CHAR \<equiv> 0x5E"
abbreviation (input) IPUT_SHORT :: u8 where "IPUT_SHORT \<equiv> 0x5F"
abbreviation (input) SGET :: u8 where "SGET \<equiv> 0x60"
abbreviation (input) SGET_WIDE :: u8 where "SGET_WIDE \<equiv> 0x61"
abbreviation (input) SGET_OBJECT :: u8 where "SGET_OBJECT \<equiv> 0x62"
abbreviation (input) SGET_BOOLEAN :: u8 where "SGET_BOOLEAN \<equiv> 0x63"
abbreviation (input) SGET_BYTE :: u8 where "SGET_BYTE \<equiv> 0x64"
abbreviation (input) SGET_CHAR :: u8 where "SGET_CHAR \<equiv> 0x65"
abbreviation (input) SGET_SHORT :: u8 where "SGET_SHORT \<equiv> 0x66"
abbreviation (input) SPUT :: u8 where "SPUT \<equiv> 0x67"
abbreviation (input) SPUT_WIDE :: u8 where "SPUT_WIDE \<equiv> 0x68"
abbreviation (input) SPUT_OBJECT :: u8 where "SPUT_OBJECT \<equiv> 0x69"
abbreviation (input) SPUT_BOOLEAN :: u8 where "SPUT_BOOLEAN \<equiv> 0x6A"
abbreviation (input) SPUT_BYTE :: u8 where "SPUT_BYTE \<equiv> 0x6B"
abbreviation (input) SPUT_CHAR :: u8 where "SPUT_CHAR \<equiv> 0x6C"
abbreviation (input) SPUT_SHORT :: u8 where "SPUT_SHORT \<equiv> 0x6D"
abbreviation (input) INVOKE_VIRTUAL :: u8 where "INVOKE_VIRTUAL \<equiv> 0x6E"
abbreviation (input) INVOKE_SUPER :: u8 where "INVOKE_SUPER \<equiv> 0x6F"
abbreviation (input) INVOKE_DIRECT :: u8 where "INVOKE_DIRECT \<equiv> 0x70"
abbreviation (input) INVOKE_STATIC :: u8 where "INVOKE_STATIC \<equiv> 0x71"
abbreviation (input) INVOKE_INTERFACE :: u8 where "INVOKE_INTERFACE \<equiv> 0x72"
abbreviation (input) UNUSED_73 :: u8 where "UNUSED_73 \<equiv> 0x73"
abbreviation (input) INVOKE_VIRTUAL_RANGE :: u8 where "INVOKE_VIRTUAL_RANGE \<equiv> 0x74"
abbreviation (input) INVOKE_SUPER_RANGE :: u8 where "INVOKE_SUPER_RANGE \<equiv> 0x75"
abbreviation (input) INVOKE_DIRECT_RANGE :: u8 where "INVOKE_DIRECT_RANGE \<equiv> 0x76"
abbreviation (input) INVOKE_STATIC_RANGE :: u8 where "INVOKE_STATIC_RANGE \<equiv> 0x77"
abbreviation (input) INVOKE_INTERFACE_RANGE :: u8 where "INVOKE_INTERFACE_RANGE \<equiv> 0x78"
abbreviation (input) UNUSED_79 :: u8 where "UNUSED_79 \<equiv> 0x79"
abbreviation (input) UNUSED_7A :: u8 where "UNUSED_7A \<equiv> 0x7A"
abbreviation (input) NEG_INT :: u8 where "NEG_INT \<equiv> 0x7B"
abbreviation (input) NOT_INT :: u8 where "NOT_INT \<equiv> 0x7C"
abbreviation (input) NEG_LONG :: u8 where "NEG_LONG \<equiv> 0x7D"
abbreviation (input) NOT_LONG :: u8 where "NOT_LONG \<equiv> 0x7E"
abbreviation (input) NEG_FLOAT :: u8 where "NEG_FLOAT \<equiv> 0x7F"
abbreviation (input) NEG_DOUBLE :: u8 where "NEG_DOUBLE \<equiv> 0x80"
abbreviation (input) INT_TO_LONG :: u8 where "INT_TO_LONG \<equiv> 0x81"
abbreviation (input) INT_TO_FLOAT :: u8 where "INT_TO_FLOAT \<equiv> 0x82"
abbreviation (input) INT_TO_DOUBLE :: u8 where "INT_TO_DOUBLE \<equiv> 0x83"
abbreviation (input) LONG_TO_INT :: u8 where "LONG_TO_INT \<equiv> 0x84"
abbreviation (input) LONG_TO_FLOAT :: u8 where "LONG_TO_FLOAT \<equiv> 0x85"
abbreviation (input) LONG_TO_DOUBLE :: u8 where "LONG_TO_DOUBLE \<equiv> 0x86"
abbreviation (input) FLOAT_TO_INT :: u8 where "FLOAT_TO_INT \<equiv> 0x87"
abbreviation (input) FLOAT_TO_LONG :: u8 where "FLOAT_TO_LONG \<equiv> 0x88"
abbreviation (input) FLOAT_TO_DOUBLE :: u8 where "FLOAT_TO_DOUBLE \<equiv> 0x89"
abbreviation (input) DOUBLE_TO_INT :: u8 where "DOUBLE_TO_INT \<equiv> 0x8A"
abbreviation (input) DOUBLE_TO_LONG :: u8 where "DOUBLE_TO_LONG \<equiv> 0x8B"
abbreviation (input) DOUBLE_TO_FLOAT :: u8 where "DOUBLE_TO_FLOAT \<equiv> 0x8C"
abbreviation (input) INT_TO_BYTE :: u8 where "INT_TO_BYTE \<equiv> 0x8D"
abbreviation (input) INT_TO_CHAR :: u8 where "INT_TO_CHAR \<equiv> 0x8E"
abbreviation (input) INT_TO_SHORT :: u8 where "INT_TO_SHORT \<equiv> 0x8F"
abbreviation (input) ADD_INT :: u8 where "ADD_INT \<equiv> 0x90"
abbreviation (input) SUB_INT :: u8 where "SUB_INT \<equiv> 0x91"
abbreviation (input) MUL_INT :: u8 where "MUL_INT \<equiv> 0x92"
abbreviation (input) DIV_INT :: u8 where "DIV_INT \<equiv> 0x93"
abbreviation (input) REM_INT :: u8 where "REM_INT \<equiv> 0x94"
abbreviation (input) AND_INT :: u8 where "AND_INT \<equiv> 0x95"
abbreviation (input) OR_INT :: u8 where "OR_INT \<equiv> 0x96"
abbreviation (input) XOR_INT :: u8 where "XOR_INT \<equiv> 0x97"
abbreviation (input) SHL_INT :: u8 where "SHL_INT \<equiv> 0x98"
abbreviation (input) SHR_INT :: u8 where "SHR_INT \<equiv> 0x99"
abbreviation (input) USHR_INT :: u8 where "USHR_INT \<equiv> 0x9A"
abbreviation (input) ADD_LONG :: u8 where "ADD_LONG \<equiv> 0x9B"
abbreviation (input) SUB_LONG :: u8 where "SUB_LONG \<equiv> 0x9C"
abbreviation (input) MUL_LONG :: u8 where "MUL_LONG \<equiv> 0x9D"
abbreviation (input) DIV_LONG :: u8 where "DIV_LONG \<equiv> 0x9E"
abbreviation (input) REM_LONG :: u8 where "REM_LONG \<equiv> 0x9F"
abbreviation (input) AND_LONG :: u8 where "AND_LONG \<equiv> 0xA0"
abbreviation (input) OR_LONG :: u8 where "OR_LONG \<equiv> 0xA1"
abbreviation (input) XOR_LONG :: u8 where "XOR_LONG \<equiv> 0xA2"
abbreviation (input) SHL_LONG :: u8 where "SHL_LONG \<equiv> 0xA3"
abbreviation (input) SHR_LONG :: u8 where "SHR_LONG \<equiv> 0xA4"
abbreviation (input) USHR_LONG :: u8 where "USHR_LONG \<equiv> 0xA5"
abbreviation (input) ADD_FLOAT :: u8 where "ADD_FLOAT \<equiv> 0xA6"
abbreviation (input) SUB_FLOAT :: u8 where "SUB_FLOAT \<equiv> 0xA7"
abbreviation (input) MUL_FLOAT :: u8 where "MUL_FLOAT \<equiv> 0xA8"
abbreviation (input) DIV_FLOAT :: u8 where "DIV_FLOAT \<equiv> 0xA9"
abbreviation (input) REM_FLOAT :: u8 where "REM_FLOAT \<equiv> 0xAA"
abbreviation (input) ADD_DOUBLE :: u8 where "ADD_DOUBLE \<equiv> 0xAB"
abbreviation (input) SUB_DOUBLE :: u8 where "SUB_DOUBLE \<equiv> 0xAC"
abbreviation (input) MUL_DOUBLE :: u8 where "MUL_DOUBLE \<equiv> 0xAD"
abbreviation (input) DIV_DOUBLE :: u8 where "DIV_DOUBLE \<equiv> 0xAE"
abbreviation (input) REM_DOUBLE :: u8 where "REM_DOUBLE \<equiv> 0xAF"
abbreviation (input) ADD_INT_2ADDR :: u8 where "ADD_INT_2ADDR \<equiv> 0xB0"
abbreviation (input) SUB_INT_2ADDR :: u8 where "SUB_INT_2ADDR \<equiv> 0xB1"
abbreviation (input) MUL_INT_2ADDR :: u8 where "MUL_INT_2ADDR \<equiv> 0xB2"
abbreviation (input) DIV_INT_2ADDR :: u8 where "DIV_INT_2ADDR \<equiv> 0xB3"
abbreviation (input) REM_INT_2ADDR :: u8 where "REM_INT_2ADDR \<equiv> 0xB4"
abbreviation (input) AND_INT_2ADDR :: u8 where "AND_INT_2ADDR \<equiv> 0xB5"
abbreviation (input) OR_INT_2ADDR :: u8 where "OR_INT_2ADDR \<equiv> 0xB6"
abbreviation (input) XOR_INT_2ADDR :: u8 where "XOR_INT_2ADDR \<equiv> 0xB7"
abbreviation (input) SHL_INT_2ADDR :: u8 where "SHL_INT_2ADDR \<equiv> 0xB8"
abbreviation (input) SHR_INT_2ADDR :: u8 where "SHR_INT_2ADDR \<equiv> 0xB9"
abbreviation (input) USHR_INT_2ADDR :: u8 where "USHR_INT_2ADDR \<equiv> 0xBA"
abbreviation (input) ADD_LONG_2ADDR :: u8 where "ADD_LONG_2ADDR \<equiv> 0xBB"
abbreviation (input) SUB_LONG_2ADDR :: u8 where "SUB_LONG_2ADDR \<equiv> 0xBC"
abbreviation (input) MUL_LONG_2ADDR :: u8 where "MUL_LONG_2ADDR \<equiv> 0xBD"
abbreviation (input) DIV_LONG_2ADDR :: u8 where "DIV_LONG_2ADDR \<equiv> 0xBE"
abbreviation (input) REM_LONG_2ADDR :: u8 where "REM_LONG_2ADDR \<equiv> 0xBF"
abbreviation (input) AND_LONG_2ADDR :: u8 where "AND_LONG_2ADDR \<equiv> 0xC0"
abbreviation (input) OR_LONG_2ADDR :: u8 where "OR_LONG_2ADDR \<equiv> 0xC1"
abbreviation (input) XOR_LONG_2ADDR :: u8 where "XOR_LONG_2ADDR \<equiv> 0xC2"
abbreviation (input) SHL_LONG_2ADDR :: u8 where "SHL_LONG_2ADDR \<equiv> 0xC3"
abbreviation (input) SHR_LONG_2ADDR :: u8 where "SHR_LONG_2ADDR \<equiv> 0xC4"
abbreviation (input) USHR_LONG_2ADDR :: u8 where "USHR_LONG_2ADDR \<equiv> 0xC5"
abbreviation (input) ADD_FLOAT_2ADDR :: u8 where "ADD_FLOAT_2ADDR \<equiv> 0xC6"
abbreviation (input) SUB_FLOAT_2ADDR :: u8 where "SUB_FLOAT_2ADDR \<equiv> 0xC7"
abbreviation (input) MUL_FLOAT_2ADDR :: u8 where "MUL_FLOAT_2ADDR \<equiv> 0xC8"
abbreviation (input) DIV_FLOAT_2ADDR :: u8 where "DIV_FLOAT_2ADDR \<equiv> 0xC9"
abbreviation (input) REM_FLOAT_2ADDR :: u8 where "REM_FLOAT_2ADDR \<equiv> 0xCA"
abbreviation (input) ADD_DOUBLE_2ADDR :: u8 where "ADD_DOUBLE_2ADDR \<equiv> 0xCB"
abbreviation (input) SUB_DOUBLE_2ADDR :: u8 where "SUB_DOUBLE_2ADDR \<equiv> 0xCC"
abbreviation (input) MUL_DOUBLE_2ADDR :: u8 where "MUL_DOUBLE_2ADDR \<equiv> 0xCD"
abbreviation (input) DIV_DOUBLE_2ADDR :: u8 where "DIV_DOUBLE_2ADDR \<equiv> 0xCE"
abbreviation (input) REM_DOUBLE_2ADDR :: u8 where "REM_DOUBLE_2ADDR \<equiv> 0xCF"
abbreviation (input) ADD_INT_LIT16 :: u8 where "ADD_INT_LIT16 \<equiv> 0xD0"
abbreviation (input) RSUB_INT :: u8 where "RSUB_INT \<equiv> 0xD1"
abbreviation (input) MUL_INT_LIT16 :: u8 where "MUL_INT_LIT16 \<equiv> 0xD2"
abbreviation (input) DIV_INT_LIT16 :: u8 where "DIV_INT_LIT16 \<equiv> 0xD3"
abbreviation (input) REM_INT_LIT16 :: u8 where "REM_INT_LIT16 \<equiv> 0xD4"
abbreviation (input) AND_INT_LIT16 :: u8 where "AND_INT_LIT16 \<equiv> 0xD5"
abbreviation (input) OR_INT_LIT16 :: u8 where "OR_INT_LIT16 \<equiv> 0xD6"
abbreviation (input) XOR_INT_LIT16 :: u8 where "XOR_INT_LIT16 \<equiv> 0xD7"
abbreviation (input) ADD_INT_LIT8 :: u8 where "ADD_INT_LIT8 \<equiv> 0xD8"
abbreviation (input) RSUB_INT_LIT8 :: u8 where "RSUB_INT_LIT8 \<equiv> 0xD9"
abbreviation (input) MUL_INT_LIT8 :: u8 where "MUL_INT_LIT8 \<equiv> 0xDA"
abbreviation (input) DIV_INT_LIT8 :: u8 where "DIV_INT_LIT8 \<equiv> 0xDB"
abbreviation (input) REM_INT_LIT8 :: u8 where "REM_INT_LIT8 \<equiv> 0xDC"
abbreviation (input) AND_INT_LIT8 :: u8 where "AND_INT_LIT8 \<equiv> 0xDD"
abbreviation (input) OR_INT_LIT8 :: u8 where "OR_INT_LIT8 \<equiv> 0xDE"
abbreviation (input) XOR_INT_LIT8 :: u8 where "XOR_INT_LIT8 \<equiv> 0xDF"
abbreviation (input) SHL_INT_LIT8 :: u8 where "SHL_INT_LIT8 \<equiv> 0xE0"
abbreviation (input) SHR_INT_LIT8 :: u8 where "SHR_INT_LIT8 \<equiv> 0xE1"
abbreviation (input) USHR_INT_LIT8 :: u8 where "USHR_INT_LIT8 \<equiv> 0xE2"
abbreviation (input) UNUSED_E3 :: u8 where "UNUSED_E3 \<equiv> 0xE3"
abbreviation (input) UNUSED_E4 :: u8 where "UNUSED_E4 \<equiv> 0xE4"
abbreviation (input) UNUSED_E5 :: u8 where "UNUSED_E5 \<equiv> 0xE5"
abbreviation (input) UNUSED_E6 :: u8 where "UNUSED_E6 \<equiv> 0xE6"
abbreviation (input) UNUSED_E7 :: u8 where "UNUSED_E7 \<equiv> 0xE7"
abbreviation (input) UNUSED_E8 :: u8 where "UNUSED_E8 \<equiv> 0xE8"
abbreviation (input) UNUSED_E9 :: u8 where "UNUSED_E9 \<equiv> 0xE9"
abbreviation (input) UNUSED_EA :: u8 where "UNUSED_EA \<equiv> 0xEA"
abbreviation (input) UNUSED_EB :: u8 where "UNUSED_EB \<equiv> 0xEB"
abbreviation (input) UNUSED_EC :: u8 where "UNUSED_EC \<equiv> 0xEC"
abbreviation (input) UNUSED_ED :: u8 where "UNUSED_ED \<equiv> 0xED"
abbreviation (input) UNUSED_EE :: u8 where "UNUSED_EE \<equiv> 0xEE"
abbreviation (input) UNUSED_EF :: u8 where "UNUSED_EF \<equiv> 0xEF"
abbreviation (input) UNUSED_F0 :: u8 where "UNUSED_F0 \<equiv> 0xF0"
abbreviation (input) UNUSED_F1 :: u8 where "UNUSED_F1 \<equiv> 0xF1"
abbreviation (input) UNUSED_F2 :: u8 where "UNUSED_F2 \<equiv> 0xF2"
abbreviation (input) UNUSED_F3 :: u8 where "UNUSED_F3 \<equiv> 0xF3"
abbreviation (input) UNUSED_F4 :: u8 where "UNUSED_F4 \<equiv> 0xF4"
abbreviation (input) UNUSED_F5 :: u8 where "UNUSED_F5 \<equiv> 0xF5"
abbreviation (input) UNUSED_F6 :: u8 where "UNUSED_F6 \<equiv> 0xF6"
abbreviation (input) UNUSED_F7 :: u8 where "UNUSED_F7 \<equiv> 0xF7"
abbreviation (input) UNUSED_F8 :: u8 where "UNUSED_F8 \<equiv> 0xF8"
abbreviation (input) UNUSED_F9 :: u8 where "UNUSED_F9 \<equiv> 0xF9"
abbreviation (input) INVOKE_POLYMORPHIC :: u8 where "INVOKE_POLYMORPHIC \<equiv> 0xFA"
abbreviation (input) INVOKE_POLYMORPHIC_RANGE :: u8 where "INVOKE_POLYMORPHIC_RANGE \<equiv> 0xFB"
abbreviation (input) INVOKE_CUSTOM :: u8 where "INVOKE_CUSTOM \<equiv> 0xFC"
abbreviation (input) INVOKE_CUSTOM_RANGE :: u8 where "INVOKE_CUSTOM_RANGE \<equiv> 0xFD"
abbreviation (input) CONST_METHOD_HANDLE :: u8 where "CONST_METHOD_HANDLE \<equiv> 0xFE"
abbreviation (input) CONST_METHOD_TYPE :: u8 where "CONST_METHOD_TYPE \<equiv> 0xFF"

abbreviation (input) RSUB_INT_LIT16 :: u8 where "RSUB_INT_LIT16 \<equiv> RSUB_INT"

type_synonym instruction_row = "u8 \<times> Format \<times> IndexType \<times> u8 \<times> u32"

definition DEX_INSTRUCTION_LIST_00_7F :: "instruction_row list" where
  "DEX_INSTRUCTION_LIST_00_7F = [
     (NOP, k10x, kIndexNone, kContinue, kVerifyNothing),
     (MOVE, k12x, kIndexNone, kContinue, kVerifyRegA OR kVerifyRegB),
     (MOVE_FROM16, k22x, kIndexNone, kContinue, kVerifyRegA OR kVerifyRegB),
     (MOVE_16, k32x, kIndexNone, kContinue, kVerifyRegA OR kVerifyRegB),
     (MOVE_WIDE, k12x, kIndexNone, kContinue, kVerifyRegAWide OR kVerifyRegBWide),
     (MOVE_WIDE_FROM16, k22x, kIndexNone, kContinue, kVerifyRegAWide OR kVerifyRegBWide),
     (MOVE_WIDE_16, k32x, kIndexNone, kContinue, kVerifyRegAWide OR kVerifyRegBWide),
     (MOVE_OBJECT, k12x, kIndexNone, kContinue, kVerifyRegA OR kVerifyRegB),
     (MOVE_OBJECT_FROM16, k22x, kIndexNone, kContinue, kVerifyRegA OR kVerifyRegB),
     (MOVE_OBJECT_16, k32x, kIndexNone, kContinue, kVerifyRegA OR kVerifyRegB),
     (MOVE_RESULT, k11x, kIndexNone, kContinue, kVerifyRegA),
     (MOVE_RESULT_WIDE, k11x, kIndexNone, kContinue, kVerifyRegAWide),
     (MOVE_RESULT_OBJECT, k11x, kIndexNone, kContinue, kVerifyRegA),
     (MOVE_EXCEPTION, k11x, kIndexNone, kContinue, kVerifyRegA),
     (RETURN_VOID, k10x, kIndexNone, kReturn, kVerifyNothing),
     (RETURN, k11x, kIndexNone, kReturn, kVerifyRegA),
     (RETURN_WIDE, k11x, kIndexNone, kReturn, kVerifyRegAWide),
     (RETURN_OBJECT, k11x, kIndexNone, kReturn, kVerifyRegA),
     (CONST_4, k11n, kIndexNone, kContinue, kVerifyRegA),
     (CONST_16, k21s, kIndexNone, kContinue, kVerifyRegA),
     (CONST_INSN, k31i, kIndexNone, kContinue, kVerifyRegA),
     (CONST_HIGH16, k21h, kIndexNone, kContinue, kVerifyRegA),
     (CONST_WIDE_16, k21s, kIndexNone, kContinue, kVerifyRegAWide),
     (CONST_WIDE_32, k31i, kIndexNone, kContinue, kVerifyRegAWide),
     (CONST_WIDE, k51l, kIndexNone, kContinue, kVerifyRegAWide),
     (CONST_WIDE_HIGH16, k21h, kIndexNone, kContinue, kVerifyRegAWide),
     (CONST_STRING, k21c, kIndexStringRef, kContinue OR kThrow, kVerifyRegA OR kVerifyRegBString),
     (CONST_STRING_JUMBO, k31c, kIndexStringRef, kContinue OR kThrow, kVerifyRegA OR kVerifyRegBString),
     (CONST_CLASS, k21c, kIndexTypeRef, kContinue OR kThrow, kVerifyRegA OR kVerifyRegBType),
     (MONITOR_ENTER, k11x, kIndexNone, kContinue OR kThrow, kVerifyRegA),
     (MONITOR_EXIT, k11x, kIndexNone, kContinue OR kThrow, kVerifyRegA),
     (CHECK_CAST, k21c, kIndexTypeRef, kContinue OR kThrow, kVerifyRegA OR kVerifyRegBType),
     (INSTANCE_OF, k22c, kIndexTypeRef, kContinue OR kThrow, kVerifyRegA OR kVerifyRegB OR kVerifyRegCType),
     (ARRAY_LENGTH, k12x, kIndexNone, kContinue OR kThrow, kVerifyRegA OR kVerifyRegB),
     (NEW_INSTANCE, k21c, kIndexTypeRef, kContinue OR kThrow, kVerifyRegA OR kVerifyRegBNewInstance),
     (NEW_ARRAY, k22c, kIndexTypeRef, kContinue OR kThrow, kVerifyRegA OR kVerifyRegB OR kVerifyRegCNewArray),
     (FILLED_NEW_ARRAY, k35c, kIndexTypeRef, kContinue OR kThrow, kVerifyRegBFilledNewArray OR kVerifyVarArg),
     (FILLED_NEW_ARRAY_RANGE, k3rc, kIndexTypeRef, kContinue OR kThrow, kVerifyRegBFilledNewArray OR kVerifyVarArgRange),
     (FILL_ARRAY_DATA, k31t, kIndexNone, kContinue OR kThrow, kVerifyRegA OR kVerifyArrayData),
     (THROW, k11x, kIndexNone, kThrow, kVerifyRegA),
     (GOTO, k10t, kIndexNone, kBranch OR kUnconditional, kVerifyBranchTarget),
     (GOTO_16, k20t, kIndexNone, kBranch OR kUnconditional, kVerifyBranchTarget),
     (GOTO_32, k30t, kIndexNone, kBranch OR kUnconditional, kVerifyBranchTarget),
     (PACKED_SWITCH, k31t, kIndexNone, kContinue OR kSwitch, kVerifyRegA OR kVerifySwitchTargets),
     (SPARSE_SWITCH, k31t, kIndexNone, kContinue OR kSwitch, kVerifyRegA OR kVerifySwitchTargets),
     (CMPL_FLOAT, k23x, kIndexNone, kContinue, kVerifyRegA OR kVerifyRegB OR kVerifyRegC),
     (CMPG_FLOAT, k23x, kIndexNone, kContinue, kVerifyRegA OR kVerifyRegB OR kVerifyRegC),
     (CMPL_DOUBLE, k23x, kIndexNone, kContinue, kVerifyRegA OR kVerifyRegBWide OR kVerifyRegCWide),
     (CMPG_DOUBLE, k23x, kIndexNone, kContinue, kVerifyRegA OR kVerifyRegBWide OR kVerifyRegCWide),
     (CMP_LONG, k23x, kIndexNone, kContinue, kVerifyRegA OR kVerifyRegBWide OR kVerifyRegCWide),
     (IF_EQ, k22t, kIndexNone, kContinue OR kBranch, kVerifyRegA OR kVerifyRegB OR kVerifyBranchTarget),
     (IF_NE, k22t, kIndexNone, kContinue OR kBranch, kVerifyRegA OR kVerifyRegB OR kVerifyBranchTarget),
     (IF_LT, k22t, kIndexNone, kContinue OR kBranch, kVerifyRegA OR kVerifyRegB OR kVerifyBranchTarget),
     (IF_GE, k22t, kIndexNone, kContinue OR kBranch, kVerifyRegA OR kVerifyRegB OR kVerifyBranchTarget),
     (IF_GT, k22t, kIndexNone, kContinue OR kBranch, kVerifyRegA OR kVerifyRegB OR kVerifyBranchTarget),
     (IF_LE, k22t, kIndexNone, kContinue OR kBranch, kVerifyRegA OR kVerifyRegB OR kVerifyBranchTarget),
     (IF_EQZ, k21t, kIndexNone, kContinue OR kBranch, kVerifyRegA OR kVerifyBranchTarget),
     (IF_NEZ, k21t, kIndexNone, kContinue OR kBranch, kVerifyRegA OR kVerifyBranchTarget),
     (IF_LTZ, k21t, kIndexNone, kContinue OR kBranch, kVerifyRegA OR kVerifyBranchTarget),
     (IF_GEZ, k21t, kIndexNone, kContinue OR kBranch, kVerifyRegA OR kVerifyBranchTarget),
     (IF_GTZ, k21t, kIndexNone, kContinue OR kBranch, kVerifyRegA OR kVerifyBranchTarget),
     (IF_LEZ, k21t, kIndexNone, kContinue OR kBranch, kVerifyRegA OR kVerifyBranchTarget),
     (UNUSED_3E, k10x, kIndexUnknown, 0, kVerifyError),
     (UNUSED_3F, k10x, kIndexUnknown, 0, kVerifyError),
     (UNUSED_40, k10x, kIndexUnknown, 0, kVerifyError),
     (UNUSED_41, k10x, kIndexUnknown, 0, kVerifyError),
     (UNUSED_42, k10x, kIndexUnknown, 0, kVerifyError),
     (UNUSED_43, k10x, kIndexUnknown, 0, kVerifyError),
     (AGET, k23x, kIndexNone, kContinue OR kThrow, kVerifyRegA OR kVerifyRegB OR kVerifyRegC),
     (AGET_WIDE, k23x, kIndexNone, kContinue OR kThrow, kVerifyRegAWide OR kVerifyRegB OR kVerifyRegC),
     (AGET_OBJECT, k23x, kIndexNone, kContinue OR kThrow, kVerifyRegA OR kVerifyRegB OR kVerifyRegC),
     (AGET_BOOLEAN, k23x, kIndexNone, kContinue OR kThrow, kVerifyRegA OR kVerifyRegB OR kVerifyRegC),
     (AGET_BYTE, k23x, kIndexNone, kContinue OR kThrow, kVerifyRegA OR kVerifyRegB OR kVerifyRegC),
     (AGET_CHAR, k23x, kIndexNone, kContinue OR kThrow, kVerifyRegA OR kVerifyRegB OR kVerifyRegC),
     (AGET_SHORT, k23x, kIndexNone, kContinue OR kThrow, kVerifyRegA OR kVerifyRegB OR kVerifyRegC),
     (APUT, k23x, kIndexNone, kContinue OR kThrow, kVerifyRegA OR kVerifyRegB OR kVerifyRegC),
     (APUT_WIDE, k23x, kIndexNone, kContinue OR kThrow, kVerifyRegAWide OR kVerifyRegB OR kVerifyRegC),
     (APUT_OBJECT, k23x, kIndexNone, kContinue OR kThrow, kVerifyRegA OR kVerifyRegB OR kVerifyRegC),
     (APUT_BOOLEAN, k23x, kIndexNone, kContinue OR kThrow, kVerifyRegA OR kVerifyRegB OR kVerifyRegC),
     (APUT_BYTE, k23x, kIndexNone, kContinue OR kThrow, kVerifyRegA OR kVerifyRegB OR kVerifyRegC),
     (APUT_CHAR, k23x, kIndexNone, kContinue OR kThrow, kVerifyRegA OR kVerifyRegB OR kVerifyRegC),
     (APUT_SHORT, k23x, kIndexNone, kContinue OR kThrow, kVerifyRegA OR kVerifyRegB OR kVerifyRegC),
     (IGET, k22c, kIndexFieldRef, kContinue OR kThrow, kVerifyRegA OR kVerifyRegB OR kVerifyRegCField),
     (IGET_WIDE, k22c, kIndexFieldRef, kContinue OR kThrow, kVerifyRegAWide OR kVerifyRegB OR kVerifyRegCField),
     (IGET_OBJECT, k22c, kIndexFieldRef, kContinue OR kThrow, kVerifyRegA OR kVerifyRegB OR kVerifyRegCField),
     (IGET_BOOLEAN, k22c, kIndexFieldRef, kContinue OR kThrow, kVerifyRegA OR kVerifyRegB OR kVerifyRegCField),
     (IGET_BYTE, k22c, kIndexFieldRef, kContinue OR kThrow, kVerifyRegA OR kVerifyRegB OR kVerifyRegCField),
     (IGET_CHAR, k22c, kIndexFieldRef, kContinue OR kThrow, kVerifyRegA OR kVerifyRegB OR kVerifyRegCField),
     (IGET_SHORT, k22c, kIndexFieldRef, kContinue OR kThrow, kVerifyRegA OR kVerifyRegB OR kVerifyRegCField),
     (IPUT, k22c, kIndexFieldRef, kContinue OR kThrow, kVerifyRegA OR kVerifyRegB OR kVerifyRegCField),
     (IPUT_WIDE, k22c, kIndexFieldRef, kContinue OR kThrow, kVerifyRegAWide OR kVerifyRegB OR kVerifyRegCField),
     (IPUT_OBJECT, k22c, kIndexFieldRef, kContinue OR kThrow, kVerifyRegA OR kVerifyRegB OR kVerifyRegCField),
     (IPUT_BOOLEAN, k22c, kIndexFieldRef, kContinue OR kThrow, kVerifyRegA OR kVerifyRegB OR kVerifyRegCField),
     (IPUT_BYTE, k22c, kIndexFieldRef, kContinue OR kThrow, kVerifyRegA OR kVerifyRegB OR kVerifyRegCField),
     (IPUT_CHAR, k22c, kIndexFieldRef, kContinue OR kThrow, kVerifyRegA OR kVerifyRegB OR kVerifyRegCField),
     (IPUT_SHORT, k22c, kIndexFieldRef, kContinue OR kThrow, kVerifyRegA OR kVerifyRegB OR kVerifyRegCField),
     (SGET, k21c, kIndexFieldRef, kContinue OR kThrow, kVerifyRegA OR kVerifyRegBField),
     (SGET_WIDE, k21c, kIndexFieldRef, kContinue OR kThrow, kVerifyRegAWide OR kVerifyRegBField),
     (SGET_OBJECT, k21c, kIndexFieldRef, kContinue OR kThrow, kVerifyRegA OR kVerifyRegBField),
     (SGET_BOOLEAN, k21c, kIndexFieldRef, kContinue OR kThrow, kVerifyRegA OR kVerifyRegBField),
     (SGET_BYTE, k21c, kIndexFieldRef, kContinue OR kThrow, kVerifyRegA OR kVerifyRegBField),
     (SGET_CHAR, k21c, kIndexFieldRef, kContinue OR kThrow, kVerifyRegA OR kVerifyRegBField),
     (SGET_SHORT, k21c, kIndexFieldRef, kContinue OR kThrow, kVerifyRegA OR kVerifyRegBField),
     (SPUT, k21c, kIndexFieldRef, kContinue OR kThrow, kVerifyRegA OR kVerifyRegBField),
     (SPUT_WIDE, k21c, kIndexFieldRef, kContinue OR kThrow, kVerifyRegAWide OR kVerifyRegBField),
     (SPUT_OBJECT, k21c, kIndexFieldRef, kContinue OR kThrow, kVerifyRegA OR kVerifyRegBField),
     (SPUT_BOOLEAN, k21c, kIndexFieldRef, kContinue OR kThrow, kVerifyRegA OR kVerifyRegBField),
     (SPUT_BYTE, k21c, kIndexFieldRef, kContinue OR kThrow, kVerifyRegA OR kVerifyRegBField),
     (SPUT_CHAR, k21c, kIndexFieldRef, kContinue OR kThrow, kVerifyRegA OR kVerifyRegBField),
     (SPUT_SHORT, k21c, kIndexFieldRef, kContinue OR kThrow, kVerifyRegA OR kVerifyRegBField),
     (INVOKE_VIRTUAL, k35c, kIndexMethodRef, kContinue OR kThrow OR kInvoke, kVerifyRegBMethod OR kVerifyVarArgNonZero),
     (INVOKE_SUPER, k35c, kIndexMethodRef, kContinue OR kThrow OR kInvoke, kVerifyRegBMethod OR kVerifyVarArgNonZero),
     (INVOKE_DIRECT, k35c, kIndexMethodRef, kContinue OR kThrow OR kInvoke, kVerifyRegBMethod OR kVerifyVarArgNonZero),
     (INVOKE_STATIC, k35c, kIndexMethodRef, kContinue OR kThrow OR kInvoke, kVerifyRegBMethod OR kVerifyVarArg),
     (INVOKE_INTERFACE, k35c, kIndexMethodRef, kContinue OR kThrow OR kInvoke, kVerifyRegBMethod OR kVerifyVarArgNonZero),
     (UNUSED_73, k10x, kIndexUnknown, 0, kVerifyError),
     (INVOKE_VIRTUAL_RANGE, k3rc, kIndexMethodRef, kContinue OR kThrow OR kInvoke, kVerifyRegBMethod OR kVerifyVarArgRangeNonZero),
     (INVOKE_SUPER_RANGE, k3rc, kIndexMethodRef, kContinue OR kThrow OR kInvoke, kVerifyRegBMethod OR kVerifyVarArgRangeNonZero),
     (INVOKE_DIRECT_RANGE, k3rc, kIndexMethodRef, kContinue OR kThrow OR kInvoke, kVerifyRegBMethod OR kVerifyVarArgRangeNonZero),
     (INVOKE_STATIC_RANGE, k3rc, kIndexMethodRef, kContinue OR kThrow OR kInvoke, kVerifyRegBMethod OR kVerifyVarArgRange),
     (INVOKE_INTERFACE_RANGE, k3rc, kIndexMethodRef, kContinue OR kThrow OR kInvoke, kVerifyRegBMethod OR kVerifyVarArgRangeNonZero),
     (UNUSED_79, k10x, kIndexUnknown, 0, kVerifyError),
     (UNUSED_7A, k10x, kIndexUnknown, 0, kVerifyError),
     (NEG_INT, k12x, kIndexNone, kContinue, kVerifyRegA OR kVerifyRegB),
     (NOT_INT, k12x, kIndexNone, kContinue, kVerifyRegA OR kVerifyRegB),
     (NEG_LONG, k12x, kIndexNone, kContinue, kVerifyRegAWide OR kVerifyRegBWide),
     (NOT_LONG, k12x, kIndexNone, kContinue, kVerifyRegAWide OR kVerifyRegBWide),
     (NEG_FLOAT, k12x, kIndexNone, kContinue, kVerifyRegA OR kVerifyRegB)
   ]"

definition DEX_INSTRUCTION_LIST_80_FF :: "instruction_row list" where
  "DEX_INSTRUCTION_LIST_80_FF = [
     (NEG_DOUBLE, k12x, kIndexNone, kContinue, kVerifyRegAWide OR kVerifyRegBWide),
     (INT_TO_LONG, k12x, kIndexNone, kContinue, kVerifyRegAWide OR kVerifyRegB),
     (INT_TO_FLOAT, k12x, kIndexNone, kContinue, kVerifyRegA OR kVerifyRegB),
     (INT_TO_DOUBLE, k12x, kIndexNone, kContinue, kVerifyRegAWide OR kVerifyRegB),
     (LONG_TO_INT, k12x, kIndexNone, kContinue, kVerifyRegA OR kVerifyRegBWide),
     (LONG_TO_FLOAT, k12x, kIndexNone, kContinue, kVerifyRegA OR kVerifyRegBWide),
     (LONG_TO_DOUBLE, k12x, kIndexNone, kContinue, kVerifyRegAWide OR kVerifyRegBWide),
     (FLOAT_TO_INT, k12x, kIndexNone, kContinue, kVerifyRegA OR kVerifyRegB),
     (FLOAT_TO_LONG, k12x, kIndexNone, kContinue, kVerifyRegAWide OR kVerifyRegB),
     (FLOAT_TO_DOUBLE, k12x, kIndexNone, kContinue, kVerifyRegAWide OR kVerifyRegB),
     (DOUBLE_TO_INT, k12x, kIndexNone, kContinue, kVerifyRegA OR kVerifyRegBWide),
     (DOUBLE_TO_LONG, k12x, kIndexNone, kContinue, kVerifyRegAWide OR kVerifyRegBWide),
     (DOUBLE_TO_FLOAT, k12x, kIndexNone, kContinue, kVerifyRegA OR kVerifyRegBWide),
     (INT_TO_BYTE, k12x, kIndexNone, kContinue, kVerifyRegA OR kVerifyRegB),
     (INT_TO_CHAR, k12x, kIndexNone, kContinue, kVerifyRegA OR kVerifyRegB),
     (INT_TO_SHORT, k12x, kIndexNone, kContinue, kVerifyRegA OR kVerifyRegB),
     (ADD_INT, k23x, kIndexNone, kContinue, kVerifyRegA OR kVerifyRegB OR kVerifyRegC),
     (SUB_INT, k23x, kIndexNone, kContinue, kVerifyRegA OR kVerifyRegB OR kVerifyRegC),
     (MUL_INT, k23x, kIndexNone, kContinue, kVerifyRegA OR kVerifyRegB OR kVerifyRegC),
     (DIV_INT, k23x, kIndexNone, kContinue OR kThrow, kVerifyRegA OR kVerifyRegB OR kVerifyRegC),
     (REM_INT, k23x, kIndexNone, kContinue OR kThrow, kVerifyRegA OR kVerifyRegB OR kVerifyRegC),
     (AND_INT, k23x, kIndexNone, kContinue, kVerifyRegA OR kVerifyRegB OR kVerifyRegC),
     (OR_INT, k23x, kIndexNone, kContinue, kVerifyRegA OR kVerifyRegB OR kVerifyRegC),
     (XOR_INT, k23x, kIndexNone, kContinue, kVerifyRegA OR kVerifyRegB OR kVerifyRegC),
     (SHL_INT, k23x, kIndexNone, kContinue, kVerifyRegA OR kVerifyRegB OR kVerifyRegC),
     (SHR_INT, k23x, kIndexNone, kContinue, kVerifyRegA OR kVerifyRegB OR kVerifyRegC),
     (USHR_INT, k23x, kIndexNone, kContinue, kVerifyRegA OR kVerifyRegB OR kVerifyRegC),
     (ADD_LONG, k23x, kIndexNone, kContinue, kVerifyRegAWide OR kVerifyRegBWide OR kVerifyRegCWide),
     (SUB_LONG, k23x, kIndexNone, kContinue, kVerifyRegAWide OR kVerifyRegBWide OR kVerifyRegCWide),
     (MUL_LONG, k23x, kIndexNone, kContinue, kVerifyRegAWide OR kVerifyRegBWide OR kVerifyRegCWide),
     (DIV_LONG, k23x, kIndexNone, kContinue OR kThrow, kVerifyRegAWide OR kVerifyRegBWide OR kVerifyRegCWide),
     (REM_LONG, k23x, kIndexNone, kContinue OR kThrow, kVerifyRegAWide OR kVerifyRegBWide OR kVerifyRegCWide),
     (AND_LONG, k23x, kIndexNone, kContinue, kVerifyRegAWide OR kVerifyRegBWide OR kVerifyRegCWide),
     (OR_LONG, k23x, kIndexNone, kContinue, kVerifyRegAWide OR kVerifyRegBWide OR kVerifyRegCWide),
     (XOR_LONG, k23x, kIndexNone, kContinue, kVerifyRegAWide OR kVerifyRegBWide OR kVerifyRegCWide),
     (SHL_LONG, k23x, kIndexNone, kContinue, kVerifyRegAWide OR kVerifyRegBWide OR kVerifyRegC),
     (SHR_LONG, k23x, kIndexNone, kContinue, kVerifyRegAWide OR kVerifyRegBWide OR kVerifyRegC),
     (USHR_LONG, k23x, kIndexNone, kContinue, kVerifyRegAWide OR kVerifyRegBWide OR kVerifyRegC),
     (ADD_FLOAT, k23x, kIndexNone, kContinue, kVerifyRegA OR kVerifyRegB OR kVerifyRegC),
     (SUB_FLOAT, k23x, kIndexNone, kContinue, kVerifyRegA OR kVerifyRegB OR kVerifyRegC),
     (MUL_FLOAT, k23x, kIndexNone, kContinue, kVerifyRegA OR kVerifyRegB OR kVerifyRegC),
     (DIV_FLOAT, k23x, kIndexNone, kContinue, kVerifyRegA OR kVerifyRegB OR kVerifyRegC),
     (REM_FLOAT, k23x, kIndexNone, kContinue, kVerifyRegA OR kVerifyRegB OR kVerifyRegC),
     (ADD_DOUBLE, k23x, kIndexNone, kContinue, kVerifyRegAWide OR kVerifyRegBWide OR kVerifyRegCWide),
     (SUB_DOUBLE, k23x, kIndexNone, kContinue, kVerifyRegAWide OR kVerifyRegBWide OR kVerifyRegCWide),
     (MUL_DOUBLE, k23x, kIndexNone, kContinue, kVerifyRegAWide OR kVerifyRegBWide OR kVerifyRegCWide),
     (DIV_DOUBLE, k23x, kIndexNone, kContinue, kVerifyRegAWide OR kVerifyRegBWide OR kVerifyRegCWide),
     (REM_DOUBLE, k23x, kIndexNone, kContinue, kVerifyRegAWide OR kVerifyRegBWide OR kVerifyRegCWide),
     (ADD_INT_2ADDR, k12x, kIndexNone, kContinue, kVerifyRegA OR kVerifyRegB),
     (SUB_INT_2ADDR, k12x, kIndexNone, kContinue, kVerifyRegA OR kVerifyRegB),
     (MUL_INT_2ADDR, k12x, kIndexNone, kContinue, kVerifyRegA OR kVerifyRegB),
     (DIV_INT_2ADDR, k12x, kIndexNone, kContinue OR kThrow, kVerifyRegA OR kVerifyRegB),
     (REM_INT_2ADDR, k12x, kIndexNone, kContinue OR kThrow, kVerifyRegA OR kVerifyRegB),
     (AND_INT_2ADDR, k12x, kIndexNone, kContinue, kVerifyRegA OR kVerifyRegB),
     (OR_INT_2ADDR, k12x, kIndexNone, kContinue, kVerifyRegA OR kVerifyRegB),
     (XOR_INT_2ADDR, k12x, kIndexNone, kContinue, kVerifyRegA OR kVerifyRegB),
     (SHL_INT_2ADDR, k12x, kIndexNone, kContinue, kVerifyRegA OR kVerifyRegB),
     (SHR_INT_2ADDR, k12x, kIndexNone, kContinue, kVerifyRegA OR kVerifyRegB),
     (USHR_INT_2ADDR, k12x, kIndexNone, kContinue, kVerifyRegA OR kVerifyRegB),
     (ADD_LONG_2ADDR, k12x, kIndexNone, kContinue, kVerifyRegAWide OR kVerifyRegBWide),
     (SUB_LONG_2ADDR, k12x, kIndexNone, kContinue, kVerifyRegAWide OR kVerifyRegBWide),
     (MUL_LONG_2ADDR, k12x, kIndexNone, kContinue, kVerifyRegAWide OR kVerifyRegBWide),
     (DIV_LONG_2ADDR, k12x, kIndexNone, kContinue OR kThrow, kVerifyRegAWide OR kVerifyRegBWide),
     (REM_LONG_2ADDR, k12x, kIndexNone, kContinue OR kThrow, kVerifyRegAWide OR kVerifyRegBWide),
     (AND_LONG_2ADDR, k12x, kIndexNone, kContinue, kVerifyRegAWide OR kVerifyRegBWide),
     (OR_LONG_2ADDR, k12x, kIndexNone, kContinue, kVerifyRegAWide OR kVerifyRegBWide),
     (XOR_LONG_2ADDR, k12x, kIndexNone, kContinue, kVerifyRegAWide OR kVerifyRegBWide),
     (SHL_LONG_2ADDR, k12x, kIndexNone, kContinue, kVerifyRegAWide OR kVerifyRegB),
     (SHR_LONG_2ADDR, k12x, kIndexNone, kContinue, kVerifyRegAWide OR kVerifyRegB),
     (USHR_LONG_2ADDR, k12x, kIndexNone, kContinue, kVerifyRegAWide OR kVerifyRegB),
     (ADD_FLOAT_2ADDR, k12x, kIndexNone, kContinue, kVerifyRegA OR kVerifyRegB),
     (SUB_FLOAT_2ADDR, k12x, kIndexNone, kContinue, kVerifyRegA OR kVerifyRegB),
     (MUL_FLOAT_2ADDR, k12x, kIndexNone, kContinue, kVerifyRegA OR kVerifyRegB),
     (DIV_FLOAT_2ADDR, k12x, kIndexNone, kContinue, kVerifyRegA OR kVerifyRegB),
     (REM_FLOAT_2ADDR, k12x, kIndexNone, kContinue, kVerifyRegA OR kVerifyRegB),
     (ADD_DOUBLE_2ADDR, k12x, kIndexNone, kContinue, kVerifyRegAWide OR kVerifyRegBWide),
     (SUB_DOUBLE_2ADDR, k12x, kIndexNone, kContinue, kVerifyRegAWide OR kVerifyRegBWide),
     (MUL_DOUBLE_2ADDR, k12x, kIndexNone, kContinue, kVerifyRegAWide OR kVerifyRegBWide),
     (DIV_DOUBLE_2ADDR, k12x, kIndexNone, kContinue, kVerifyRegAWide OR kVerifyRegBWide),
     (REM_DOUBLE_2ADDR, k12x, kIndexNone, kContinue, kVerifyRegAWide OR kVerifyRegBWide),
     (ADD_INT_LIT16, k22s, kIndexNone, kContinue, kVerifyRegA OR kVerifyRegB),
     (RSUB_INT, k22s, kIndexNone, kContinue, kVerifyRegA OR kVerifyRegB),
     (MUL_INT_LIT16, k22s, kIndexNone, kContinue, kVerifyRegA OR kVerifyRegB),
     (DIV_INT_LIT16, k22s, kIndexNone, kContinue OR kThrow, kVerifyRegA OR kVerifyRegB),
     (REM_INT_LIT16, k22s, kIndexNone, kContinue OR kThrow, kVerifyRegA OR kVerifyRegB),
     (AND_INT_LIT16, k22s, kIndexNone, kContinue, kVerifyRegA OR kVerifyRegB),
     (OR_INT_LIT16, k22s, kIndexNone, kContinue, kVerifyRegA OR kVerifyRegB),
     (XOR_INT_LIT16, k22s, kIndexNone, kContinue, kVerifyRegA OR kVerifyRegB),
     (ADD_INT_LIT8, k22b, kIndexNone, kContinue, kVerifyRegA OR kVerifyRegB),
     (RSUB_INT_LIT8, k22b, kIndexNone, kContinue, kVerifyRegA OR kVerifyRegB),
     (MUL_INT_LIT8, k22b, kIndexNone, kContinue, kVerifyRegA OR kVerifyRegB),
     (DIV_INT_LIT8, k22b, kIndexNone, kContinue OR kThrow, kVerifyRegA OR kVerifyRegB),
     (REM_INT_LIT8, k22b, kIndexNone, kContinue OR kThrow, kVerifyRegA OR kVerifyRegB),
     (AND_INT_LIT8, k22b, kIndexNone, kContinue, kVerifyRegA OR kVerifyRegB),
     (OR_INT_LIT8, k22b, kIndexNone, kContinue, kVerifyRegA OR kVerifyRegB),
     (XOR_INT_LIT8, k22b, kIndexNone, kContinue, kVerifyRegA OR kVerifyRegB),
     (SHL_INT_LIT8, k22b, kIndexNone, kContinue, kVerifyRegA OR kVerifyRegB),
     (SHR_INT_LIT8, k22b, kIndexNone, kContinue, kVerifyRegA OR kVerifyRegB),
     (USHR_INT_LIT8, k22b, kIndexNone, kContinue, kVerifyRegA OR kVerifyRegB),
     (UNUSED_E3, k10x, kIndexUnknown, 0, kVerifyError),
     (UNUSED_E4, k10x, kIndexUnknown, 0, kVerifyError),
     (UNUSED_E5, k10x, kIndexUnknown, 0, kVerifyError),
     (UNUSED_E6, k10x, kIndexUnknown, 0, kVerifyError),
     (UNUSED_E7, k10x, kIndexUnknown, 0, kVerifyError),
     (UNUSED_E8, k10x, kIndexUnknown, 0, kVerifyError),
     (UNUSED_E9, k10x, kIndexUnknown, 0, kVerifyError),
     (UNUSED_EA, k10x, kIndexUnknown, 0, kVerifyError),
     (UNUSED_EB, k10x, kIndexUnknown, 0, kVerifyError),
     (UNUSED_EC, k10x, kIndexUnknown, 0, kVerifyError),
     (UNUSED_ED, k10x, kIndexUnknown, 0, kVerifyError),
     (UNUSED_EE, k10x, kIndexUnknown, 0, kVerifyError),
     (UNUSED_EF, k10x, kIndexUnknown, 0, kVerifyError),
     (UNUSED_F0, k10x, kIndexUnknown, 0, kVerifyError),
     (UNUSED_F1, k10x, kIndexUnknown, 0, kVerifyError),
     (UNUSED_F2, k10x, kIndexUnknown, 0, kVerifyError),
     (UNUSED_F3, k10x, kIndexUnknown, 0, kVerifyError),
     (UNUSED_F4, k10x, kIndexUnknown, 0, kVerifyError),
     (UNUSED_F5, k10x, kIndexUnknown, 0, kVerifyError),
     (UNUSED_F6, k10x, kIndexUnknown, 0, kVerifyError),
     (UNUSED_F7, k10x, kIndexUnknown, 0, kVerifyError),
     (UNUSED_F8, k10x, kIndexUnknown, 0, kVerifyError),
     (UNUSED_F9, k10x, kIndexUnknown, 0, kVerifyError),
     (INVOKE_POLYMORPHIC, k45cc, kIndexMethodAndProtoRef, kContinue OR kThrow OR kInvoke, kVerifyRegBMethod OR kVerifyVarArgNonZero OR kVerifyRegHPrototype),
     (INVOKE_POLYMORPHIC_RANGE, k4rcc, kIndexMethodAndProtoRef, kContinue OR kThrow OR kInvoke, kVerifyRegBMethod OR kVerifyVarArgRangeNonZero OR kVerifyRegHPrototype),
     (INVOKE_CUSTOM, k35c, kIndexCallSiteRef, kContinue OR kThrow, kVerifyRegBCallSite OR kVerifyVarArg),
     (INVOKE_CUSTOM_RANGE, k3rc, kIndexCallSiteRef, kContinue OR kThrow, kVerifyRegBCallSite OR kVerifyVarArgRange),
     (CONST_METHOD_HANDLE, k21c, kIndexMethodHandleRef, kContinue OR kThrow, kVerifyRegA OR kVerifyRegBMethodHandle),
     (CONST_METHOD_TYPE, k21c, kIndexProtoRef, kContinue OR kThrow, kVerifyRegA OR kVerifyRegBPrototype)
   ]"

section \<open>Descriptors\<close>

record InstructionDescriptor =
  verify_flags :: u32
  format :: Format
  index_type :: IndexType
  flags :: u8
  size_in_code_units :: int

definition InstructionSizeInCodeUnitsByOpcode :: "u8 \<Rightarrow> Format \<Rightarrow> int" where
  "InstructionSizeInCodeUnitsByOpcode opcode fmt =
     (if opcode = NOP then -1
      else if k10x \<le> fmt \<and> fmt \<le> k10t then 1
      else if k20t \<le> fmt \<and> fmt \<le> k22c then 2
      else if k32x \<le> fmt \<and> fmt \<le> k3rc then 3
      else if k45cc \<le> fmt \<and> fmt \<le> k4rcc then 4
      else if fmt = k51l then 5
      else -1)"

fun INSTRUCTION_DESCR :: "instruction_row \<Rightarrow> InstructionDescriptor" where
  "INSTRUCTION_DESCR (opcode, fmt, index, flgs, vflags) =
     \<lparr>verify_flags = vflags, format = fmt, index_type = index, flags = flgs,
      size_in_code_units = InstructionSizeInCodeUnitsByOpcode opcode fmt\<rparr>"

definition kInstructionDescriptors :: "InstructionDescriptor list" where
  "kInstructionDescriptors =
     map INSTRUCTION_DESCR (DEX_INSTRUCTION_LIST_00_7F @ DEX_INSTRUCTION_LIST_80_FF)"

definition InstructionDescriptorOf :: "u8 \<Rightarrow> InstructionDescriptor" where
  "InstructionDescriptorOf opcode = kInstructionDescriptors ! unat opcode"

definition FormatOf :: "u8 \<Rightarrow> Format" where
  "FormatOf opcode = format (InstructionDescriptorOf opcode)"

definition IndexTypeOf :: "u8 \<Rightarrow> IndexType" where
  "IndexTypeOf opcode = index_type (InstructionDescriptorOf opcode)"

definition FlagsOf :: "u8 \<Rightarrow> u8" where
  "FlagsOf opcode = flags (InstructionDescriptorOf opcode)"

definition VerifyFlagsOf :: "u8 \<Rightarrow> u32" where
  "VerifyFlagsOf opcode = verify_flags (InstructionDescriptorOf opcode)"

definition GetVerifyTypeArgumentAOf :: "u8 \<Rightarrow> u32" where
  "GetVerifyTypeArgumentAOf opcode = VerifyFlagsOf opcode AND (kVerifyRegA OR kVerifyRegAWide)"

definition GetVerifyTypeArgumentBOf :: "u8 \<Rightarrow> u32" where
  "GetVerifyTypeArgumentBOf opcode =
     VerifyFlagsOf opcode AND
       (kVerifyRegB OR kVerifyRegBField OR kVerifyRegBMethod OR kVerifyRegBNewInstance OR
        kVerifyRegBString OR kVerifyRegBType OR kVerifyRegBWide OR kVerifyRegBFilledNewArray)"

definition GetVerifyTypeArgumentCOf :: "u8 \<Rightarrow> u32" where
  "GetVerifyTypeArgumentCOf opcode =
     VerifyFlagsOf opcode AND
       (kVerifyRegC OR kVerifyRegCField OR kVerifyRegCNewArray OR kVerifyRegCType OR kVerifyRegCWide)"

definition GetVerifyTypeArgumentHOf :: "u8 \<Rightarrow> u32" where
  "GetVerifyTypeArgumentHOf opcode = VerifyFlagsOf opcode AND kVerifyRegHPrototype"

definition GetVerifyExtraFlagsOf :: "u8 \<Rightarrow> u32" where
  "GetVerifyExtraFlagsOf opcode =
     VerifyFlagsOf opcode AND
       (kVerifyArrayData OR kVerifyBranchTarget OR kVerifySwitchTargets OR kVerifyVarArg OR
        kVerifyVarArgNonZero OR kVerifyVarArgRange OR kVerifyVarArgRangeNonZero OR kVerifyError)"

definition IsReturnOf :: "u8 \<Rightarrow> bool" where
  "IsReturnOf opcode \<longleftrightarrow> flags (InstructionDescriptorOf opcode) AND kReturn \<noteq> 0"

text \<open>What the columns of a row owe each other: an operand is verified only in a format that has it,
  branch and switch flags go with the formats that carry a target.\<close>

definition row_consistent :: "InstructionDescriptor \<Rightarrow> bool" where
  "row_consistent d \<longleftrightarrow>
     (let f = format d; v = verify_flags d in
        f \<noteq> kInvalidFormat \<and>
        (v AND 0x40001FC = 0 \<or> f \<in> {k11n, k12x, k21c, k21h, k21s, k21t, k22b, k22c, k22s, k22t, k22x,
           k23x, k31c, k31i, k31t, k32x, k35c, k3rc, k45cc, k4rcc, k51l}) \<and>
        (v AND 0x3E00 = 0 \<or> f \<in> {k22b, k22c, k22s, k22t, k23x, k35c, k3rc, k45cc, k4rcc}) \<and>
        (v AND 0x400000 = 0 \<or> f \<in> {k45cc, k4rcc}) \<and>
        ((v AND 0x60000 \<noteq> 0) = (f \<in> {k35c, k45cc})) \<and>
        ((v AND 0x180000 \<noteq> 0) = (f \<in> {k3rc, k4rcc})) \<and>
        ((v AND 0x8000 \<noteq> 0) = (flags d AND 1 \<noteq> 0)) \<and>
        ((flags d AND 1 \<noteq> 0) = (f \<in> {k22t, k21t, k10t, k20t, k30t})) \<and>
        ((v AND 0x10000 \<noteq> 0) = (flags d AND 4 \<noteq> 0)) \<and>
        ((v AND 0x14000 \<noteq> 0) = (f = k31t)) \<and>
        v AND 0x3FC000 \<in> {0, 0x4000, 0x8000, 0x10000, 0x20000, 0x40000, 0x80000, 0x100000, 0x200000} \<and>
        flags d AND 0x80 = 0)"

section \<open>Facts about every opcode\<close>

text \<open>The rows are listed in the order of their opcodes, so position and opcode agree.\<close>

lemma opcodes_in_order:
  "map fst (DEX_INSTRUCTION_LIST_00_7F @ DEX_INSTRUCTION_LIST_80_FF) = map of_nat [0..<256]"
  by (simp add: DEX_INSTRUCTION_LIST_00_7F_def DEX_INSTRUCTION_LIST_80_FF_def
      upt_rec [of 0] upt_rec [of "Suc 0"] numeral_2_eq_2 [symmetric] upt_rec_numeral)

text \<open>
  A statement about all opcodes is a statement about the 256 rows, each of them closed, so that
  evaluation settles it.
\<close>

lemma length_table:
  "length (DEX_INSTRUCTION_LIST_00_7F @ DEX_INSTRUCTION_LIST_80_FF) = 256"
  by (simp add: DEX_INSTRUCTION_LIST_00_7F_def DEX_INSTRUCTION_LIST_80_FF_def)

lemma descriptor_all:
  assumes "list_all P kInstructionDescriptors"
  shows "P (InstructionDescriptorOf opcode)"
proof -
  have "unat opcode < length kInstructionDescriptors"
    using unsigned_less [of opcode, where ?'a = nat] length_table
    by (simp add: kInstructionDescriptors_def)
  then show ?thesis
    using assms by (simp add: InstructionDescriptorOf_def list_all_length)
qed

lemma descriptor_row:
  "\<exists>fmt index flgs vflags. InstructionDescriptorOf opcode = INSTRUCTION_DESCR (opcode, fmt, index, flgs, vflags)"
proof -
  let ?rows = "DEX_INSTRUCTION_LIST_00_7F @ DEX_INSTRUCTION_LIST_80_FF"
  have n: "unat opcode < 256"
    using unsigned_less [of opcode, where ?'a = nat] by simp
  have "fst (?rows ! unat opcode) = map fst ?rows ! unat opcode"
    using n length_table by (simp only: nth_map)
  also have "\<dots> = opcode"
    unfolding opcodes_in_order using n by simp
  finally have "fst (?rows ! unat opcode) = opcode" .
  moreover have "InstructionDescriptorOf opcode = INSTRUCTION_DESCR (?rows ! unat opcode)"
    using n length_table by (simp only: InstructionDescriptorOf_def kInstructionDescriptors_def nth_map)
  ultimately show ?thesis by (metis prod.collapse)
qed

lemma row_consistent_all: "list_all row_consistent kInstructionDescriptors"
  by (simp add: kInstructionDescriptors_def DEX_INSTRUCTION_LIST_00_7F_def DEX_INSTRUCTION_LIST_80_FF_def
      row_consistent_def)

lemmas row_consistent = descriptor_all [OF row_consistent_all]

end
