(* ===== verification/DexInstruction.thy ===== *)
theory DexInstruction
  imports DexOpcodes
begin

text \<open>
  Decoding of one instruction: \<open>libdexfile/dex/dex_instruction-inl.h\<close>, the member functions
  of \<open>dex_instruction.h\<close> and \<open>dex_instruction.cc\<close>.

  An \<open>Instruction*\<close> is the list of code units from the instruction to the end of the code.
  \<open>Fetch16\<close> past its end is \<open>None\<close>; so is an accessor the source answers with
  \<open>LOG(FATAL)\<close>.  The accessors keep the integer width of the source: a result of type
  \<open>int8_t\<close>, \<open>int16_t\<close> or \<open>int32_t\<close> is the word with these bits, and the generic
  accessors, which return \<open>int32_t\<close>, extend it with \<open>scast\<close> or \<open>ucast\<close>.
\<close>

named_theorems vreg_defs \<open>the operand accessors of each format\<close>

section \<open>Fetching\<close>

definition Fetch16 :: "u16 list \<Rightarrow> nat \<Rightarrow> u16 option" where
  "Fetch16 inst offset = (if offset < length inst then Some (inst ! offset) else None)"

definition Fetch32 :: "u16 list \<Rightarrow> nat \<Rightarrow> u32 option" where
  "Fetch32 inst offset =
     do { lo \<leftarrow> Fetch16 inst offset; hi \<leftarrow> Fetch16 inst (offset + 1);
          Some (ucast lo OR push_bit 16 (ucast hi)) }"

definition Opcode :: "u16 \<Rightarrow> u8" where
  "Opcode inst_data = ucast (inst_data AND 0xFF)"

definition InstA :: "u16 \<Rightarrow> u8" where
  "InstA inst_data = ucast (drop_bit 8 inst_data AND 0x0f)"

definition InstB :: "u16 \<Rightarrow> u8" where
  "InstB inst_data = ucast (drop_bit 12 inst_data)"

definition InstAA :: "u16 \<Rightarrow> u8" where
  "InstAA inst_data = ucast (drop_bit 8 inst_data)"

section \<open>Operand A\<close>

definition HasVRegA :: "u8 \<Rightarrow> bool" where
  "HasVRegA opcode \<longleftrightarrow> FormatOf opcode \<in>
     {k10t, k10x, k11n, k11x, k12x, k20t, k21c, k21h, k21s, k21t, k22b, k22c,
      k22s, k22t, k22x, k23x, k30t, k31c, k31i, k31t, k32x, k35c, k3rc, k45cc,
      k4rcc, k51l}"

definition VRegA_10t :: "u16 \<Rightarrow> u8" where
  [vreg_defs]: "VRegA_10t inst_data = InstAA inst_data"

definition VRegA_10x :: "u16 \<Rightarrow> u8" where
  [vreg_defs]: "VRegA_10x inst_data = InstAA inst_data"

definition VRegA_11n :: "u16 \<Rightarrow> u8" where
  [vreg_defs]: "VRegA_11n inst_data = InstA inst_data"

definition VRegA_11x :: "u16 \<Rightarrow> u8" where
  [vreg_defs]: "VRegA_11x inst_data = InstAA inst_data"

definition VRegA_12x :: "u16 \<Rightarrow> u8" where
  [vreg_defs]: "VRegA_12x inst_data = InstA inst_data"

definition VRegA_20t :: "u16 list \<Rightarrow> u16 option" where
  [vreg_defs]: "VRegA_20t inst = Fetch16 inst 1"

definition VRegA_21c :: "u16 \<Rightarrow> u8" where
  [vreg_defs]: "VRegA_21c inst_data = InstAA inst_data"

definition VRegA_21h :: "u16 \<Rightarrow> u8" where
  [vreg_defs]: "VRegA_21h inst_data = InstAA inst_data"

definition VRegA_21s :: "u16 \<Rightarrow> u8" where
  [vreg_defs]: "VRegA_21s inst_data = InstAA inst_data"

definition VRegA_21t :: "u16 \<Rightarrow> u8" where
  [vreg_defs]: "VRegA_21t inst_data = InstAA inst_data"

definition VRegA_22b :: "u16 \<Rightarrow> u8" where
  [vreg_defs]: "VRegA_22b inst_data = InstAA inst_data"

definition VRegA_22c :: "u16 \<Rightarrow> u8" where
  [vreg_defs]: "VRegA_22c inst_data = InstA inst_data"

definition VRegA_22s :: "u16 \<Rightarrow> u8" where
  [vreg_defs]: "VRegA_22s inst_data = InstA inst_data"

definition VRegA_22t :: "u16 \<Rightarrow> u8" where
  [vreg_defs]: "VRegA_22t inst_data = InstA inst_data"

definition VRegA_22x :: "u16 \<Rightarrow> u8" where
  [vreg_defs]: "VRegA_22x inst_data = InstAA inst_data"

definition VRegA_23x :: "u16 \<Rightarrow> u8" where
  [vreg_defs]: "VRegA_23x inst_data = InstAA inst_data"

definition VRegA_30t :: "u16 list \<Rightarrow> u32 option" where
  [vreg_defs]: "VRegA_30t inst = Fetch32 inst 1"

definition VRegA_31c :: "u16 \<Rightarrow> u8" where
  [vreg_defs]: "VRegA_31c inst_data = InstAA inst_data"

definition VRegA_31i :: "u16 \<Rightarrow> u8" where
  [vreg_defs]: "VRegA_31i inst_data = InstAA inst_data"

definition VRegA_31t :: "u16 \<Rightarrow> u8" where
  [vreg_defs]: "VRegA_31t inst_data = InstAA inst_data"

definition VRegA_32x :: "u16 list \<Rightarrow> u16 option" where
  [vreg_defs]: "VRegA_32x inst = Fetch16 inst 1"

definition VRegA_35c :: "u16 \<Rightarrow> u8" where
  [vreg_defs]: "VRegA_35c inst_data = InstB inst_data"

definition VRegA_3rc :: "u16 \<Rightarrow> u8" where
  [vreg_defs]: "VRegA_3rc inst_data = InstAA inst_data"

definition VRegA_51l :: "u16 \<Rightarrow> u8" where
  [vreg_defs]: "VRegA_51l inst_data = InstAA inst_data"

definition VRegA_45cc :: "u16 \<Rightarrow> u8" where
  [vreg_defs]: "VRegA_45cc inst_data = InstB inst_data"

definition VRegA_4rcc :: "u16 \<Rightarrow> u8" where
  [vreg_defs]: "VRegA_4rcc inst_data = InstAA inst_data"

definition VRegA :: "Format \<Rightarrow> u16 list \<Rightarrow> u16 \<Rightarrow> u32 option" where
  "VRegA fmt inst inst_data =
     (case fmt of
         k10t \<Rightarrow> Some (scast (VRegA_10t inst_data))
       | k10x \<Rightarrow> Some (ucast (VRegA_10x inst_data))
       | k11n \<Rightarrow> Some (ucast (VRegA_11n inst_data))
       | k11x \<Rightarrow> Some (ucast (VRegA_11x inst_data))
       | k12x \<Rightarrow> Some (ucast (VRegA_12x inst_data))
       | k20t \<Rightarrow> map_option scast (VRegA_20t inst)
       | k21c \<Rightarrow> Some (ucast (VRegA_21c inst_data))
       | k21h \<Rightarrow> Some (ucast (VRegA_21h inst_data))
       | k21s \<Rightarrow> Some (ucast (VRegA_21s inst_data))
       | k21t \<Rightarrow> Some (ucast (VRegA_21t inst_data))
       | k22b \<Rightarrow> Some (ucast (VRegA_22b inst_data))
       | k22c \<Rightarrow> Some (ucast (VRegA_22c inst_data))
       | k22s \<Rightarrow> Some (ucast (VRegA_22s inst_data))
       | k22t \<Rightarrow> Some (ucast (VRegA_22t inst_data))
       | k22x \<Rightarrow> Some (ucast (VRegA_22x inst_data))
       | k23x \<Rightarrow> Some (ucast (VRegA_23x inst_data))
       | k30t \<Rightarrow> VRegA_30t inst
       | k31c \<Rightarrow> Some (ucast (VRegA_31c inst_data))
       | k31i \<Rightarrow> Some (ucast (VRegA_31i inst_data))
       | k31t \<Rightarrow> Some (ucast (VRegA_31t inst_data))
       | k32x \<Rightarrow> map_option ucast (VRegA_32x inst)
       | k35c \<Rightarrow> Some (ucast (VRegA_35c inst_data))
       | k3rc \<Rightarrow> Some (ucast (VRegA_3rc inst_data))
       | k45cc \<Rightarrow> Some (ucast (VRegA_45cc inst_data))
       | k4rcc \<Rightarrow> Some (ucast (VRegA_4rcc inst_data))
       | k51l \<Rightarrow> Some (ucast (VRegA_51l inst_data))
       | kInvalidFormat \<Rightarrow> None)"

section \<open>Operand B\<close>

definition HasVRegB :: "u8 \<Rightarrow> bool" where
  "HasVRegB opcode \<longleftrightarrow> FormatOf opcode \<in>
     {k11n, k12x, k21c, k21h, k21s, k21t, k22b, k22c, k22s, k22t, k22x, k23x,
      k31c, k31i, k31t, k32x, k35c, k3rc, k45cc, k4rcc, k51l}"

definition HasWideVRegB :: "u8 \<Rightarrow> bool" where
  "HasWideVRegB opcode \<longleftrightarrow> FormatOf opcode = k51l"

definition VRegB_11n :: "u16 \<Rightarrow> u8" where
  [vreg_defs]: "VRegB_11n inst_data = ucast (signed_drop_bit 28 (push_bit 28 (ucast (InstB inst_data) :: u32)))"

definition VRegB_12x :: "u16 \<Rightarrow> u8" where
  [vreg_defs]: "VRegB_12x inst_data = InstB inst_data"

definition VRegB_21c :: "u16 list \<Rightarrow> u16 option" where
  [vreg_defs]: "VRegB_21c inst = Fetch16 inst 1"

definition VRegB_21h :: "u16 list \<Rightarrow> u16 option" where
  [vreg_defs]: "VRegB_21h inst = Fetch16 inst 1"

definition VRegB_21s :: "u16 list \<Rightarrow> u16 option" where
  [vreg_defs]: "VRegB_21s inst = Fetch16 inst 1"

definition VRegB_21t :: "u16 list \<Rightarrow> u16 option" where
  [vreg_defs]: "VRegB_21t inst = Fetch16 inst 1"

definition VRegB_22b :: "u16 list \<Rightarrow> u8 option" where
  [vreg_defs]: "VRegB_22b inst = map_option (\<lambda>w. ucast (w AND 0xff)) (Fetch16 inst 1)"

definition VRegB_22c :: "u16 \<Rightarrow> u8" where
  [vreg_defs]: "VRegB_22c inst_data = InstB inst_data"

definition VRegB_22s :: "u16 \<Rightarrow> u8" where
  [vreg_defs]: "VRegB_22s inst_data = InstB inst_data"

definition VRegB_22t :: "u16 \<Rightarrow> u8" where
  [vreg_defs]: "VRegB_22t inst_data = InstB inst_data"

definition VRegB_22x :: "u16 list \<Rightarrow> u16 option" where
  [vreg_defs]: "VRegB_22x inst = Fetch16 inst 1"

definition VRegB_23x :: "u16 list \<Rightarrow> u8 option" where
  [vreg_defs]: "VRegB_23x inst = map_option (\<lambda>w. ucast (w AND 0xff)) (Fetch16 inst 1)"

definition VRegB_31c :: "u16 list \<Rightarrow> u32 option" where
  [vreg_defs]: "VRegB_31c inst = Fetch32 inst 1"

definition VRegB_31i :: "u16 list \<Rightarrow> u32 option" where
  [vreg_defs]: "VRegB_31i inst = Fetch32 inst 1"

definition VRegB_31t :: "u16 list \<Rightarrow> u32 option" where
  [vreg_defs]: "VRegB_31t inst = Fetch32 inst 1"

definition VRegB_32x :: "u16 list \<Rightarrow> u16 option" where
  [vreg_defs]: "VRegB_32x inst = Fetch16 inst 2"

definition VRegB_35c :: "u16 list \<Rightarrow> u16 option" where
  [vreg_defs]: "VRegB_35c inst = Fetch16 inst 1"

definition VRegB_3rc :: "u16 list \<Rightarrow> u16 option" where
  [vreg_defs]: "VRegB_3rc inst = Fetch16 inst 1"

definition VRegB_45cc :: "u16 list \<Rightarrow> u16 option" where
  [vreg_defs]: "VRegB_45cc inst = Fetch16 inst 1"

definition VRegB_4rcc :: "u16 list \<Rightarrow> u16 option" where
  [vreg_defs]: "VRegB_4rcc inst = Fetch16 inst 1"

definition VRegB_51l :: "u16 list \<Rightarrow> u64 option" where
  [vreg_defs]: "VRegB_51l inst = do { lo \<leftarrow> Fetch32 inst 1; hi \<leftarrow> Fetch32 inst 3; Some (ucast lo OR push_bit 32 (ucast hi)) }"

definition VRegB :: "Format \<Rightarrow> u16 list \<Rightarrow> u16 \<Rightarrow> u32 option" where
  "VRegB fmt inst inst_data =
     (case fmt of
         k11n \<Rightarrow> Some (scast (VRegB_11n inst_data))
       | k12x \<Rightarrow> Some (ucast (VRegB_12x inst_data))
       | k21c \<Rightarrow> map_option ucast (VRegB_21c inst)
       | k21h \<Rightarrow> map_option ucast (VRegB_21h inst)
       | k21s \<Rightarrow> map_option scast (VRegB_21s inst)
       | k21t \<Rightarrow> map_option scast (VRegB_21t inst)
       | k22b \<Rightarrow> map_option ucast (VRegB_22b inst)
       | k22c \<Rightarrow> Some (ucast (VRegB_22c inst_data))
       | k22s \<Rightarrow> Some (ucast (VRegB_22s inst_data))
       | k22t \<Rightarrow> Some (ucast (VRegB_22t inst_data))
       | k22x \<Rightarrow> map_option ucast (VRegB_22x inst)
       | k23x \<Rightarrow> map_option ucast (VRegB_23x inst)
       | k31c \<Rightarrow> VRegB_31c inst
       | k31i \<Rightarrow> VRegB_31i inst
       | k31t \<Rightarrow> VRegB_31t inst
       | k32x \<Rightarrow> map_option ucast (VRegB_32x inst)
       | k35c \<Rightarrow> map_option ucast (VRegB_35c inst)
       | k3rc \<Rightarrow> map_option ucast (VRegB_3rc inst)
       | k45cc \<Rightarrow> map_option ucast (VRegB_45cc inst)
       | k4rcc \<Rightarrow> map_option ucast (VRegB_4rcc inst)
       | k51l \<Rightarrow> map_option ucast (VRegB_51l inst)
       | _ \<Rightarrow> None)"

definition WideVRegB :: "u16 list \<Rightarrow> u64 option" where
  "WideVRegB inst = VRegB_51l inst"

section \<open>Operand C\<close>

definition HasVRegC :: "u8 \<Rightarrow> bool" where
  "HasVRegC opcode \<longleftrightarrow> FormatOf opcode \<in>
     {k22b, k22c, k22s, k22t, k23x, k35c, k3rc, k45cc, k4rcc}"

definition VRegC_22b :: "u16 list \<Rightarrow> u8 option" where
  [vreg_defs]: "VRegC_22b inst = map_option (\<lambda>w. ucast (drop_bit 8 w)) (Fetch16 inst 1)"

definition VRegC_22c :: "u16 list \<Rightarrow> u16 option" where
  [vreg_defs]: "VRegC_22c inst = Fetch16 inst 1"

definition VRegC_22s :: "u16 list \<Rightarrow> u16 option" where
  [vreg_defs]: "VRegC_22s inst = Fetch16 inst 1"

definition VRegC_22t :: "u16 list \<Rightarrow> u16 option" where
  [vreg_defs]: "VRegC_22t inst = Fetch16 inst 1"

definition VRegC_23x :: "u16 list \<Rightarrow> u8 option" where
  [vreg_defs]: "VRegC_23x inst = map_option (\<lambda>w. ucast (drop_bit 8 w)) (Fetch16 inst 1)"

definition VRegC_35c :: "u16 list \<Rightarrow> u8 option" where
  [vreg_defs]: "VRegC_35c inst = map_option (\<lambda>w. ucast (w AND 0x0f)) (Fetch16 inst 2)"

definition VRegC_3rc :: "u16 list \<Rightarrow> u16 option" where
  [vreg_defs]: "VRegC_3rc inst = Fetch16 inst 2"

definition VRegC_45cc :: "u16 list \<Rightarrow> u8 option" where
  [vreg_defs]: "VRegC_45cc inst = map_option (\<lambda>w. ucast (w AND 0x0f)) (Fetch16 inst 2)"

definition VRegC_4rcc :: "u16 list \<Rightarrow> u16 option" where
  [vreg_defs]: "VRegC_4rcc inst = Fetch16 inst 2"

definition VRegC :: "Format \<Rightarrow> u16 list \<Rightarrow> u32 option" where
  "VRegC fmt inst =
     (case fmt of
         k22b \<Rightarrow> map_option scast (VRegC_22b inst)
       | k22c \<Rightarrow> map_option ucast (VRegC_22c inst)
       | k22s \<Rightarrow> map_option scast (VRegC_22s inst)
       | k22t \<Rightarrow> map_option scast (VRegC_22t inst)
       | k23x \<Rightarrow> map_option ucast (VRegC_23x inst)
       | k35c \<Rightarrow> map_option ucast (VRegC_35c inst)
       | k3rc \<Rightarrow> map_option ucast (VRegC_3rc inst)
       | k45cc \<Rightarrow> map_option ucast (VRegC_45cc inst)
       | k4rcc \<Rightarrow> map_option ucast (VRegC_4rcc inst)
       | _ \<Rightarrow> None)"

section \<open>Operand H and argument lists\<close>

definition HasVRegH :: "u8 \<Rightarrow> bool" where
  "HasVRegH opcode \<longleftrightarrow> FormatOf opcode \<in>
     {k45cc, k4rcc}"

definition VRegH_45cc :: "u16 list \<Rightarrow> u16 option" where
  [vreg_defs]: "VRegH_45cc inst = Fetch16 inst 3"

definition VRegH_4rcc :: "u16 list \<Rightarrow> u16 option" where
  [vreg_defs]: "VRegH_4rcc inst = Fetch16 inst 3"

definition VRegH :: "Format \<Rightarrow> u16 list \<Rightarrow> u32 option" where
  "VRegH fmt inst =
     (case fmt of
         k45cc \<Rightarrow> map_option ucast (VRegH_45cc inst)
       | k4rcc \<Rightarrow> map_option ucast (VRegH_4rcc inst)
       | _ \<Rightarrow> None)"

definition HasVarArgs :: "u8 \<Rightarrow> bool" where
  "HasVarArgs opcode \<longleftrightarrow> FormatOf opcode = k35c \<or> FormatOf opcode = k45cc"

text \<open>
  The elements of \<open>arg\<close> the switch writes, in order, and the returned count.  A count above
  five takes the default branch: it is returned with no argument written.
\<close>

definition GetVarArgs :: "u16 list \<Rightarrow> u16 \<Rightarrow> (u8 \<times> u32 list) option" where
  "GetVarArgs inst inst_data =
     do { regList \<leftarrow> Fetch16 inst 2;
          let count = InstB inst_data;
          let args = [ucast (regList AND 0x0f), ucast (drop_bit 4 regList AND 0x0f),
                      ucast (drop_bit 8 regList AND 0x0f), ucast (drop_bit 12 regList AND 0x0f),
                      ucast (InstA inst_data)];
          Some (count, if count \<le> 5 then take (unat count) args else []) }"

section \<open>Sizes\<close>

definition SizeInCodeUnitsOfFormat :: "Format \<Rightarrow> nat" where
  "SizeInCodeUnitsOfFormat fmt =
     (case fmt of
         k10x \<Rightarrow> 1 | k12x \<Rightarrow> 1 | k11n \<Rightarrow> 1 | k11x \<Rightarrow> 1 | k10t \<Rightarrow> 1
       | k20t \<Rightarrow> 2 | k22x \<Rightarrow> 2 | k21t \<Rightarrow> 2 | k21s \<Rightarrow> 2 | k21h \<Rightarrow> 2 | k21c \<Rightarrow> 2
       | k23x \<Rightarrow> 2 | k22b \<Rightarrow> 2 | k22t \<Rightarrow> 2 | k22s \<Rightarrow> 2 | k22c \<Rightarrow> 2
       | k32x \<Rightarrow> 3 | k30t \<Rightarrow> 3 | k31t \<Rightarrow> 3 | k31i \<Rightarrow> 3 | k31c \<Rightarrow> 3 | k35c \<Rightarrow> 3 | k3rc \<Rightarrow> 3
       | k45cc \<Rightarrow> 4 | k4rcc \<Rightarrow> 4
       | k51l \<Rightarrow> 5
       | kInvalidFormat \<Rightarrow> 0)"

abbreviation (input) kPackedSwitchSignature :: u16 where "kPackedSwitchSignature \<equiv> 0x0100"
abbreviation (input) kSparseSwitchSignature :: u16 where "kSparseSwitchSignature \<equiv> 0x0200"
abbreviation (input) kArrayDataSignature :: u16 where "kArrayDataSignature \<equiv> 0x0300"

definition SizeInCodeUnitsComplexOpcode :: "u16 list \<Rightarrow> nat option" where
  "SizeInCodeUnitsComplexOpcode inst =
     do { inst_data \<leftarrow> Fetch16 inst 0;
          if inst_data = kPackedSwitchSignature then
            do { n \<leftarrow> Fetch16 inst 1; Some (4 + unat n * 2) }
          else if inst_data = kSparseSwitchSignature then
            do { n \<leftarrow> Fetch16 inst 1; Some (2 + unat n * 4) }
          else if inst_data = kArrayDataSignature then
            do { element_size \<leftarrow> Fetch16 inst 1;
                 lo \<leftarrow> Fetch16 inst 2;
                 hi \<leftarrow> Fetch16 inst 3;
                 let len = (ucast lo OR push_bit 16 (ucast hi) :: u32);
                 Some (unat (4 + (ucast element_size * len + 1) div 2 :: u32)) }
          else Some 1 }"

definition SizeInCodeUnits :: "u16 list \<Rightarrow> nat option" where
  "SizeInCodeUnits inst =
     do { inst_data \<leftarrow> Fetch16 inst 0;
          let result = size_in_code_units (InstructionDescriptorOf (Opcode inst_data));
          if result < 0 then SizeInCodeUnitsComplexOpcode inst else Some (nat result) }"

section \<open>Classification and branch targets\<close>

definition IsBranch :: "u8 \<Rightarrow> bool" where
  "IsBranch opcode \<longleftrightarrow> FlagsOf opcode AND kBranch \<noteq> 0"

definition IsUnconditional :: "u8 \<Rightarrow> bool" where
  "IsUnconditional opcode \<longleftrightarrow> FlagsOf opcode AND kUnconditional \<noteq> 0"

definition CanFlowThrough :: "u8 \<Rightarrow> bool" where
  "CanFlowThrough opcode \<longleftrightarrow> FlagsOf opcode AND kContinue \<noteq> 0"

definition IsSwitch :: "u8 \<Rightarrow> bool" where
  "IsSwitch opcode \<longleftrightarrow> FlagsOf opcode AND kSwitch \<noteq> 0"

definition IsThrow :: "u8 \<Rightarrow> bool" where
  "IsThrow opcode \<longleftrightarrow> FlagsOf opcode AND kThrow \<noteq> 0"

definition IsReturn :: "u8 \<Rightarrow> bool" where
  "IsReturn opcode \<longleftrightarrow> IsReturnOf opcode"

definition IsBasicBlockEnd :: "u8 \<Rightarrow> bool" where
  "IsBasicBlockEnd opcode \<longleftrightarrow> IsBranch opcode \<or> IsReturn opcode \<or> opcode = THROW"

definition IsInvoke :: "u8 \<Rightarrow> bool" where
  "IsInvoke opcode \<longleftrightarrow> FlagsOf opcode AND kInvoke \<noteq> 0"

definition IsExperimental :: "u8 \<Rightarrow> bool" where
  "IsExperimental opcode \<longleftrightarrow> FlagsOf opcode AND kExperimental \<noteq> 0"

definition GetTargetOffset :: "u16 list \<Rightarrow> u32 option" where
  "GetTargetOffset inst =
     do { inst_data \<leftarrow> Fetch16 inst 0;
          case FormatOf (Opcode inst_data) of
            k22t \<Rightarrow> map_option scast (VRegC_22t inst)
          | k21t \<Rightarrow> map_option scast (VRegB_21t inst)
          | k10t \<Rightarrow> Some (scast (VRegA_10t inst_data))
          | k20t \<Rightarrow> map_option scast (VRegA_20t inst)
          | k30t \<Rightarrow> VRegA_30t inst
          | _ \<Rightarrow> None }"

section \<open>Rewriting an instruction in place\<close>

definition SetOpcode :: "u8 \<Rightarrow> u16 list \<Rightarrow> u16 list" where
  "SetOpcode opcode insns = insns[0 := (insns ! 0 AND 0xff00) OR ucast opcode]"

definition SetVRegA_10x :: "u8 \<Rightarrow> u16 list \<Rightarrow> u16 list" where
  "SetVRegA_10x val insns = insns[0 := push_bit 8 (ucast val) OR (insns ! 0 AND 0x00ff)]"

definition SetVRegB_3rc :: "u16 \<Rightarrow> u16 list \<Rightarrow> u16 list" where
  "SetVRegB_3rc val insns = insns[1 := val]"

definition SetVRegB_35c :: "u16 \<Rightarrow> u16 list \<Rightarrow> u16 list" where
  "SetVRegB_35c val insns = insns[1 := val]"

definition SetVRegC_22c :: "u16 \<Rightarrow> u16 list \<Rightarrow> u16 list" where
  "SetVRegC_22c val insns = insns[1 := val]"

definition SetVRegA_21c :: "u8 \<Rightarrow> u16 list \<Rightarrow> u16 list" where
  "SetVRegA_21c val insns = insns[0 := push_bit 8 (ucast val) OR (insns ! 0 AND 0x00ff)]"

definition SetVRegB_21c :: "u16 \<Rightarrow> u16 list \<Rightarrow> u16 list" where
  "SetVRegB_21c val insns = insns[1 := val]"

section \<open>Operand lists\<close>

datatype InstructionOperands =
    RangeInstructionOperands u32 u64
  | VarArgsInstructionOperands "u32 list" u64
  | NoReceiverInstructionOperands InstructionOperands

fun GetNumberOfOperands :: "InstructionOperands \<Rightarrow> u64" where
  "GetNumberOfOperands (RangeInstructionOperands first_operand num_operands) = num_operands"
| "GetNumberOfOperands (VarArgsInstructionOperands operands num_operands) = num_operands"
| "GetNumberOfOperands (NoReceiverInstructionOperands inner) = GetNumberOfOperands inner - 1"

fun GetOperand :: "InstructionOperands \<Rightarrow> u64 \<Rightarrow> u32 option" where
  "GetOperand (RangeInstructionOperands first_operand num_operands) operand_index =
     Some (ucast (ucast first_operand + operand_index))"
| "GetOperand (VarArgsInstructionOperands operands num_operands) operand_index =
     (if unat operand_index < length operands then Some (operands ! unat operand_index) else None)"
| "GetOperand (NoReceiverInstructionOperands inner) operand_index =
     GetOperand inner (operand_index + 1)"

section \<open>Payloads\<close>

text \<open>The packed structures that follow the code, read at the code unit they start at.\<close>

definition PackedSwitch_case_count :: "u16 list \<Rightarrow> u16 option" where
  "PackedSwitch_case_count p = Fetch16 p 1"

definition PackedSwitch_first_key :: "u16 list \<Rightarrow> u32 option" where
  "PackedSwitch_first_key p = Fetch32 p 2"

definition PackedSwitch_targets :: "u16 list \<Rightarrow> nat \<Rightarrow> u32 option" where
  "PackedSwitch_targets p i = Fetch32 p (4 + 2 * i)"

definition SparseSwitch_case_count :: "u16 list \<Rightarrow> u16 option" where
  "SparseSwitch_case_count p = Fetch16 p 1"

definition SparseSwitch_GetKeys :: "u16 list \<Rightarrow> nat \<Rightarrow> u32 option" where
  "SparseSwitch_GetKeys p i = Fetch32 p (2 + 2 * i)"

definition SparseSwitch_GetTargets :: "u16 list \<Rightarrow> nat \<Rightarrow> u32 option" where
  "SparseSwitch_GetTargets p i =
     do { case_count \<leftarrow> SparseSwitch_case_count p; Fetch32 p (2 + 2 * (unat case_count + i)) }"

definition ArrayData_element_width :: "u16 list \<Rightarrow> u16 option" where
  "ArrayData_element_width p = Fetch16 p 1"

definition ArrayData_element_count :: "u16 list \<Rightarrow> u32 option" where
  "ArrayData_element_count p = Fetch32 p 2"

definition ArrayData_data :: "u16 list \<Rightarrow> nat \<Rightarrow> u8 option" where
  "ArrayData_data p i =
     do { w \<leftarrow> Fetch16 p (4 + i div 2);
          Some (if even i then ucast w else ucast (drop_bit 8 w)) }"

section \<open>Facts about fetching and formats\<close>

lemma Fetch16_None [simp]: "Fetch16 inst n = None \<longleftrightarrow> length inst \<le> n"
  by (simp add: Fetch16_def)

lemma Fetch16_Some_ex [simp]: "(\<exists>y. Fetch16 inst n = Some y) \<longleftrightarrow> n < length inst"
  by (simp add: Fetch16_def)

lemma Fetch32_None [simp]: "Fetch32 inst n = None \<longleftrightarrow> length inst \<le> n + 1"
  by (auto simp: Fetch32_def Fetch16_def)

lemma Fetch32_Some_ex [simp]: "(\<exists>y. Fetch32 inst n = Some y) \<longleftrightarrow> n + 1 < length inst"
  by (auto simp: Fetch32_def Fetch16_def)

lemma size_of_descriptor:
  "size_in_code_units (InstructionDescriptorOf opcode) = InstructionSizeInCodeUnitsByOpcode opcode (FormatOf opcode)"
  using descriptor_row [of opcode] by (auto simp: FormatOf_def)

lemma FormatOf_valid: "FormatOf opcode \<noteq> kInvalidFormat"
  using row_consistent [of opcode] by (simp add: row_consistent_def FormatOf_def Let_def)

lemma size_by_format:
  "opcode \<noteq> NOP \<Longrightarrow> fmt \<noteq> kInvalidFormat \<Longrightarrow>
   InstructionSizeInCodeUnitsByOpcode opcode fmt = int (SizeInCodeUnitsOfFormat fmt)"
  by (cases fmt) (simp_all add: InstructionSizeInCodeUnitsByOpcode_def SizeInCodeUnitsOfFormat_def less_eq_Format_def)

lemma SizeInCodeUnitsOfFormat_pos: "fmt \<noteq> kInvalidFormat \<Longrightarrow> 0 < SizeInCodeUnitsOfFormat fmt"
  by (cases fmt) (simp_all add: SizeInCodeUnitsOfFormat_def)

lemma SizeInCodeUnits_non_nop:
  "Fetch16 inst 0 = Some d \<Longrightarrow> Opcode d \<noteq> NOP \<Longrightarrow>
   SizeInCodeUnits inst = Some (SizeInCodeUnitsOfFormat (FormatOf (Opcode d)))"
  by (simp add: SizeInCodeUnits_def size_of_descriptor size_by_format FormatOf_valid)

lemma SizeInCodeUnits_nop:
  "Fetch16 inst 0 = Some d \<Longrightarrow> Opcode d = NOP \<Longrightarrow> SizeInCodeUnits inst = SizeInCodeUnitsComplexOpcode inst"
  by (simp add: SizeInCodeUnits_def size_of_descriptor InstructionSizeInCodeUnitsByOpcode_def)

lemma array_payload_size_pos [simp]: "0 < unat (4 + (x + 1) div 2 :: u32)"
proof -
  have "unat ((x + 1) div 2 :: u32) < 2 ^ 31"
    using unsigned_less [of "x + 1", where ?'a = nat] by (simp add: unat_div)
  then have "unat (4 + (x + 1) div 2 :: u32) = 4 + unat ((x + 1) div 2 :: u32)"
    by (subst unat_add_lem [THEN iffD1]) simp_all
  then show ?thesis by simp
qed

lemma SizeInCodeUnitsComplexOpcode_pos: "SizeInCodeUnitsComplexOpcode inst = Some n \<Longrightarrow> 0 < n"
  by (auto simp: SizeInCodeUnitsComplexOpcode_def Let_def bind_eq_Some_conv simp del: unat_gt_0
      split: if_splits)

lemma SizeInCodeUnits_pos: "SizeInCodeUnits inst = Some n \<Longrightarrow> 0 < n"
  using SizeInCodeUnits_non_nop SizeInCodeUnits_nop SizeInCodeUnitsComplexOpcode_pos
    SizeInCodeUnitsOfFormat_pos [OF FormatOf_valid]
  by (cases "Fetch16 inst 0") (force simp: SizeInCodeUnits_def)+

section \<open>The low and the high byte of the first code unit\<close>

lemma mask8: "(0xff :: 'a::len word) = mask 8"
  by (simp add: mask_eq_exp_minus_1)
lemma maskff00: "bit (0xff00 :: u16) n \<longleftrightarrow> 8 \<le> n \<and> n < 16"
proof -
  have "(0xff00 :: u16) = push_bit 8 (mask 8)" by (simp add: mask_eq_exp_minus_1)
  then have "bit (0xff00 :: u16) n = bit (push_bit 8 (mask 8) :: u16) n" by (simp only:)
  also have "\<dots> \<longleftrightarrow> 8 \<le> n \<and> n < 16"
    by (simp only: bit_push_bit_iff bit_mask_iff) auto
  finally show ?thesis .
qed
lemma Opcode_join [simp]: "Opcode (push_bit 8 (ucast (a :: u8)) OR ucast (b :: u8)) = b"
  unfolding Opcode_def mask8 by (rule bit_word_eqI) (auto simp: bit_simps dest: bit_imp_le_length)

lemma InstAA_join [simp]: "InstAA (push_bit 8 (ucast (a :: u8)) OR ucast (b :: u8)) = a"
  unfolding InstAA_def by (rule bit_word_eqI) (auto simp: bit_simps dest: bit_imp_le_length)

lemma keep_low: "push_bit 8 (ucast (a :: u8)) OR (d AND 0xff) = push_bit 8 (ucast a) OR ucast (Opcode d)"
  unfolding Opcode_def mask8 by (rule bit_word_eqI) (auto simp: bit_simps)
lemma keep_high: "(d AND 0xff00) OR ucast (b :: u8) = push_bit 8 (ucast (InstAA d)) OR ucast b"
  unfolding InstAA_def
  by (rule bit_word_eqI) (auto simp only: bit_or_iff bit_and_iff bit_push_bit_iff bit_unsigned_iff bit_drop_bit_eq maskff00
      dest: bit_imp_le_length, auto)

section \<open>Properties\<close>

lemma array_payload_size:
  fixes w :: u16 and c :: u32
  assumes "unat w * unat c + 1 < 2 ^ 32"
  shows "unat (4 + (ucast w * c + 1) div 2 :: u32) = 4 + (unat w * unat c + 1) div 2"
proof -
  have "unat (ucast w * c :: u32) = unat w * unat c"
    using assms by (subst unat_mult_lem [THEN iffD1]) (simp_all add: unat_ucast_up)
  moreover from this have "unat (ucast w * c + 1 :: u32) = unat w * unat c + 1"
    using assms by (subst unat_add_lem [THEN iffD1]) simp_all
  ultimately have "unat ((ucast w * c + 1) div 2 :: u32) = (unat w * unat c + 1) div 2" by (simp add: unat_div)
  moreover from this have "unat (4 + (ucast w * c + 1) div 2 :: u32) = 4 + unat ((ucast w * c + 1) div 2 :: u32)"
    using assms by (subst unat_add_lem [THEN iffD1]) simp_all
  ultimately show ?thesis by simp
qed

text \<open>
  C32.  The precomputed descriptor sizes agree with \<open>SizeInCodeUnits(Format)\<close>: every
  instruction whose opcode is not \<open>NOP\<close> has the size of its format.  A switch payload has the size of
  its header and its entries, array data that of its header and its bytes, rounded up to code units,
  where that computation does not leave 32 bits, and every other \<open>NOP\<close> has size one.  None has size
  zero, so that stepping over an instruction always advances.
\<close>

theorem SizeInCodeUnits_correct:
  assumes "Fetch16 inst 0 = Some inst_data"
  shows "(Opcode inst_data \<noteq> NOP \<longrightarrow>
            SizeInCodeUnits inst = Some (SizeInCodeUnitsOfFormat (FormatOf (Opcode inst_data)))) \<and>
         (inst_data = kPackedSwitchSignature \<longrightarrow> Fetch16 inst 1 = Some n \<longrightarrow> SizeInCodeUnits inst = Some (4 + 2 * unat n)) \<and>
         (inst_data = kSparseSwitchSignature \<longrightarrow> Fetch16 inst 1 = Some n \<longrightarrow> SizeInCodeUnits inst = Some (2 + 4 * unat n)) \<and>
         (inst_data = kArrayDataSignature \<longrightarrow> Fetch16 inst 1 = Some n \<longrightarrow> Fetch32 inst 2 = Some len \<longrightarrow>
            unat n * unat len + 1 < 2 ^ 32 \<longrightarrow> SizeInCodeUnits inst = Some (4 + (unat n * unat len + 1) div 2)) \<and>
         (Opcode inst_data = NOP \<longrightarrow> inst_data \<notin> {kPackedSwitchSignature, kSparseSwitchSignature, kArrayDataSignature} \<longrightarrow>
            SizeInCodeUnits inst = Some 1) \<and>
         SizeInCodeUnits inst \<noteq> Some 0"
proof -
  have complex: "Opcode inst_data = NOP \<Longrightarrow> SizeInCodeUnits inst = SizeInCodeUnitsComplexOpcode inst"
    by (rule SizeInCodeUnits_nop [OF assms])
  have nops: "Opcode kPackedSwitchSignature = NOP" "Opcode kSparseSwitchSignature = NOP" "Opcode kArrayDataSignature = NOP"
    by (simp_all add: Opcode_def)
  have array: "SizeInCodeUnits inst = Some (4 + (unat n * unat len + 1) div 2)"
    if a: "inst_data = kArrayDataSignature" "Fetch16 inst 1 = Some n" "Fetch32 inst 2 = Some len" "unat n * unat len + 1 < 2 ^ 32"
  proof -
    obtain lo hi where lo: "Fetch16 inst 2 = Some lo" "Fetch16 inst 3 = Some hi" "len = ucast lo OR push_bit 16 (ucast hi)"
      using a(3) by (auto simp: Fetch32_def bind_eq_Some_conv)
    then show ?thesis using complex nops assms a(1,2) array_payload_size [OF a(4)]
      by (simp add: SizeInCodeUnitsComplexOpcode_def Let_def)
  qed
  show ?thesis
    using SizeInCodeUnits_non_nop [OF assms] SizeInCodeUnits_pos [of inst 0] complex nops assms array
    by (auto simp: SizeInCodeUnitsComplexOpcode_def)
qed

theorem SizeInCodeUnits_correct_witness:
  "SizeInCodeUnits [0x0300, 2, 3, 0, 5, 6, 7] = Some 7 \<and>
   SizeInCodeUnits [0x0014, 7, 0] = Some (SizeInCodeUnitsOfFormat (FormatOf (Opcode 0x0014)))"
  using SizeInCodeUnits_correct [of "[0x0300, 2, 3, 0, 5, 6, 7]" "0x0300" 2 3]
    SizeInCodeUnits_correct [of "[0x0014, 7, 0]" "0x0014"] by (simp add: Fetch16_def Fetch32_def Opcode_def)

lemma operand_reads:
  assumes "Fetch16 inst 0 = Some inst_data" and "opcode = Opcode inst_data"
    and "SizeInCodeUnitsOfFormat (FormatOf opcode) \<le> length inst"
  shows "VRegA (FormatOf opcode) inst inst_data \<noteq> None \<and>
    (HasVRegB opcode \<longrightarrow> VRegB (FormatOf opcode) inst inst_data \<noteq> None) \<and>
    (HasVRegC opcode \<longrightarrow> VRegC (FormatOf opcode) inst \<noteq> None) \<and>
    (HasVRegH opcode \<longrightarrow> VRegH (FormatOf opcode) inst \<noteq> None) \<and>
    (HasVarArgs opcode \<longrightarrow> GetVarArgs inst inst_data \<noteq> None) \<and>
    (IsBranch opcode \<longrightarrow> GetTargetOffset inst \<noteq> None)"
proof (intro conjI impI)
  note size = assms(3) [unfolded SizeInCodeUnitsOfFormat_def]
  show "VRegA (FormatOf opcode) inst inst_data \<noteq> None"
    using size FormatOf_valid [of opcode]
    by (cases "FormatOf opcode") (simp_all add: VRegA_def vreg_defs)
  show "VRegB (FormatOf opcode) inst inst_data \<noteq> None" if "HasVRegB opcode"
    using size that
    by (cases "FormatOf opcode") (simp_all add: VRegB_def HasVRegB_def vreg_defs bind_Some_ex)
  show "VRegC (FormatOf opcode) inst \<noteq> None" if "HasVRegC opcode"
    using size that
    by (cases "FormatOf opcode") (simp_all add: VRegC_def HasVRegC_def vreg_defs)
  show "VRegH (FormatOf opcode) inst \<noteq> None" if "HasVRegH opcode"
    using size that
    by (cases "FormatOf opcode") (simp_all add: VRegH_def HasVRegH_def vreg_defs)
  show "GetVarArgs inst inst_data \<noteq> None" if "HasVarArgs opcode"
    using size that
    by (auto simp: GetVarArgs_def HasVarArgs_def Fetch16_def Let_def)
  show "GetTargetOffset inst \<noteq> None" if "IsBranch opcode"
    using size that assms(1,2) row_consistent [of opcode]
    by (cases "FormatOf opcode")
      (simp_all add: GetTargetOffset_def IsBranch_def FlagsOf_def row_consistent_def FormatOf_def Let_def vreg_defs)
qed

text \<open>
  C33.  Every operand an instruction has lies inside the instruction: where the code units of
  its format are present, each operand accessor that applies to the opcode reads them and
  answers, the \<open>LOG(FATAL)\<close> of the generic accessors and of \<open>GetTargetOffset\<close> being
  unreachable for it.
\<close>

theorem operands_in_instruction:
  assumes "Fetch16 inst 0 = Some inst_data" and "opcode = Opcode inst_data"
    and "SizeInCodeUnitsOfFormat (FormatOf opcode) \<le> length inst"
  shows "VRegA (FormatOf opcode) inst inst_data \<noteq> None \<and>
    (HasVRegB opcode \<longrightarrow> VRegB (FormatOf opcode) inst inst_data \<noteq> None) \<and>
    (HasVRegC opcode \<longrightarrow> VRegC (FormatOf opcode) inst \<noteq> None) \<and>
    (HasVRegH opcode \<longrightarrow> VRegH (FormatOf opcode) inst \<noteq> None) \<and>
    (HasVarArgs opcode \<longrightarrow> GetVarArgs inst inst_data \<noteq> None) \<and>
    (IsBranch opcode \<longrightarrow> GetTargetOffset inst \<noteq> None)"
  using assms by (rule operand_reads)

theorem operands_in_instruction_witness:
  "VRegB k21t [0x0138, 0xFFFE] 0x0138 \<noteq> None \<and> GetTargetOffset [0x0138, 0xFFFE] \<noteq> None"
  using operands_in_instruction [of "[0x0138, 0xFFFE]" "0x0138" IF_EQZ]
  by (simp add: Fetch16_def Opcode_def FormatOf_def IsBranch_def HasVRegB_def FlagsOf_def SizeInCodeUnitsOfFormat_def
      InstructionDescriptorOf_def kInstructionDescriptors_def DEX_INSTRUCTION_LIST_00_7F_def)

text \<open>
  The verify flags of the opcode table ask only for operands the opcode has: the
  static checks of an operand are applied to a format with that operand, argument lists and
  ranges are checked exactly for the formats that have them, a branch or switch target exactly
  for branches and switches, and no opcode is experimental.
\<close>

theorem verify_flags_match_operands:
  "(GetVerifyTypeArgumentAOf opcode \<noteq> 0 \<longrightarrow> HasVRegA opcode) \<and>
   (GetVerifyTypeArgumentBOf opcode \<noteq> 0 \<longrightarrow> HasVRegB opcode) \<and>
   (GetVerifyTypeArgumentCOf opcode \<noteq> 0 \<longrightarrow> HasVRegC opcode) \<and>
   (GetVerifyTypeArgumentHOf opcode \<noteq> 0 \<longrightarrow> HasVRegH opcode) \<and>
   (GetVerifyExtraFlagsOf opcode AND (kVerifyVarArg OR kVerifyVarArgNonZero) \<noteq> 0) = HasVarArgs opcode \<and>
   (GetVerifyExtraFlagsOf opcode AND (kVerifyVarArgRange OR kVerifyVarArgRangeNonZero) \<noteq> 0) =
     (FormatOf opcode \<in> {k3rc, k4rcc}) \<and>
   (GetVerifyExtraFlagsOf opcode AND kVerifyBranchTarget \<noteq> 0) = IsBranch opcode \<and>
   (GetVerifyExtraFlagsOf opcode AND kVerifySwitchTargets \<noteq> 0) = IsSwitch opcode \<and>
   \<not> IsExperimental opcode"
proof -
  note row = row_consistent [of opcode, unfolded row_consistent_def Let_def,
      folded FormatOf_def VerifyFlagsOf_def FlagsOf_def]
  have "HasVRegA opcode"
    using FormatOf_valid [of opcode] by (cases "FormatOf opcode") (simp_all add: HasVRegA_def)
  then show ?thesis
    using row
    by (simp add: GetVerifyTypeArgumentBOf_def GetVerifyTypeArgumentCOf_def GetVerifyTypeArgumentHOf_def
        GetVerifyExtraFlagsOf_def HasVRegB_def HasVRegC_def HasVRegH_def HasVarArgs_def IsBranch_def
        IsSwitch_def IsExperimental_def and.assoc) blast
qed

theorem verify_flags_match_operands_witness:
  "GetVerifyTypeArgumentHOf INVOKE_POLYMORPHIC \<noteq> 0 \<and> HasVRegH INVOKE_POLYMORPHIC"
  using verify_flags_match_operands [of INVOKE_POLYMORPHIC]
  by (simp add: GetVerifyTypeArgumentHOf_def VerifyFlagsOf_def InstructionDescriptorOf_def
      kInstructionDescriptors_def DEX_INSTRUCTION_LIST_00_7F_def DEX_INSTRUCTION_LIST_80_FF_def)

text \<open>
  Rewriting an instruction of format 21c in place changes the field it names and nothing else:
  the opcode, operand A and operand B read back from the rewritten code units are the ones
  written last, whatever the order of the writes, and the rest of the code is untouched.
\<close>

theorem setters_21c:
  assumes "2 \<le> length inst"
  shows "\<exists>inst_data. SetOpcode opcode (SetVRegA_21c a (SetVRegB_21c b inst)) = inst_data # b # drop 2 inst \<and>
    SetVRegB_21c b (SetVRegA_21c a (SetOpcode opcode inst)) = inst_data # b # drop 2 inst \<and>
    Opcode inst_data = opcode \<and> VRegA_21c inst_data = a \<and> VRegB_21c (inst_data # b # drop 2 inst) = Some b"
proof -
  obtain d e rest where inst: "inst = d # e # rest"
    using assms by (cases inst; cases "tl inst") auto
  show ?thesis
    by (intro exI [of _ "push_bit 8 (ucast a) OR ucast opcode"])
      (simp add: inst SetOpcode_def SetVRegA_21c_def SetVRegB_21c_def vreg_defs Fetch16_def keep_low keep_high)
qed

theorem setters_21c_witness:
  "\<exists>inst_data. SetOpcode CONST_STRING (SetVRegA_21c 3 (SetVRegB_21c 9 [0x0060, 1, 2])) = [inst_data, 9, 2] \<and>
    Opcode inst_data = CONST_STRING \<and> VRegA_21c inst_data = 3"
  using setters_21c [of "[0x0060, 1, 2]" CONST_STRING 3 9] by auto

end
