(* ===== verification/CodeItem.thy ===== *)
theory CodeItem
  imports Leb128 DexInstruction
begin

text \<open>
  Code items: the try table of a method and the encoded catch handlers behind it.  Models
  \<open>DexFile::FindTryItem\<close> (\<open>libdexfile/dex/dex_file.cc\<close>), \<open>CatchHandlerIterator\<close>
  (\<open>dex_file_exception_helpers.cc\<close>, \<open>.h\<close>), \<open>CodeItemDataAccessor\<close>
  (\<open>code_item_accessors-inl.h\<close>) and \<open>ArtMethod::FindCatchBlock\<close>
  (\<open>runtime/art_method.cc\<close>).

  The accessor carries the arrays its pointers lead to: the code units, the try items that
  \<open>GetTryItems\<close> finds behind them, and the handler bytes that \<open>GetCatchHandlerData\<close> finds
  behind these, so the alignment of the file layout does not appear.
\<close>

section \<open>Data\<close>

record TryItem =
  start_addr :: u32
  insn_count :: u16
  handler_off :: u16

record CodeItemDataAccessor =
  registers_size :: u16
  ins_size :: u16
  outs_size :: u16
  insns :: "u16 list"
  try_items :: "TryItem list"
  handler_data :: "u8 list"

definition InsnsSizeInCodeUnits :: "CodeItemDataAccessor \<Rightarrow> u32" where
  "InsnsSizeInCodeUnits accessor = of_nat (length (insns accessor))"

definition TriesSize :: "CodeItemDataAccessor \<Rightarrow> u16" where
  "TriesSize accessor = of_nat (length (try_items accessor))"

definition InstructionAt :: "CodeItemDataAccessor \<Rightarrow> u32 \<Rightarrow> u16 list" where
  "InstructionAt accessor dex_pc = drop (unat dex_pc) (insns accessor)"

definition GetCatchHandlerData :: "CodeItemDataAccessor \<Rightarrow> u32 \<Rightarrow> u8 list" where
  "GetCatchHandlerData accessor offset = drop (unat offset) (handler_data accessor)"

section \<open>The try table\<close>

text \<open>
  The interval of a try item and the two tests of the search.  The end is computed in 32 bits.
\<close>

definition try_end :: "TryItem \<Rightarrow> u32" where
  "try_end ti = start_addr ti + ucast (insn_count ti)"

partial_function (option) FindTryItemLoop :: "TryItem list \<Rightarrow> u32 \<Rightarrow> u32 \<Rightarrow> u32 \<Rightarrow> u32 option" where
  "FindTryItemLoop items address mn mx =
     (if mn < mx then
        (let mid = (mn + mx) div 2 in
           if unat mid < length items then
             (let ti = items ! unat mid in
                if address < start_addr ti then FindTryItemLoop items address mn mid
                else if try_end ti \<le> address then FindTryItemLoop items address (mid + 1) mx
                else Some mid)
           else None)
      else Some (-1))"

declare FindTryItemLoop.simps [code]

definition FindTryItem :: "TryItem list \<Rightarrow> u32 \<Rightarrow> u32 \<Rightarrow> u32 option" where
  "FindTryItem items tries_size address = FindTryItemLoop items address 0 tries_size"

definition Accessor_FindTryItem :: "CodeItemDataAccessor \<Rightarrow> u32 \<Rightarrow> TryItem option option" where
  "Accessor_FindTryItem accessor try_dex_pc =
     do { index \<leftarrow> FindTryItem (try_items accessor) (ucast (TriesSize accessor)) try_dex_pc;
          Some (if index \<noteq> -1 then Some (try_items accessor ! unat index) else None) }"

section \<open>Catch handlers\<close>

abbreviation (input) kDexNoIndex16 :: u16 where "kDexNoIndex16 \<equiv> 0xFFFF"
abbreviation (input) kDexNoIndex :: u32 where "kDexNoIndex \<equiv> 0xFFFFFFFF"

record CatchHandlerIterator =
  handler_type_idx :: u16
  handler_address :: u32
  current_data :: "u8 list"
  remaining_count :: u32
  catch_all :: bool

definition HasNext :: "CatchHandlerIterator \<Rightarrow> bool" where
  "HasNext it \<longleftrightarrow> remaining_count it \<noteq> -1 \<or> catch_all it"

definition CatchHandlerIterator_Next :: "CatchHandlerIterator \<Rightarrow> CatchHandlerIterator option" where
  "CatchHandlerIterator_Next it =
     (if 0 <s remaining_count it then
        do { (type_idx, data) \<leftarrow> DecodeUnsignedLeb128 (current_data it);
             (address, data) \<leftarrow> DecodeUnsignedLeb128 data;
             Some (it\<lparr>handler_type_idx := ucast type_idx, handler_address := address,
                      current_data := data, remaining_count := remaining_count it - 1\<rparr>) }
      else if catch_all it then
        do { (address, data) \<leftarrow> DecodeUnsignedLeb128 (current_data it);
             Some (it\<lparr>handler_type_idx := kDexNoIndex16, handler_address := address,
                      current_data := data, catch_all := False\<rparr>) }
      else Some (it\<lparr>remaining_count := -1\<rparr>))"

definition CatchHandlerIterator_InitData :: "u8 list \<Rightarrow> CatchHandlerIterator option" where
  "CatchHandlerIterator_InitData data =
     do { (count, data) \<leftarrow> DecodeSignedLeb128 data;
          CatchHandlerIterator_Next
            \<lparr>handler_type_idx = kDexNoIndex16, handler_address = -1, current_data = data,
             remaining_count = (if count \<le>s 0 then - count else count),
             catch_all = (count \<le>s 0)\<rparr> }"

definition CatchHandlerIterator_Init :: "CodeItemDataAccessor \<Rightarrow> u32 \<Rightarrow> CatchHandlerIterator option" where
  "CatchHandlerIterator_Init accessor offset =
     (if 0 \<le>s offset then CatchHandlerIterator_InitData (GetCatchHandlerData accessor offset)
      else Some \<lparr>handler_type_idx = kDexNoIndex16, handler_address = -1, current_data = [],
                 remaining_count = -1, catch_all = False\<rparr>)"

definition handler_offset :: "CodeItemDataAccessor \<Rightarrow> u32 \<Rightarrow> u32 option" where
  "handler_offset accessor address =
     (if TriesSize accessor = 0 then Some (-1)
      else if TriesSize accessor = 1 then
        (let ti = try_items accessor ! 0 in
           Some (if start_addr ti \<le> address \<and> address < try_end ti
                 then ucast (handler_off ti) else -1))
      else
        do { ti \<leftarrow> Accessor_FindTryItem accessor address;
             Some (case ti of Some ti \<Rightarrow> ucast (handler_off ti) | None \<Rightarrow> -1) })"

definition CatchHandlerIterator_at :: "CodeItemDataAccessor \<Rightarrow> u32 \<Rightarrow> CatchHandlerIterator option" where
  "CatchHandlerIterator_at accessor address =
     do { offset \<leftarrow> handler_offset accessor address; CatchHandlerIterator_Init accessor offset }"

definition CatchHandlerIterator_of_try :: "CodeItemDataAccessor \<Rightarrow> TryItem \<Rightarrow> CatchHandlerIterator option" where
  "CatchHandlerIterator_of_try accessor try_item =
     CatchHandlerIterator_Init accessor (ucast (handler_off try_item))"

definition EndDataPointer :: "CatchHandlerIterator \<Rightarrow> u8 list option" where
  "EndDataPointer it = (if \<not> HasNext it then Some (current_data it) else None)"

subsection \<open>Iterating\<close>

text \<open>
  A loop \<open>for (it; it.HasNext(); it.Next())\<close> calls \<open>Next\<close> until both the count and the
  catch-all flag are used up.
\<close>

definition iterator_fuel :: "CatchHandlerIterator \<Rightarrow> nat" where
  "iterator_fuel it = 3 * nat (sint (remaining_count it)) + (if catch_all it then 2 else 0) +
     (if remaining_count it \<noteq> -1 then 1 else 0)"

lemma Next_decreases:
  assumes "CatchHandlerIterator_Next it = Some it'" "HasNext it"
  shows "iterator_fuel it' < iterator_fuel it"
proof (cases "0 < sint (remaining_count it)")
  case True
  then have "remaining_count it \<noteq> -1" by auto
  with True assms(1) show ?thesis
    by (auto simp: CatchHandlerIterator_Next_def iterator_fuel_def word_sless_0 sint_dec bind_eq_Some_conv)
next
  case False
  with assms show ?thesis
    by (auto simp: CatchHandlerIterator_Next_def iterator_fuel_def word_sless_0 HasNext_def bind_eq_Some_conv
        split: if_splits)
qed

function collect_handlers :: "CatchHandlerIterator \<Rightarrow> ((u16 \<times> u32) list \<times> CatchHandlerIterator) option" where
  "collect_handlers it =
     (if HasNext it then
        do { it' \<leftarrow> CatchHandlerIterator_Next it;
             (hs, last_it) \<leftarrow> collect_handlers it';
             Some ((handler_type_idx it, handler_address it) # hs, last_it) }
      else Some ([], it))"
  by pat_completeness auto
termination by (relation "measure iterator_fuel") (simp_all add: Next_decreases)

declare collect_handlers.simps [simp del]

subsection \<open>Finding the catch block\<close>

text \<open>
  \<open>resolve\<close> stands for \<open>ResolveClassFromTypeIndex\<close> and the assignability test on the
  exception being thrown: \<open>None\<close> when the class of the handler cannot be resolved (the error is
  cleared and the handler skipped), otherwise the answer of \<open>IsAssignableFrom\<close>.  It may change
  the state of the runtime.
\<close>

function FindCatchBlockLoop ::
  "('s \<Rightarrow> u16 \<Rightarrow> bool option \<times> 's) \<Rightarrow> CatchHandlerIterator \<Rightarrow> 's \<Rightarrow> (u32 \<times> 's) option" where
  "FindCatchBlockLoop resolve it s =
     (if HasNext it then
        (if handler_type_idx it = kDexNoIndex16 then Some (handler_address it, s)
         else (case resolve s (handler_type_idx it) of
                 (Some True, s') \<Rightarrow> Some (handler_address it, s')
               | (_, s') \<Rightarrow>
                   do { it' \<leftarrow> CatchHandlerIterator_Next it; FindCatchBlockLoop resolve it' s' }))
      else Some (kDexNoIndex, s))"
  by pat_completeness auto
termination
  by (relation "measure (\<lambda>(resolve, it, s). iterator_fuel it)") (simp_all add: Next_decreases)

declare FindCatchBlockLoop.simps [simp del]

definition FindCatchBlock ::
  "('s \<Rightarrow> u16 \<Rightarrow> bool option \<times> 's) \<Rightarrow> CodeItemDataAccessor \<Rightarrow> u32 \<Rightarrow> bool \<Rightarrow> 's \<Rightarrow> (u32 \<times> bool \<times> 's) option" where
  "FindCatchBlock resolve accessor dex_pc has_no_move_exception s =
     do { it \<leftarrow> CatchHandlerIterator_at accessor dex_pc;
          (found_dex_pc, s') \<leftarrow> FindCatchBlockLoop resolve it s;
          if found_dex_pc \<noteq> kDexNoIndex then
            do { inst_data \<leftarrow> Fetch16 (InstructionAt accessor found_dex_pc) 0;
                 Some (found_dex_pc, Opcode inst_data \<noteq> MOVE_EXCEPTION, s') }
          else Some (found_dex_pc, has_no_move_exception, s') }"

subsection \<open>The end of the handler data\<close>

primrec skip_unsigned :: "nat \<Rightarrow> u8 list \<Rightarrow> u8 list option" where
  "skip_unsigned 0 data = Some data"
| "skip_unsigned (Suc n) data = do { (v, data') \<leftarrow> DecodeUnsignedLeb128 data; skip_unsigned n data' }"

definition skip_handler :: "u8 list \<Rightarrow> u8 list option" where
  "skip_handler data =
     do { (v, data') \<leftarrow> DecodeSignedLeb128 data;
          let uleb128_count = v * 2;
          let uleb128_count = (if uleb128_count \<le>s 0 then - uleb128_count + 1 else uleb128_count);
          skip_unsigned (nat (sint uleb128_count)) data' }"

primrec skip_handlers :: "nat \<Rightarrow> u8 list \<Rightarrow> u8 list option" where
  "skip_handlers 0 data = Some data"
| "skip_handlers (Suc n) data = do { data' \<leftarrow> skip_handler data; skip_handlers n data' }"

text \<open>The inner \<open>None\<close> is the end of the code units, the answer for a method without tries.\<close>

definition CodeItemDataEnd :: "CodeItemDataAccessor \<Rightarrow> u8 list option option" where
  "CodeItemDataEnd accessor =
     (if TriesSize accessor = 0 then Some None
      else do { (handlers_size, data) \<leftarrow> DecodeUnsignedLeb128 (GetCatchHandlerData accessor 0);
                data' \<leftarrow> skip_handlers (unat handlers_size) data;
                Some (Some data') })"

section \<open>The contracts\<close>

text \<open>
  Well-formed try tables: ordered, disjoint, and ending inside the 32-bit address range.  The
  encoding of a handler list as the dex format has it: the number of typed handlers, negated
  when a catch-all follows, and then the handlers.  What a search through the handlers is
  meant to find.
\<close>

definition tries_ok :: "TryItem list \<Rightarrow> bool" where
  "tries_ok items \<longleftrightarrow>
     list_all (\<lambda>ti. unat (start_addr ti) + unat (insn_count ti) < 2 ^ 32) items \<and>
     sorted_wrt (\<lambda>s t. unat (start_addr s) + unat (insn_count s) \<le> unat (start_addr t)) items"

definition covers :: "TryItem \<Rightarrow> u32 \<Rightarrow> bool" where
  "covers ti address \<longleftrightarrow>
     unat (start_addr ti) \<le> unat address \<and> unat address < unat (start_addr ti) + unat (insn_count ti)"

definition lies_before :: "TryItem \<Rightarrow> u32 \<Rightarrow> bool" where
  "lies_before ti address \<longleftrightarrow> address < start_addr ti"

definition lies_after :: "TryItem \<Rightarrow> u32 \<Rightarrow> bool" where
  "lies_after ti address \<longleftrightarrow> start_addr ti \<le> address \<and> try_end ti \<le> address"

definition encode_typed :: "(u32 \<times> u32) list \<Rightarrow> u8 list" where
  "encode_typed hs = concat (map (\<lambda>(t, a). EncodeUnsignedLeb128 (ucast t) @ EncodeUnsignedLeb128 (ucast a)) hs)"

definition encode_default :: "u32 option \<Rightarrow> u8 list" where
  "encode_default dflt = (case dflt of None \<Rightarrow> [] | Some a \<Rightarrow> EncodeUnsignedLeb128 (ucast a))"

definition encode_handler :: "(u32 \<times> u32) list \<times> u32 option \<Rightarrow> u8 list" where
  "encode_handler h =
     (case h of (hs, dflt) \<Rightarrow>
        PushBackSigned [] (if dflt = None then of_nat (length hs) else - of_nat (length hs)) @
        encode_typed hs @ encode_default dflt)"

definition example_accessor :: CodeItemDataAccessor where
  "example_accessor =
     \<lparr>registers_size = 2, ins_size = 0, outs_size = 0,
      insns = [0x1012, 0x0113, 5, 0x0128, 0x000e, 0x010d, 0x000e],
      try_items = [\<lparr>start_addr = 0, insn_count = 1, handler_off = 1\<rparr>,
                   \<lparr>start_addr = 1, insn_count = 2, handler_off = 3\<rparr>],
      handler_data = [2, 0, 5, 1, 7, 4]\<rparr>"

definition handler_ok :: "(u32 \<times> u32) list \<times> u32 option \<Rightarrow> bool" where
  "handler_ok h \<longleftrightarrow> length (fst h) < 2 ^ 30 \<and> (fst h \<noteq> [] \<or> snd h \<noteq> None)"

definition handler_list :: "(u32 \<times> u32) list \<times> u32 option \<Rightarrow> (u16 \<times> u32) list" where
  "handler_list h =
     (case h of (hs, dflt) \<Rightarrow>
        map (\<lambda>(t, a). (ucast t, a)) hs @
        (case dflt of None \<Rightarrow> [] | Some a \<Rightarrow> [(kDexNoIndex16, a)]))"

primrec first_match :: "('s \<Rightarrow> u16 \<Rightarrow> bool option \<times> 's) \<Rightarrow> (u16 \<times> u32) list \<Rightarrow> 's \<Rightarrow> u32 \<times> 's" where
  "first_match resolve [] s = (kDexNoIndex, s)"
| "first_match resolve (h # hs) s =
     (if fst h = kDexNoIndex16 then (snd h, s)
      else (case resolve s (fst h) of
              (Some True, s') \<Rightarrow> (snd h, s')
            | (_, s') \<Rightarrow> first_match resolve hs s'))"

section \<open>Facts about the try table\<close>

lemma tries_ok_nth:
  assumes "tries_ok items"
  shows "i < length items \<Longrightarrow> unat (start_addr (items ! i)) + unat (insn_count (items ! i)) < 2 ^ 32"
    and "i < j \<Longrightarrow> j < length items \<Longrightarrow>
      unat (start_addr (items ! i)) + unat (insn_count (items ! i)) \<le> unat (start_addr (items ! j))"
  using assms by (simp_all add: tries_ok_def list_all_length sorted_wrt_iff_nth_less)

lemma unat_try_end:
  assumes "unat (start_addr ti) + unat (insn_count ti) < 2 ^ 32"
  shows "unat (try_end ti) = unat (start_addr ti) + unat (insn_count ti)"
proof -
  have "unat (ucast (insn_count ti) :: u32) = unat (insn_count ti)"
    by (simp add: unat_ucast_up)
  then show ?thesis using assms unfolding try_end_def by (subst unat_add_lem [THEN iffD1]) simp_all
qed

lemma covers_iff:
  assumes "unat (start_addr ti) + unat (insn_count ti) < 2 ^ 32"
  shows "covers ti address \<longleftrightarrow> \<not> lies_before ti address \<and> \<not> lies_after ti address"
  by (auto simp: covers_def lies_before_def lies_after_def word_le_nat_alt word_less_nat_alt unat_try_end [OF assms])

interpretation try_table: sorted_table lies_before lies_after tries_ok
proof
  fix items :: "TryItem list" and address :: u32
  assume ok: "tries_ok items"
  show "search_ok lies_before lies_after items address"
    unfolding search_ok_def
  proof (intro allI impI)
    fix i j assume ij: "i < j" "j < length items"
    then have le: "unat (start_addr (items ! i)) + unat (insn_count (items ! i)) \<le> unat (start_addr (items ! j))"
      and e: "unat (try_end (items ! i)) = unat (start_addr (items ! i)) + unat (insn_count (items ! i))"
      using tries_ok_nth [OF ok] by (auto simp: unat_try_end)
    then show "(lies_before (items ! i) address \<longrightarrow> lies_before (items ! j) address) \<and>
        (lies_after (items ! j) address \<longrightarrow> lies_after (items ! i) address) \<and>
        (lies_before (items ! j) address \<or> lies_after (items ! i) address)"
      by (auto simp: lies_before_def lies_after_def word_le_nat_alt word_less_nat_alt)
  qed
qed

lemma unat_mid:
  fixes mn mx :: u32
  assumes "unat mn + unat mx < 2 ^ 32"
  shows "unat ((mn + mx) div 2) = (unat mn + unat mx) div 2"
  using assms by (simp add: unat_div unat_add_lem [THEN iffD1])

lemma FindTryItemLoop_correct:
  assumes "tries_ok items" "length items < 2 ^ 31"
    and "unat mx \<le> length items" "narrowed lies_before lies_after items address (unat mn) (unat mx)"
  shows "\<exists>r. FindTryItemLoop items address mn mx = Some r \<and>
    (if hits lies_before lies_after items address = {} then r = -1
     else unat r < length items \<and> hits lies_before lies_after items address = {unat r})"
  using assms(3,4)
proof (induction "unat mx - unat mn" arbitrary: mn mx rule: less_induct)
  case less
  show ?case
  proof (cases "mn < mx")
    case False
    then have "hits lies_before lies_after items address = {}"
      using less.prems(2) by (intro try_table.narrow_empty) (simp_all add: word_less_nat_alt not_less)
    then show ?thesis using False by (simp add: FindTryItemLoop.simps)
  next
    case True
    define mid where "mid = (mn + mx) div 2"
    have lt: "unat mn < unat mx" using True by (simp add: word_less_nat_alt)
    have m: "unat mid = (unat mn + unat mx) div 2"
      unfolding mid_def using lt less.prems(1) assms(2) by (intro unat_mid) simp
    have mid: "unat mn \<le> unat mid" "unat mid < unat mx" "unat mid < length items"
      using lt less.prems(1) m by auto
    have mid1: "unat (mid + 1) = Suc (unat mid)"
      using mid assms(2) less.prems(1) by (simp add: unat_add_lem [THEN iffD1])
    let ?ti = "items ! unat mid"
    note unfold = FindTryItemLoop.simps [of items address mn mx] Let_def mid_def [symmetric]
    consider "lies_before ?ti address" | "\<not> lies_before ?ti address" "lies_after ?ti address"
      | "\<not> lies_before ?ti address" "\<not> lies_after ?ti address" by blast
    then show ?thesis
    proof cases
      case 1
      have "narrowed lies_before lies_after items address (unat mn) (unat mid)"
        by (rule try_table.narrow_left [OF assms(1) less.prems(2) 1])
      then show ?thesis
        using less.hyps [of mid mn] mid lt less.prems(1) 1 True
        by (simp add: unfold lies_before_def)
    next
      case 2
      have "narrowed lies_before lies_after items address (unat (mid + 1)) (unat mx)"
        unfolding mid1 by (rule try_table.narrow_right [OF assms(1) less.prems(2) 2(2) mid(3)])
      then show ?thesis
        using less.hyps [of mx "mid + 1"] mid mid1 lt less.prems(1) 2 True
        by (simp add: unfold lies_before_def lies_after_def)
    next
      case 3
      then have "hits lies_before lies_after items address = {unat mid}"
        by (intro try_table.narrow_hit [OF assms(1) mid(3)])
      then show ?thesis
        using 3 True mid by (simp add: unfold lies_before_def lies_after_def)
    qed
  qed
qed

section \<open>Facts about handler iteration\<close>

lemmas uleb_decode = uleb.decode_encode and sleb_decode = sleb32.decode_encode

lemma sint_of_nat_u32: "n < 2 ^ 31 \<Longrightarrow> sint (of_nat n :: u32) = int n"
  by (simp add: signed_of_nat signed_take_bit_int_eq_self_iff)

lemma Next_typed:
  assumes "remaining_count it = of_nat (Suc n)" "Suc n < 2 ^ 31"
    and "current_data it = encode_typed ((t, a) # hs) @ rest"
  shows "CatchHandlerIterator_Next it =
    Some (it\<lparr>handler_type_idx := ucast t, handler_address := a, current_data := encode_typed hs @ rest,
      remaining_count := of_nat n\<rparr>)"
  using assms(1,3) sint_of_nat_u32 [OF assms(2)]
  by (simp add: CatchHandlerIterator_Next_def encode_typed_def uleb_decode word_sless_0)

lemma collect_next:
  "HasNext it \<Longrightarrow> CatchHandlerIterator_Next it = Some it' \<Longrightarrow> collect_handlers it' = Some (hs, last_it) \<Longrightarrow>
   collect_handlers it = Some ((handler_type_idx it, handler_address it) # hs, last_it)"
  by (simp add: collect_handlers.simps [of it])

lemma collect_end: "\<not> HasNext it \<Longrightarrow> collect_handlers it = Some ([], it)"
  by (simp add: collect_handlers.simps [of it])

lemma collect_last:
  assumes "remaining_count it = 0" "\<not> catch_all it"
  shows "collect_handlers it =
    Some ([(handler_type_idx it, handler_address it)], it\<lparr>remaining_count := -1\<rparr>)"
  using assms
  by (intro collect_next [of _ "it\<lparr>remaining_count := -1\<rparr>"] collect_end)
    (simp_all add: HasNext_def CatchHandlerIterator_Next_def)

lemma collect_default:
  assumes "remaining_count it = 0" "catch_all it" "current_data it = EncodeUnsignedLeb128 (ucast a) @ rest"
  shows "\<exists>last_it. collect_handlers it =
      Some ([(handler_type_idx it, handler_address it), (kDexNoIndex16, a)], last_it) \<and>
    EndDataPointer last_it = Some rest"
proof -
  let ?it = "it\<lparr>handler_type_idx := kDexNoIndex16, handler_address := a, current_data := rest, catch_all := False\<rparr>"
  have "CatchHandlerIterator_Next it = Some ?it"
    using assms by (simp add: CatchHandlerIterator_Next_def uleb_decode)
  moreover have "collect_handlers ?it = Some ([(kDexNoIndex16, a)], ?it\<lparr>remaining_count := -1\<rparr>)"
    using assms(1) by (subst collect_last) simp_all
  ultimately have "collect_handlers it =
      Some ([(handler_type_idx it, handler_address it), (kDexNoIndex16, a)], ?it\<lparr>remaining_count := -1\<rparr>)"
    using assms(1) by (intro collect_next) (simp_all add: HasNext_def)
  then show ?thesis by (auto simp: EndDataPointer_def HasNext_def)
qed

lemma collect_typed:
  assumes "remaining_count it = of_nat (length hs)" "length hs < 2 ^ 31" "catch_all it = (dflt \<noteq> None)"
    and "current_data it = encode_typed hs @ encode_default dflt @ rest"
  shows "\<exists>last_it. collect_handlers it =
      Some ((handler_type_idx it, handler_address it) # handler_list (hs, dflt), last_it) \<and>
    EndDataPointer last_it = Some rest"
  using assms
proof (induction hs arbitrary: it)
  case Nil
  show ?case
  proof (cases dflt)
    case None
    with Nil show ?thesis
      by (auto simp: collect_last handler_list_def EndDataPointer_def HasNext_def encode_typed_def encode_default_def)
  next
    case (Some a)
    with Nil show ?thesis
      using collect_default [of it a rest] by (simp add: handler_list_def encode_typed_def encode_default_def)
  qed
next
  case (Cons h hs)
  obtain t a where h: "h = (t, a)" by (cases h)
  let ?it = "it\<lparr>handler_type_idx := ucast t, handler_address := a,
      current_data := encode_typed hs @ encode_default dflt @ rest, remaining_count := of_nat (length hs)\<rparr>"
  have next_it: "CatchHandlerIterator_Next it = Some ?it"
    using Cons.prems h by (intro Next_typed) simp_all
  obtain last_it where "collect_handlers ?it = Some ((ucast t, a) # handler_list (hs, dflt), last_it)"
    "EndDataPointer last_it = Some rest"
    using Cons.IH [of ?it] Cons.prems by auto
  moreover have "HasNext it"
    using Cons.prems(1,2) sint_of_nat_u32 [of "length (h # hs)"] by (auto simp: HasNext_def simp del: of_nat_Suc)
  ultimately show ?case
    using collect_next [OF _ next_it] by (fastforce simp: handler_list_def h)
qed

definition example_resolve :: "nat \<Rightarrow> u16 \<Rightarrow> bool option \<times> nat" where
  "example_resolve s type_idx = (if type_idx = 4 then None else Some (type_idx = 5), s + 1)"

lemma PushBackSigned_decode: "DecodeSignedLeb128 (PushBackSigned [] v @ rest) = Some (v, rest)"
  using sleb_decode [of v rest] by (simp add: PushBackSigned_def)

lemma sint_neg_of_nat_u32: "n < 2 ^ 31 \<Longrightarrow> sint (- of_nat n :: u32) = - int n"
  by (simp add: signed_take_bit_int_eq_self_iff sint_word_ariths sint_of_nat_u32)

lemma word_sle_0: "(w :: 'a::len word) \<le>s 0 \<longleftrightarrow> sint w \<le> 0"
  by (simp add: word_sle_eq)

lemma Init_encode:
  assumes "handler_ok h"
  shows "\<exists>it last_it. CatchHandlerIterator_InitData (encode_handler h @ rest) = Some it \<and>
    collect_handlers it = Some (handler_list h, last_it) \<and> EndDataPointer last_it = Some rest"
proof -
  obtain hs dflt where h: "h = (hs, dflt)" by (cases h)
  define count :: u32 where "count = (if dflt = None then of_nat (length hs) else - of_nat (length hs))"
  define it0 where "it0 = \<lparr>handler_type_idx = kDexNoIndex16, handler_address = -1,
    current_data = encode_typed hs @ encode_default dflt @ rest,
    remaining_count = of_nat (length hs), catch_all = (dflt \<noteq> None)\<rparr>"
  have len: "length hs < 2 ^ 31" and ne: "hs \<noteq> [] \<or> dflt \<noteq> None"
    using assms by (simp_all add: handler_ok_def h)
  have "(count \<le>s 0) = (dflt \<noteq> None)"
    using len ne by (auto simp: count_def word_sle_0 sint_of_nat_u32 sint_neg_of_nat_u32)
  then have init: "CatchHandlerIterator_InitData (encode_handler h @ rest) = CatchHandlerIterator_Next it0"
    by (simp add: CatchHandlerIterator_InitData_def encode_handler_def h count_def [symmetric] PushBackSigned_decode)
      (simp add: it0_def count_def)
  show ?thesis
  proof (cases hs)
    case Nil
    with ne obtain a where a: "dflt = Some a" by auto
    let ?it = "it0\<lparr>handler_address := a, current_data := rest, catch_all := False\<rparr>"
    have "CatchHandlerIterator_Next it0 = Some ?it"
      by (simp add: it0_def a Nil CatchHandlerIterator_Next_def encode_typed_def encode_default_def uleb_decode)
    moreover have "collect_handlers ?it = Some ([(kDexNoIndex16, a)], ?it\<lparr>remaining_count := -1\<rparr>)"
      by (subst collect_last) (simp_all add: it0_def Nil)
    ultimately show ?thesis
      unfolding init by (simp add: handler_list_def h a Nil EndDataPointer_def HasNext_def)
  next
    case (Cons x hs')
    obtain t a where x: "x = (t, a)" by (cases x)
    let ?it = "it0\<lparr>handler_type_idx := ucast t, handler_address := a,
      current_data := encode_typed hs' @ encode_default dflt @ rest, remaining_count := of_nat (length hs')\<rparr>"
    have "CatchHandlerIterator_Next it0 = Some ?it"
      using len by (intro Next_typed) (simp_all add: it0_def Cons x)
    moreover obtain last_it where "collect_handlers ?it = Some ((ucast t, a) # handler_list (hs', dflt), last_it)"
      "EndDataPointer last_it = Some rest"
      using collect_typed [of ?it hs' dflt rest] len by (auto simp: it0_def Cons)
    ultimately show ?thesis
      unfolding init by (simp add: handler_list_def h Cons x)
  qed
qed

lemma FindCatchBlockLoop_collect:
  "collect_handlers it = Some (hs, last_it) \<Longrightarrow>
   FindCatchBlockLoop resolve it s = Some (first_match resolve hs s)"
proof (induction it arbitrary: hs s rule: collect_handlers.induct)
  case (1 it)
  show ?case
  proof (cases "HasNext it")
    case True
    with 1(2) obtain it' hs' where step: "CatchHandlerIterator_Next it = Some it'"
      "collect_handlers it' = Some (hs', last_it)" "hs = (handler_type_idx it, handler_address it) # hs'"
      by (auto simp: collect_handlers.simps [of it] bind_eq_Some_conv)
    have "FindCatchBlockLoop resolve it' s' = Some (first_match resolve hs' s')" for s'
      using 1(1) [OF True step(1,2)] .
    then show ?thesis
      by (simp add: FindCatchBlockLoop.simps [of resolve it s] True step split: prod.split option.split bool.split)
  next
    case False
    with 1(2) show ?thesis
      by (auto simp: collect_handlers.simps [of it] FindCatchBlockLoop.simps)
  qed
qed

lemma skip_unsigned_typed: "skip_unsigned (2 * length hs + n) (encode_typed hs @ rest) = skip_unsigned n rest"
  by (induction hs) (auto simp: encode_typed_def uleb_decode)

lemma skip_handler_encode:
  assumes "handler_ok h"
  shows "skip_handler (encode_handler h @ rest) = Some rest"
proof -
  obtain hs dflt where h: "h = (hs, dflt)" by (cases h)
  have len: "2 * length hs < 2 ^ 31" and ne: "hs \<noteq> [] \<or> dflt \<noteq> None"
    using assms by (simp_all add: handler_ok_def h)
  have pos: "of_nat (length hs) * 2 = (of_nat (2 * length hs) :: u32)" by simp
  show ?thesis
  proof (cases dflt)
    case None
    then show ?thesis
      using len ne skip_unsigned_typed [of hs 0 rest] sint_of_nat_u32 [OF len]
      by (simp add: skip_handler_def encode_handler_def h PushBackSigned_decode pos word_sle_0 encode_default_def
          del: of_nat_mult)
  next
    case (Some a)
    have "sint (- (- of_nat (length hs) * 2) + 1 :: u32) = int (2 * length hs + 1)"
      using len sint_of_nat_u32 [of "2 * length hs + 1"] by (simp add: add.commute mult.commute)
    moreover have "sint (- of_nat (length hs) * 2 :: u32) = - int (2 * length hs)"
      using sint_neg_of_nat_u32 [OF len] by (simp add: mult.commute)
    ultimately show ?thesis
      using Some skip_unsigned_typed [of hs 1 "encode_default dflt @ rest"]
      by (simp add: skip_handler_def encode_handler_def h PushBackSigned_decode word_sle_0 encode_default_def
          uleb_decode nat_add_distrib nat_mult_distrib)
  qed
qed

lemma skip_handlers_encode:
  "\<forall>h \<in> set handlers. handler_ok h \<Longrightarrow>
   skip_handlers (length handlers) (concat (map encode_handler handlers) @ rest) = Some rest"
  by (induction handlers) (simp_all add: skip_handler_encode)


lemma handler_offset_eq:
  assumes "tries_ok (try_items accessor)" and "length (try_items accessor) < 2 ^ 16"
  shows "handler_offset accessor address =
    Some (case find (\<lambda>ti. covers ti address) (try_items accessor) of
            Some ti \<Rightarrow> ucast (handler_off ti) | None \<Rightarrow> -1)"
proof -
  let ?items = "try_items accessor"
  have size: "unat (TriesSize accessor) = length ?items"
    using assms(2) by (simp add: TriesSize_def unat_of_nat take_bit_nat_eq_self_iff)
  have cov: "i < length ?items \<Longrightarrow> covers (?items ! i) address \<longleftrightarrow> i \<in> hits lies_before lies_after ?items address" for i
    using covers_iff [OF tries_ok_nth(1) [OF assms(1)]] by (simp add: hits_def)
  consider "length ?items = 0" | "length ?items = 1" | "2 \<le> length ?items" by linarith
  then show ?thesis
  proof cases
    case 1
    then show ?thesis using size by (simp add: handler_offset_def unat_eq_zero)
  next
    case 2
    then obtain ti where ti: "?items = [ti]" by (auto simp: length_Suc_conv)
    have "TriesSize accessor = 1" using 2 size by (metis of_nat_1 TriesSize_def)
    moreover have "covers ti address \<longleftrightarrow> start_addr ti \<le> address \<and> address < try_end ti"
    proof -
      have "unat (start_addr ti) + unat (insn_count ti) < 2 ^ 32"
        using tries_ok_nth(1) [OF assms(1), of 0] ti by simp
      from covers_iff [OF this, of address] show ?thesis
        by (simp only: lies_before_def lies_after_def) auto
    qed
    ultimately show ?thesis by (simp add: handler_offset_def ti Let_def)
  next
    case 3
    have ts: "unat (ucast (TriesSize accessor) :: u32) = length ?items" using size by (simp add: unat_ucast_up)
    then obtain r where r: "FindTryItem ?items (ucast (TriesSize accessor)) address = Some r"
      "if hits lies_before lies_after ?items address = {} then r = -1
       else unat r < length ?items \<and> hits lies_before lies_after ?items address = {unat r}"
      using FindTryItemLoop_correct [OF assms(1), of "ucast (TriesSize accessor)" address 0] assms(2)
        try_table.narrow_start [of ?items address]
      by (auto simp: FindTryItem_def)
    have "TriesSize accessor \<noteq> 0 \<and> TriesSize accessor \<noteq> 1" using 3 size by auto
    then have off: "handler_offset accessor address =
        Some (if r \<noteq> -1 then ucast (handler_off (?items ! unat r)) else -1)"
      using r(1) by (auto simp: handler_offset_def Accessor_FindTryItem_def)
    show ?thesis
    proof (cases "hits lies_before lies_after ?items address = {}")
      case True
      then have "find (\<lambda>ti. covers ti address) ?items = None"
        using cov unfolding find_None_iff in_set_conv_nth by blast
      then show ?thesis using off r(2) True by simp
    next
      case False
      with r(2) have u: "unat r < length ?items" "hits lies_before lies_after ?items address = {unat r}" by auto
      then have "r \<noteq> -1" using assms(2) by (auto simp: unsigned_minus_1_eq_mask mask_eq_exp_minus_1)
      moreover have "covers (?items ! unat r) address" using cov [OF u(1)] u(2) by simp
      moreover have "\<not> covers (?items ! j) address" if "j < unat r" for j using cov [of j] that u by simp
      ultimately have "r \<noteq> -1 \<and> find (\<lambda>ti. covers ti address) ?items = Some (?items ! unat r)"
        using u(1) unfolding find_Some_iff by blast
      then show ?thesis using off by simp
    qed
  qed
qed

section \<open>Properties\<close>

text \<open>
  C8.  The handler offset that \<open>CatchHandlerIterator\<close> computes for an address, with its
  shortcuts for no and for one try item and the binary search of \<open>FindTryItem\<close> otherwise, is
  that of the first (and only) try item of a well-formed table that covers the address, and -1
  when none does.  In particular the search terminates and reads no item outside the table.
\<close>

theorem handler_offset_correct:
  assumes "tries_ok (try_items accessor)" and "length (try_items accessor) < 2 ^ 16"
  shows "handler_offset accessor address =
    Some (case find (\<lambda>ti. covers ti address) (try_items accessor) of
            Some ti \<Rightarrow> ucast (handler_off ti) | None \<Rightarrow> -1)"
  by (rule handler_offset_eq [OF assms])

theorem handler_offset_correct_witness:
  "handler_offset example_accessor 2 = Some 3 \<and> handler_offset example_accessor 5 = Some (-1)"
  using handler_offset_correct [of example_accessor 2] handler_offset_correct [of example_accessor 5]
  by (simp add: example_accessor_def tries_ok_def covers_def)

text \<open>
  C34.  Iterating over the bytes of an encoded handler list, from \<open>Init\<close> to the end of the
  loop, visits exactly the encoded handlers in order, the catch-all last and with the type index
  that marks it, and \<open>EndDataPointer\<close> is then the first byte behind the list.
\<close>

theorem handlers_roundtrip:
  assumes "handler_ok h"
  shows "\<exists>it last_it. CatchHandlerIterator_InitData (encode_handler h @ rest) = Some it \<and>
    collect_handlers it = Some (handler_list h, last_it) \<and> EndDataPointer last_it = Some rest"
  by (rule Init_encode [OF assms])

theorem handlers_roundtrip_witness:
  "\<exists>it last_it. CatchHandlerIterator_InitData (encode_handler ([(5, 0x40), (9, 0x50)], Some 0x60) @ [1, 2]) = Some it \<and>
    collect_handlers it = Some ([(5, 0x40), (9, 0x50), (kDexNoIndex16, 0x60)], last_it) \<and>
    EndDataPointer last_it = Some [1, 2]"
  using handlers_roundtrip [of "([(5, 0x40), (9, 0x50)], Some 0x60)" "[1, 2]"]
  by (simp add: handler_ok_def handler_list_def)

text \<open>
  C7.  \<open>ArtMethod::FindCatchBlock\<close> returns the address of the first handler, in the order of
  the encoded list of the covering try item, that is a catch-all or whose class resolves and
  accepts the exception; handlers whose class does not resolve are skipped.  It returns
  \<open>kDexNoIndex\<close> when no try item covers the address or no handler matches, and it reports
  whether the handler starts with a \<open>move-exception\<close>.
\<close>

theorem FindCatchBlock_correct:
  assumes "tries_ok (try_items accessor)" and "length (try_items accessor) < 2 ^ 16"
    and "\<And>ti. find (\<lambda>ti. covers ti dex_pc) (try_items accessor) = Some ti \<Longrightarrow>
      handler_ok h \<and> drop (unat (handler_off ti)) (handler_data accessor) = encode_handler h @ rest"
  shows "FindCatchBlock resolve accessor dex_pc b s =
    (case (case find (\<lambda>ti. covers ti dex_pc) (try_items accessor) of
             None \<Rightarrow> (kDexNoIndex, s) | Some ti \<Rightarrow> first_match resolve (handler_list h) s) of
       (pc, s') \<Rightarrow>
         if pc = kDexNoIndex then Some (kDexNoIndex, b, s')
         else map_option (\<lambda>inst_data. (pc, Opcode inst_data \<noteq> MOVE_EXCEPTION, s'))
                (Fetch16 (InstructionAt accessor pc) 0))"
proof (cases "find (\<lambda>ti. covers ti dex_pc) (try_items accessor)")
  case None
  then show ?thesis
    using handler_offset_eq [OF assms(1,2), of dex_pc]
    by (simp add: FindCatchBlock_def CatchHandlerIterator_at_def CatchHandlerIterator_Init_def
        FindCatchBlockLoop.simps HasNext_def)
next
  case (Some ti)
  with assms(3) have h: "handler_ok h" "drop (unat (handler_off ti)) (handler_data accessor) = encode_handler h @ rest"
    by auto
  obtain it last_it where it: "CatchHandlerIterator_InitData (encode_handler h @ rest) = Some it"
    "collect_handlers it = Some (handler_list h, last_it)"
    using Init_encode [OF h(1), of rest] by blast
  have "0 \<le>s (ucast (handler_off ti) :: u32)"
    by (simp add: word_sle_eq sint_ucast_up)
  then have "CatchHandlerIterator_at accessor dex_pc = Some it"
    using handler_offset_eq [OF assms(1,2), of dex_pc] Some h(2) it(1)
    by (simp add: CatchHandlerIterator_at_def CatchHandlerIterator_Init_def GetCatchHandlerData_def unat_ucast_up)
  then show ?thesis
    using Some FindCatchBlockLoop_collect [OF it(2), of resolve s]
    by (simp add: FindCatchBlock_def map_conv_bind_option comp_def split: prod.split)
qed

theorem FindCatchBlock_correct_witness:
  "FindCatchBlock example_resolve example_accessor 0 False 0 = Some (5, False, 0)"
  using FindCatchBlock_correct [of example_accessor 0 "([], Some 5)" "[1, 7, 4]" example_resolve False 0]
  by (simp add: example_accessor_def tries_ok_def covers_def handler_ok_def encode_handler_def encode_typed_def
      encode_default_def PushBackSigned_def EncodeSignedLeb128_vector_def EncodeSignedLoop.simps
      EncodeUnsignedLeb128_def EncodeUnsignedLoop.simps handler_list_def InstructionAt_def Fetch16_def Opcode_def)

text \<open>
  C35.  \<open>CodeItemDataEnd\<close> skips a whole encoded handler table and ends exactly behind it.
\<close>

theorem CodeItemDataEnd_correct:
  assumes "try_items accessor \<noteq> []" and "length (try_items accessor) < 2 ^ 16"
    and "list_all handler_ok handlers" and "length handlers < 2 ^ 32"
    and "handler_data accessor =
      EncodeUnsignedLeb128 (of_nat (length handlers)) @ concat (map encode_handler handlers) @ rest"
  shows "CodeItemDataEnd accessor = Some (Some rest)"
proof -
  have "unat (TriesSize accessor) = length (try_items accessor)"
    using assms(2) by (simp add: TriesSize_def unat_of_nat take_bit_nat_eq_self_iff)
  then have "TriesSize accessor \<noteq> 0" using assms(1) by auto
  moreover have "of_nat (length handlers) = (ucast (of_nat (length handlers) :: u32) :: u64)"
    using assms(4) by (intro word_uint_eqI) (simp add: uint_up_ucast is_up unsigned_of_nat take_bit_nat_eq_self)
  moreover have "unat (of_nat (length handlers) :: u32) = length handlers"
    using assms(4) by (simp add: unat_of_nat take_bit_nat_eq_self_iff)
  ultimately show ?thesis
    using assms(3,5) skip_handlers_encode [of handlers rest]
    by (simp add: CodeItemDataEnd_def GetCatchHandlerData_def uleb_decode list_all_iff)
qed

theorem CodeItemDataEnd_correct_witness:
  "CodeItemDataEnd example_accessor = Some (Some [])"
  by (rule CodeItemDataEnd_correct [of _ "[([], Some 5), ([(7, 4)], None)]"])
    (simp_all add: example_accessor_def handler_ok_def encode_handler_def encode_typed_def
      encode_default_def PushBackSigned_def EncodeSignedLeb128_vector_def EncodeSignedLoop.simps
      EncodeUnsignedLeb128_def EncodeUnsignedLoop.simps)

end
