(* ===== verification/MethodVerifier.thy ===== *)
theory MethodVerifier
  imports CodeItem
begin

text \<open>
  The static pass of the method verifier, \<open>runtime/verifier/method_verifier.cc\<close> before its
  code-flow analysis: instruction widths, try blocks and handlers, and the checks of every
  instruction's operands, branch and switch targets and payloads.

  The verifier object is the record of the fields the pass writes: the flag byte of each code
  unit (\<open>instruction_flags.h\<close>), the list of failures and the summary that \<open>Fail\<close> keeps of
  them.  A member function takes it and returns the boolean answer with the updated object;
  \<open>None\<close> is a read outside the code units, the flag array or the handler data.  The tables of
  the dex file that the checks consult are the record \<open>dex_file\<close>.  Resolving the classes of
  catch handlers, whose outcome the pass ignores, and the text of messages are left out.
\<close>

section \<open>The verifier object\<close>

record dex_file =
  NumStringIds :: u32
  NumTypeIds :: u32
  NumProtoIds :: u32
  NumFieldIds :: u32
  NumMethodIds :: u32
  NumCallSiteIds :: u32
  NumMethodHandles :: u32
  GetTypeDescriptor :: "u16 \<Rightarrow> string"
  GetFieldTypeDescriptor :: "u32 \<Rightarrow> string"

record verifier =
  insn_flags :: "u8 list"
  failures :: "u32 list"
  encountered_failure_types :: u32
  have_pending_hard_failure :: bool
  have_pending_runtime_throw_failure :: bool
  compatibility_mode :: bool

abbreviation (input) VERIFY_ERROR_BAD_CLASS_HARD :: u32 where "VERIFY_ERROR_BAD_CLASS_HARD \<equiv> 0x001"
abbreviation (input) VERIFY_ERROR_INSTANTIATION :: u32 where "VERIFY_ERROR_INSTANTIATION \<equiv> 0x200"
abbreviation (input) VERIFY_ERROR_FILLED_NEW_ARRAY :: u32 where "VERIFY_ERROR_FILLED_NEW_ARRAY \<equiv> 0x400"

text \<open>
  \<open>compatibility_mode\<close> is the condition of \<open>PotentiallyMarkRuntimeThrow\<close>: neither ahead-of-time
  compilation nor a recent API level.  The static pass records a soft failure only while
  \<open>work_insn_idx_\<close> has its initial value \<open>kDexNoIndex\<close>, so no instruction is looked at and the call
  just sets the flag.
\<close>

definition Fail :: "u32 \<Rightarrow> verifier \<Rightarrow> verifier" where
  "Fail error v = v\<lparr>
     encountered_failure_types := encountered_failure_types v OR error,
     have_pending_hard_failure :=
       (have_pending_hard_failure v \<or> error = VERIFY_ERROR_BAD_CLASS_HARD),
     have_pending_runtime_throw_failure :=
       (have_pending_runtime_throw_failure v \<or> error \<noteq> VERIFY_ERROR_BAD_CLASS_HARD \<and> compatibility_mode v),
     failures := failures v @ [error]\<rparr>"

definition fail_hard :: "verifier \<Rightarrow> (bool \<times> verifier) option" where
  "fail_hard v = Some (False, Fail VERIFY_ERROR_BAD_CLASS_HARD v)"

text \<open>\<open>result = result && check()\<close>: the check runs only when the result is still true.\<close>

definition and_then ::
  "(bool \<times> verifier) option \<Rightarrow> (verifier \<Rightarrow> (bool \<times> verifier) option) \<Rightarrow> (bool \<times> verifier) option" where
  "and_then result check = do { (r, v) \<leftarrow> result; if r then check v else Some (False, v) }"

subsection \<open>Instruction flags\<close>

definition SetIsOpcode :: "u8 \<Rightarrow> u8" where "SetIsOpcode f = f OR 4"
definition IsOpcode :: "u8 \<Rightarrow> bool" where "IsOpcode f \<longleftrightarrow> f AND 4 \<noteq> 0"
definition SetInTry :: "u8 \<Rightarrow> u8" where "SetInTry f = f OR 8"
definition IsInTry :: "u8 \<Rightarrow> bool" where "IsInTry f \<longleftrightarrow> f AND 8 \<noteq> 0"
definition SetBranchTarget :: "u8 \<Rightarrow> u8" where "SetBranchTarget f = f OR 16"
definition IsBranchTarget :: "u8 \<Rightarrow> bool" where "IsBranchTarget f \<longleftrightarrow> f AND 16 \<noteq> 0"
definition SetReturn :: "u8 \<Rightarrow> u8" where "SetReturn f = f OR 32"
definition IsReturnFlag :: "u8 \<Rightarrow> bool" where "IsReturnFlag f \<longleftrightarrow> f AND 32 \<noteq> 0"

definition GetInstructionFlags :: "u32 \<Rightarrow> verifier \<Rightarrow> u8 option" where
  "GetInstructionFlags index v =
     (if unat index < length (insn_flags v) then Some (insn_flags v ! unat index) else None)"

definition ModifyInstructionFlags :: "(u8 \<Rightarrow> u8) \<Rightarrow> u32 \<Rightarrow> verifier \<Rightarrow> verifier option" where
  "ModifyInstructionFlags f index v =
     (if unat index < length (insn_flags v)
      then Some (v\<lparr>insn_flags := (insn_flags v)[unat index := f (insn_flags v ! unat index)]\<rparr>)
      else None)"

definition IsMoveResult :: "u8 \<Rightarrow> bool" where
  "IsMoveResult opcode \<longleftrightarrow> MOVE_RESULT \<le> opcode \<and> opcode \<le> MOVE_RESULT_OBJECT"

definition IsMoveResultOrMoveException :: "u8 \<Rightarrow> bool" where
  "IsMoveResultOrMoveException opcode \<longleftrightarrow> MOVE_RESULT \<le> opcode \<and> opcode \<le> MOVE_EXCEPTION"

section \<open>Checks of single operands\<close>

definition check :: "bool \<Rightarrow> verifier \<Rightarrow> (bool \<times> verifier) option" where
  "check cond v = (if cond then Some (True, v) else fail_hard v)"

definition CheckRegisterIndex :: "CodeItemDataAccessor \<Rightarrow> u32 \<Rightarrow> verifier \<Rightarrow> (bool \<times> verifier) option" where
  "CheckRegisterIndex ci idx = check (idx < ucast (registers_size ci))"

definition CheckWideRegisterIndex :: "CodeItemDataAccessor \<Rightarrow> u32 \<Rightarrow> verifier \<Rightarrow> (bool \<times> verifier) option" where
  "CheckWideRegisterIndex ci idx = check (idx + 1 < ucast (registers_size ci))"

definition CheckCallSiteIndex :: "dex_file \<Rightarrow> u32 \<Rightarrow> verifier \<Rightarrow> (bool \<times> verifier) option" where
  "CheckCallSiteIndex df idx = check (idx < NumCallSiteIds df)"

definition CheckMethodIndex :: "dex_file \<Rightarrow> u32 \<Rightarrow> verifier \<Rightarrow> (bool \<times> verifier) option" where
  "CheckMethodIndex df idx = check (idx < NumMethodIds df)"

definition CheckMethodHandleIndex :: "dex_file \<Rightarrow> u32 \<Rightarrow> verifier \<Rightarrow> (bool \<times> verifier) option" where
  "CheckMethodHandleIndex df idx = check (idx < NumMethodHandles df)"

definition CheckPrototypeIndex :: "dex_file \<Rightarrow> u32 \<Rightarrow> verifier \<Rightarrow> (bool \<times> verifier) option" where
  "CheckPrototypeIndex df idx = check (idx < NumProtoIds df)"

definition CheckStringIndex :: "dex_file \<Rightarrow> u32 \<Rightarrow> verifier \<Rightarrow> (bool \<times> verifier) option" where
  "CheckStringIndex df idx = check (idx < NumStringIds df)"

definition CheckTypeIndex :: "dex_file \<Rightarrow> u16 \<Rightarrow> verifier \<Rightarrow> (bool \<times> verifier) option" where
  "CheckTypeIndex df idx = check (ucast idx < NumTypeIds df)"

text \<open>The first character of a zero-terminated string.\<close>

definition first_char :: "string \<Rightarrow> char" where
  "first_char s = (case s of [] \<Rightarrow> CHR 0x00 | c # _ \<Rightarrow> c)"

subsection \<open>Field descriptors\<close>

datatype DexMemAccessType =
    kDexMemAccessWord | kDexMemAccessWide | kDexMemAccessObject | kDexMemAccessBoolean
  | kDexMemAccessByte | kDexMemAccessChar | kDexMemAccessShort

definition access_type_of :: "u8 \<Rightarrow> DexMemAccessType option" where
  "access_type_of i =
     (if i = 0 then Some kDexMemAccessWord else if i = 1 then Some kDexMemAccessWide
      else if i = 2 then Some kDexMemAccessObject else if i = 3 then Some kDexMemAccessBoolean
      else if i = 4 then Some kDexMemAccessByte else if i = 5 then Some kDexMemAccessChar
      else if i = 6 then Some kDexMemAccessShort else None)"

definition IsInstructionIGetOrIPut :: "u8 \<Rightarrow> bool" where
  "IsInstructionIGetOrIPut code \<longleftrightarrow> IGET \<le> code \<and> code \<le> IPUT_SHORT"

definition IsInstructionSGetOrSPut :: "u8 \<Rightarrow> bool" where
  "IsInstructionSGetOrSPut code \<longleftrightarrow> SGET \<le> code \<and> code \<le> SPUT_SHORT"

definition IGetOrIPutMemAccessType :: "u8 \<Rightarrow> DexMemAccessType option" where
  "IGetOrIPutMemAccessType code = access_type_of (if IPUT \<le> code then code - IPUT else code - IGET)"

definition SGetOrSPutMemAccessType :: "u8 \<Rightarrow> DexMemAccessType option" where
  "SGetOrSPutMemAccessType code = access_type_of (if SPUT \<le> code then code - SPUT else code - SGET)"

text \<open>The entry of the compile-time table \<open>kPermittedDescriptors\<close> for an opcode.\<close>

definition permitted_descriptors :: "u8 \<Rightarrow> (char \<times> char) option" where
  "permitted_descriptors opcode =
     do { access_type \<leftarrow> (if IsInstructionIGetOrIPut opcode then IGetOrIPutMemAccessType opcode
                         else if IsInstructionSGetOrSPut opcode then SGetOrSPutMemAccessType opcode
                         else None);
          Some (case access_type of
                  kDexMemAccessWord \<Rightarrow> (CHR ''I'', CHR ''F'')
                | kDexMemAccessWide \<Rightarrow> (CHR ''J'', CHR ''D'')
                | kDexMemAccessObject \<Rightarrow> (CHR ''L'', CHR ''['')
                | kDexMemAccessBoolean \<Rightarrow> (CHR ''Z'', CHR ''Z'')
                | kDexMemAccessByte \<Rightarrow> (CHR ''B'', CHR ''B'')
                | kDexMemAccessChar \<Rightarrow> (CHR ''C'', CHR ''C'')
                | kDexMemAccessShort \<Rightarrow> (CHR ''S'', CHR ''S'')) }"

definition CheckFieldIndex :: "dex_file \<Rightarrow> u16 \<Rightarrow> u32 \<Rightarrow> verifier \<Rightarrow> (bool \<times> verifier) option" where
  "CheckFieldIndex df inst_data field_idx v =
     (if \<not> field_idx < NumFieldIds df then fail_hard v
      else do { permitted \<leftarrow> permitted_descriptors (Opcode inst_data);
                let c = first_char (GetFieldTypeDescriptor df field_idx);
                check (c = fst permitted \<or> c = snd permitted) v })"

subsection \<open>Types of new objects and arrays\<close>

definition CheckNewInstance :: "dex_file \<Rightarrow> u16 \<Rightarrow> verifier \<Rightarrow> (bool \<times> verifier) option" where
  "CheckNewInstance df idx v =
     and_then (CheckTypeIndex df idx v) (\<lambda>v.
       let descriptor = GetTypeDescriptor df idx in
       if first_char descriptor \<noteq> CHR ''L'' then fail_hard v
       else if descriptor = ''Ljava/lang/Class;'' then Some (True, Fail VERIFY_ERROR_INSTANTIATION v)
       else Some (True, v))"

definition CheckNewArray :: "bool \<Rightarrow> dex_file \<Rightarrow> u16 \<Rightarrow> verifier \<Rightarrow> (bool \<times> verifier) option" where
  "CheckNewArray kFilled df idx v =
     and_then (CheckTypeIndex df idx v) (\<lambda>v.
       let descriptor = GetTypeDescriptor df idx;
           bracket_count = length (takeWhile (\<lambda>c. c = CHR ''['') descriptor);
           cp = first_char (dropWhile (\<lambda>c. c = CHR ''['') descriptor)
       in if bracket_count = 0 then fail_hard v
          else if 255 < bracket_count then fail_hard v
          else if kFilled \<and> bracket_count = 1 \<and> cp \<noteq> CHR ''I'' \<and> cp \<noteq> CHR ''L'' then
            (if cp = CHR ''J'' \<or> cp = CHR ''D'' then fail_hard v
             else Some (True, Fail VERIFY_ERROR_FILLED_NEW_ARRAY v))
          else Some (True, v))"

section \<open>Argument registers\<close>

primrec check_args :: "u16 \<Rightarrow> u32 list \<Rightarrow> nat list \<Rightarrow> bool option" where
  "check_args regs args [] = Some True"
| "check_args regs args (idx # idxs) =
     (if idx < length args then
        (if ucast regs \<le> args ! idx then Some False else check_args regs args idxs)
      else None)"

text \<open>The counting loops run over the list of their indices.  Release builds skip the loop for sixteen registers or more: the arguments have four bits.\<close>

definition CheckVarArgRegs :: "CodeItemDataAccessor \<Rightarrow> u16 list \<Rightarrow> u32 \<Rightarrow> verifier \<Rightarrow> (bool \<times> verifier) option" where
  "CheckVarArgRegs ci inst vA v =
     (if registers_size ci < 16 then
        do { inst_data \<leftarrow> Fetch16 inst 0;
             (count, args) \<leftarrow> GetVarArgs inst inst_data;
             ok \<leftarrow> check_args (registers_size ci) args [0..<unat vA];
             check ok v }
      else Some (True, v))"

definition CheckVarArgRangeRegs :: "CodeItemDataAccessor \<Rightarrow> u32 \<Rightarrow> u32 \<Rightarrow> verifier \<Rightarrow> (bool \<times> verifier) option" where
  "CheckVarArgRangeRegs ci vA vC = check (vA + vC \<le> ucast (registers_size ci))"

section \<open>Targets\<close>

definition IsOffsetInRange :: "u32 \<Rightarrow> u32 \<Rightarrow> u32 \<Rightarrow> bool" where
  "IsOffsetInRange dex_pc end_dex_pc offset =
     (if 0 \<le>s offset then offset < end_dex_pc - dex_pc else - offset \<le> dex_pc)"

definition CheckArrayData ::
  "CodeItemDataAccessor \<Rightarrow> u32 \<Rightarrow> u32 \<Rightarrow> u16 list \<Rightarrow> verifier \<Rightarrow> (bool \<times> verifier) option" where
  "CheckArrayData ci dex_pc end_dex_pc inst v =
     do { array_data_offset \<leftarrow> VRegB_31t inst;
          if \<not> IsOffsetInRange dex_pc end_dex_pc array_data_offset then fail_hard v
          else
            do { let array_data_dex_pc = dex_pc + array_data_offset;
                 flgs \<leftarrow> GetInstructionFlags array_data_dex_pc v;
                 if \<not> IsOpcode flgs then fail_hard v
                 else if array_data_dex_pc mod 2 \<noteq> 0 then fail_hard v
                 else do { signature \<leftarrow> Fetch16 (InstructionAt ci array_data_dex_pc) 0;
                           check (signature = kArrayDataSignature) v } } }"

text \<open>
  The tail of both target checks: range, start of an instruction, not a \<open>move-result\<close> or
  \<open>move-exception\<close>; then the target is marked.
\<close>

definition check_and_mark_target ::
  "CodeItemDataAccessor \<Rightarrow> u32 \<Rightarrow> u32 \<Rightarrow> u32 \<Rightarrow> verifier \<Rightarrow> (bool \<times> verifier) option" where
  "check_and_mark_target ci dex_pc end_dex_pc offset v =
     (if \<not> IsOffsetInRange dex_pc end_dex_pc offset then fail_hard v
      else
        do { let target_dex_pc = dex_pc + offset;
             flgs \<leftarrow> GetInstructionFlags target_dex_pc v;
             if \<not> IsOpcode flgs then fail_hard v
             else
               do { target_data \<leftarrow> Fetch16 (InstructionAt ci target_dex_pc) 0;
                    if IsMoveResultOrMoveException (Opcode target_data) then fail_hard v
                    else do { v' \<leftarrow> ModifyInstructionFlags SetBranchTarget target_dex_pc v;
                              Some (True, v') } } })"

definition CheckAndMarkBranchTarget ::
  "Format \<Rightarrow> CodeItemDataAccessor \<Rightarrow> u32 \<Rightarrow> u32 \<Rightarrow> u16 list \<Rightarrow> u16 \<Rightarrow> verifier \<Rightarrow> (bool \<times> verifier) option" where
  "CheckAndMarkBranchTarget kFormat ci dex_pc end_dex_pc inst inst_data v =
     do { offset \<leftarrow> (if kFormat = k22t then VRegC kFormat inst
                    else if kFormat = k21t then VRegB kFormat inst inst_data
                    else VRegA kFormat inst inst_data);
          if kFormat \<noteq> k30t \<and> offset = 0 then fail_hard v
          else check_and_mark_target ci dex_pc end_dex_pc offset v }"

primrec check_sparse_keys :: "u16 list \<Rightarrow> u32 \<Rightarrow> nat list \<Rightarrow> bool option" where
  "check_sparse_keys payload last_key [] = Some True"
| "check_sparse_keys payload last_key (targ # targs) =
     do { key \<leftarrow> Fetch32 payload (2 + targ * 2);
          if key \<le>s last_key then Some False else check_sparse_keys payload key targs }"

primrec check_targets ::
  "CodeItemDataAccessor \<Rightarrow> u32 \<Rightarrow> u32 \<Rightarrow> u16 list \<Rightarrow> nat \<Rightarrow> nat list \<Rightarrow> verifier \<Rightarrow> (bool \<times> verifier) option" where
  "check_targets ci dex_pc end_dex_pc payload targets_offset [] v = Some (True, v)"
| "check_targets ci dex_pc end_dex_pc payload targets_offset (targ # targs) v =
     do { offset \<leftarrow> Fetch32 payload (targets_offset + targ * 2);
          and_then (check_and_mark_target ci dex_pc end_dex_pc offset v)
            (check_targets ci dex_pc end_dex_pc payload targets_offset targs) }"

definition check_switch_keys :: "bool \<Rightarrow> u16 list \<Rightarrow> u32 \<Rightarrow> bool option" where
  "check_switch_keys is_packed_switch payload switch_count =
     (if 1 < switch_count then
        do { first_key \<leftarrow> Fetch32 payload 2;
             if is_packed_switch then Some (\<not> (0x7FFFFFFF - (switch_count - 1)) <s first_key)
             else check_sparse_keys payload first_key [1..<unat switch_count] }
      else Some True)"

definition CheckAndMarkSwitchTargets ::
  "CodeItemDataAccessor \<Rightarrow> u32 \<Rightarrow> u32 \<Rightarrow> u16 list \<Rightarrow> u16 \<Rightarrow> verifier \<Rightarrow> (bool \<times> verifier) option" where
  "CheckAndMarkSwitchTargets ci dex_pc end_dex_pc inst inst_data v =
     do { switch_payload_offset \<leftarrow> VRegB_31t inst;
          if \<not> IsOffsetInRange dex_pc end_dex_pc switch_payload_offset then fail_hard v
          else
            do { let switch_payload_dex_pc = dex_pc + switch_payload_offset;
                 flgs \<leftarrow> GetInstructionFlags switch_payload_dex_pc v;
                 if \<not> IsOpcode flgs then fail_hard v
                 else if switch_payload_dex_pc mod 2 \<noteq> 0 then fail_hard v
                 else
                   do { let payload = InstructionAt ci switch_payload_dex_pc;
                        let is_packed_switch = (Opcode inst_data = PACKED_SWITCH);
                        switch_count \<leftarrow> map_option ucast (Fetch16 payload 1);
                        let targets_offset = (if is_packed_switch then 4 else 2 + 2 * unat switch_count);
                        signature \<leftarrow> Fetch16 payload 0;
                        if signature \<noteq> (if is_packed_switch then kPackedSwitchSignature
                                        else kSparseSwitchSignature) then fail_hard v
                        else
                          do { keys_ok \<leftarrow> check_switch_keys is_packed_switch payload switch_count;
                               if \<not> keys_ok then fail_hard v
                               else check_targets ci dex_pc end_dex_pc payload targets_offset
                                      [0..<unat switch_count] v } } } }"

section \<open>One instruction\<close>

text \<open>
  \<open>VerifyInstruction<kDispatchOpcode>\<close>, cut at the five switches of its body.  A value that
  matches no case of a switch leaves the result as it is.
\<close>

definition verify_A :: "u8 \<Rightarrow> CodeItemDataAccessor \<Rightarrow> u16 list \<Rightarrow> u16 \<Rightarrow> verifier \<Rightarrow> (bool \<times> verifier) option" where
  "verify_A k ci inst inst_data v =
     (let kVerifyA = GetVerifyTypeArgumentAOf k in
      if kVerifyA = kVerifyRegA then
        do { a \<leftarrow> VRegA (FormatOf k) inst inst_data; CheckRegisterIndex ci a v }
      else if kVerifyA = kVerifyRegAWide then
        do { a \<leftarrow> VRegA (FormatOf k) inst inst_data; CheckWideRegisterIndex ci a v }
      else Some (True, v))"

definition verify_B ::
  "u8 \<Rightarrow> dex_file \<Rightarrow> CodeItemDataAccessor \<Rightarrow> u16 list \<Rightarrow> u16 \<Rightarrow> verifier \<Rightarrow> (bool \<times> verifier) option" where
  "verify_B k df ci inst inst_data v =
     (let kVerifyB = GetVerifyTypeArgumentBOf k; vB = VRegB (FormatOf k) inst inst_data in
      if kVerifyB = kVerifyRegB then do { b \<leftarrow> vB; CheckRegisterIndex ci b v }
      else if kVerifyB = kVerifyRegBField then do { b \<leftarrow> vB; CheckFieldIndex df inst_data b v }
      else if kVerifyB = kVerifyRegBMethod then do { b \<leftarrow> vB; CheckMethodIndex df b v }
      else if kVerifyB = kVerifyRegBNewInstance then do { b \<leftarrow> vB; CheckNewInstance df (ucast b) v }
      else if kVerifyB = kVerifyRegBString then do { b \<leftarrow> vB; CheckStringIndex df b v }
      else if kVerifyB = kVerifyRegBType then do { b \<leftarrow> vB; CheckTypeIndex df (ucast b) v }
      else if kVerifyB = kVerifyRegBWide then do { b \<leftarrow> vB; CheckWideRegisterIndex ci b v }
      else if kVerifyB = kVerifyRegBCallSite then do { b \<leftarrow> vB; CheckCallSiteIndex df b v }
      else if kVerifyB = kVerifyRegBMethodHandle then do { b \<leftarrow> vB; CheckMethodHandleIndex df b v }
      else if kVerifyB = kVerifyRegBPrototype then do { b \<leftarrow> vB; CheckPrototypeIndex df b v }
      else if kVerifyB = kVerifyRegBFilledNewArray then do { b \<leftarrow> vB; CheckNewArray True df (ucast b) v }
      else Some (True, v))"

definition verify_C ::
  "u8 \<Rightarrow> dex_file \<Rightarrow> CodeItemDataAccessor \<Rightarrow> u16 list \<Rightarrow> u16 \<Rightarrow> verifier \<Rightarrow> (bool \<times> verifier) option" where
  "verify_C k df ci inst inst_data v =
     (let kVerifyC = GetVerifyTypeArgumentCOf k; vC = VRegC (FormatOf k) inst in
      if kVerifyC = kVerifyRegC then do { c \<leftarrow> vC; CheckRegisterIndex ci c v }
      else if kVerifyC = kVerifyRegCField then do { c \<leftarrow> vC; CheckFieldIndex df inst_data c v }
      else if kVerifyC = kVerifyRegCNewArray then do { c \<leftarrow> vC; CheckNewArray False df (ucast c) v }
      else if kVerifyC = kVerifyRegCType then do { c \<leftarrow> vC; CheckTypeIndex df (ucast c) v }
      else if kVerifyC = kVerifyRegCWide then do { c \<leftarrow> vC; CheckWideRegisterIndex ci c v }
      else Some (True, v))"

definition verify_H :: "u8 \<Rightarrow> dex_file \<Rightarrow> u16 list \<Rightarrow> verifier \<Rightarrow> (bool \<times> verifier) option" where
  "verify_H k df inst v =
     (if GetVerifyTypeArgumentHOf k = kVerifyRegHPrototype
      then do { h \<leftarrow> VRegH (FormatOf k) inst; CheckPrototypeIndex df h v }
      else Some (True, v))"

definition verify_extra ::
  "u8 \<Rightarrow> CodeItemDataAccessor \<Rightarrow> u32 \<Rightarrow> u32 \<Rightarrow> u16 list \<Rightarrow> u16 \<Rightarrow> bool \<Rightarrow> verifier \<Rightarrow> (bool \<times> verifier) option" where
  "verify_extra k ci dex_pc end_dex_pc inst inst_data result v =
     (let kVerifyExtra = GetVerifyExtraFlagsOf k; kFormat = FormatOf k in
      if kVerifyExtra = kVerifyArrayData then
        and_then (Some (result, v)) (CheckArrayData ci dex_pc end_dex_pc inst)
      else if kVerifyExtra = kVerifyBranchTarget then
        and_then (Some (result, v)) (CheckAndMarkBranchTarget kFormat ci dex_pc end_dex_pc inst inst_data)
      else if kVerifyExtra = kVerifySwitchTargets then
        and_then (Some (result, v)) (CheckAndMarkSwitchTargets ci dex_pc end_dex_pc inst inst_data)
      else if kVerifyExtra = kVerifyVarArgNonZero \<or> kVerifyExtra = kVerifyVarArg then
        do { v_a \<leftarrow> VRegA kFormat inst inst_data;
             if (kVerifyExtra = kVerifyVarArgNonZero \<and> v_a = 0) \<or> 5 < v_a then fail_hard v
             else and_then (Some (result, v)) (CheckVarArgRegs ci inst v_a) }
      else if kVerifyExtra = kVerifyVarArgRangeNonZero \<or> kVerifyExtra = kVerifyVarArgRange then
        do { v_a \<leftarrow> VRegA kFormat inst inst_data;
             if GetVerifyExtraFlagsOf (Opcode inst_data) = kVerifyVarArgRangeNonZero \<and> v_a = 0
             then fail_hard v
             else and_then (Some (result, v)) (\<lambda>v.
                    do { v_c \<leftarrow> VRegC kFormat inst; CheckVarArgRangeRegs ci v_a v_c v }) }
      else if kVerifyExtra = kVerifyError then fail_hard v
      else Some (result, v))"

definition VerifyInstruction ::
  "u8 \<Rightarrow> dex_file \<Rightarrow> CodeItemDataAccessor \<Rightarrow> u32 \<Rightarrow> u32 \<Rightarrow> u16 list \<Rightarrow> u16 \<Rightarrow> verifier \<Rightarrow> (bool \<times> verifier) option" where
  "VerifyInstruction kDispatchOpcode df ci dex_pc end_dex_pc inst inst_data v =
     do { (result, v) \<leftarrow>
            and_then
              (and_then
                (and_then
                  (verify_A kDispatchOpcode ci inst inst_data v)
                  (verify_B kDispatchOpcode df ci inst inst_data))
                (verify_C kDispatchOpcode df ci inst inst_data))
              (verify_H kDispatchOpcode df inst);
          verify_extra kDispatchOpcode ci dex_pc end_dex_pc inst inst_data result v }"

text \<open>
  The dispatch of \<open>VerifyInstructions\<close>: opcodes with equal format, verify flags and
  return-ness share the instance of the first of them.
\<close>

definition same_dispatch :: "u8 \<Rightarrow> u8 \<Rightarrow> bool" where
  "same_dispatch opcode other \<longleftrightarrow>
     FormatOf opcode = FormatOf other \<and> VerifyFlagsOf opcode = VerifyFlagsOf other \<and>
     IsReturnOf opcode = IsReturnOf other"

definition find_dispatch_opcode :: "u8 \<Rightarrow> u8" where
  "find_dispatch_opcode opcode =
     (if opcode = NOP then opcode
      else (case find (\<lambda>other. other \<noteq> NOP \<and> same_dispatch opcode other)
                   (map of_nat [0..<unat opcode]) of
              Some other \<Rightarrow> other
            | None \<Rightarrow> opcode))"

section \<open>The passes\<close>

subsection \<open>Widths\<close>

definition check_switch :: "u32 \<Rightarrow> u32 \<Rightarrow> u32 \<Rightarrow> u16 list \<Rightarrow> u32 option option" where
  "check_switch base_size entry_size remaining_code_units inst =
     (if remaining_code_units < base_size then Some None
      else do { n \<leftarrow> Fetch16 inst 1;
                let instruction_size = base_size + ucast n * entry_size;
                Some (if remaining_code_units < instruction_size then None
                      else Some instruction_size) })"

text \<open>The inner \<open>None\<close> stands for \<open>ok = false\<close>.\<close>

definition instruction_width :: "u32 \<Rightarrow> u16 list \<Rightarrow> u32 option option" where
  "instruction_width remaining_code_units inst =
     do { inst_data \<leftarrow> Fetch16 inst 0;
          if Opcode inst_data = NOP then
            if inst_data = kPackedSwitchSignature then check_switch 4 2 remaining_code_units inst
            else if inst_data = kSparseSwitchSignature then check_switch 2 4 remaining_code_units inst
            else if inst_data = kArrayDataSignature then
              (if remaining_code_units < 4 then Some None
               else do { element_size \<leftarrow> Fetch16 inst 1;
                         lo \<leftarrow> Fetch16 inst 2;
                         hi \<leftarrow> Fetch16 inst 3;
                         let len = (ucast lo OR push_bit 16 (ucast hi) :: u32);
                         let bytes = (ucast element_size * ucast len :: u64);
                         let code_units = 4 + (bytes + 1) div 2;
                         Some (if ucast remaining_code_units < code_units then None
                               else Some (ucast code_units)) })
            else Some (Some 1)
          else
            do { let instruction_size = of_nat (SizeInCodeUnitsOfFormat (FormatOf (Opcode inst_data)));
                 Some (if instruction_size \<le> remaining_code_units then Some instruction_size
                       else None) } }"

lemma check_switch_bounds:
  assumes "check_switch base entry remaining inst = Some (Some width)"
    and "0 < base" "unat base + 65535 * unat entry < 2 ^ 32"
  shows "0 < width \<and> width \<le> remaining"
proof -
  from assms(1) obtain n :: u16 where n: "width = base + ucast n * entry" "\<not> remaining < width"
    by (auto simp: check_switch_def bind_eq_Some_conv Let_def split: if_splits)
  have "unat n \<le> 65535" using unsigned_less [of n, where ?'a = nat] by simp
  then have le: "unat n * unat entry \<le> 65535 * unat entry" by (rule mult_le_mono1)
  with assms(3) have "unat n * unat entry < 2 ^ 32" by linarith
  then have "unat (ucast n * entry) = unat n * unat entry"
    by (subst unat_mult_lem [THEN iffD1]) (simp_all add: unat_ucast_up)
  moreover have "unat base + unat n * unat entry < 2 ^ 32" using assms(3) le by linarith
  ultimately have "unat width = unat base + unat n * unat entry"
    unfolding n(1) by (subst unat_add_lem [THEN iffD1]) simp_all
  then show ?thesis using n(2) assms(2) by (simp add: word_less_nat_alt word_le_nat_alt not_less)
qed

lemma ucast_u64_u32_less: "(x :: u64) \<le> ucast (y :: u32) \<Longrightarrow> 0 < x \<Longrightarrow> 0 < (ucast x :: u32) \<and> (ucast x :: u32) \<le> y"
proof -
  assume x: "x \<le> ucast y" "0 < x"
  then have le: "unat x \<le> unat y" by (simp add: word_le_nat_alt unat_ucast_up)
  then have "unat x < 2 ^ 32" using unsigned_less [of y, where ?'a = nat] by simp
  then have "unat (ucast x :: u32) = unat x"
    by (simp add: unsigned_ucast_eq take_bit_nat_eq_self_iff)
  then show ?thesis using x(2) le by (simp add: word_le_nat_alt word_less_nat_alt)
qed

lemma array_code_units_pos: "0 < (4 + (bytes + 1) div 2 :: u64)"
proof -
  have "unat ((bytes + 1) div 2 :: u64) < 2 ^ 63"
    using unsigned_less [of "bytes + 1", where ?'a = nat] by (simp add: unat_div)
  then have "unat (4 + (bytes + 1) div 2 :: u64) = 4 + unat ((bytes + 1) div 2 :: u64)"
    by (subst unat_add_lem [THEN iffD1]) simp_all
  then show ?thesis by (simp add: word_less_nat_alt)
qed

lemma format_size_bounds:
  "0 < (of_nat (SizeInCodeUnitsOfFormat (FormatOf opcode)) :: u32)"
  "unat (of_nat (SizeInCodeUnitsOfFormat (FormatOf opcode)) :: u32) = SizeInCodeUnitsOfFormat (FormatOf opcode)"
  using FormatOf_valid [of opcode]
  by (cases "FormatOf opcode"; simp add: SizeInCodeUnitsOfFormat_def)+

lemma instruction_width_bounds:
  assumes "instruction_width remaining inst = Some (Some width)" and "remaining \<noteq> 0"
  shows "0 < width \<and> width \<le> remaining"
proof -
  obtain d where d: "Fetch16 inst 0 = Some d"
    using assms by (auto simp: instruction_width_def bind_eq_Some_conv)
  consider "Opcode d \<noteq> NOP" | "Opcode d = NOP" "d = kPackedSwitchSignature"
    | "Opcode d = NOP" "d = kSparseSwitchSignature" | "Opcode d = NOP" "d = kArrayDataSignature"
    | "Opcode d = NOP" "d \<noteq> kPackedSwitchSignature" "d \<noteq> kSparseSwitchSignature" "d \<noteq> kArrayDataSignature"
    by blast
  then show ?thesis
  proof cases
    case 1
    then show ?thesis
      using assms d format_size_bounds(1) [of "Opcode d"]
      by (auto simp: instruction_width_def Let_def split: if_splits)
  next
    case 2
    then show ?thesis
      using assms(1) d by (intro check_switch_bounds [of 4 2]) (auto simp: instruction_width_def)
  next
    case 3
    then show ?thesis
      using assms(1) d by (intro check_switch_bounds [of 2 4]) (auto simp: instruction_width_def)
  next
    case 4
    then show ?thesis
      using assms d array_code_units_pos ucast_u64_u32_less
      by (auto simp: instruction_width_def Let_def bind_eq_Some_conv not_less split: if_splits)
  next
    case 5
    then have "width = 1" using assms(1) d by (auto simp: instruction_width_def)
    moreover have "0 < unat remaining" using assms(2) by (simp add: unat_gt_0)
    ultimately show ?thesis by (simp add: word_less_nat_alt word_le_nat_alt)
  qed
qed

lemma remaining_decreases:
  fixes dex_pc insns_size width :: u32
  assumes "0 < width" "width \<le> insns_size - dex_pc"
  shows "unat (insns_size - (dex_pc + width)) < unat (insns_size - dex_pc)"
proof -
  have "insns_size - (dex_pc + width) = (insns_size - dex_pc) - width" by simp
  also have "unat ((insns_size - dex_pc) - width) = unat (insns_size - dex_pc) - unat width"
    using assms(2) by (rule unat_sub)
  finally have "unat (insns_size - (dex_pc + width)) = unat (insns_size - dex_pc) - unat width" .
  moreover have "0 < unat width" "unat width \<le> unat (insns_size - dex_pc)"
    using assms by (simp_all add: word_less_nat_alt word_le_nat_alt)
  ultimately show ?thesis by linarith
qed

function ComputeWidthsLoop :: "CodeItemDataAccessor \<Rightarrow> u32 \<Rightarrow> verifier \<Rightarrow> (bool \<times> verifier) option" where
  "ComputeWidthsLoop ci dex_pc v =
     (let insns_size = InsnsSizeInCodeUnits ci in
      if dex_pc \<noteq> insns_size then
        do { w \<leftarrow> instruction_width (insns_size - dex_pc) (InstructionAt ci dex_pc);
             case w of
               None \<Rightarrow> fail_hard v
             | Some instruction_size \<Rightarrow>
                 do { v' \<leftarrow> ModifyInstructionFlags SetIsOpcode dex_pc v;
                      ComputeWidthsLoop ci (dex_pc + instruction_size) v' } }
      else Some (True, v))"
  by pat_completeness auto
termination
  by (relation "measure (\<lambda>(ci, dex_pc, v). unat (InsnsSizeInCodeUnits ci - dex_pc))")
    (auto dest!: instruction_width_bounds intro: remaining_decreases)

declare ComputeWidthsLoop.simps [simp del]

definition ComputeWidthsAndCountOps :: "CodeItemDataAccessor \<Rightarrow> verifier \<Rightarrow> (bool \<times> verifier) option" where
  "ComputeWidthsAndCountOps ci v = ComputeWidthsLoop ci 0 v"

subsection \<open>Try blocks and handlers\<close>

text \<open>
  The instructions of a try block, visited with a \<open>DexInstructionIterator\<close>: its position is a
  32-bit number, a step past the 32-bit range is \<open>None\<close>.
\<close>

function mark_in_try :: "CodeItemDataAccessor \<Rightarrow> nat \<Rightarrow> nat \<Rightarrow> verifier \<Rightarrow> verifier option" where
  "mark_in_try ci dex_pc end_pc v =
     (if dex_pc < end_pc then
        do { v' \<leftarrow> ModifyInstructionFlags SetInTry (of_nat dex_pc) v;
             n \<leftarrow> SizeInCodeUnits (drop dex_pc (insns ci));
             if dex_pc + n < 2 ^ 32 then mark_in_try ci (dex_pc + n) end_pc v' else None }
      else Some v)"
  by pat_completeness auto
termination
  by (relation "measure (\<lambda>(ci, dex_pc, end_pc, v). end_pc - dex_pc)") (auto dest!: SizeInCodeUnits_pos)

declare mark_in_try.simps [simp del]

primrec scan_try_items :: "CodeItemDataAccessor \<Rightarrow> TryItem list \<Rightarrow> verifier \<Rightarrow> (bool \<times> verifier) option" where
  "scan_try_items ci [] v = Some (True, v)"
| "scan_try_items ci (try_item # items) v =
     (let start = start_addr try_item; end_pc = try_end try_item; insns_size = InsnsSizeInCodeUnits ci in
      if end_pc \<le> start \<or> insns_size \<le> start \<or> insns_size < end_pc then fail_hard v
      else do { flgs \<leftarrow> GetInstructionFlags start v;
                if \<not> IsOpcode flgs then fail_hard v
                else do { v' \<leftarrow> mark_in_try ci (unat start) (unat end_pc) v;
                          scan_try_items ci items v' } })"

text \<open>The answer carries the end of the handler data that the loop reached.\<close>

function scan_iterator :: "CodeItemDataAccessor \<Rightarrow> CatchHandlerIterator \<Rightarrow> verifier \<Rightarrow> (bool \<times> verifier \<times> u8 list) option" where
  "scan_iterator ci it v =
     (if HasNext it then
        do { let dex_pc = handler_address it;
             flgs \<leftarrow> GetInstructionFlags dex_pc v;
             if \<not> IsOpcode flgs then Some (False, Fail VERIFY_ERROR_BAD_CLASS_HARD v, [])
             else do { inst_data \<leftarrow> Fetch16 (InstructionAt ci dex_pc) 0;
                       if IsMoveResult (Opcode inst_data)
                       then Some (False, Fail VERIFY_ERROR_BAD_CLASS_HARD v, [])
                       else do { v' \<leftarrow> ModifyInstructionFlags SetBranchTarget dex_pc v;
                                 it' \<leftarrow> CatchHandlerIterator_Next it;
                                 scan_iterator ci it' v' } } }
      else do { handlers_ptr \<leftarrow> EndDataPointer it; Some (True, v, handlers_ptr) })"
  by pat_completeness auto
termination
  by (relation "measure (\<lambda>(ci, it, v). iterator_fuel it)") (simp_all add: Next_decreases)

declare scan_iterator.simps [simp del]

primrec scan_handlers :: "CodeItemDataAccessor \<Rightarrow> nat \<Rightarrow> u8 list \<Rightarrow> verifier \<Rightarrow> (bool \<times> verifier) option" where
  "scan_handlers ci 0 handlers_ptr v = Some (True, v)"
| "scan_handlers ci (Suc n) handlers_ptr v =
     do { it \<leftarrow> CatchHandlerIterator_InitData handlers_ptr;
          (ok, v', handlers_ptr') \<leftarrow> scan_iterator ci it v;
          if ok then scan_handlers ci n handlers_ptr' v' else Some (False, v') }"

definition ScanTryCatchBlocks :: "CodeItemDataAccessor \<Rightarrow> verifier \<Rightarrow> (bool \<times> verifier) option" where
  "ScanTryCatchBlocks ci v =
     (if TriesSize ci = 0 then Some (True, v)
      else and_then (scan_try_items ci (try_items ci) v) (\<lambda>v.
             do { (handlers_size, handlers_ptr) \<leftarrow> DecodeUnsignedLeb128 (GetCatchHandlerData ci 0);
                  scan_handlers ci (unat handlers_size) handlers_ptr v }))"

subsection \<open>Instructions\<close>

text \<open>
  The size of the instruction is only asserted to lie inside the code in debug builds; a walk
  that would leave it is \<open>None\<close>.
\<close>

definition walk_size :: "u8 \<Rightarrow> u16 list \<Rightarrow> u32 option" where
  "walk_size dispatch_opcode inst =
     (if dispatch_opcode = NOP then map_option of_nat (SizeInCodeUnitsComplexOpcode inst)
      else Some (of_nat (SizeInCodeUnitsOfFormat (FormatOf dispatch_opcode))))"

function VerifyInstructionsLoop :: "dex_file \<Rightarrow> CodeItemDataAccessor \<Rightarrow> u32 \<Rightarrow> verifier \<Rightarrow> (bool \<times> verifier) option" where
  "VerifyInstructionsLoop df ci dex_pc v =
     (let end_dex_pc = InsnsSizeInCodeUnits ci; inst = InstructionAt ci dex_pc in
      if dex_pc \<noteq> end_dex_pc then
        do { inst_data \<leftarrow> Fetch16 inst 0;
             let dispatch_opcode = find_dispatch_opcode (Opcode inst_data);
             (ok, v) \<leftarrow> VerifyInstruction dispatch_opcode df ci dex_pc end_dex_pc inst inst_data v;
             if \<not> ok then Some (False, v)
             else
               do { instruction_size \<leftarrow> walk_size dispatch_opcode inst;
                    v \<leftarrow> (if IsReturnOf dispatch_opcode then ModifyInstructionFlags SetReturn dex_pc v
                          else Some v);
                    if 0 < instruction_size \<and> instruction_size \<le> end_dex_pc - dex_pc
                    then VerifyInstructionsLoop df ci (dex_pc + instruction_size) v
                    else None } }
      else Some (True, v))"
  by pat_completeness auto
termination
  by (relation "measure (\<lambda>(df, ci, dex_pc, v). unat (InsnsSizeInCodeUnits ci - dex_pc))")
    (auto intro: remaining_decreases)

declare VerifyInstructionsLoop.simps [simp del]

definition VerifyInstructions :: "dex_file \<Rightarrow> CodeItemDataAccessor \<Rightarrow> verifier \<Rightarrow> (bool \<times> verifier) option" where
  "VerifyInstructions df ci v =
     do { v' \<leftarrow> ModifyInstructionFlags SetBranchTarget 0 v; VerifyInstructionsLoop df ci 0 v' }"

subsection \<open>The whole pass\<close>

text \<open>
  \<open>Verify\<close> as release builds run it.  \<open>native_access_flags\<close> is what the annotations of a
  native method ask for, \<open>code_flow\<close> the code-flow analysis that follows the static pass.
\<close>

abbreviation (input) kAccStatic :: u32 where "kAccStatic \<equiv> 0x0008"
abbreviation (input) kAccSynchronized :: u32 where "kAccSynchronized \<equiv> 0x0020"
abbreviation (input) kAccNative :: u32 where "kAccNative \<equiv> 0x0100"
abbreviation (input) kAccAbstract :: u32 where "kAccAbstract \<equiv> 0x0400"
abbreviation (input) kAccFastNative :: u32 where "kAccFastNative \<equiv> 0x00080000"
abbreviation (input) kAccCriticalNative :: u32 where "kAccCriticalNative \<equiv> 0x00100000"

record verified_method =
  method_access_flags :: u32
  native_access_flags :: u32
  GetMethodShorty :: string
  code_item :: "CodeItemDataAccessor option"

definition is_primitive_type :: "char \<Rightarrow> bool" where
  "is_primitive_type c \<longleftrightarrow> c \<in> set ''BCDFIJSZV''"

definition verify_no_code :: "verified_method \<Rightarrow> verifier \<Rightarrow> (bool \<times> verifier) option" where
  "verify_no_code m v =
     (if method_access_flags m AND (kAccNative OR kAccAbstract) = 0 then fail_hard v
      else if method_access_flags m AND kAccNative \<noteq> 0 then
        if native_access_flags m AND kAccFastNative \<noteq> 0 \<and> method_access_flags m AND kAccSynchronized \<noteq> 0
        then fail_hard v
        else if native_access_flags m AND kAccCriticalNative \<noteq> 0 then
          if method_access_flags m AND kAccSynchronized \<noteq> 0 then fail_hard v
          else if method_access_flags m AND kAccStatic = 0 then fail_hard v
          else if \<not> list_all is_primitive_type (GetMethodShorty m) then fail_hard v
          else Some (True, v)
        else Some (True, v)
      else Some (True, v))"

definition static_pass :: "dex_file \<Rightarrow> CodeItemDataAccessor \<Rightarrow> verifier \<Rightarrow> (bool \<times> verifier) option" where
  "static_pass df ci v =
     and_then (and_then (ComputeWidthsAndCountOps ci v) (ScanTryCatchBlocks ci)) (VerifyInstructions df ci)"

definition Verify ::
  "(verifier \<Rightarrow> (bool \<times> verifier) option) \<Rightarrow> dex_file \<Rightarrow> verified_method \<Rightarrow> verifier \<Rightarrow> (bool \<times> verifier) option" where
  "Verify code_flow df m v =
     (case code_item m of
        None \<Rightarrow> verify_no_code m v
      | Some ci \<Rightarrow>
          if registers_size ci < ins_size ci then fail_hard v
          else if InsnsSizeInCodeUnits ci = 0 then fail_hard v
          else and_then
                 (static_pass df ci (v\<lparr>insn_flags := replicate (length (insns ci)) 0\<rparr>))
                 code_flow)"

definition GetBranchOffset :: "CodeItemDataAccessor \<Rightarrow> u32 \<Rightarrow> (u32 \<times> bool \<times> bool) option option" where
  "GetBranchOffset ci cur_offset =
     (let p = drop (unat cur_offset) (insns ci) in
      do { inst_data \<leftarrow> Fetch16 p 0;
           let opcode = Opcode inst_data;
           if opcode = GOTO then Some (Some (scast (signed_drop_bit 8 inst_data), False, False))
           else if opcode = GOTO_32 then
             do { lo \<leftarrow> Fetch16 p 1; hi \<leftarrow> Fetch16 p 2;
                  Some (Some (ucast lo OR push_bit 16 (ucast hi), False, True)) }
           else if opcode = GOTO_16 then
             do { off \<leftarrow> Fetch16 p 1; Some (Some (scast off, False, False)) }
           else if opcode \<in> {IF_EQ, IF_NE, IF_LT, IF_GE, IF_GT, IF_LE,
                              IF_EQZ, IF_NEZ, IF_LTZ, IF_GEZ, IF_GTZ, IF_LEZ} then
             do { off \<leftarrow> Fetch16 p 1; Some (Some (scast off, True, False)) }
           else Some None })"

section \<open>The contracts\<close>

text \<open>
  The layout of the code: \<open>reach code p q\<close> when stepping over whole instructions leads from code
  unit \<open>p\<close> to \<open>q\<close>; an instruction starts where stepping from the first unit leads.
\<close>

inductive reach :: "u16 list \<Rightarrow> nat \<Rightarrow> nat \<Rightarrow> bool" for code where
  here: "reach code p p"
| onward: "p < length code \<Longrightarrow> SizeInCodeUnits (drop p code) = Some n \<Longrightarrow> reach code (p + n) q \<Longrightarrow>
    reach code p q"

definition insn_start :: "u16 list \<Rightarrow> nat \<Rightarrow> bool" where
  "insn_start code pc \<longleftrightarrow> reach code 0 pc"

text \<open>The elements of an array payload lie in the code, their number taken without wrap-around.\<close>

definition data_fits :: "u16 list \<Rightarrow> bool" where
  "data_fits inst \<longleftrightarrow>
     (Fetch16 inst 0 = Some kArrayDataSignature \<longrightarrow>
        (\<exists>w c. Fetch16 inst 1 = Some w \<and> Fetch32 inst 2 = Some c \<and> 8 + unat w * unat c \<le> 2 * length inst))"

definition laid_out :: "u16 list \<Rightarrow> bool" where
  "laid_out code \<longleftrightarrow>
     reach code 0 (length code) \<and>
     (\<forall>pc < length code. insn_start code pc \<longrightarrow>
        (\<exists>n. SizeInCodeUnits (drop pc code) = Some n \<and> 0 < n \<and> pc + n \<le> length code) \<and>
        data_fits (drop pc code))"

text \<open>What a checked instruction owes the code it lies in.\<close>

definition reg_ok :: "CodeItemDataAccessor \<Rightarrow> u32 \<Rightarrow> bool" where
  "reg_ok ci r \<longleftrightarrow> unat r < unat (registers_size ci)"

definition wide_reg_ok :: "CodeItemDataAccessor \<Rightarrow> u32 \<Rightarrow> bool" where
  "wide_reg_ok ci r \<longleftrightarrow> unat r + 1 < unat (registers_size ci)"

definition target_ok :: "CodeItemDataAccessor \<Rightarrow> int \<Rightarrow> bool" where
  "target_ok ci t \<longleftrightarrow>
     0 \<le> t \<and> nat t < length (insns ci) \<and> insn_start (insns ci) (nat t) \<and>
     \<not> IsMoveResultOrMoveException (Opcode (insns ci ! nat t))"

definition registers_ok :: "CodeItemDataAccessor \<Rightarrow> u16 list \<Rightarrow> bool" where
  "registers_ok ci inst \<longleftrightarrow>
     (let op = Opcode (inst ! 0); fmt = FormatOf op in
        (GetVerifyTypeArgumentAOf op = kVerifyRegA \<longrightarrow> (\<exists>a. VRegA fmt inst (inst ! 0) = Some a \<and> reg_ok ci a)) \<and>
        (GetVerifyTypeArgumentAOf op = kVerifyRegAWide \<longrightarrow> (\<exists>a. VRegA fmt inst (inst ! 0) = Some a \<and> wide_reg_ok ci a)) \<and>
        (GetVerifyTypeArgumentBOf op = kVerifyRegB \<longrightarrow> (\<exists>b. VRegB fmt inst (inst ! 0) = Some b \<and> reg_ok ci b)) \<and>
        (GetVerifyTypeArgumentBOf op = kVerifyRegBWide \<longrightarrow> (\<exists>b. VRegB fmt inst (inst ! 0) = Some b \<and> wide_reg_ok ci b)) \<and>
        (GetVerifyTypeArgumentCOf op = kVerifyRegC \<longrightarrow> (\<exists>c. VRegC fmt inst = Some c \<and> reg_ok ci c)) \<and>
        (GetVerifyTypeArgumentCOf op = kVerifyRegCWide \<longrightarrow> (\<exists>c. VRegC fmt inst = Some c \<and> wide_reg_ok ci c)) \<and>
        (HasVarArgs op \<longrightarrow>
           (\<exists>count args. GetVarArgs inst (inst ! 0) = Some (count, args) \<and> unat count \<le> 5 \<and>
              length args = unat count \<and> list_all (reg_ok ci) args)) \<and>
        (fmt \<in> {k3rc, k4rcc} \<longrightarrow>
           (\<exists>a c. VRegA fmt inst (inst ! 0) = Some a \<and> VRegC fmt inst = Some c \<and>
              unat a + unat c \<le> unat (registers_size ci))) \<and>
        (GetVerifyExtraFlagsOf op \<in> {kVerifyVarArgNonZero, kVerifyVarArgRangeNonZero} \<longrightarrow>
           (\<exists>a. VRegA fmt inst (inst ! 0) = Some a \<and> a \<noteq> 0)))"

definition switch_ok :: "CodeItemDataAccessor \<Rightarrow> nat \<Rightarrow> bool \<Rightarrow> u16 list \<Rightarrow> bool" where
  "switch_ok ci pc is_packed payload \<longleftrightarrow>
     (\<exists>count. Fetch16 payload 0 = Some (if is_packed then kPackedSwitchSignature else kSparseSwitchSignature) \<and>
        Fetch16 payload 1 = Some count \<and>
        (\<forall>i < unat count. \<exists>offset.
           (if is_packed then PackedSwitch_targets payload i else SparseSwitch_GetTargets payload i) = Some offset \<and>
           target_ok ci (int pc + sint offset)) \<and>
        (if is_packed then
           (\<exists>first_key. PackedSwitch_first_key payload = Some first_key \<and>
              (unat count \<noteq> 0 \<longrightarrow> sint first_key + int (unat count) - 1 < 2 ^ 31))
         else (\<forall>i j. i < j \<longrightarrow> j < unat count \<longrightarrow>
                 (\<exists>k l. SparseSwitch_GetKeys payload i = Some k \<and> SparseSwitch_GetKeys payload j = Some l \<and>
                    sint k < sint l))))"

definition payload_at :: "CodeItemDataAccessor \<Rightarrow> nat \<Rightarrow> u16 list option" where
  "payload_at ci pc =
     do { offset \<leftarrow> VRegB_31t (drop pc (insns ci));
          let t = int pc + sint offset;
          if 0 \<le> t \<and> nat t < length (insns ci) \<and> even t \<and> insn_start (insns ci) (nat t)
          then Some (drop (nat t) (insns ci)) else None }"

definition insn_ok :: "CodeItemDataAccessor \<Rightarrow> nat \<Rightarrow> bool" where
  "insn_ok ci pc \<longleftrightarrow>
     (let inst = drop pc (insns ci); op = Opcode (inst ! 0) in
        registers_ok ci inst \<and>
        GetVerifyExtraFlagsOf op \<noteq> kVerifyError \<and>
        (IsBranch op \<longrightarrow> (\<exists>offset. GetTargetOffset inst = Some offset \<and>
           target_ok ci (int pc + sint offset) \<and> (op \<noteq> GOTO_32 \<longrightarrow> offset \<noteq> 0))) \<and>
        (op = FILL_ARRAY_DATA \<longrightarrow>
           (\<exists>p. payload_at ci pc = Some p \<and> Fetch16 p 0 = Some kArrayDataSignature)) \<and>
        (IsSwitch op \<longrightarrow> (\<exists>p. payload_at ci pc = Some p \<and> switch_ok ci pc (op = PACKED_SWITCH) p)))"

end
