(* ===== verification/VerifierStatic.thy ===== *)
theory VerifierStatic
  imports MethodVerifier
begin

text \<open>
  What the static pass of the method verifier guarantees: the code is a sequence of whole
  instructions whose starts are exactly the flagged code units, and every instruction satisfies
  \<open>insn_ok\<close>.
\<close>

section \<open>Offsets\<close>

lemma int_unat_add_signed:
  fixes a b :: "'a::len word"
  assumes "0 \<le> int (unat a) + sint b" "int (unat a) + sint b < 2 ^ LENGTH('a)"
  shows "int (unat (a + b)) = int (unat a) + sint b"
proof -
  have "int (unat (a + b)) = (int (unat a) + sint b) mod 2 ^ LENGTH('a)"
  proof -
    have "uint b = sint b mod 2 ^ LENGTH('a)" by (metis take_bit_eq_mod uint_sint)
    then have "(uint a + uint b) mod 2 ^ LENGTH('a) = (uint a + sint b) mod 2 ^ LENGTH('a)"
      by (simp only: mod_add_right_eq)
    then show ?thesis by (simp add: uint_word_ariths)
  qed
  then show ?thesis using assms by simp
qed

lemma offset_in_range:
  assumes "dex_pc < end_pc"
  shows "IsOffsetInRange dex_pc end_pc offset \<longleftrightarrow>
    0 \<le> int (unat dex_pc) + sint offset \<and> int (unat dex_pc) + sint offset < int (unat end_pc)"
proof (cases "0 \<le> sint offset")
  case True
  then have "sint offset = int (unat offset)"
  proof -
    have "uint offset = sint offset mod 2 ^ 32" using uint_sint [of offset] by (simp add: take_bit_eq_mod)
    moreover have "sint offset < 2 ^ 31" using sint_bounds [of offset] by simp
    ultimately show ?thesis using True by simp
  qed
  moreover have "unat (end_pc - dex_pc) = unat end_pc - unat dex_pc"
    using assms by (intro unat_sub) simp
  then have "IsOffsetInRange dex_pc end_pc offset \<longleftrightarrow> unat offset < unat end_pc - unat dex_pc"
    using True by (simp add: IsOffsetInRange_def word_sle_eq word_less_nat_alt)
  moreover have "unat dex_pc < unat end_pc" using assms by (simp add: word_less_nat_alt)
  ultimately show ?thesis by linarith
next
  case False
  have "int (unat (- offset)) = - sint offset"
  proof -
    have "uint offset = sint offset mod 2 ^ 32" using uint_sint [of offset] by (simp add: take_bit_eq_mod)
    then have "uint (- offset) = (- sint offset) mod 2 ^ 32" by (simp add: uint_word_ariths mod_minus_eq)
    moreover have "- sint offset \<le> 2 ^ 31" using sint_bounds [of offset] by simp
    ultimately show ?thesis using False by simp
  qed
  moreover have "IsOffsetInRange dex_pc end_pc offset \<longleftrightarrow> unat (- offset) \<le> unat dex_pc"
    using False by (simp add: IsOffsetInRange_def word_sle_eq word_le_nat_alt)
  moreover have "unat dex_pc < unat end_pc" using assms by (simp add: word_less_nat_alt)
  ultimately show ?thesis using False by linarith
qed

section \<open>Widths\<close>

lemma unat_mult_no_wrap: "unat a * unat b < 2 ^ LENGTH('a) \<Longrightarrow> unat (a * b :: 'a::len word) = unat a * unat b"
  by (simp add: unat_mult_lem)

lemma array_size_32_64:
  fixes es :: u16 and len :: u32
  assumes "unat (4 + (ucast es * ucast len + 1) div 2 :: u64) < 2 ^ 31"
  shows "unat (4 + (ucast es * len + 1) div 2 :: u32) = unat (4 + (ucast es * ucast len + 1) div 2 :: u64)"
proof -
  define bytes where "bytes = unat es * unat len"
  have es: "unat es < 2 ^ 16" and len: "unat len < 2 ^ 32"
    using unsigned_less [of es, where ?'a = nat] unsigned_less [of len, where ?'a = nat] by simp_all
  have b48: "bytes < 2 ^ 48"
  proof -
    have "bytes \<le> unat es * 2 ^ 32" unfolding bytes_def using len by (intro mult_le_mono2) simp
    also have "\<dots> < 2 ^ 16 * 2 ^ 32" using es by (intro mult_strict_right_mono) simp_all
    finally show ?thesis by simp
  qed
  then have u64: "unat (ucast es * ucast len :: u64) = bytes"
    unfolding bytes_def by (subst unat_mult_no_wrap) (simp_all add: unat_ucast_up)
  then have "unat (ucast es * ucast len + 1 :: u64) = bytes + 1"
    using b48 by (subst unat_add_lem [THEN iffD1]) simp_all
  then have "unat ((ucast es * ucast len + 1) div 2 :: u64) = (bytes + 1) div 2" by (simp add: unat_div)
  then have c64: "unat (4 + (ucast es * ucast len + 1) div 2 :: u64) = 4 + (bytes + 1) div 2"
    using b48 by (subst unat_add_lem [THEN iffD1]) simp_all
  then have b32: "bytes + 1 < 2 ^ 32" using assms by simp
  then have "unat (ucast es * len :: u32) = bytes"
    unfolding bytes_def by (subst unat_mult_no_wrap) (simp_all add: unat_ucast_up)
  then have "unat (ucast es * len + 1 :: u32) = bytes + 1"
    using b32 by (subst unat_add_lem [THEN iffD1]) simp_all
  then have "unat ((ucast es * len + 1) div 2 :: u32) = (bytes + 1) div 2" by (simp add: unat_div)
  then have "unat (4 + (ucast es * len + 1) div 2 :: u32) = 4 + (bytes + 1) div 2"
    using b32 by (subst unat_add_lem [THEN iffD1]) simp_all
  then show ?thesis using c64 by simp
qed

lemma unat_of_nat_length: "length xs < 2 ^ 31 \<Longrightarrow> unat (of_nat (length xs) :: u32) = length xs"
  by (simp add: unat_of_nat take_bit_nat_eq_self_iff)

lemma check_switch_size:
  assumes "length inst < 2 ^ 31" "2 \<le> base" "base \<le> 4" "entry \<le> 4"
  shows "\<exists>w. check_switch (of_nat base) (of_nat entry) (of_nat (length inst)) inst = Some w \<and>
    (\<forall>n. w = Some n \<longrightarrow> (\<exists>count. Fetch16 inst 1 = Some count \<and> unat n = base + unat count * entry \<and> unat n \<le> length inst))"
proof (cases "length inst < base")
  case True
  then have "(of_nat (length inst) :: u32) < of_nat base"
    using assms by (simp add: word_less_nat_alt unat_of_nat take_bit_nat_eq_self_iff)
  then show ?thesis by (simp add: check_switch_def)
next
  case False
  then obtain count where count: "Fetch16 inst 1 = Some count"
    using assms(2) by (simp add: Fetch16_def)
  have ub: "unat (of_nat base :: u32) = base" "unat (of_nat entry :: u32) = entry"
    using assms(3,4) by (simp_all add: unat_of_nat take_bit_nat_eq_self_iff)
  have "unat count < 65536" using unsigned_less [of count, where ?'a = nat] by simp
  then have le: "unat count * entry \<le> 65535 * 4" using assms(4) by (intro mult_le_mono) simp_all
  then have m: "unat (ucast count * of_nat entry :: u32) = unat count * entry"
    by (subst unat_mult_no_wrap) (simp_all add: unat_ucast_up ub)
  have n: "unat (of_nat base + ucast count * of_nat entry :: u32) = base + unat count * entry"
    using le assms(3) by (subst unat_add_lem [THEN iffD1]) (simp_all add: m ub)
  have "\<not> (of_nat (length inst) :: u32) < of_nat base"
    using False assms by (simp add: word_less_nat_alt unat_of_nat take_bit_nat_eq_self_iff)
  then show ?thesis
    using count n unat_of_nat_length [OF assms(1)]
    by (auto simp: check_switch_def Let_def word_less_nat_alt)
qed

lemma Fetch16_first: "inst \<noteq> [] \<Longrightarrow> Fetch16 inst 0 = Some (inst ! 0)"
  by (simp add: Fetch16_def)

lemma width_size:
  assumes "inst \<noteq> []" "length inst < 2 ^ 31"
  shows "\<exists>w. instruction_width (of_nat (length inst)) inst = Some w \<and>
    (\<forall>n. w = Some n \<longrightarrow> SizeInCodeUnits inst = Some (unat n) \<and> unat n \<le> length inst)"
proof -
  note f0 = Fetch16_first [OF assms(1)]
  note ul = unat_of_nat_length [OF assms(2)]
  let ?d = "inst ! 0"
  consider "Opcode ?d \<noteq> NOP" | "Opcode ?d = NOP" "?d = kPackedSwitchSignature"
    | "Opcode ?d = NOP" "?d = kSparseSwitchSignature" | "Opcode ?d = NOP" "?d = kArrayDataSignature"
    | "Opcode ?d = NOP" "?d \<noteq> kPackedSwitchSignature" "?d \<noteq> kSparseSwitchSignature" "?d \<noteq> kArrayDataSignature"
    by blast
  then show ?thesis
  proof cases
    case 1
    then show ?thesis
      using f0 ul format_size_bounds(2) [of "Opcode ?d"]
      by (simp add: instruction_width_def SizeInCodeUnits_non_nop word_le_nat_alt Let_def)
  next
    case 2
    have "SizeInCodeUnits inst = map_option (\<lambda>n. 4 + unat n * 2) (Fetch16 inst 1)"
      using f0 2 by (simp add: SizeInCodeUnits_nop SizeInCodeUnitsComplexOpcode_def map_conv_bind_option comp_def)
    then show ?thesis
      using f0 2 check_switch_size [OF assms(2), of 4 2] by (fastforce simp: instruction_width_def)
  next
    case 3
    have "SizeInCodeUnits inst = map_option (\<lambda>n. 2 + unat n * 4) (Fetch16 inst 1)"
      using f0 3 by (simp add: SizeInCodeUnits_nop SizeInCodeUnitsComplexOpcode_def map_conv_bind_option comp_def)
    then show ?thesis
      using f0 3 check_switch_size [OF assms(2), of 2 4] by (fastforce simp: instruction_width_def)
  next
    case 4
    show ?thesis
    proof (cases "length inst < 4")
      case True
      then have "(of_nat (length inst) :: u32) < 4" by (simp add: word_less_nat_alt ul)
      then show ?thesis using f0 4 by (simp add: instruction_width_def)
    next
      case False
      then obtain es lo hi where f: "Fetch16 inst 1 = Some es" "Fetch16 inst 2 = Some lo" "Fetch16 inst 3 = Some hi"
        by (simp add: Fetch16_def)
      let ?len = "ucast lo OR push_bit 16 (ucast hi) :: u32"
      let ?c64 = "4 + (ucast es * ucast ?len + 1) div 2 :: u64"
      have nl: "\<not> (of_nat (length inst) :: u32) < 4" using False by (simp add: word_less_nat_alt ul)
      have w: "instruction_width (of_nat (length inst)) inst =
          Some (if ucast (of_nat (length inst) :: u32) < ?c64 then None else Some (ucast ?c64))"
        using f0 4 f nl by (simp add: instruction_width_def Let_def)
      have s: "SizeInCodeUnits inst = Some (unat (4 + (ucast es * ?len + 1) div 2 :: u32))"
        using f0 4 f by (simp add: SizeInCodeUnits_nop SizeInCodeUnitsComplexOpcode_def Let_def)
      show ?thesis
      proof (cases "ucast (of_nat (length inst) :: u32) < ?c64")
        case True
        then show ?thesis unfolding w by simp
      next
        case False
        then have le: "unat ?c64 \<le> length inst"
          by (simp only: not_less word_le_nat_alt unat_ucast_up ul) (simp add: unat_ucast_up ul)
        then have "unat (ucast ?c64 :: u32) = unat ?c64"
          using assms(2) by (simp add: unsigned_ucast_eq take_bit_nat_eq_self_iff)
        moreover have "unat (4 + (ucast es * ?len + 1) div 2 :: u32) = unat ?c64"
          using le assms(2) by (intro array_size_32_64) simp
        ultimately show ?thesis unfolding w s using False le by simp
      qed
    qed
  next
    case 5
    then show ?thesis
      using f0 assms(1) by (simp add: instruction_width_def SizeInCodeUnits_nop SizeInCodeUnitsComplexOpcode_def Suc_leI)
  qed
qed

section \<open>Stepping through the code\<close>

inductive_cases reach_elim: "reach code p q"

lemma reach_le: "reach code p q \<Longrightarrow> p \<le> q"
  by (induction rule: reach.induct) (auto dest: SizeInCodeUnits_pos)

lemma reach_next:
  "reach code p q \<Longrightarrow> p \<noteq> q \<Longrightarrow> SizeInCodeUnits (drop p code) = Some n \<Longrightarrow> reach code (p + n) q"
  by (auto elim: reach_elim)

lemma reach_iff:
  "reach code p q \<longleftrightarrow> p = q \<or> p < length code \<and> (\<exists>n. SizeInCodeUnits (drop p code) = Some n \<and> reach code (p + n) q)"
  by (auto elim: reach_elim intro: reach.intros)

lemma reach_trans: "reach code p q \<Longrightarrow> reach code q r \<Longrightarrow> reach code p r"
  by (induction rule: reach.induct) (auto intro: reach.intros)

lemma reach_linear: "reach code p q \<Longrightarrow> reach code p r \<Longrightarrow> reach code q r \<or> reach code r q"
proof (induction arbitrary: r rule: reach.induct)
  case (onward p n q)
  show ?case
  proof (cases "p = r")
    case True
    then show ?thesis using onward.hyps by (auto intro: reach.onward)
  next
    case False
    then show ?thesis using onward.IH reach_next [OF onward.prems False onward.hyps(2)] by blast
  qed
qed simp

lemma no_start_inside:
  assumes "insn_start code p" "insn_start code q" "SizeInCodeUnits (drop p code) = Some n" "p < q" 
  shows "p + n \<le> q"
proof -
  have "reach code p q"
    using reach_linear [of code 0 p q] assms reach_le [of code q p] by (auto simp: insn_start_def)
  then show ?thesis using reach_next [of code p q n] assms reach_le by fastforce
qed

section \<open>Flags\<close>

lemma or_and_disjoint: "x AND y = 0 \<Longrightarrow> (f OR x) AND y = f AND (y :: 'a::len word)"
  by (simp add: bit.conj_disj_distrib2)

lemma and_or_absorb: "x AND (x OR y) = (x :: 'a::len word)"
  by (rule bit_word_eqI) (simp add: bit_simps)

lemma flag_reads [simp]:
  "IsOpcode (SetIsOpcode f)" "IsOpcode (SetInTry f) = IsOpcode f"
  "IsOpcode (SetBranchTarget f) = IsOpcode f" "IsOpcode (SetReturn f) = IsOpcode f"
  "IsBranchTarget (SetBranchTarget f)" "IsInTry (SetInTry f)" "IsReturnFlag (SetReturn f)"
  by (simp_all add: IsOpcode_def SetIsOpcode_def SetInTry_def SetBranchTarget_def SetReturn_def
      IsBranchTarget_def IsInTry_def IsReturnFlag_def or_and_disjoint)

lemma not_IsOpcode_0 [simp]: "\<not> IsOpcode 0"
  by (simp add: IsOpcode_def)

text \<open>\<open>v'\<close> has the instruction starts of \<open>v\<close> and every flag that \<open>v\<close> has.\<close>

definition flags_extend :: "verifier \<Rightarrow> verifier \<Rightarrow> bool" where
  "flags_extend v v' \<longleftrightarrow>
     length (insn_flags v') = length (insn_flags v) \<and>
     (\<forall>i < length (insn_flags v).
        IsOpcode (insn_flags v' ! i) = IsOpcode (insn_flags v ! i) \<and> insn_flags v ! i AND insn_flags v' ! i = insn_flags v ! i)"

lemma flags_extend_refl [simp]: "flags_extend v v"
  by (simp add: flags_extend_def)

lemma flags_extend_trans: "flags_extend u v \<Longrightarrow> flags_extend v w \<Longrightarrow> flags_extend u w"
proof -
  assume e: "flags_extend u v" "flags_extend v w"
  have "x AND z = x" if "x AND y = x" "y AND z = y" for x y z :: u8
    using that by (metis and.assoc)
  then have "insn_flags u ! i AND insn_flags w ! i = insn_flags u ! i" if "i < length (insn_flags u)" for i
    using e that unfolding flags_extend_def by metis
  then show ?thesis using e by (simp add: flags_extend_def)
qed

lemma insn_flags_Fail [simp]: "insn_flags (Fail error v) = insn_flags v"
  by (simp add: Fail_def)

lemma flags_extend_Fail [simp]: "flags_extend v (Fail error v)"
  by (simp add: flags_extend_def)

lemma Modify_flags_extend:
  assumes "ModifyInstructionFlags f i v = Some v'" "f \<in> {SetInTry, SetBranchTarget, SetReturn}"
  shows "flags_extend v v'"
proof -
  have "v' = v\<lparr>insn_flags := (insn_flags v)[unat i := f (insn_flags v ! unat i)]\<rparr>"
    using assms(1) unfolding ModifyInstructionFlags_def by (metis option.distinct(1) option.inject)
  moreover have "IsOpcode (f x) = IsOpcode x" "x AND f x = x" for x
    using assms(2) by (auto simp: SetInTry_def SetBranchTarget_def SetReturn_def IsOpcode_def or_and_disjoint and_or_absorb)
  then have "IsOpcode (xs[k := f (xs ! k)] ! j) = IsOpcode (xs ! j)" "xs ! j AND xs[k := f (xs ! k)] ! j = xs ! j"
    if "j < length xs" for xs k j
    using that by (cases "k = j"; simp)+
  ultimately show ?thesis by (simp add: flags_extend_def)
qed

section \<open>The widths pass\<close>

lemma width_data_fits:
  assumes "instruction_width (of_nat (length inst)) inst = Some (Some n)" "length inst < 2 ^ 31"
  shows "data_fits inst"
  unfolding data_fits_def
proof
  assume a: "Fetch16 inst 0 = Some kArrayDataSignature"
  then have "Opcode kArrayDataSignature = NOP" by (simp add: Opcode_def)
  with a assms(1) obtain es lo hi where f: "Fetch16 inst 1 = Some es" "Fetch16 inst 2 = Some lo" "Fetch16 inst 3 = Some hi"
    and le: "\<not> ucast (of_nat (length inst) :: u32) < (4 + (ucast es * ucast (ucast lo OR push_bit 16 (ucast hi) :: u32) + 1) div 2 :: u64)"
    by (auto simp: instruction_width_def Let_def bind_eq_Some_conv split: if_splits)
  define c where "c = (ucast lo OR push_bit 16 (ucast hi) :: u32)"
  have "unat es < 2 ^ 16" "unat c < 2 ^ 32"
    using unsigned_less [of es, where ?'a = nat] unsigned_less [of c, where ?'a = nat] by simp_all
  then have "unat es * unat c \<le> 2 ^ 16 * 2 ^ 32" by (intro mult_le_mono) simp_all
  then have lt: "unat es * unat c < 2 ^ 60" by (rule le_less_trans) simp
  have m: "unat (ucast es * ucast c :: u64) = unat es * unat c"
    using lt by (subst unat_mult_no_wrap) (simp_all add: unat_ucast_up)
  have "unat (ucast es * ucast c + 1 :: u64) = unat es * unat c + 1"
    using lt by (subst unat_add_lem [THEN iffD1]) (simp_all add: m)
  then have d: "unat ((ucast es * ucast c + 1) div 2 :: u64) = (unat es * unat c + 1) div 2" by (simp add: unat_div)
  have "unat (4 + (ucast es * ucast c + 1) div 2 :: u64) = 4 + (unat es * unat c + 1) div 2"
    using lt by (subst unat_add_lem [THEN iffD1]) (simp_all add: d)
  then have "4 + (unat es * unat c + 1) div 2 \<le> length inst"
    using le unat_of_nat_length [OF assms(2)] by (simp add: c_def [symmetric] word_less_nat_alt unat_ucast_up)
  then have "8 + unat es * unat c \<le> 2 * length inst" by presburger
  then show "\<exists>w c. Fetch16 inst 1 = Some w \<and> Fetch32 inst 2 = Some c \<and> 8 + unat w * unat c \<le> 2 * length inst"
    using f by (simp add: Fetch32_def c_def numeral_3_eq_3 numeral_2_eq_2)
qed

lemma ComputeWidthsLoop_correct:
  assumes "length (insns ci) < 2 ^ 31" "unat pc \<le> length (insns ci)"
    and "length (insn_flags v) = length (insns ci)"
  shows "\<exists>b v'. ComputeWidthsLoop ci pc v = Some (b, v') \<and> length (insn_flags v') = length (insns ci) \<and>
    (b \<longrightarrow> reach (insns ci) (unat pc) (length (insns ci)) \<and>
      (\<forall>i < length (insns ci). IsOpcode (insn_flags v' ! i) \<longleftrightarrow>
         IsOpcode (insn_flags v ! i) \<or> reach (insns ci) (unat pc) i) \<and>
      (\<forall>i < length (insns ci). reach (insns ci) (unat pc) i \<longrightarrow>
         (\<exists>n. SizeInCodeUnits (drop i (insns ci)) = Some n \<and> i + n \<le> length (insns ci)) \<and>
         data_fits (drop i (insns ci))))"
  using assms(2,3)
proof (induction "length (insns ci) - unat pc" arbitrary: pc v rule: less_induct)
  case less
  let ?code = "insns ci"
  have size: "unat (InsnsSizeInCodeUnits ci) = length ?code"
    using assms(1) by (simp add: InsnsSizeInCodeUnits_def unat_of_nat_length)
  show ?case
  proof (cases "unat pc = length ?code")
    case True
    then have "pc = InsnsSizeInCodeUnits ci" using size by (metis word_unat_eq_iff)
    moreover have "reach ?code (unat pc) i \<longleftrightarrow> i = length ?code" for i
      using True by (subst reach_iff) auto
    ultimately show ?thesis using less.prems by (simp add: ComputeWidthsLoop.simps Let_def ex_bool_eq)
  next
    case False
    then have lt: "unat pc < length ?code" using less.prems(1) by simp
    define inst where "inst = drop (unat pc) ?code"
    have inst: "inst \<noteq> []" "length inst = length ?code - unat pc" "length inst < 2 ^ 31"
      using lt assms(1) by (simp_all add: inst_def)
    have ne: "pc \<noteq> InsnsSizeInCodeUnits ci" using False size by auto
    have "unat (InsnsSizeInCodeUnits ci - pc) = length inst"
      using lt size inst(2) by (subst unat_sub) (simp_all add: word_le_nat_alt)
    then have rem: "InsnsSizeInCodeUnits ci - pc = of_nat (length inst)" by (metis unsigned_word_eqI unat_of_nat_length inst(3))
    obtain w where w: "instruction_width (of_nat (length inst)) inst = Some w"
      "\<And>n. w = Some n \<Longrightarrow> SizeInCodeUnits inst = Some (unat n) \<and> unat n \<le> length inst"
      using width_size [OF inst(1,3)] by blast
    note loop = ComputeWidthsLoop.simps [of ci pc v] Let_def ne rem InstructionAt_def inst_def [symmetric] w(1)
    show ?thesis
    proof (cases w)
      case None
      then show ?thesis using less.prems by (simp add: loop fail_hard_def ex_bool_eq)
    next
      case (Some n)
      have fit: "data_fits (drop (unat pc) ?code)"
        using width_data_fits [of inst n] w(1) Some inst(3) by (simp add: inst_def)
      have n: "SizeInCodeUnits (drop (unat pc) ?code) = Some (unat n)" "unat n \<le> length inst"
        using w(2) [OF Some] by (simp_all add: inst_def)
      then have n0: "0 < unat n" using SizeInCodeUnits_pos by blast
      define v1 where "v1 = v\<lparr>insn_flags := (insn_flags v)[unat pc := SetIsOpcode (insn_flags v ! unat pc)]\<rparr>"
      have pcn: "unat (pc + n) = unat pc + unat n"
        using n(2) inst(2) assms(1) lt by (subst unat_add_lem [THEN iffD1]) simp_all
      have step: "ComputeWidthsLoop ci pc v = ComputeWidthsLoop ci (pc + n) v1"
        using lt less.prems(2) by (simp add: loop Some ModifyInstructionFlags_def v1_def)
      have "length ?code - unat (pc + n) < length ?code - unat pc" "unat (pc + n) \<le> length ?code"
        "length (insn_flags v1) = length ?code"
        using pcn n0 n(2) inst(2) lt less.prems(2) by (simp_all add: v1_def)
      note IH' = less.hyps [OF this]
      then obtain b v' where IH: "ComputeWidthsLoop ci (pc + n) v1 = Some (b, v')" "length (insn_flags v') = length ?code"
        "b \<Longrightarrow> reach ?code (unat (pc + n)) (length ?code)"
        "b \<Longrightarrow> \<forall>i < length ?code. IsOpcode (insn_flags v' ! i) \<longleftrightarrow> IsOpcode (insn_flags v1 ! i) \<or> reach ?code (unat (pc + n)) i"
        "b \<Longrightarrow> \<forall>i < length ?code. reach ?code (unat (pc + n)) i \<longrightarrow>
           (\<exists>n. SizeInCodeUnits (drop i ?code) = Some n \<and> i + n \<le> length ?code) \<and> data_fits (drop i ?code)"
        by blast
      have r: "reach ?code (unat pc) i \<longleftrightarrow> i = unat pc \<or> reach ?code (unat (pc + n)) i" for i
        using n(1) lt by (subst reach_iff) (auto simp: pcn)
      have v1: "IsOpcode (insn_flags v1 ! i) \<longleftrightarrow> IsOpcode (insn_flags v ! i) \<or> i = unat pc" if "i < length ?code" for i
        using that less.prems(2) by (cases "i = unat pc") (simp_all add: v1_def)
      have fits: "(\<exists>n. SizeInCodeUnits (drop i ?code) = Some n \<and> i + n \<le> length ?code) \<and> data_fits (drop i ?code)"
        if "b" "i < length ?code" "reach ?code (unat pc) i" for i
        using that r IH(5) n inst(2) lt fit by (cases "i = unat pc") auto
      show ?thesis unfolding step using IH(1-4) v1 r fits by auto
    qed
  qed
qed

text \<open>The pass answers on every code, without reading outside it.\<close>

lemma ComputeWidths_layout:
  assumes "length (insns ci) < 2 ^ 31" "insn_flags v = replicate (length (insns ci)) 0"
    and "ComputeWidthsAndCountOps ci v = Some (True, v')"
  shows "laid_out (insns ci)" "length (insn_flags v') = length (insns ci)"
    "\<And>i. i < length (insns ci) \<Longrightarrow> IsOpcode (insn_flags v' ! i) \<longleftrightarrow> insn_start (insns ci) i"
proof -
  have c: "ComputeWidthsLoop ci 0 v = Some (True, v')"
    using assms(3) by (simp add: ComputeWidthsAndCountOps_def)
  have "length (insn_flags v) = length (insns ci)" using assms(2) by simp
  note L = ComputeWidthsLoop_correct [OF assms(1) _ this, of 0, unfolded c, simplified ex_bool_eq, simplified]
  show "length (insn_flags v') = length (insns ci)" using L by blast
  show "IsOpcode (insn_flags v' ! i) \<longleftrightarrow> insn_start (insns ci) i" if "i < length (insns ci)" for i
    using L that assms(2) by (simp add: insn_start_def)
  show "laid_out (insns ci)"
    using L SizeInCodeUnits_pos unfolding laid_out_def insn_start_def by blast
qed

lemma ComputeWidths_total:
  assumes "length (insns ci) < 2 ^ 31" "length (insn_flags v) = length (insns ci)"
  shows "ComputeWidthsAndCountOps ci v \<noteq> None"
  using ComputeWidthsLoop_correct [OF assms(1) _ assms(2), of 0] by (auto simp: ComputeWidthsAndCountOps_def)

section \<open>Later passes keep the instruction starts\<close>

named_theorems keeps_intros \<open>functions of the verifier that keep the instruction starts\<close>

definition keeps :: "verifier \<Rightarrow> (bool \<times> verifier) option \<Rightarrow> bool" where
  "keeps v r \<longleftrightarrow> (\<forall>b v'. r = Some (b, v') \<longrightarrow> flags_extend v v')"

lemma keeps_Some [keeps_intros]: "flags_extend v v' \<Longrightarrow> keeps v (Some (b, v'))"
  by (simp add: keeps_def)

lemma keeps_fail_hard [keeps_intros]: "keeps v (fail_hard v)"
  by (simp add: keeps_def fail_hard_def)

lemma keeps_check [keeps_intros]: "keeps v (check c v)"
  by (simp add: check_def keeps_intros)

lemma keeps_and_then [keeps_intros]:
  assumes "keeps v r" "\<And>v'. keeps v' (f v')"
  shows "keeps v (and_then r f)"
proof -
  have "flags_extend v w" if r: "and_then r f = Some (b, w)" for b w
  proof -
    obtain c u where u: "r = Some (c, u)" "if c then f u = Some (b, w) else u = w"
      using r by (auto simp: and_then_def bind_eq_Some_conv split: if_splits)
    have "flags_extend v u" using assms(1) u(1) by (simp add: keeps_def)
    moreover have "flags_extend u w" using assms(2) u(2) by (cases c) (auto simp: keeps_def)
    ultimately show ?thesis by (rule flags_extend_trans)
  qed
  then show ?thesis by (simp add: keeps_def)
qed

lemma keeps_bind [keeps_intros]: "(\<And>x. keeps v (f x)) \<Longrightarrow> keeps v (Option.bind m f)"
  by (cases m) (simp_all add: keeps_def)

lemma keeps_if [keeps_intros]: "keeps v r \<Longrightarrow> keeps v s \<Longrightarrow> keeps v (if c then r else s)"
  by simp

lemma keeps_split [keeps_intros]: "(\<And>a b. keeps v (f a b)) \<Longrightarrow> keeps v (case p of (a, b) \<Rightarrow> f a b)"
  by (cases p) simp

lemma keeps_mark [keeps_intros]:
  "f \<in> {SetInTry, SetBranchTarget, SetReturn} \<Longrightarrow>
   keeps v (do { v' \<leftarrow> ModifyInstructionFlags f i v; Some (b, v') })"
  unfolding keeps_def by (auto simp: bind_eq_Some_conv intro: Modify_flags_extend)

lemmas check_defs =
  CheckRegisterIndex_def CheckWideRegisterIndex_def CheckCallSiteIndex_def CheckMethodIndex_def
  CheckMethodHandleIndex_def CheckPrototypeIndex_def CheckStringIndex_def CheckTypeIndex_def
  CheckFieldIndex_def CheckNewInstance_def CheckNewArray_def CheckVarArgRangeRegs_def CheckVarArgRegs_def

lemma keeps_check_and_mark_target [keeps_intros]:
  "keeps v (check_and_mark_target ci dex_pc end_pc offset v)"
  unfolding check_and_mark_target_def Let_def by (intro keeps_intros) simp_all

lemma keeps_check_targets [keeps_intros]:
  "keeps v (check_targets ci dex_pc end_pc payload targets_offset targs v)"
  by (induction targs arbitrary: v) (auto intro!: keeps_intros)

lemma keeps_targets [keeps_intros]:
  "keeps v (CheckArrayData ci dex_pc end_pc inst v)"
  "keeps v (CheckAndMarkBranchTarget fmt ci dex_pc end_pc inst inst_data v)"
  "keeps v (CheckAndMarkSwitchTargets ci dex_pc end_pc inst inst_data v)"
  unfolding CheckArrayData_def CheckAndMarkBranchTarget_def CheckAndMarkSwitchTargets_def Let_def
  by (intro keeps_intros)+

lemma keeps_verify [keeps_intros]:
  "keeps v (verify_A k ci inst inst_data v)" "keeps v (verify_B k df ci inst inst_data v)"
  "keeps v (verify_C k df ci inst inst_data v)" "keeps v (verify_H k df inst v)"
  "keeps v (verify_extra k ci dex_pc end_pc inst inst_data result v)"
  unfolding verify_A_def verify_B_def verify_C_def verify_H_def verify_extra_def check_defs Let_def
  by (intro keeps_intros flags_extend_Fail flags_extend_refl)+

lemma keeps_then:
  assumes "keeps v r" "\<And>b v'. keeps v' (f b v')"
  shows "keeps v (do { (b, v') \<leftarrow> r; f b v' })"
  using assms unfolding keeps_def by (auto simp: bind_eq_Some_conv intro: flags_extend_trans)

lemma keeps_VerifyInstruction:
  "keeps v (VerifyInstruction k df ci dex_pc end_pc inst inst_data v)"
  unfolding VerifyInstruction_def by (intro keeps_then keeps_intros)

lemma keeps_extend: "keeps v r \<Longrightarrow> r = Some (b, v') \<Longrightarrow> flags_extend v v'"
  by (simp add: keeps_def)

lemma mark_in_try_extend: "mark_in_try ci pc end_pc v = Some v' \<Longrightarrow> flags_extend v v'"
proof (induction ci pc end_pc v rule: mark_in_try.induct)
  case (1 ci pc end_pc v)
  show ?case
  proof (cases "pc < end_pc")
    case True
    with 1(2) obtain v1 n where s: "ModifyInstructionFlags SetInTry (of_nat pc) v = Some v1"
      "SizeInCodeUnits (drop pc (insns ci)) = Some n" "pc + n < 2 ^ 32" "mark_in_try ci (pc + n) end_pc v1 = Some v'"
      by (auto simp: mark_in_try.simps [of ci pc] bind_eq_Some_conv split: if_splits)
    then have "flags_extend v1 v'" using 1(1) [OF True s(1-3)] by simp
    moreover have "flags_extend v v1" by (rule Modify_flags_extend [OF s(1)]) simp
    ultimately show ?thesis by (metis flags_extend_trans)
  next
    case False
    then show ?thesis using 1(2) by (simp add: mark_in_try.simps [of ci pc])
  qed
qed

lemma keeps_scan_try_items: "keeps v (scan_try_items ci items v)"
proof (induction items arbitrary: v)
  case (Cons ti items)
  have mark: "keeps v (do { v' \<leftarrow> mark_in_try ci pc end_pc v; scan_try_items ci items v' })" for pc end_pc
  proof (cases "mark_in_try ci pc end_pc v")
    case (Some v')
    then show ?thesis using Cons [of v'] mark_in_try_extend [OF Some] flags_extend_trans
      by (fastforce simp: keeps_def)
  qed (simp add: keeps_def)
  show ?case unfolding scan_try_items.simps Let_def
    by (rule mark keeps_if keeps_fail_hard keeps_bind)+
qed (simp add: keeps_intros)

lemma scan_iterator_extend: "scan_iterator ci it v = Some (b, v', p) \<Longrightarrow> flags_extend v v'"
proof (induction ci it v arbitrary: b v' p rule: scan_iterator.induct)
  case (1 ci it v)
  show ?case
  proof (cases "HasNext it")
    case True
    with 1(2) obtain flgs where flgs: "GetInstructionFlags (handler_address it) v = Some flgs"
      by (auto simp: scan_iterator.simps [of ci it] Let_def bind_eq_Some_conv)
    show ?thesis
    proof (cases "v' = Fail VERIFY_ERROR_BAD_CLASS_HARD v")
      case True
      then show ?thesis by simp
    next
      case False
      with 1(2) flgs True obtain d v1 it' where s: "IsOpcode flgs" "Fetch16 (InstructionAt ci (handler_address it)) 0 = Some d"
        "\<not> IsMoveResult (Opcode d)" "ModifyInstructionFlags SetBranchTarget (handler_address it) v = Some v1"
        "CatchHandlerIterator_Next it = Some it'" "scan_iterator ci it' v1 = Some (b, v', p)"
        by (auto simp: scan_iterator.simps [of ci it] Let_def bind_eq_Some_conv split: if_splits)
      have "flags_extend v1 v'" by (rule 1(1) [OF True refl flgs _ s(2-6)]) (simp add: s(1))
      moreover have "flags_extend v v1" by (rule Modify_flags_extend [OF s(4)]) simp
      ultimately show ?thesis by (metis flags_extend_trans)
    qed
  next
    case False
    then show ?thesis using 1(2) by (auto simp: scan_iterator.simps [of ci it] Let_def bind_eq_Some_conv)
  qed
qed

lemma keeps_scan_handlers: "keeps v (scan_handlers ci n p v)"
proof (induction n arbitrary: p v)
  case (Suc n)
  show ?case unfolding scan_handlers.simps keeps_def
  proof (intro allI impI)
    fix b w
    assume "do { it \<leftarrow> CatchHandlerIterator_InitData p; (ok, v', q) \<leftarrow> scan_iterator ci it v;
      if ok then scan_handlers ci n q v' else Some (False, v') } = Some (b, w)"
    then obtain it ok v' q where s: "scan_iterator ci it v = Some (ok, v', q)"
      "(if ok then scan_handlers ci n q v' else Some (False, v')) = Some (b, w)"
      by (auto simp: bind_eq_Some_conv)
    have "flags_extend v' w" using s(2) Suc [of v' q] by (auto simp: keeps_def split: if_splits)
    then show "flags_extend v w" using scan_iterator_extend [OF s(1)] by (metis flags_extend_trans)
  qed
qed (simp add: keeps_intros)

lemma keeps_ScanTryCatchBlocks: "keeps v (ScanTryCatchBlocks ci v)"
  unfolding ScanTryCatchBlocks_def
  by (intro keeps_intros keeps_scan_try_items keeps_scan_handlers) simp

end
