(* ===== verification/VerifierDispatch.thy ===== *)
theory VerifierDispatch
  imports VerifierStatic
begin

text \<open>
  What the checks of the static pass rely on in the opcode table, the dispatch of
  \<open>VerifyInstructions\<close> to the instances of \<open>VerifyInstruction\<close>, and what the acceptance of a
  check means.
\<close>

section \<open>Contracts on indices and flags\<close>

text \<open>
  The index operands of an instruction that the pass compares with the tables of the dex file.
\<close>

definition indices_ok :: "dex_file \<Rightarrow> u16 list \<Rightarrow> bool" where
  "indices_ok df inst \<longleftrightarrow>
     (let op = Opcode (inst ! 0); fmt = FormatOf op; kb = GetVerifyTypeArgumentBOf op; kc = GetVerifyTypeArgumentCOf op in
        (kb = kVerifyRegBString \<longrightarrow> (\<exists>b. VRegB fmt inst (inst ! 0) = Some b \<and> b < NumStringIds df)) \<and>
        (kb = kVerifyRegBMethod \<longrightarrow> (\<exists>b. VRegB fmt inst (inst ! 0) = Some b \<and> b < NumMethodIds df)) \<and>
        (kb = kVerifyRegBField \<longrightarrow> (\<exists>b. VRegB fmt inst (inst ! 0) = Some b \<and> b < NumFieldIds df)) \<and>
        (kb \<in> {kVerifyRegBType, kVerifyRegBNewInstance, kVerifyRegBFilledNewArray} \<longrightarrow>
           (\<exists>b. VRegB fmt inst (inst ! 0) = Some b \<and> ucast (ucast b :: u16) < NumTypeIds df)) \<and>
        (kc = kVerifyRegCField \<longrightarrow> (\<exists>c. VRegC fmt inst = Some c \<and> c < NumFieldIds df)) \<and>
        (kc \<in> {kVerifyRegCType, kVerifyRegCNewArray} \<longrightarrow>
           (\<exists>c. VRegC fmt inst = Some c \<and> ucast (ucast c :: u16) < NumTypeIds df)) \<and>
        (kb = kVerifyRegBNewInstance \<longrightarrow>
           (\<exists>b. VRegB fmt inst (inst ! 0) = Some b \<and> first_char (GetTypeDescriptor df (ucast b)) = CHR ''L'')) \<and>
        (kb = kVerifyRegBFilledNewArray \<longrightarrow>
           (\<exists>b. VRegB fmt inst (inst ! 0) = Some b \<and> first_char (GetTypeDescriptor df (ucast b)) = CHR ''['')) \<and>
        (kc = kVerifyRegCNewArray \<longrightarrow>
           (\<exists>c. VRegC fmt inst = Some c \<and> first_char (GetTypeDescriptor df (ucast c)) = CHR ''['')) \<and>
        (GetVerifyTypeArgumentHOf op = kVerifyRegHPrototype \<longrightarrow>
           (\<exists>h. VRegH fmt inst = Some h \<and> h < NumProtoIds df)))"

section \<open>Facts of the opcode table\<close>

definition verify_row :: "u8 \<Rightarrow> InstructionDescriptor \<Rightarrow> bool" where
  "verify_row opcode d \<longleftrightarrow>
     (let f = format d; v = verify_flags d in
        (v AND 3 = 0 \<or> f \<in> {k11n, k11x, k12x, k21c, k21h, k21s, k21t, k22b, k22c, k22s, k22t, k22x, k23x, k31c, k31i, k31t, k32x, k51l}) \<and>
        (v AND 0x104 = 0 \<or> f \<in> {k12x, k22x, k32x, k23x, k22b, k22c, k22s, k22t}) \<and>
        (v AND 0x2200 = 0 \<or> f = k23x) \<and>
        v AND 3 \<noteq> 3 \<and>
        ((v AND 0x4000 \<noteq> 0) = (opcode = FILL_ARRAY_DATA)) \<and>
        ((v AND 0x10000 \<noteq> 0) = (opcode = PACKED_SWITCH \<or> opcode = SPARSE_SWITCH)) \<and>
        ((f = k30t) = (opcode = GOTO_32)))"

lemma table_all:
  assumes "list_all (\<lambda>(opc, row). P opc (INSTRUCTION_DESCR (opc, row))) (DEX_INSTRUCTION_LIST_00_7F @ DEX_INSTRUCTION_LIST_80_FF)"
  shows "P opcode (InstructionDescriptorOf opcode)"
proof -
  let ?rows = "DEX_INSTRUCTION_LIST_00_7F @ DEX_INSTRUCTION_LIST_80_FF"
  have n: "unat opcode < 256" using unsigned_less [of opcode, where ?'a = nat] by simp
  have "fst (?rows ! unat opcode) = opcode"
  proof -
    have "fst (?rows ! unat opcode) = map fst ?rows ! unat opcode" using n length_table by (simp only: nth_map)
    then show ?thesis unfolding opcodes_in_order using n by simp
  qed
  moreover have "InstructionDescriptorOf opcode = INSTRUCTION_DESCR (?rows ! unat opcode)"
    using n length_table by (simp only: InstructionDescriptorOf_def kInstructionDescriptors_def nth_map)
  moreover have "(\<lambda>(opc, row). P opc (INSTRUCTION_DESCR (opc, row))) (?rows ! unat opcode)"
    using assms n length_table unfolding list_all_length by presburger
  ultimately show ?thesis by (metis (no_types, lifting) case_prod_beta prod.collapse)
qed

lemma verify_row: "verify_row opcode (InstructionDescriptorOf opcode)"
  by (rule table_all) code_simp

lemmas row_facts =
  row_consistent [unfolded row_consistent_def Let_def, folded FormatOf_def VerifyFlagsOf_def FlagsOf_def]
  verify_row [unfolded verify_row_def Let_def, folded FormatOf_def VerifyFlagsOf_def FlagsOf_def]

section \<open>Dispatch\<close>

lemma find_dispatch_opcode_same:
  "same_dispatch opcode (find_dispatch_opcode opcode)" "find_dispatch_opcode opcode = NOP \<longleftrightarrow> opcode = NOP"
  by (auto simp: find_dispatch_opcode_def same_dispatch_def find_Some_iff split: option.splits)

lemma VerifyInstruction_same_dispatch:
  assumes "same_dispatch opcode k"
  shows "VerifyInstruction k = VerifyInstruction opcode"
proof -
  have "FormatOf k = FormatOf opcode" "VerifyFlagsOf k = VerifyFlagsOf opcode"
    using assms by (simp_all add: same_dispatch_def)
  note same = this GetVerifyTypeArgumentAOf_def [of k] GetVerifyTypeArgumentBOf_def [of k] GetVerifyTypeArgumentCOf_def [of k]
    GetVerifyTypeArgumentHOf_def [of k] GetVerifyExtraFlagsOf_def [of k]
  have "verify_A k = verify_A opcode" "verify_B k = verify_B opcode" "verify_C k = verify_C opcode"
    "verify_H k = verify_H opcode" "verify_extra k = verify_extra opcode"
    by (intro ext; simp only: verify_A_def verify_B_def verify_C_def verify_H_def verify_extra_def same
        GetVerifyTypeArgumentAOf_def [of opcode] GetVerifyTypeArgumentBOf_def [of opcode] GetVerifyTypeArgumentCOf_def [of opcode]
        GetVerifyTypeArgumentHOf_def [of opcode] GetVerifyExtraFlagsOf_def [of opcode])+
  then show ?thesis by (intro ext) (simp only: VerifyInstruction_def)
qed

section \<open>Accepted checks\<close>

named_theorems accepted \<open>what the acceptance of a check means\<close>

lemma accepted_basics [accepted]:
  "fail_hard v \<noteq> Some (True, v')"
  "check c v = Some (True, v') \<longleftrightarrow> c \<and> v' = v"
  "and_then r f = Some (True, v') \<longleftrightarrow> (\<exists>v1. r = Some (True, v1) \<and> f v1 = Some (True, v'))"
  by (auto simp: fail_hard_def check_def and_then_def bind_eq_Some_conv split: if_splits)

lemma unat_small_less: "unat (ucast (r :: u16) :: u32) = unat r"
  by (simp add: unat_ucast_up)

lemma accepted_registers:
  "CheckRegisterIndex ci idx v = Some (True, v') \<longleftrightarrow> v' = v \<and> reg_ok ci idx"
  "idx < 2 ^ 16 \<Longrightarrow> CheckWideRegisterIndex ci idx v = Some (True, v') \<longleftrightarrow> v' = v \<and> wide_reg_ok ci idx"
proof -
  show "CheckRegisterIndex ci idx v = Some (True, v') \<longleftrightarrow> v' = v \<and> reg_ok ci idx"
    by (auto simp: CheckRegisterIndex_def accepted reg_ok_def word_less_nat_alt unat_small_less)
  assume "idx < 2 ^ 16"
  then have "unat (idx + 1) = unat idx + 1"
    by (subst unat_add_lem [THEN iffD1]) (simp_all add: word_less_nat_alt)
  then show "CheckWideRegisterIndex ci idx v = Some (True, v') \<longleftrightarrow> v' = v \<and> wide_reg_ok ci idx"
    by (auto simp: CheckWideRegisterIndex_def accepted wide_reg_ok_def word_less_nat_alt unat_small_less)
qed

lemma VerifyInstruction_accepted:
  assumes "VerifyInstruction k df ci dex_pc end_pc inst d v = Some (True, v')"
  obtains vA vB vC vH where "verify_A k ci inst d v = Some (True, vA)" "verify_B k df ci inst d vA = Some (True, vB)"
    "verify_C k df ci inst d vB = Some (True, vC)" "verify_H k df inst vC = Some (True, vH)"
    "verify_extra k ci dex_pc end_pc inst d True vH = Some (True, v')"
proof -
  obtain r u where r: "and_then (and_then (and_then (verify_A k ci inst d v) (verify_B k df ci inst d))
      (verify_C k df ci inst d)) (verify_H k df inst) = Some (r, u)"
    "verify_extra k ci dex_pc end_pc inst d r u = Some (True, v')"
    using assms by (auto simp: VerifyInstruction_def bind_eq_Some_conv)
  moreover have "verify_extra k ci dex_pc end_pc inst d False u \<noteq> Some (True, v')"
    by (auto simp: verify_extra_def Let_def accepted bind_eq_Some_conv split: if_splits)
  ultimately have True: r by (cases r) auto
  with r show thesis using that by (auto simp: accepted)
qed

end
