(* ===== verification/VerifierSound.thy ===== *)
theory VerifierSound
  imports VerifierDispatch
begin

text \<open>
  Soundness of the static pass: what \<open>static_pass\<close> accepts satisfies \<open>insn_ok\<close> at every
  instruction, uses only indices of the dex file's tables, and has every branch target, switch
  target and return flagged for the code-flow analysis.
\<close>

section \<open>Operands\<close>

lemma ucast_small: "LENGTH('a) \<le> 16 \<Longrightarrow> (ucast (x :: 'a::len word) :: u32) < 2 ^ 16"
proof -
  assume le: "LENGTH('a) \<le> 16"
  then have "(2 :: nat) ^ LENGTH('a) \<le> 2 ^ 16" by (intro power_increasing) simp_all
  then have "unat x < 2 ^ 16" using unsigned_less [of x, where ?'a = nat] by linarith
  then show ?thesis using le by (simp add: word_less_nat_alt unat_ucast_up)
qed

lemma VRegA_small:
  "f \<in> {k11n, k11x, k12x, k21c, k21h, k21s, k21t, k22b, k22c, k22s, k22t, k22x, k23x, k31c, k31i, k31t, k32x, k51l, k35c, k3rc, k45cc, k4rcc} \<Longrightarrow>
   VRegA f inst d = Some a \<Longrightarrow> a < 2 ^ 16"
  by (cases f) (auto simp: VRegA_def intro!: ucast_small [simplified])

lemma VRegB_small:
  "f \<in> {k12x, k22x, k32x, k23x, k22b, k22c, k22s, k22t} \<Longrightarrow> VRegB f inst d = Some b \<Longrightarrow> b < 2 ^ 16"
  by (cases f) (auto simp: VRegB_def intro!: ucast_small [simplified])

lemma VRegC_small: "f \<in> {k23x, k3rc, k4rcc} \<Longrightarrow> VRegC f inst = Some c \<Longrightarrow> c < 2 ^ 16"
  by (cases f) (auto simp: VRegC_def intro!: ucast_small [simplified])

lemma masked_formats:
  "GetVerifyTypeArgumentAOf k \<in> {kVerifyRegA, kVerifyRegAWide} \<Longrightarrow>
     FormatOf k \<in> {k11n, k11x, k12x, k21c, k21h, k21s, k21t, k22b, k22c, k22s, k22t, k22x, k23x, k31c, k31i, k31t, k32x, k51l}"
  "GetVerifyTypeArgumentBOf k \<in> {kVerifyRegB, kVerifyRegBWide} \<Longrightarrow> FormatOf k \<in> {k12x, k22x, k32x, k23x, k22b, k22c, k22s, k22t}"
  "GetVerifyTypeArgumentCOf k \<in> {kVerifyRegC, kVerifyRegCWide} \<Longrightarrow> FormatOf k = k23x"
proof -
  let ?v = "VerifyFlagsOf k"
  show "FormatOf k \<in> {k11n, k11x, k12x, k21c, k21h, k21s, k21t, k22b, k22c, k22s, k22t, k22x, k23x, k31c, k31i, k31t, k32x, k51l}"
    if "GetVerifyTypeArgumentAOf k \<in> {kVerifyRegA, kVerifyRegAWide}"
    using that row_facts(2) [of k] by (auto simp: GetVerifyTypeArgumentAOf_def)
  show "FormatOf k \<in> {k12x, k22x, k32x, k23x, k22b, k22c, k22s, k22t}"
    if "GetVerifyTypeArgumentBOf k \<in> {kVerifyRegB, kVerifyRegBWide}"
  proof -
    have "?v AND 0x104 = (?v AND 0x40001FC) AND 0x104" by (simp add: and.assoc)
    then have "?v AND 0x104 \<noteq> 0" using that by (auto simp: GetVerifyTypeArgumentBOf_def)
    then show ?thesis using row_facts(2) [of k] by blast
  qed
  show "FormatOf k = k23x" if "GetVerifyTypeArgumentCOf k \<in> {kVerifyRegC, kVerifyRegCWide}"
  proof -
    have "?v AND 0x2200 = (?v AND 0x3E00) AND 0x2200" by (simp add: and.assoc)
    then have "?v AND 0x2200 \<noteq> 0" using that by (auto simp: GetVerifyTypeArgumentCOf_def)
    then show ?thesis using row_facts(2) [of k] by blast
  qed
qed

lemma verify_A_accepted:
  assumes "verify_A k ci inst d v = Some (True, v')"
  shows "v' = v" "GetVerifyTypeArgumentAOf k = kVerifyRegA \<Longrightarrow> \<exists>a. VRegA (FormatOf k) inst d = Some a \<and> reg_ok ci a"
    "GetVerifyTypeArgumentAOf k = kVerifyRegAWide \<Longrightarrow> \<exists>a. VRegA (FormatOf k) inst d = Some a \<and> wide_reg_ok ci a"
proof -
  have small: "VRegA (FormatOf k) inst d = Some a \<Longrightarrow> a < 2 ^ 16" if "GetVerifyTypeArgumentAOf k \<in> {1, 2}" for a
    using masked_formats(1) [OF that] by (intro VRegA_small) auto
  show "v' = v"
    using assms small
    by (auto simp: verify_A_def Let_def bind_eq_Some_conv accepted_registers split: if_splits)
  show "\<exists>a. VRegA (FormatOf k) inst d = Some a \<and> reg_ok ci a" if "GetVerifyTypeArgumentAOf k = kVerifyRegA"
    using assms that by (auto simp: verify_A_def Let_def bind_eq_Some_conv accepted_registers)
  show "\<exists>a. VRegA (FormatOf k) inst d = Some a \<and> wide_reg_ok ci a" if "GetVerifyTypeArgumentAOf k = kVerifyRegAWide"
    using assms that small by (auto simp: verify_A_def Let_def bind_eq_Some_conv accepted_registers)
qed

lemma CheckTypeIndex_accepted: "CheckTypeIndex df idx v = Some (True, v') \<longleftrightarrow> v' = v \<and> ucast idx < NumTypeIds df"
  by (auto simp: CheckTypeIndex_def accepted)

lemma CheckNewArray_accepted:
  assumes "CheckNewArray filled df idx v = Some (True, v')"
  shows "ucast idx < NumTypeIds df" "first_char (GetTypeDescriptor df idx) = CHR ''[''"
proof -
  have c: "length (takeWhile (\<lambda>c. c = CHR ''['') (GetTypeDescriptor df idx)) \<noteq> 0" and "ucast idx < NumTypeIds df"
    using assms by (auto simp: CheckNewArray_def CheckTypeIndex_accepted accepted Let_def split: if_splits)
  then show "ucast idx < NumTypeIds df" by simp
  show "first_char (GetTypeDescriptor df idx) = CHR ''[''"
    using c by (cases "GetTypeDescriptor df idx") (auto simp: first_char_def split: if_splits)
qed

lemma verify_B_accepted:
  assumes "verify_B k df ci inst d v = Some (True, v')"
  shows "GetVerifyTypeArgumentBOf k = kVerifyRegB \<Longrightarrow> \<exists>b. VRegB (FormatOf k) inst d = Some b \<and> reg_ok ci b"
    "GetVerifyTypeArgumentBOf k = kVerifyRegBWide \<Longrightarrow> \<exists>b. VRegB (FormatOf k) inst d = Some b \<and> wide_reg_ok ci b"
    "GetVerifyTypeArgumentBOf k = kVerifyRegBString \<Longrightarrow> \<exists>b. VRegB (FormatOf k) inst d = Some b \<and> b < NumStringIds df"
    "GetVerifyTypeArgumentBOf k = kVerifyRegBMethod \<Longrightarrow> \<exists>b. VRegB (FormatOf k) inst d = Some b \<and> b < NumMethodIds df"
    "GetVerifyTypeArgumentBOf k = kVerifyRegBField \<Longrightarrow> \<exists>b. VRegB (FormatOf k) inst d = Some b \<and> b < NumFieldIds df"
    "GetVerifyTypeArgumentBOf k \<in> {kVerifyRegBType, kVerifyRegBNewInstance, kVerifyRegBFilledNewArray} \<Longrightarrow>
       \<exists>b. VRegB (FormatOf k) inst d = Some b \<and> ucast (ucast b :: u16) < NumTypeIds df"
    "GetVerifyTypeArgumentBOf k = kVerifyRegBNewInstance \<Longrightarrow>
       \<exists>b. VRegB (FormatOf k) inst d = Some b \<and> first_char (GetTypeDescriptor df (ucast b)) = CHR ''L''"
    "GetVerifyTypeArgumentBOf k = kVerifyRegBFilledNewArray \<Longrightarrow>
       \<exists>b. VRegB (FormatOf k) inst d = Some b \<and> first_char (GetTypeDescriptor df (ucast b)) = CHR ''[''"
proof -
  let ?b = "VRegB (FormatOf k) inst d"
  have small: "?b = Some b \<Longrightarrow> b < 2 ^ 16" if "GetVerifyTypeArgumentBOf k \<in> {kVerifyRegB, kVerifyRegBWide}" for b
    using masked_formats(2) [OF that] by (rule VRegB_small)
  note B = assms [unfolded verify_B_def Let_def]
  show "\<exists>b. ?b = Some b \<and> reg_ok ci b" if "GetVerifyTypeArgumentBOf k = kVerifyRegB"
    using B that by (auto simp: bind_eq_Some_conv accepted_registers)
  show "\<exists>b. ?b = Some b \<and> wide_reg_ok ci b" if "GetVerifyTypeArgumentBOf k = kVerifyRegBWide"
    using B that small by (auto simp: bind_eq_Some_conv accepted_registers)
  show "\<exists>b. ?b = Some b \<and> b < NumStringIds df" if "GetVerifyTypeArgumentBOf k = kVerifyRegBString"
    using B that by (auto simp: bind_eq_Some_conv CheckStringIndex_def accepted)
  show "\<exists>b. ?b = Some b \<and> b < NumMethodIds df" if "GetVerifyTypeArgumentBOf k = kVerifyRegBMethod"
    using B that by (auto simp: bind_eq_Some_conv CheckMethodIndex_def accepted)
  show "\<exists>b. ?b = Some b \<and> b < NumFieldIds df" if "GetVerifyTypeArgumentBOf k = kVerifyRegBField"
    using B that by (auto simp: bind_eq_Some_conv CheckFieldIndex_def accepted split: if_splits)
  show "\<exists>b. ?b = Some b \<and> ucast (ucast b :: u16) < NumTypeIds df"
    if "GetVerifyTypeArgumentBOf k \<in> {kVerifyRegBType, kVerifyRegBNewInstance, kVerifyRegBFilledNewArray}"
    using B that by (auto simp: bind_eq_Some_conv CheckTypeIndex_accepted CheckNewInstance_def CheckNewArray_def accepted)
  show "\<exists>b. ?b = Some b \<and> first_char (GetTypeDescriptor df (ucast b)) = CHR ''L''"
    if "GetVerifyTypeArgumentBOf k = kVerifyRegBNewInstance"
    using B that by (auto simp: bind_eq_Some_conv CheckTypeIndex_accepted CheckNewInstance_def accepted Let_def split: if_splits)
  show "\<exists>b. ?b = Some b \<and> first_char (GetTypeDescriptor df (ucast b)) = CHR ''[''"
    if "GetVerifyTypeArgumentBOf k = kVerifyRegBFilledNewArray"
    using B that by (auto simp: bind_eq_Some_conv dest: CheckNewArray_accepted(2))
qed

lemma verify_C_accepted:
  assumes "verify_C k df ci inst d v = Some (True, v')"
  shows "GetVerifyTypeArgumentCOf k = kVerifyRegC \<Longrightarrow> \<exists>c. VRegC (FormatOf k) inst = Some c \<and> reg_ok ci c"
    "GetVerifyTypeArgumentCOf k = kVerifyRegCWide \<Longrightarrow> \<exists>c. VRegC (FormatOf k) inst = Some c \<and> wide_reg_ok ci c"
    "GetVerifyTypeArgumentCOf k = kVerifyRegCField \<Longrightarrow> \<exists>c. VRegC (FormatOf k) inst = Some c \<and> c < NumFieldIds df"
    "GetVerifyTypeArgumentCOf k \<in> {kVerifyRegCType, kVerifyRegCNewArray} \<Longrightarrow>
       \<exists>c. VRegC (FormatOf k) inst = Some c \<and> ucast (ucast c :: u16) < NumTypeIds df"
    "GetVerifyTypeArgumentCOf k = kVerifyRegCNewArray \<Longrightarrow>
       \<exists>c. VRegC (FormatOf k) inst = Some c \<and> first_char (GetTypeDescriptor df (ucast c)) = CHR ''[''"
proof -
  let ?c = "VRegC (FormatOf k) inst"
  have small: "?c = Some c \<Longrightarrow> c < 2 ^ 16" if "GetVerifyTypeArgumentCOf k \<in> {kVerifyRegC, kVerifyRegCWide}" for c
    using masked_formats(3) [OF that] by (intro VRegC_small [of "FormatOf k"]) simp
  note C = assms [unfolded verify_C_def Let_def]
  show "\<exists>c. ?c = Some c \<and> reg_ok ci c" if "GetVerifyTypeArgumentCOf k = kVerifyRegC"
    using C that by (auto simp: bind_eq_Some_conv accepted_registers)
  show "\<exists>c. ?c = Some c \<and> wide_reg_ok ci c" if "GetVerifyTypeArgumentCOf k = kVerifyRegCWide"
    using C that small by (auto simp: bind_eq_Some_conv accepted_registers)
  show "\<exists>c. ?c = Some c \<and> c < NumFieldIds df" if "GetVerifyTypeArgumentCOf k = kVerifyRegCField"
    using C that by (auto simp: bind_eq_Some_conv CheckFieldIndex_def accepted split: if_splits)
  show "\<exists>c. ?c = Some c \<and> ucast (ucast c :: u16) < NumTypeIds df"
    if "GetVerifyTypeArgumentCOf k \<in> {kVerifyRegCType, kVerifyRegCNewArray}"
    using C that by (auto simp: bind_eq_Some_conv CheckTypeIndex_accepted CheckNewArray_def accepted)
  show "\<exists>c. ?c = Some c \<and> first_char (GetTypeDescriptor df (ucast c)) = CHR ''[''"
    if "GetVerifyTypeArgumentCOf k = kVerifyRegCNewArray"
    using C that by (auto simp: bind_eq_Some_conv dest: CheckNewArray_accepted(2))
qed

lemma verify_H_accepted:
  "verify_H k df inst v = Some (True, v') \<Longrightarrow> GetVerifyTypeArgumentHOf k = kVerifyRegHPrototype \<Longrightarrow>
   \<exists>h. VRegH (FormatOf k) inst = Some h \<and> h < NumProtoIds df"
  by (auto simp: verify_H_def bind_eq_Some_conv CheckPrototypeIndex_def accepted)

lemma indices_accepted:
  assumes "VerifyInstruction k df ci dex_pc end_pc inst d v = Some (True, v')" "k = Opcode d" "d = inst ! 0"
  shows "indices_ok df inst"
  using assms(1)
proof (rule VerifyInstruction_accepted)
  fix vA vB vC vH
  assume B: "verify_B k df ci inst d vA = Some (True, vB)" and C: "verify_C k df ci inst d vB = Some (True, vC)"
    and H: "verify_H k df inst vC = Some (True, vH)"
  show ?thesis
    using verify_B_accepted(3-8) [OF B] verify_C_accepted(3-5) [OF C] verify_H_accepted [OF H]
    unfolding indices_ok_def Let_def assms(2,3) by blast
qed

section \<open>Targets\<close>

definition flags_match :: "CodeItemDataAccessor \<Rightarrow> verifier \<Rightarrow> bool" where
  "flags_match ci v \<longleftrightarrow>
     length (insn_flags v) = length (insns ci) \<and>
     (\<forall>i < length (insns ci). IsOpcode (insn_flags v ! i) \<longleftrightarrow> insn_start (insns ci) i)"

definition marked :: "verifier \<Rightarrow> int \<Rightarrow> bool" where
  "marked v t \<longleftrightarrow> nat t < length (insn_flags v) \<and> IsBranchTarget (insn_flags v ! nat t)"

lemma flags_match_extend: "flags_match ci v \<Longrightarrow> flags_extend v v' \<Longrightarrow> flags_match ci v'"
  by (simp add: flags_match_def flags_extend_def)

lemma marked_extend: "marked v t \<Longrightarrow> flags_extend v v' \<Longrightarrow> marked v' t"
proof -
  have "y AND 16 \<noteq> 0" if "x AND 16 \<noteq> 0" "x AND y = x" for x y :: u8
    using that by (metis and.assoc and_zero_eq)
  then show "marked v t \<Longrightarrow> flags_extend v v' \<Longrightarrow> marked v' t"
    unfolding marked_def flags_extend_def IsBranchTarget_def by metis
qed

lemma InsnsSize: "length (insns ci) < 2 ^ 31 \<Longrightarrow> unat (InsnsSizeInCodeUnits ci) = length (insns ci)"
  by (simp add: InsnsSizeInCodeUnits_def unat_of_nat_length)

lemma target_in_code:
  assumes "IsOffsetInRange dex_pc (InsnsSizeInCodeUnits ci) offset" "length (insns ci) < 2 ^ 31" "unat dex_pc < length (insns ci)"
  defines "t \<equiv> int (unat dex_pc) + sint offset"
  shows "0 \<le> t" "nat t < length (insns ci)" "unat (dex_pc + offset) = nat t"
proof -
  have lt: "dex_pc < InsnsSizeInCodeUnits ci" using assms(2,3) InsnsSize by (simp add: word_less_nat_alt)
  have r: "0 \<le> t" "t < int (length (insns ci))"
    using offset_in_range [OF lt, of offset] assms(1) unfolding t_def InsnsSize [OF assms(2)] by blast+
  then have "int (unat (dex_pc + offset)) = t"
    using assms(2) unfolding t_def by (intro int_unat_add_signed) simp_all
  then show "unat (dex_pc + offset) = nat t" by linarith
  show "0 \<le> t" "nat t < length (insns ci)" using r by simp_all
qed

lemma check_and_mark_target_accepted:
  assumes "check_and_mark_target ci dex_pc (InsnsSizeInCodeUnits ci) offset v = Some (True, v')"
    and "flags_match ci v" "length (insns ci) < 2 ^ 31" "unat dex_pc < length (insns ci)"
  shows "target_ok ci (int (unat dex_pc) + sint offset)" "marked v' (int (unat dex_pc) + sint offset)"
proof -
  let ?t = "int (unat dex_pc) + sint offset"
  obtain flgs td where s: "IsOffsetInRange dex_pc (InsnsSizeInCodeUnits ci) offset"
    "GetInstructionFlags (dex_pc + offset) v = Some flgs" "IsOpcode flgs"
    "Fetch16 (InstructionAt ci (dex_pc + offset)) 0 = Some td" "\<not> IsMoveResultOrMoveException (Opcode td)"
    "ModifyInstructionFlags SetBranchTarget (dex_pc + offset) v = Some v'"
    using assms(1) by (auto simp: check_and_mark_target_def Let_def bind_eq_Some_conv accepted split: if_splits)
  note t = target_in_code [OF s(1) assms(3,4)]
  have "insn_start (insns ci) (nat ?t)"
    using s(2,3) t(2,3) assms(2) by (auto simp: GetInstructionFlags_def flags_match_def)
  moreover have "insns ci ! nat ?t = td"
    using s(4) t(2,3) by (simp add: Fetch16_def InstructionAt_def)
  ultimately show "target_ok ci ?t" using t s(5) by (simp add: target_ok_def)
  show "marked v' ?t"
    using s(6) t(2,3) assms(2) by (auto simp: ModifyInstructionFlags_def marked_def flags_match_def)
qed

lemma check_targets_accepted:
  assumes "check_targets ci dex_pc (InsnsSizeInCodeUnits ci) payload base targs v = Some (True, v')"
    and "flags_match ci v" "length (insns ci) < 2 ^ 31" "unat dex_pc < length (insns ci)"
  shows "\<forall>targ \<in> set targs. \<exists>offset. Fetch32 payload (base + targ * 2) = Some offset \<and>
    target_ok ci (int (unat dex_pc) + sint offset) \<and> marked v' (int (unat dex_pc) + sint offset)"
  using assms(1,2)
proof (induction targs arbitrary: v)
  case (Cons targ targs)
  obtain offset v1 where s: "Fetch32 payload (base + targ * 2) = Some offset"
    "check_and_mark_target ci dex_pc (InsnsSizeInCodeUnits ci) offset v = Some (True, v1)"
    "check_targets ci dex_pc (InsnsSizeInCodeUnits ci) payload base targs v1 = Some (True, v')"
    using Cons.prems(1) by (auto simp: bind_eq_Some_conv accepted)
  have "flags_extend v v1" by (rule keeps_extend [OF keeps_check_and_mark_target s(2)])
  then have "flags_match ci v1" by (rule flags_match_extend [OF Cons.prems(2)])
  note IH = Cons.IH [OF s(3) this]
  have "flags_extend v1 v'" by (rule keeps_extend [OF keeps_check_targets s(3)])
  then have "marked v' (int (unat dex_pc) + sint offset)"
    by (rule marked_extend [OF check_and_mark_target_accepted(2) [OF s(2) Cons.prems(2) assms(3,4)]])
  then show ?case using s(1) IH check_and_mark_target_accepted(1) [OF s(2) Cons.prems(2) assms(3,4)] by auto
qed simp

section \<open>Payloads\<close>

lemma check_sparse_keys_accepted:
  assumes "check_sparse_keys payload last_key [i..<n] = Some True"
  shows "\<forall>j \<in> {i..<n}. \<exists>k. Fetch32 payload (2 + j * 2) = Some k \<and> sint last_key < sint k"
    "\<forall>a \<in> {i..<n}. \<forall>b \<in> {a<..<n}. \<exists>k l. Fetch32 payload (2 + a * 2) = Some k \<and> Fetch32 payload (2 + b * 2) = Some l \<and> sint k < sint l"
proof -
  have "(\<forall>j \<in> {i..<n}. \<exists>k. Fetch32 payload (2 + j * 2) = Some k \<and> sint last_key < sint k) \<and>
    (\<forall>a \<in> {i..<n}. \<forall>b \<in> {a<..<n}. \<exists>k l. Fetch32 payload (2 + a * 2) = Some k \<and> Fetch32 payload (2 + b * 2) = Some l \<and> sint k < sint l)"
    using assms
  proof (induction "n - i" arbitrary: i last_key)
    case (Suc m)
    then have "i < n" by simp
    then obtain k where k: "Fetch32 payload (2 + i * 2) = Some k" "sint last_key < sint k"
      "check_sparse_keys payload k [Suc i..<n] = Some True"
      using Suc.prems by (auto simp: upt_conv_Cons bind_eq_Some_conv word_sle_eq split: if_splits)
    have IH: "\<exists>l. Fetch32 payload (2 + j * 2) = Some l \<and> sint k < sint l" if "i < j" "j < n" for j
      using Suc.hyps(1) [OF _ k(3)] Suc.hyps(2) that by auto
    have IH2: "\<exists>x l. Fetch32 payload (2 + a * 2) = Some x \<and> Fetch32 payload (2 + b * 2) = Some l \<and> sint x < sint l"
      if "i < a" "a < b" "b < n" for a b
      using Suc.hyps(1) [OF _ k(3)] Suc.hyps(2) that by auto
    show ?case
    proof (intro conjI ballI)
      fix j assume "j \<in> {i..<n}"
      then show "\<exists>k. Fetch32 payload (2 + j * 2) = Some k \<and> sint last_key < sint k"
        using k(1,2) IH [of j] by (cases "i = j") force+
    next
      fix a b assume "a \<in> {i..<n}" "b \<in> {a<..<n}"
      then show "\<exists>k l. Fetch32 payload (2 + a * 2) = Some k \<and> Fetch32 payload (2 + b * 2) = Some l \<and> sint k < sint l"
        using k(1) IH [of b] IH2 [of a b] by (cases "i = a") force+
    qed
  qed simp
  then show "\<forall>j \<in> {i..<n}. \<exists>k. Fetch32 payload (2 + j * 2) = Some k \<and> sint last_key < sint k"
    "\<forall>a \<in> {i..<n}. \<forall>b \<in> {a<..<n}. \<exists>k l. Fetch32 payload (2 + a * 2) = Some k \<and> Fetch32 payload (2 + b * 2) = Some l \<and> sint k < sint l"
    by blast+
qed

lemma packed_keys_fit:
  fixes first_key :: u32 and count :: u16
  assumes "\<not> (0x7FFFFFFF - (ucast count - 1)) <s first_key" "1 < unat count"
  shows "sint first_key + int (unat count) - 1 < 2 ^ 31"
proof -
  have c: "unat count < 65536" using unsigned_less [of count, where ?'a = nat] by simp
  have u: "unat (ucast count - 1 :: u32) = unat count - 1"
    using assms(2) by (subst unat_sub) (simp_all add: word_le_nat_alt unat_ucast_up)
  have "unat (0x7FFFFFFF - (ucast count - 1) :: u32) = 0x7FFFFFFF - (unat count - 1)"
    using c u by (subst unat_sub) (simp_all add: word_le_nat_alt)
  moreover define n where "n = int (unat count)"
  ultimately have m: "int (unat (0x7FFFFFFF - (ucast count - 1) :: u32)) = 0x7FFFFFFF - (n - 1)" and n: "1 < n" "n < 65536"
    using c assms(2) by linarith+
  have "sint (0x7FFFFFFF - (ucast count - 1) :: u32) = 0x7FFFFFFF - (n - 1)"
  proof -
    have "sint (0x7FFFFFFF - (ucast count - 1) :: u32) = signed_take_bit 31 (int (unat (0x7FFFFFFF - (ucast count - 1) :: u32)))"
      by (simp add: sint_uint)
    also have "\<dots> = 0x7FFFFFFF - (n - 1)"
      unfolding m using n by (subst signed_take_bit_int_eq_self_iff) simp
    finally show ?thesis .
  qed
  moreover have "sint first_key \<le> sint (0x7FFFFFFF - (ucast count - 1) :: u32)"
    using assms(1) by (simp add: word_sless_alt)
  ultimately show ?thesis unfolding n_def [symmetric] by simp
qed

lemma payload_at_ok:
  assumes "VRegB_31t (drop pc (insns ci)) = Some offset" "IsOffsetInRange dex_pc (InsnsSizeInCodeUnits ci) offset"
    and "GetInstructionFlags (dex_pc + offset) v = Some flgs" "IsOpcode flgs" "(dex_pc + offset) mod 2 = 0"
    and "flags_match ci v" "length (insns ci) < 2 ^ 31" "pc = unat dex_pc" "pc < length (insns ci)"
  shows "payload_at ci pc = Some (InstructionAt ci (dex_pc + offset))"
    "insn_start (insns ci) (unat (dex_pc + offset))" "unat (dex_pc + offset) < length (insns ci)"
proof -
  have t: "0 \<le> int pc + sint offset" "nat (int pc + sint offset) < length (insns ci)"
    "unat (dex_pc + offset) = nat (int pc + sint offset)"
    using target_in_code [OF assms(2,7)] assms(8,9) by simp_all
  show start: "insn_start (insns ci) (unat (dex_pc + offset))"
    using assms(3,4,6) t(2,3) by (auto simp: GetInstructionFlags_def flags_match_def)
  have "even (unat (dex_pc + offset))"
    using arg_cong [OF assms(5), of unat] by (simp only: unat_mod) (simp add: even_iff_mod_2_eq_zero)
  then have "even (int pc + sint offset)" unfolding t(3) using t(1) by (simp add: even_nat_iff)
  then show "payload_at ci pc = Some (InstructionAt ci (dex_pc + offset))"
    using assms(1) t start by (simp add: payload_at_def InstructionAt_def Let_def)
  show "unat (dex_pc + offset) < length (insns ci)" using t by simp
qed

lemma CheckArrayData_accepted:
  assumes "CheckArrayData ci dex_pc (InsnsSizeInCodeUnits ci) (drop pc (insns ci)) v = Some (True, v')"
    and "flags_match ci v" "length (insns ci) < 2 ^ 31" "pc = unat dex_pc" "pc < length (insns ci)"
  shows "\<exists>p. payload_at ci pc = Some p \<and> Fetch16 p 0 = Some kArrayDataSignature"
proof -
  obtain offset flgs where s: "VRegB_31t (drop pc (insns ci)) = Some offset"
    "IsOffsetInRange dex_pc (InsnsSizeInCodeUnits ci) offset"
    "GetInstructionFlags (dex_pc + offset) v = Some flgs" "IsOpcode flgs" "(dex_pc + offset) mod 2 = 0"
    "Fetch16 (InstructionAt ci (dex_pc + offset)) 0 = Some kArrayDataSignature"
    using assms(1) by (auto simp: CheckArrayData_def Let_def bind_eq_Some_conv accepted split: if_splits)
  show ?thesis using payload_at_ok(1) [OF s(1-5) assms(2-5)] s(6) by blast
qed

lemma payload_fits:
  assumes "laid_out (insns ci)" "insn_start (insns ci) t" "t < length (insns ci)"
    and "Fetch16 (drop t (insns ci)) 0 = Some kPackedSwitchSignature"
  shows "\<exists>k. Fetch32 (drop t (insns ci)) 2 = Some k"
proof -
  let ?p = "drop t (insns ci)"
  obtain n where n: "SizeInCodeUnits ?p = Some n" "t + n \<le> length (insns ci)"
    using assms(1-3) by (auto simp: laid_out_def)
  have "Opcode kPackedSwitchSignature = NOP" by (simp add: Opcode_def)
  then have "SizeInCodeUnits ?p = SizeInCodeUnitsComplexOpcode ?p"
    using assms(4) by (simp add: SizeInCodeUnits_nop)
  then have "SizeInCodeUnitsComplexOpcode ?p = Some n" using n(1) by simp
  then have "4 \<le> n" using assms(4) by (auto simp: SizeInCodeUnitsComplexOpcode_def bind_eq_Some_conv)
  then have "4 \<le> length ?p" using n(2) by simp
  then show ?thesis by (simp add: Fetch32_def Fetch16_def)
qed

definition switch_target :: "bool \<Rightarrow> u16 list \<Rightarrow> nat \<Rightarrow> u32 option" where
  "switch_target is_packed payload i =
     (if is_packed then PackedSwitch_targets payload i else SparseSwitch_GetTargets payload i)"

definition switch_marked :: "verifier \<Rightarrow> nat \<Rightarrow> bool \<Rightarrow> u16 list \<Rightarrow> bool" where
  "switch_marked v pc is_packed payload \<longleftrightarrow>
     (\<forall>count i offset. Fetch16 payload 1 = Some count \<longrightarrow> i < unat count \<longrightarrow>
        switch_target is_packed payload i = Some offset \<longrightarrow> marked v (int pc + sint offset))"

lemma CheckAndMarkSwitchTargets_accepted:
  assumes "CheckAndMarkSwitchTargets ci dex_pc (InsnsSizeInCodeUnits ci) (drop pc (insns ci)) d v = Some (True, v')"
    and "flags_match ci v" "length (insns ci) < 2 ^ 31" "pc = unat dex_pc" "pc < length (insns ci)" "laid_out (insns ci)"
  shows "\<exists>p. payload_at ci pc = Some p \<and> switch_ok ci pc (Opcode d = PACKED_SWITCH) p \<and> switch_marked v' pc (Opcode d = PACKED_SWITCH) p"
proof -
  let ?packed = "Opcode d = PACKED_SWITCH"
  obtain offset flgs where s: "VRegB_31t (drop pc (insns ci)) = Some offset"
    "IsOffsetInRange dex_pc (InsnsSizeInCodeUnits ci) offset"
    "GetInstructionFlags (dex_pc + offset) v = Some flgs" "IsOpcode flgs" "(dex_pc + offset) mod 2 = 0"
    using assms(1) by (auto simp: CheckAndMarkSwitchTargets_def Let_def bind_eq_Some_conv accepted split: if_splits)
  define p where "p = InstructionAt ci (dex_pc + offset)"
  obtain count where c: "Fetch16 p 1 = Some count"
    "Fetch16 p 0 = Some (if ?packed then kPackedSwitchSignature else kSparseSwitchSignature)"
    "check_switch_keys ?packed p (ucast count) = Some True"
    "check_targets ci dex_pc (InsnsSizeInCodeUnits ci) p (if ?packed then 4 else 2 + 2 * unat count) [0..<unat count] v = Some (True, v')"
    using assms(1) s
    by (auto simp: CheckAndMarkSwitchTargets_def p_def Let_def bind_eq_Some_conv accepted unat_ucast_up split: if_splits)
  have pay: "payload_at ci pc = Some p" "insn_start (insns ci) (unat (dex_pc + offset))"
    "unat (dex_pc + offset) < length (insns ci)"
    using payload_at_ok [OF s assms(2-5)] by (simp_all add: p_def)
  have targets: "\<exists>off. switch_target ?packed p i = Some off \<and> target_ok ci (int pc + sint off) \<and> marked v' (int pc + sint off)"
    if "i < unat count" for i
    using check_targets_accepted [OF c(4) assms(2,3)] assms(4,5) c(1) that
    by (cases ?packed) (auto simp: switch_target_def PackedSwitch_targets_def SparseSwitch_GetTargets_def SparseSwitch_case_count_def algebra_simps)
  have one: "1 < (ucast count :: u32) \<longleftrightarrow> 1 < unat count"
    by (simp add: word_less_nat_alt unat_ucast_up)
  have "\<exists>k. PackedSwitch_first_key p = Some k \<and> (unat count \<noteq> 0 \<longrightarrow> sint k + int (unat count) - 1 < 2 ^ 31)" if packed: ?packed
  proof -
    have "Fetch16 (drop (unat (dex_pc + offset)) (insns ci)) 0 = Some kPackedSwitchSignature"
      using c(2) packed by (simp add: p_def InstructionAt_def)
    then obtain k where k: "Fetch32 p 2 = Some k"
      using payload_fits [OF assms(6) pay(2,3)] unfolding p_def InstructionAt_def by blast
    have "sint k + int (unat count) - 1 < 2 ^ 31" if "unat count \<noteq> 0"
    proof (cases "1 < unat count")
      case True
      then show ?thesis using c(3) one packed k by (intro packed_keys_fit) (auto simp: check_switch_keys_def split: if_splits)
    next
      case False
      then have "unat count = 1" using that by simp
      then show ?thesis using sint_bounds [of k] by simp
    qed
    then show ?thesis using k by (simp add: PackedSwitch_first_key_def)
  qed
  moreover have "\<exists>k l. SparseSwitch_GetKeys p i = Some k \<and> SparseSwitch_GetKeys p j = Some l \<and> sint k < sint l"
    if sparse: "\<not> ?packed" and ij: "i < j" "j < unat count" for i j
  proof -
    have "1 < unat count" using ij by simp
    then obtain k0 where k0: "Fetch32 p 2 = Some k0" "check_sparse_keys p k0 [1..<unat count] = Some True"
      using c(3) one sparse by (auto simp: check_switch_keys_def bind_eq_Some_conv unat_ucast_up)
    have key: "SparseSwitch_GetKeys p n = Fetch32 p (2 + n * 2)" for n by (simp add: SparseSwitch_GetKeys_def mult.commute)
    show ?thesis
    proof (cases "i = 0")
      case True
      then show ?thesis using check_sparse_keys_accepted(1) [OF k0(2)] k0(1) ij by (auto simp: key)
    next
      case False
      then show ?thesis using check_sparse_keys_accepted(2) [OF k0(2)] ij by (auto simp: key)
    qed
  qed
  moreover have "\<exists>off. (if ?packed then PackedSwitch_targets p i else SparseSwitch_GetTargets p i) = Some off \<and> target_ok ci (int pc + sint off)"
    if "i < unat count" for i
    using targets [OF that] by (auto simp: switch_target_def)
  ultimately have "switch_ok ci pc ?packed p" using c(1,2) unfolding switch_ok_def by auto
  moreover have "switch_marked v' pc ?packed p" using targets c(1) unfolding switch_marked_def by (metis option.inject)
  ultimately show ?thesis using pay(1) by blast
qed

section \<open>Branches and arguments\<close>

lemma CheckAndMarkBranchTarget_accepted:
  assumes "CheckAndMarkBranchTarget (FormatOf (Opcode d)) ci dex_pc (InsnsSizeInCodeUnits ci) inst d v = Some (True, v')"
    and "Fetch16 inst 0 = Some d" "IsBranch (Opcode d)"
    and "flags_match ci v" "length (insns ci) < 2 ^ 31" "unat dex_pc < length (insns ci)"
  shows "\<exists>offset. GetTargetOffset inst = Some offset \<and> target_ok ci (int (unat dex_pc) + sint offset) \<and>
    marked v' (int (unat dex_pc) + sint offset) \<and> (Opcode d \<noteq> GOTO_32 \<longrightarrow> offset \<noteq> 0)"
proof -
  let ?f = "FormatOf (Opcode d)"
  have f: "?f \<in> {k22t, k21t, k10t, k20t, k30t}" "(?f = k30t) = (Opcode d = GOTO_32)"
    using assms(3) row_facts [of "Opcode d"] by (simp_all add: IsBranch_def FlagsOf_def)
  have "(if ?f = k22t then VRegC ?f inst else if ?f = k21t then VRegB ?f inst d else VRegA ?f inst d) = GetTargetOffset inst"
    using f(1) assms(2) by (auto simp: GetTargetOffset_def VRegA_def VRegB_def VRegC_def)
  then obtain offset where o: "GetTargetOffset inst = Some offset" "?f = k30t \<or> offset \<noteq> 0"
    "check_and_mark_target ci dex_pc (InsnsSizeInCodeUnits ci) offset v = Some (True, v')"
    using assms(1) by (auto simp: CheckAndMarkBranchTarget_def bind_eq_Some_conv accepted split: if_splits)
  show ?thesis using check_and_mark_target_accepted [OF o(3) assms(4-6)] o(1,2) f(2) by blast
qed

lemma check_args_accepted:
  "check_args regs args idxs = Some True \<Longrightarrow> \<forall>i \<in> set idxs. i < length args \<and> args ! i < ucast regs"
  by (induction idxs) (auto split: if_splits)

lemma var_args_small:
  "ucast (x AND 0xf :: u16) < (16 :: u32)" "ucast (InstA d) < (16 :: u32)"
proof -
  have "n AND 15 < (16 :: nat)" for n
    using take_bit_nat_less_exp [of 4 n] by (simp add: take_bit_eq_mask mask_eq_exp_minus_1)
  then show "ucast (x AND 0xf :: u16) < (16 :: u32)" "ucast (InstA d) < (16 :: u32)"
    by (simp_all add: word_less_nat_alt unat_ucast_up InstA_def unsigned_ucast_eq unsigned_and_eq)
qed

lemma CheckVarArgRegs_accepted:
  assumes "CheckVarArgRegs ci inst (ucast (InstB d)) v = Some (True, v')" "Fetch16 inst 0 = Some d"
    and "GetVarArgs inst d = Some (count, args)" "unat (InstB d) \<le> 5"
  shows "unat count \<le> 5 \<and> length args = unat count \<and> list_all (reg_ok ci) args"
proof -
  obtain w where w: "Fetch16 inst 2 = Some w" using assms(3) by (auto simp: GetVarArgs_def bind_eq_Some_conv)
  let ?all = "[ucast (w AND 0x0f), ucast (drop_bit 4 w AND 0x0f), ucast (drop_bit 8 w AND 0x0f), ucast (drop_bit 12 w AND 0x0f),
    ucast (InstA d)] :: u32 list"
  have c: "count = InstB d" "args = take (unat count) ?all"
    using assms(3,4) w by (auto simp: GetVarArgs_def Let_def word_le_nat_alt)
  then have len: "length args = unat count" using assms(4) by simp
  have small: "list_all (\<lambda>a. a < 16) args"
  proof -
    have "list_all (\<lambda>a. a < 16) ?all" by (simp only: list.pred_inject var_args_small simp_thms)
    then show ?thesis unfolding c(2) list_all_iff by (meson in_set_takeD)
  qed
  have "list_all (reg_ok ci) args"
  proof (cases "registers_size ci < 16")
    case True
    then have "check_args (registers_size ci) args [0..<unat count] = Some True"
      using assms(1-3) c(1) by (auto simp: CheckVarArgRegs_def bind_eq_Some_conv accepted unat_ucast_up)
    then show ?thesis using check_args_accepted [of _ args] len
      by (fastforce simp: list_all_length reg_ok_def word_less_nat_alt unat_small_less)
  next
    case False
    then have "16 \<le> unat (registers_size ci)" by (simp add: word_less_nat_alt)
    then show ?thesis using small by (fastforce simp: list_all_iff reg_ok_def word_less_nat_alt)
  qed
  then show ?thesis using len c(1) assms(4) by simp
qed

lemma CheckVarArgRangeRegs_accepted:
  assumes "CheckVarArgRangeRegs ci a c v = Some (True, v')" "a < 2 ^ 16" "c < 2 ^ 16"
  shows "unat a + unat c \<le> unat (registers_size ci)"
proof -
  have "unat a + unat c < 2 ^ 32" using assms(2,3) by (simp add: word_less_nat_alt)
  then have "unat (a + c) = unat a + unat c" by (intro unat_add_lem [THEN iffD1]) simp
  then show ?thesis using assms(1) by (simp add: CheckVarArgRangeRegs_def accepted word_le_nat_alt unat_small_less)
qed

section \<open>One instruction\<close>

lemma extra_kinds:
  "IsBranch k \<Longrightarrow> GetVerifyExtraFlagsOf k = kVerifyBranchTarget"
  "IsSwitch k \<Longrightarrow> GetVerifyExtraFlagsOf k = kVerifySwitchTargets"
  "k = FILL_ARRAY_DATA \<Longrightarrow> GetVerifyExtraFlagsOf k = kVerifyArrayData"
  "HasVarArgs k \<Longrightarrow> GetVerifyExtraFlagsOf k \<in> {kVerifyVarArg, kVerifyVarArgNonZero}"
  "FormatOf k \<in> {k3rc, k4rcc} \<Longrightarrow> GetVerifyExtraFlagsOf k \<in> {kVerifyVarArgRange, kVerifyVarArgRangeNonZero}"
proof -
  let ?e = "GetVerifyExtraFlagsOf k"
  have e: "?e \<in> {0, 0x4000, 0x8000, 0x10000, 0x20000, 0x40000, 0x80000, 0x100000, 0x200000}"
    using row_facts(1) [of k] by (simp add: GetVerifyExtraFlagsOf_def)
  have m: "VerifyFlagsOf k AND 0x8000 = ?e AND 0x8000" "VerifyFlagsOf k AND 0x10000 = ?e AND 0x10000"
    "VerifyFlagsOf k AND 0x4000 = ?e AND 0x4000" "VerifyFlagsOf k AND 0x60000 = ?e AND 0x60000"
    "VerifyFlagsOf k AND 0x180000 = ?e AND 0x180000"
    by (simp_all add: GetVerifyExtraFlagsOf_def and.assoc)
  note rows = row_facts [of k, unfolded m]
  show "?e = kVerifyBranchTarget" if "IsBranch k"
  proof -
    have "?e AND 0x8000 \<noteq> 0" using that rows(1) by (simp add: IsBranch_def FlagsOf_def)
    then show ?thesis using e by auto
  qed
  show "?e = kVerifySwitchTargets" if "IsSwitch k"
  proof -
    have "?e AND 0x10000 \<noteq> 0" using that rows(1) by (simp add: IsSwitch_def FlagsOf_def)
    then show ?thesis using e by auto
  qed
  show "?e = kVerifyArrayData" if "k = FILL_ARRAY_DATA"
  proof -
    have "?e AND 0x4000 \<noteq> 0" using that rows(2) by blast
    then show ?thesis using e by auto
  qed
  show "?e \<in> {kVerifyVarArg, kVerifyVarArgNonZero}" if "HasVarArgs k"
  proof -
    have "?e AND 0x60000 \<noteq> 0" using that rows(1) unfolding HasVarArgs_def by blast
    then show ?thesis using e by auto
  qed
  show "?e \<in> {kVerifyVarArgRange, kVerifyVarArgRangeNonZero}" if "FormatOf k \<in> {k3rc, k4rcc}"
  proof -
    have "?e AND 0x180000 \<noteq> 0" using that rows(1) by blast
    then show ?thesis using e by auto
  qed
qed

lemma switch_opcodes: "IsSwitch k \<longleftrightarrow> k = PACKED_SWITCH \<or> k = SPARSE_SWITCH"
  using row_facts [of k] by (auto simp: IsSwitch_def FlagsOf_def)

text \<open>An accepted call inside code that is laid out, at the start of an instruction.\<close>

definition targets_marked :: "CodeItemDataAccessor \<Rightarrow> verifier \<Rightarrow> nat \<Rightarrow> bool" where
  "targets_marked ci v pc \<longleftrightarrow>
     (let inst = drop pc (insns ci); op = Opcode (inst ! 0) in
        (IsBranch op \<longrightarrow> (\<forall>offset. GetTargetOffset inst = Some offset \<longrightarrow> marked v (int pc + sint offset))) \<and>
        (IsSwitch op \<longrightarrow> (\<forall>p. payload_at ci pc = Some p \<longrightarrow> switch_marked v pc (op = PACKED_SWITCH) p)))"

lemma targets_marked_extend: "targets_marked ci v pc \<Longrightarrow> flags_extend v v' \<Longrightarrow> targets_marked ci v' pc"
  unfolding targets_marked_def switch_marked_def Let_def using marked_extend by blast

lemma laid_out_format:
  assumes "laid_out code" "insn_start code pc" "pc < length code"
  defines "op \<equiv> Opcode (drop pc code ! 0)"
  shows "op \<noteq> NOP \<Longrightarrow> SizeInCodeUnitsOfFormat (FormatOf op) \<le> length (drop pc code)"
proof -
  assume "op \<noteq> NOP"
  moreover obtain n where n: "SizeInCodeUnits (drop pc code) = Some n" "pc + n \<le> length code"
    using assms(1-3) by (auto simp: laid_out_def)
  moreover have "Fetch16 (drop pc code) 0 = Some (drop pc code ! 0)" using assms(3) by (simp add: Fetch16_first)
  ultimately have "n = SizeInCodeUnitsOfFormat (FormatOf op)" by (simp add: SizeInCodeUnits_non_nop op_def)
  then show ?thesis using n(2) by simp
qed

lemma FormatOf_NOP: "FormatOf NOP = k10x"
  by (simp add: FormatOf_def InstructionDescriptorOf_def kInstructionDescriptors_def DEX_INSTRUCTION_LIST_00_7F_def)

lemma extra_registers_accepted:
  assumes "verify_extra k ci dex_pc end_pc inst d True v = Some (True, v')" "k = Opcode d" "Fetch16 inst 0 = Some d"
    and "k \<noteq> NOP \<longrightarrow> SizeInCodeUnitsOfFormat (FormatOf k) \<le> length inst"
  shows "HasVarArgs k \<longrightarrow> (\<exists>count args. GetVarArgs inst d = Some (count, args) \<and> unat count \<le> 5 \<and>
      length args = unat count \<and> list_all (reg_ok ci) args)"
    "FormatOf k \<in> {k3rc, k4rcc} \<longrightarrow> (\<exists>a c. VRegA (FormatOf k) inst d = Some a \<and> VRegC (FormatOf k) inst = Some c \<and>
      unat a + unat c \<le> unat (registers_size ci))"
proof -
  show "HasVarArgs k \<longrightarrow> (\<exists>count args. GetVarArgs inst d = Some (count, args) \<and> unat count \<le> 5 \<and>
      length args = unat count \<and> list_all (reg_ok ci) args)"
  proof
    assume v: "HasVarArgs k"
    note x = extra_kinds(4) [OF v]
    have f: "FormatOf k \<in> {k35c, k45cc}" using v by (auto simp: HasVarArgs_def)
    then have a: "VRegA (FormatOf k) inst d = Some (ucast (InstB d))" by (auto simp: VRegA_def vreg_defs)
    have "\<not> 5 < (ucast (InstB d) :: u32) \<and> CheckVarArgRegs ci inst (ucast (InstB d)) v = Some (True, v')"
      using x
    proof (elim insertE)
      assume "GetVerifyExtraFlagsOf k = kVerifyVarArg"
      then show ?thesis using assms(1) by (simp add: verify_extra_def Let_def a accepted split: if_splits)
    next
      assume "GetVerifyExtraFlagsOf k = kVerifyVarArgNonZero"
      then show ?thesis using assms(1) by (simp add: verify_extra_def Let_def a accepted split: if_splits)
    qed simp
    then have chk: "unat (InstB d) \<le> 5" "CheckVarArgRegs ci inst (ucast (InstB d)) v = Some (True, v')"
      by (simp_all add: word_less_nat_alt unat_ucast_up)
    have "k \<noteq> NOP" using f FormatOf_NOP by auto
    then have "2 < length inst" using assms(4) f by (auto simp: SizeInCodeUnitsOfFormat_def)
    then obtain count args where g: "GetVarArgs inst d = Some (count, args)"
      by (auto simp: GetVarArgs_def Fetch16_def Let_def)
    show "\<exists>count args. GetVarArgs inst d = Some (count, args) \<and> unat count \<le> 5 \<and>
      length args = unat count \<and> list_all (reg_ok ci) args"
      using CheckVarArgRegs_accepted [OF chk(2) assms(3) g chk(1)] g by blast
  qed
  show "FormatOf k \<in> {k3rc, k4rcc} \<longrightarrow> (\<exists>a c. VRegA (FormatOf k) inst d = Some a \<and> VRegC (FormatOf k) inst = Some c \<and>
      unat a + unat c \<le> unat (registers_size ci))"
  proof
    assume f: "FormatOf k \<in> {k3rc, k4rcc}"
    obtain a c where ac: "VRegA (FormatOf k) inst d = Some a" "VRegC (FormatOf k) inst = Some c"
      "CheckVarArgRangeRegs ci a c v = Some (True, v')"
      using extra_kinds(5) [OF f]
    proof (elim insertE)
      assume "GetVerifyExtraFlagsOf k = kVerifyVarArgRange"
      then show thesis using assms(1) that by (auto simp: verify_extra_def Let_def bind_eq_Some_conv accepted split: if_splits)
    next
      assume "GetVerifyExtraFlagsOf k = kVerifyVarArgRangeNonZero"
      then show thesis using assms(1) that by (auto simp: verify_extra_def Let_def bind_eq_Some_conv accepted split: if_splits)
    qed simp
    have "a < 2 ^ 16" "c < 2 ^ 16" using VRegA_small [OF _ ac(1)] VRegC_small [OF _ ac(2)] f by auto
    then show "\<exists>a c. VRegA (FormatOf k) inst d = Some a \<and> VRegC (FormatOf k) inst = Some c \<and>
      unat a + unat c \<le> unat (registers_size ci)"
      using CheckVarArgRangeRegs_accepted [OF ac(3)] ac(1,2) by blast
  qed
qed

lemma nonzero_accepted:
  assumes "verify_extra k ci dex_pc end_pc inst d True v = Some (True, v')" "k = Opcode d"
    and "GetVerifyExtraFlagsOf k \<in> {kVerifyVarArgNonZero, kVerifyVarArgRangeNonZero}"
  shows "\<exists>a. VRegA (FormatOf k) inst d = Some a \<and> a \<noteq> 0"
  using assms by (auto simp: verify_extra_def Let_def bind_eq_Some_conv accepted split: if_splits)

lemma registers_accepted:
  assumes "VerifyInstruction (Opcode d) df ci dex_pc end_pc inst d v = Some (True, v')" "d = inst ! 0" "inst \<noteq> []"
    and "Opcode d \<noteq> NOP \<longrightarrow> SizeInCodeUnitsOfFormat (FormatOf (Opcode d)) \<le> length inst"
  shows "registers_ok ci inst"
  using assms(1)
proof (rule VerifyInstruction_accepted)
  fix vA vB vC vH
  assume A: "verify_A (Opcode d) ci inst d v = Some (True, vA)" and B: "verify_B (Opcode d) df ci inst d vA = Some (True, vB)"
    and C: "verify_C (Opcode d) df ci inst d vB = Some (True, vC)"
    and E: "verify_extra (Opcode d) ci dex_pc end_pc inst d True vH = Some (True, v')"
  have "Fetch16 inst 0 = Some d" using assms(2,3) by (simp add: Fetch16_first)
  note extra = extra_registers_accepted [OF E refl this assms(4)]
  show ?thesis
    using verify_A_accepted(2,3) [OF A] verify_B_accepted(1,2) [OF B] verify_C_accepted(1,2) [OF C] extra
      nonzero_accepted [OF E refl]
    unfolding registers_ok_def Let_def assms(2) by blast
qed

lemma extra_accepted:
  assumes "VerifyInstruction (Opcode d) df ci dex_pc (InsnsSizeInCodeUnits ci) inst d v = Some (True, v')"
    and "flags_match ci v"
  shows "\<exists>vH. flags_match ci vH \<and> verify_extra (Opcode d) ci dex_pc (InsnsSizeInCodeUnits ci) inst d True vH = Some (True, v')"
  using assms(1)
proof (rule VerifyInstruction_accepted)
  fix vA vB vC vH
  assume A: "verify_A (Opcode d) ci inst d v = Some (True, vA)" and B: "verify_B (Opcode d) df ci inst d vA = Some (True, vB)"
    and C: "verify_C (Opcode d) df ci inst d vB = Some (True, vC)" and H: "verify_H (Opcode d) df inst vC = Some (True, vH)"
    and E: "verify_extra (Opcode d) ci dex_pc (InsnsSizeInCodeUnits ci) inst d True vH = Some (True, v')"
  have "flags_match ci vH"
    using assms(2) keeps_extend [OF keeps_verify(1) A] keeps_extend [OF keeps_verify(2) B] keeps_extend [OF keeps_verify(3) C]
      keeps_extend [OF keeps_verify(4) H] flags_match_extend by blast
  then show ?thesis using E by blast
qed

lemma instruction_accepted:
  assumes "VerifyInstruction (Opcode d) df ci dex_pc (InsnsSizeInCodeUnits ci) (drop pc (insns ci)) d v = Some (True, v')"
    and "pc = unat dex_pc" "pc < length (insns ci)" "d = insns ci ! pc"
    and "flags_match ci v" "length (insns ci) < 2 ^ 31" "laid_out (insns ci)" "insn_start (insns ci) pc"
  shows "insn_ok ci pc" "targets_marked ci v' pc"
proof -
  let ?inst = "drop pc (insns ci)" and ?op = "Opcode d"
  have d: "?inst ! 0 = d" "?inst \<noteq> []" "Fetch16 ?inst 0 = Some d" using assms(3,4) by (simp_all add: Fetch16_first)
  have fits: "?op \<noteq> NOP \<longrightarrow> SizeInCodeUnitsOfFormat (FormatOf ?op) \<le> length ?inst"
    using laid_out_format [OF assms(7,8,3)] d(1) by simp
  obtain vH where vH: "flags_match ci vH"
    "verify_extra ?op ci dex_pc (InsnsSizeInCodeUnits ci) ?inst d True vH = Some (True, v')"
    using extra_accepted [OF assms(1,5)] by blast
  have lt: "unat dex_pc < length (insns ci)" using assms(2,3) by simp
  have branch: "\<exists>offset. GetTargetOffset ?inst = Some offset \<and> target_ok ci (int pc + sint offset) \<and>
      marked v' (int pc + sint offset) \<and> (?op \<noteq> GOTO_32 \<longrightarrow> offset \<noteq> 0)" if b: "IsBranch ?op"
    using CheckAndMarkBranchTarget_accepted [OF _ d(3) b vH(1) assms(6) lt] vH(2) extra_kinds(1) [OF b] assms(2)
    by (simp add: verify_extra_def Let_def accepted)
  have switch: "\<exists>p. payload_at ci pc = Some p \<and> switch_ok ci pc (?op = PACKED_SWITCH) p \<and> switch_marked v' pc (?op = PACKED_SWITCH) p"
    if b: "IsSwitch ?op"
    using CheckAndMarkSwitchTargets_accepted [OF _ vH(1) assms(6,2,3,7)] vH(2) extra_kinds(2) [OF b]
    by (simp add: verify_extra_def Let_def accepted)
  have array: "\<exists>p. payload_at ci pc = Some p \<and> Fetch16 p 0 = Some kArrayDataSignature" if b: "?op = FILL_ARRAY_DATA"
    using CheckArrayData_accepted [OF _ vH(1) assms(6,2,3)] vH(2) extra_kinds(3) [OF b]
    by (simp add: verify_extra_def Let_def accepted)
  have "GetVerifyExtraFlagsOf ?op \<noteq> kVerifyError" using vH(2) by (auto simp: verify_extra_def Let_def accepted)
  moreover have "registers_ok ci ?inst" by (rule registers_accepted [OF assms(1) d(1) [symmetric] d(2) fits])
  ultimately show "insn_ok ci pc" unfolding insn_ok_def Let_def d(1) using branch switch array by blast
  show "targets_marked ci v' pc" unfolding targets_marked_def Let_def d(1) using branch switch by fastforce
qed

section \<open>The loop over the instructions\<close>

lemma walk_size_correct:
  assumes "laid_out code" "insn_start code pc" "pc < length code" "length code < 2 ^ 31"
    and "walk_size (find_dispatch_opcode (Opcode (code ! pc))) (drop pc code) = Some n"
  shows "SizeInCodeUnits (drop pc code) = Some (unat n)" "pc + unat n \<le> length code"
proof -
  let ?d = "code ! pc" and ?k = "find_dispatch_opcode (Opcode (code ! pc))"
  have d: "Fetch16 (drop pc code) 0 = Some ?d" using assms(3) by (simp add: Fetch16_def)
  obtain m where m: "SizeInCodeUnits (drop pc code) = Some m" "pc + m \<le> length code"
    using assms(1-3) by (auto simp: laid_out_def)
  have "FormatOf ?k = FormatOf (Opcode ?d)" using find_dispatch_opcode_same(1) [of "Opcode ?d"] by (simp add: same_dispatch_def)
  then have "n = of_nat m"
    using assms(5) m(1) d find_dispatch_opcode_same(2) [of "Opcode ?d"]
    by (cases "Opcode ?d = NOP") (auto simp: walk_size_def SizeInCodeUnits_nop SizeInCodeUnits_non_nop)
  then have "unat n = m" using m(2) assms(4) by (simp add: unat_of_nat take_bit_nat_eq_self_iff)
  then show "SizeInCodeUnits (drop pc code) = Some (unat n)" "pc + unat n \<le> length code" using m by simp_all
qed

definition code_verified :: "dex_file \<Rightarrow> CodeItemDataAccessor \<Rightarrow> verifier \<Rightarrow> nat \<Rightarrow> bool" where
  "code_verified df ci v pc \<longleftrightarrow>
     insn_ok ci pc \<and> indices_ok df (drop pc (insns ci)) \<and> targets_marked ci v pc \<and>
     (IsReturnOf (Opcode (insns ci ! pc)) \<longrightarrow> IsReturnFlag (insn_flags v ! pc))"

lemma code_verified_extend:
  assumes "code_verified df ci v pc" "flags_extend v v'" "pc < length (insn_flags v)"
  shows "code_verified df ci v' pc"
proof -
  have "y AND 32 \<noteq> 0" if "x AND 32 \<noteq> 0" "x AND y = x" for x y :: u8
    using that by (metis and.assoc and_zero_eq)
  then have "IsReturnFlag (insn_flags v ! pc) \<longrightarrow> IsReturnFlag (insn_flags v' ! pc)"
    using assms(2,3) unfolding flags_extend_def IsReturnFlag_def by metis
  then show ?thesis using assms(1) targets_marked_extend [OF _ assms(2)] unfolding code_verified_def by blast
qed

text \<open>One turn of the loop.\<close>

lemma VerifyInstructionsLoop_step:
  assumes "VerifyInstructionsLoop df ci dex_pc v = Some (True, v')" "dex_pc \<noteq> InsnsSizeInCodeUnits ci"
    and "length (insns ci) < 2 ^ 31" "unat dex_pc < length (insns ci)"
  defines "pc \<equiv> unat dex_pc" and "d \<equiv> insns ci ! unat dex_pc"
  obtains v1 v2 n where
    "VerifyInstruction (Opcode d) df ci dex_pc (InsnsSizeInCodeUnits ci) (drop pc (insns ci)) d v = Some (True, v1)"
    "walk_size (find_dispatch_opcode (Opcode d)) (drop pc (insns ci)) = Some n"
    "(if IsReturnOf (Opcode d) then ModifyInstructionFlags SetReturn dex_pc v1 else Some v1) = Some v2"
    "VerifyInstructionsLoop df ci (dex_pc + n) v2 = Some (True, v')"
proof -
  let ?k = "find_dispatch_opcode (Opcode d)"
  have d: "Fetch16 (InstructionAt ci dex_pc) 0 = Some d"
    using assms(4) by (simp add: Fetch16_def InstructionAt_def d_def)
  note same = find_dispatch_opcode_same(1) [of "Opcode d"]
  obtain v1 n v2 where s: "VerifyInstruction ?k df ci dex_pc (InsnsSizeInCodeUnits ci) (InstructionAt ci dex_pc) d v = Some (True, v1)"
    "walk_size ?k (InstructionAt ci dex_pc) = Some n"
    "(if IsReturnOf ?k then ModifyInstructionFlags SetReturn dex_pc v1 else Some v1) = Some v2"
    "VerifyInstructionsLoop df ci (dex_pc + n) v2 = Some (True, v')"
    using assms(1,2) d
    by (subst (asm) VerifyInstructionsLoop.simps) (auto simp: Let_def bind_eq_Some_conv split: if_splits)
  moreover have "IsReturnOf ?k = IsReturnOf (Opcode d)" using same by (simp add: same_dispatch_def)
  ultimately show thesis
    using that by (simp add: VerifyInstruction_same_dispatch [OF same] InstructionAt_def pc_def)
qed

lemma VerifyInstructionsLoop_accepted:
  assumes "VerifyInstructionsLoop df ci dex_pc v = Some (True, v')"
    and "length (insns ci) < 2 ^ 31" "laid_out (insns ci)" "unat dex_pc \<le> length (insns ci)"
    and "flags_match ci v" "insn_start (insns ci) (unat dex_pc)"
  shows "flags_extend v v' \<and>
    (\<forall>pc < length (insns ci). reach (insns ci) (unat dex_pc) pc \<longrightarrow> code_verified df ci v' pc)"
  using assms(1,4-6)
proof (induction "length (insns ci) - unat dex_pc" arbitrary: dex_pc v rule: less_induct)
  case less
  let ?code = "insns ci" and ?pc = "unat dex_pc"
  show ?case
  proof (cases "?pc = length ?code")
    case True
    then have "dex_pc = InsnsSizeInCodeUnits ci" using InsnsSize [OF assms(2)] by (metis word_unat_eq_iff)
    moreover have "\<not> reach ?code ?pc pc" if "pc < length ?code" for pc
      using True that reach_le by fastforce
    ultimately show ?thesis using less.prems(1) by (simp add: VerifyInstructionsLoop.simps Let_def)
  next
    case False
    then have lt: "?pc < length ?code" using less.prems(2) by simp
    have ne: "dex_pc \<noteq> InsnsSizeInCodeUnits ci" using False InsnsSize [OF assms(2)] by auto
    let ?d = "?code ! ?pc"
    obtain v1 v2 n where s:
      "VerifyInstruction (Opcode ?d) df ci dex_pc (InsnsSizeInCodeUnits ci) (drop ?pc ?code) ?d v = Some (True, v1)"
      "walk_size (find_dispatch_opcode (Opcode ?d)) (drop ?pc ?code) = Some n"
      "(if IsReturnOf (Opcode ?d) then ModifyInstructionFlags SetReturn dex_pc v1 else Some v1) = Some v2"
      "VerifyInstructionsLoop df ci (dex_pc + n) v2 = Some (True, v')"
      by (rule VerifyInstructionsLoop_step [OF less.prems(1) ne assms(2) lt])
    note size = walk_size_correct [OF assms(3) less.prems(4) lt assms(2) s(2)]
    have n0: "0 < unat n" by (rule SizeInCodeUnits_pos [OF size(1)])
    have next_pc: "unat (dex_pc + n) = ?pc + unat n"
      using size(2) assms(2) by (subst unat_add_lem [THEN iffD1]) simp_all
    have e1: "flags_extend v v1" by (rule keeps_extend [OF keeps_VerifyInstruction s(1)])
    have e2: "flags_extend v1 v2" using s(3) by (auto split: if_splits intro: Modify_flags_extend)
    have start: "insn_start ?code (unat (dex_pc + n))"
      unfolding insn_start_def next_pc
      by (rule reach_trans [OF less.prems(4) [unfolded insn_start_def] reach.onward [OF lt size(1) reach.here]])
    have fm: "flags_match ci v1" "flags_match ci v2"
      using flags_match_extend [OF less.prems(3) e1] flags_match_extend [OF flags_match_extend [OF less.prems(3) e1] e2] by simp_all
    have dec: "length ?code - unat (dex_pc + n) < length ?code - ?pc" and le: "unat (dex_pc + n) \<le> length ?code"
      using next_pc n0 size(2) lt by linarith+
    have IH: "flags_extend v2 v'" "\<forall>pc < length ?code. reach ?code (unat (dex_pc + n)) pc \<longrightarrow> code_verified df ci v' pc"
      using less.hyps [OF dec s(4) le fm(2) start] by blast+
    note here = instruction_accepted [OF s(1) refl lt refl less.prems(3) assms(2,3) less.prems(4)]
    have "IsReturnOf (Opcode ?d) \<longrightarrow> IsReturnFlag (insn_flags v2 ! ?pc)"
      using s(3) lt fm(1) by (auto simp: ModifyInstructionFlags_def flags_match_def split: if_splits)
    then have "code_verified df ci v2 ?pc"
      using here(1) targets_marked_extend [OF here(2) e2] indices_accepted [OF s(1) refl] lt
      by (simp add: code_verified_def)
    then have "code_verified df ci v' ?pc"
      using code_verified_extend [OF _ IH(1)] lt fm(2) by (simp add: flags_match_def)
    moreover have "reach ?code ?pc pc \<longleftrightarrow> pc = ?pc \<or> reach ?code (unat (dex_pc + n)) pc" for pc
      using size(1) lt by (subst reach_iff) (auto simp: next_pc)
    ultimately have "\<forall>pc < length ?code. reach ?code ?pc pc \<longrightarrow> code_verified df ci v' pc" using IH(2) by metis
    then show ?thesis using flags_extend_trans [OF flags_extend_trans [OF e1 e2] IH(1)] by simp
  qed
qed

section \<open>The whole pass\<close>

lemma static_pass_sound:
  assumes "static_pass df ci v = Some (True, v')" "insn_flags v = replicate (length (insns ci)) 0"
    and "length (insns ci) < 2 ^ 31"
  shows "laid_out (insns ci)" "flags_match ci v'"
    "\<And>pc. pc < length (insns ci) \<Longrightarrow> insn_start (insns ci) pc \<Longrightarrow> code_verified df ci v' pc"
proof -
  obtain v1 v2 v3 where s: "ComputeWidthsAndCountOps ci v = Some (True, v1)" "ScanTryCatchBlocks ci v1 = Some (True, v2)"
    "ModifyInstructionFlags SetBranchTarget 0 v2 = Some v3" "VerifyInstructionsLoop df ci 0 v3 = Some (True, v')"
    using assms(1) by (auto simp: static_pass_def VerifyInstructions_def accepted bind_eq_Some_conv)
  note w = ComputeWidths_layout [OF assms(3,2) s(1)]
  show laid: "laid_out (insns ci)" by (rule w(1))
  have "flags_match ci v1" using w(2,3) by (simp add: flags_match_def)
  moreover have "flags_extend v1 v2" by (rule keeps_extend [OF keeps_ScanTryCatchBlocks s(2)])
  moreover have "flags_extend v2 v3" by (rule Modify_flags_extend [OF s(3)]) simp
  ultimately have fm: "flags_match ci v3" using flags_match_extend by blast
  have start: "insn_start (insns ci) (unat (0 :: u32))" by (simp add: insn_start_def reach.here)
  note L = VerifyInstructionsLoop_accepted [OF s(4) assms(3) laid _ fm start]
  show "flags_match ci v'" using L flags_match_extend [OF fm] by simp
  show "code_verified df ci v' pc" if "pc < length (insns ci)" "insn_start (insns ci) pc" for pc
    using L that by (simp add: insn_start_def)
qed

section \<open>Try blocks and handlers\<close>

text \<open>The handlers of \<open>n\<close> encoded lists, one behind the other.\<close>

primrec all_handlers :: "nat \<Rightarrow> u8 list \<Rightarrow> (u16 \<times> u32) list option" where
  "all_handlers 0 p = Some []"
| "all_handlers (Suc n) p =
     do { it \<leftarrow> CatchHandlerIterator_InitData p;
          (hs, last_it) \<leftarrow> collect_handlers it;
          q \<leftarrow> EndDataPointer last_it;
          rest \<leftarrow> all_handlers n q;
          Some (hs @ rest) }"

definition handler_target_ok :: "CodeItemDataAccessor \<Rightarrow> verifier \<Rightarrow> u32 \<Rightarrow> bool" where
  "handler_target_ok ci v addr \<longleftrightarrow>
     unat addr < length (insns ci) \<and> insn_start (insns ci) (unat addr) \<and>
     \<not> IsMoveResult (Opcode (insns ci ! unat addr)) \<and> marked v (int (unat addr))"

definition try_ok :: "CodeItemDataAccessor \<Rightarrow> TryItem \<Rightarrow> bool" where
  "try_ok ci ti \<longleftrightarrow>
     unat (start_addr ti) < unat (try_end ti) \<and> unat (try_end ti) \<le> length (insns ci) \<and>
     insn_start (insns ci) (unat (start_addr ti))"

lemma handler_target_extend: "handler_target_ok ci v addr \<Longrightarrow> flags_extend v v' \<Longrightarrow> handler_target_ok ci v' addr"
  unfolding handler_target_ok_def using marked_extend by blast

lemma scan_iterator_accepted:
  assumes "scan_iterator ci it v = Some (True, v', q)" "flags_match ci v"
  shows "\<exists>hs last_it. collect_handlers it = Some (hs, last_it) \<and> EndDataPointer last_it = Some q \<and>
    (\<forall>(ty, addr) \<in> set hs. handler_target_ok ci v' addr)"
  using assms
proof (induction ci it v rule: scan_iterator.induct)
  case (1 ci it v)
  show ?case
  proof (cases "HasNext it")
    case True
    let ?addr = "handler_address it"
    obtain flgs d v1 it' where s: "GetInstructionFlags ?addr v = Some flgs" "IsOpcode flgs"
      "Fetch16 (InstructionAt ci ?addr) 0 = Some d" "\<not> IsMoveResult (Opcode d)"
      "ModifyInstructionFlags SetBranchTarget ?addr v = Some v1" "CatchHandlerIterator_Next it = Some it'"
      "scan_iterator ci it' v1 = Some (True, v', q)"
      using 1(2) True by (auto simp: scan_iterator.simps [of ci it] Let_def bind_eq_Some_conv split: if_splits)
    have e: "flags_extend v v1" by (rule Modify_flags_extend [OF s(5)]) simp
    have "flags_match ci v1" by (rule flags_match_extend [OF 1(3) e])
    then obtain hs last_it where IH: "collect_handlers it' = Some (hs, last_it)" "EndDataPointer last_it = Some q"
      "\<forall>(ty, addr) \<in> set hs. handler_target_ok ci v' addr"
      using 1(1) [OF True refl s(1) _ s(3-7)] s(2) by blast
    have lt: "unat ?addr < length (insns ci)" using s(1) 1(3) by (auto simp: GetInstructionFlags_def flags_match_def split: if_splits)
    have "handler_target_ok ci v1 ?addr"
      using s(1-5) 1(3) lt
      by (auto simp: handler_target_ok_def GetInstructionFlags_def ModifyInstructionFlags_def flags_match_def marked_def
          Fetch16_def InstructionAt_def split: if_splits)
    then have "handler_target_ok ci v' ?addr" by (rule handler_target_extend [OF _ scan_iterator_extend [OF s(7)]])
    then show ?thesis using IH s(6) True by (simp add: collect_handlers.simps [of it])
  next
    case False
    then show ?thesis using 1(2)
      by (auto simp: scan_iterator.simps [of ci it] collect_handlers.simps [of it] bind_eq_Some_conv)
  qed
qed

lemma scan_handlers_accepted:
  assumes "scan_handlers ci n p v = Some (True, v')" "flags_match ci v"
  shows "\<exists>hs. all_handlers n p = Some hs \<and> (\<forall>(ty, addr) \<in> set hs. handler_target_ok ci v' addr)"
  using assms
proof (induction n arbitrary: p v)
  case (Suc n)
  obtain it v1 q where s: "CatchHandlerIterator_InitData p = Some it" "scan_iterator ci it v = Some (True, v1, q)"
    "scan_handlers ci n q v1 = Some (True, v')"
    using Suc.prems(1) by (auto simp: bind_eq_Some_conv split: if_splits)
  obtain hs last_it where h: "collect_handlers it = Some (hs, last_it)" "EndDataPointer last_it = Some q"
    "\<forall>(ty, addr) \<in> set hs. handler_target_ok ci v1 addr"
    using scan_iterator_accepted [OF s(2) Suc.prems(2)] by blast
  have "flags_match ci v1" by (rule flags_match_extend [OF Suc.prems(2) scan_iterator_extend [OF s(2)]])
  then obtain rest where r: "all_handlers n q = Some rest" "\<forall>(ty, addr) \<in> set rest. handler_target_ok ci v' addr"
    using Suc.IH [OF s(3)] by blast
  have "\<forall>(ty, addr) \<in> set hs. handler_target_ok ci v' addr"
    using h(3) handler_target_extend [OF _ keeps_extend [OF keeps_scan_handlers s(3)]] by blast
  then show ?case using s(1) h(1,2) r by (auto simp: bind_eq_Some_conv)
qed simp

lemma scan_try_items_accepted:
  assumes "scan_try_items ci items v = Some (True, v')" "flags_match ci v" "length (insns ci) < 2 ^ 31"
  shows "list_all (try_ok ci) items"
  using assms(1,2)
proof (induction items arbitrary: v)
  case (Cons ti items)
  obtain flgs v1 where s: "\<not> (try_end ti \<le> start_addr ti \<or> InsnsSizeInCodeUnits ci \<le> start_addr ti \<or> InsnsSizeInCodeUnits ci < try_end ti)"
    "GetInstructionFlags (start_addr ti) v = Some flgs" "IsOpcode flgs"
    "mark_in_try ci (unat (start_addr ti)) (unat (try_end ti)) v = Some v1" "scan_try_items ci items v1 = Some (True, v')"
    using Cons.prems(1) by (auto simp: Let_def bind_eq_Some_conv accepted split: if_splits)
  have "flags_match ci v1" by (rule flags_match_extend [OF Cons.prems(2) mark_in_try_extend [OF s(4)]])
  moreover have "try_ok ci ti"
    using s(1-3) Cons.prems(2) InsnsSize [OF assms(3)]
    by (auto simp: try_ok_def word_le_nat_alt word_less_nat_alt GetInstructionFlags_def flags_match_def split: if_splits)
  ultimately show ?case using Cons.IH [OF s(5)] by simp
qed simp

lemma ScanTryCatchBlocks_accepted:
  assumes "ScanTryCatchBlocks ci v = Some (True, v')" "flags_match ci v" "length (insns ci) < 2 ^ 31" "TriesSize ci \<noteq> 0"
  shows "list_all (try_ok ci) (try_items ci)"
    "\<exists>n p hs. DecodeUnsignedLeb128 (handler_data ci) = Some (n, p) \<and> all_handlers (unat n) p = Some hs \<and>
       (\<forall>(ty, addr) \<in> set hs. handler_target_ok ci v' addr)"
proof -
  obtain v1 n p where s: "scan_try_items ci (try_items ci) v = Some (True, v1)"
    "DecodeUnsignedLeb128 (handler_data ci) = Some (n, p)" "scan_handlers ci (unat n) p v1 = Some (True, v')"
    using assms(1,4) by (auto simp: ScanTryCatchBlocks_def accepted bind_eq_Some_conv GetCatchHandlerData_def)
  show "list_all (try_ok ci) (try_items ci)" by (rule scan_try_items_accepted [OF s(1) assms(2,3)])
  have "flags_match ci v1" by (rule flags_match_extend [OF assms(2) keeps_extend [OF keeps_scan_try_items s(1)]])
  then show "\<exists>n p hs. DecodeUnsignedLeb128 (handler_data ci) = Some (n, p) \<and> all_handlers (unat n) p = Some hs \<and>
       (\<forall>(ty, addr) \<in> set hs. handler_target_ok ci v' addr)"
    using scan_handlers_accepted [OF s(3)] s(2) by blast
qed

end
