(* ===== verification/VerifierProps.thy ===== *)
theory VerifierProps
  imports VerifierSound
begin

text \<open>
  The properties of the static pass, with a small method on which they are applied: a constant,
  then a jump back to it, inside a try block with a catch-all handler.
\<close>

section \<open>A method\<close>

definition example_code :: CodeItemDataAccessor where
  "example_code = \<lparr>registers_size = 1, ins_size = 0, outs_size = 0, insns = [0x0012, 0xFF28],
     try_items = [\<lparr>start_addr = 0, insn_count = 1, handler_off = 1\<rparr>], handler_data = [1, 0, 1]\<rparr>"

definition example_dex_file :: dex_file where
  "example_dex_file = \<lparr>NumStringIds = 1, NumTypeIds = 1, NumProtoIds = 1, NumFieldIds = 1, NumMethodIds = 1, NumCallSiteIds = 0,
     NumMethodHandles = 0, GetTypeDescriptor = (\<lambda>_. ''LMain;''), GetFieldTypeDescriptor = (\<lambda>_. ''I'')\<rparr>"

definition example_method :: verified_method where
  "example_method = \<lparr>method_access_flags = 9, native_access_flags = 0, GetMethodShorty = ''V'', code_item = Some example_code\<rparr>"

definition example_verifier :: verifier where
  "example_verifier = \<lparr>insn_flags = [], failures = [], encountered_failure_types = 0, have_pending_hard_failure = False,
     have_pending_runtime_throw_failure = False, compatibility_mode = False\<rparr>"

text \<open>A switch whose payload offset leads to the last code unit.\<close>

definition short_payload_code :: CodeItemDataAccessor where
  "short_payload_code = \<lparr>registers_size = 1, ins_size = 0, outs_size = 0, insns = [0x002B, 4, 0, 0x0000, 0x000E],
     try_items = [], handler_data = []\<rparr>"

section \<open>Evaluating the pass\<close>

lemma dispatch_simps:
  "VerifyInstruction (find_dispatch_opcode opcode) = VerifyInstruction opcode"
  "IsReturnOf (find_dispatch_opcode opcode) = IsReturnOf opcode"
  "walk_size (find_dispatch_opcode opcode) = walk_size opcode"
proof -
  note same = find_dispatch_opcode_same [of opcode]
  show "VerifyInstruction (find_dispatch_opcode opcode) = VerifyInstruction opcode"
    by (rule VerifyInstruction_same_dispatch [OF same(1)])
  show "IsReturnOf (find_dispatch_opcode opcode) = IsReturnOf opcode" using same(1) by (simp add: same_dispatch_def)
  show "walk_size (find_dispatch_opcode opcode) = walk_size opcode"
    using same by (simp add: fun_eq_iff walk_size_def same_dispatch_def)
qed

lemma example_descriptors:
  "FormatOf 0x12 = k11n" "VerifyFlagsOf 0x12 = 1" "IsReturnOf 0x12 = False"
  "FormatOf 0x28 = k10t" "VerifyFlagsOf 0x28 = 0x8000" "IsReturnOf 0x28 = False"
  "FormatOf 0x2B = k31t" "VerifyFlagsOf 0x2B = 0x10001" "IsReturnOf 0x2B = False"
  "FormatOf 0x0E = k10x" "VerifyFlagsOf 0xFC = 0x820000" "FormatOf 0xFC = k35c"
  "VerifyFlagsOf 0xFD = 0x880000" "FormatOf 0xFD = k3rc"
  by (simp_all add: FormatOf_def VerifyFlagsOf_def IsReturnOf_def InstructionDescriptorOf_def kInstructionDescriptors_def
      DEX_INSTRUCTION_LIST_00_7F_def DEX_INSTRUCTION_LIST_80_FF_def)

lemmas verify_defs = VerifyInstruction_def verify_A_def verify_B_def verify_C_def verify_H_def verify_extra_def
  GetVerifyTypeArgumentAOf_def GetVerifyTypeArgumentBOf_def GetVerifyTypeArgumentCOf_def GetVerifyTypeArgumentHOf_def
  GetVerifyExtraFlagsOf_def and_then_def check_def Let_def

lemma example_size: "SizeInCodeUnits [0x0012, 0xFF28] = Some 1"
  by (simp add: SizeInCodeUnits_non_nop [of _ "0x0012"] Fetch16_def Opcode_def example_descriptors SizeInCodeUnitsOfFormat_def)

lemma example_widths:
  "ComputeWidthsAndCountOps example_code (v\<lparr>insn_flags := [0, 0]\<rparr>) = Some (True, v\<lparr>insn_flags := [4, 4]\<rparr>)"
  by (simp add: ComputeWidthsAndCountOps_def ComputeWidthsLoop.simps [of _ 0] ComputeWidthsLoop.simps [of _ 1]
      ComputeWidthsLoop.simps [of _ 2] instruction_width_def InsnsSizeInCodeUnits_def InstructionAt_def
      example_code_def Fetch16_def Opcode_def example_descriptors SizeInCodeUnitsOfFormat_def Let_def ModifyInstructionFlags_def
      SetIsOpcode_def)

lemma example_scan:
  "ScanTryCatchBlocks example_code (v\<lparr>insn_flags := [4, 4]\<rparr>) = Some (True, v\<lparr>insn_flags := [12, 20]\<rparr>)"
proof -
  have items: "scan_try_items example_code (try_items example_code) (v\<lparr>insn_flags := [4, 4]\<rparr>) = Some (True, v\<lparr>insn_flags := [12, 4]\<rparr>)"
    by (simp add: example_code_def Let_def try_end_def InsnsSizeInCodeUnits_def GetInstructionFlags_def IsOpcode_def
        mark_in_try.simps [of _ 0] mark_in_try.simps [of _ 1] mark_in_try.simps [of _ "Suc 0"] ModifyInstructionFlags_def SetInTry_def example_size)
  have decode: "DecodeUnsignedLeb128 [1, 0, 1] = Some (1, [0, 1])" "DecodeUnsignedLeb128 [1] = Some (1, [])"
    "DecodeSignedLeb128 [0, 1] = Some (0, [1])"
    by (simp_all add: DecodeUnsignedLeb128_def DecodeSignedLeb128_def DecodeLeb128Helper_def max_bytes_def DecodeLeb128Loop.simps)
  let ?it = "\<lambda>n. \<lparr>handler_type_idx = kDexNoIndex16, handler_address = 1, current_data = [], remaining_count = n, catch_all = False\<rparr>"
  have it: "CatchHandlerIterator_InitData [0, 1] = Some (?it 0)" "CatchHandlerIterator_Next (?it 0) = Some (?it (-1))"
    "HasNext (?it 0)" "\<not> HasNext (?it (-1))"
    by (simp_all add: CatchHandlerIterator_InitData_def CatchHandlerIterator_Next_def decode HasNext_def)
  have "scan_iterator example_code (?it 0) (v\<lparr>insn_flags := [12, 4]\<rparr>) = Some (True, v\<lparr>insn_flags := [12, 20]\<rparr>, [])"
    by (subst scan_iterator.simps, subst scan_iterator.simps)
      (simp add: it Let_def GetInstructionFlags_def IsOpcode_def InstructionAt_def example_code_def Fetch16_def Opcode_def IsMoveResult_def
        ModifyInstructionFlags_def SetBranchTarget_def EndDataPointer_def)
  then have "scan_handlers example_code 1 [0, 1] (v\<lparr>insn_flags := [12, 4]\<rparr>) = Some (True, v\<lparr>insn_flags := [12, 20]\<rparr>)"
    by (simp add: it)
  then show ?thesis using items decode
    by (simp add: ScanTryCatchBlocks_def and_then_def TriesSize_def GetCatchHandlerData_def example_code_def)
qed

lemma example_instructions:
  "VerifyInstruction 0x12 df example_code 0 2 inst 0x12 u = Some (True, u)"
  "VerifyInstruction 0x28 df example_code 1 2 inst 0xFF28 (v\<lparr>insn_flags := [28, 20]\<rparr>) = Some (True, v\<lparr>insn_flags := [28, 20]\<rparr>)"
proof -
  show "VerifyInstruction 0x12 df example_code 0 2 inst 0x12 u = Some (True, u)"
    by (simp add: verify_defs example_descriptors CheckRegisterIndex_def VRegA_def vreg_defs InstA_def example_code_def)
  show "VerifyInstruction 0x28 df example_code 1 2 inst 0xFF28 (v\<lparr>insn_flags := [28, 20]\<rparr>) = Some (True, v\<lparr>insn_flags := [28, 20]\<rparr>)"
    by (simp add: verify_defs example_descriptors VRegA_def vreg_defs InstAA_def example_code_def
        CheckAndMarkBranchTarget_def check_and_mark_target_def IsOffsetInRange_def GetInstructionFlags_def IsOpcode_def
        IsMoveResultOrMoveException_def word_sle_eq Fetch16_def InstructionAt_def Opcode_def SetBranchTarget_def ModifyInstructionFlags_def)
qed

lemma example_loop:
  "VerifyInstructionsLoop df example_code 0 (v\<lparr>insn_flags := [28, 20]\<rparr>) = Some (True, v\<lparr>insn_flags := [28, 20]\<rparr>)"
proof -
  have c: "InsnsSizeInCodeUnits example_code = 2" "InstructionAt example_code 0 = [0x0012, 0xFF28]" "InstructionAt example_code 1 = [0xFF28]"
    by (simp_all add: InsnsSizeInCodeUnits_def example_code_def InstructionAt_def)
  have d: "Opcode 0x0012 = 0x12" "Opcode 0xFF28 = 0x28" "Fetch16 [0x0012, 0xFF28] 0 = Some 0x0012" "Fetch16 [0xFF28] 0 = Some 0xFF28"
    "walk_size 0x12 [0x0012, 0xFF28] = Some 1" "walk_size 0x28 [0xFF28] = Some 1"
    by (simp_all add: Opcode_def Fetch16_def walk_size_def example_descriptors SizeInCodeUnitsOfFormat_def)
  show ?thesis
    by (subst VerifyInstructionsLoop.simps, simp add: Let_def c d dispatch_simps example_instructions example_descriptors,
       subst VerifyInstructionsLoop.simps, simp add: Let_def c d dispatch_simps example_instructions example_descriptors,
       subst VerifyInstructionsLoop.simps, simp add: Let_def c)
qed

lemma example_verify:
  "Verify (\<lambda>v. Some (True, v)) example_dex_file example_method example_verifier =
     Some (True, example_verifier\<lparr>insn_flags := [28, 20]\<rparr>)"
proof -
  have "VerifyInstructions df example_code (v\<lparr>insn_flags := [12, 20]\<rparr>) = Some (True, v\<lparr>insn_flags := [28, 20]\<rparr>)" for df v
    using example_loop [of df v]
    by (simp add: VerifyInstructions_def ModifyInstructionFlags_def SetBranchTarget_def)
  moreover have "length (insns example_code) = 2" "registers_size example_code = 1" "ins_size example_code = 0"
    by (simp_all add: example_code_def)
  ultimately show ?thesis
    by (simp add: Verify_def static_pass_def example_method_def InsnsSizeInCodeUnits_def and_then_def example_widths example_scan
        numeral_2_eq_2)
qed

lemma example_sizes:
  "length (insns example_code) < 2 ^ 31" "insn_flags (v\<lparr>insn_flags := [0, 0]\<rparr>) = replicate (length (insns example_code)) 0"
  "TriesSize example_code \<noteq> 0"
  by (simp_all add: example_code_def TriesSize_def)

lemma example_static:
  "static_pass example_dex_file example_code (example_verifier\<lparr>insn_flags := [0, 0]\<rparr>) =
     Some (True, example_verifier\<lparr>insn_flags := [28, 20]\<rparr>)"
proof -
  have "replicate (length (insns example_code)) (0 :: u8) = [0, 0]" by (simp add: example_code_def)
  then show ?thesis using example_verify by (auto simp: Verify_def example_method_def accepted split: if_splits)
qed

lemma static_pass_tries:
  assumes "static_pass df ci v = Some (True, v')" "insn_flags v = replicate (length (insns ci)) 0"
    and "length (insns ci) < 2 ^ 31" "TriesSize ci \<noteq> 0"
  shows "list_all (try_ok ci) (try_items ci) \<and>
    (\<exists>n p hs. DecodeUnsignedLeb128 (handler_data ci) = Some (n, p) \<and> all_handlers (unat n) p = Some hs \<and>
       (\<forall>(ty, addr) \<in> set hs. handler_target_ok ci v' addr))"
proof -
  obtain v1 v2 where s: "ComputeWidthsAndCountOps ci v = Some (True, v1)" "ScanTryCatchBlocks ci v1 = Some (True, v2)"
    "VerifyInstructions df ci v2 = Some (True, v')"
    using assms(1) by (auto simp: static_pass_def accepted)
  note w = ComputeWidths_layout [OF assms(3,2) s(1)]
  have m1: "flags_match ci v1" using w(2,3) by (simp add: flags_match_def)
  have "flags_extend v2 v'"
  proof -
    obtain v3 where v3: "ModifyInstructionFlags SetBranchTarget 0 v2 = Some v3" "VerifyInstructionsLoop df ci 0 v3 = Some (True, v')"
      using s(3) by (auto simp: VerifyInstructions_def bind_eq_Some_conv)
    have e: "flags_extend v2 v3" by (rule Modify_flags_extend [OF v3(1)]) simp
    have "flags_extend v1 v2" by (rule keeps_extend [OF keeps_ScanTryCatchBlocks s(2)])
    then have "flags_match ci v3" using flags_match_extend [OF flags_match_extend [OF m1]] e by blast
    then have "flags_extend v3 v'"
      using VerifyInstructionsLoop_accepted [OF v3(2) assms(3) w(1)] by (simp add: insn_start_def reach.here)
    then show ?thesis by (rule flags_extend_trans [OF e])
  qed
  then have "handler_target_ok ci v2 addr \<Longrightarrow> handler_target_ok ci v' addr" for addr by (rule handler_target_extend [rotated])
  then show ?thesis using ScanTryCatchBlocks_accepted [OF s(2) m1 assms(3,4)] by blast
qed

section \<open>Properties\<close>

text \<open>
  C2.  A method whose code \<open>Verify\<close> accepts has passed the static pass: the code is not empty, the
  arguments fit into the registers, the code is a sequence of whole instructions, and at every
  instruction the registers lie in the frame, the argument lists and ranges too, the index operands
  lie in the tables of the dex file, branch and switch targets and payloads are instructions of the
  code that may be jumped to, and the flags of the code-flow analysis are set at every target and
  every return.  Call-site and method-handle indices and the prototype index of \<open>const-method-type\<close> are
  not among the index operands.  A dex file has fewer than \<open>2\<^sup>3\<^sup>2\<close> bytes, so a method fewer than \<open>2\<^sup>3\<^sup>1\<close> code units.
\<close>

theorem Verify_correct:
  assumes "Verify code_flow df m v = Some (True, v')" "code_item m = Some ci" "length (insns ci) < 2 ^ 31"
  shows "\<exists>u. code_flow u = Some (True, v') \<and> insns ci \<noteq> [] \<and> ins_size ci \<le> registers_size ci \<and> laid_out (insns ci) \<and>
    (\<forall>pc < length (insns ci). insn_start (insns ci) pc \<longrightarrow> code_verified df ci u pc)"
proof -
  let ?v0 = "v\<lparr>insn_flags := replicate (length (insns ci)) 0\<rparr>"
  obtain u where u: "static_pass df ci ?v0 = Some (True, u)" "code_flow u = Some (True, v')"
    "\<not> registers_size ci < ins_size ci" "InsnsSizeInCodeUnits ci \<noteq> 0"
    using assms(1,2) by (auto simp: Verify_def accepted split: if_splits)
  have "insns ci \<noteq> []" using u(4) by (auto simp: InsnsSizeInCodeUnits_def)
  then show ?thesis using u static_pass_sound [OF u(1) _ assms(3)] by (auto simp: not_less)
qed

theorem Verify_correct_witness:
  "\<exists>u. laid_out [0x0012, 0xFF28] \<and> code_verified example_dex_file example_code u 0"
proof -
  have "code_item example_method = Some example_code" "length (insns example_code) < 2 ^ 31"
    by (simp_all add: example_method_def example_code_def)
  note correct = Verify_correct [OF example_verify this]
  have "insn_start (insns example_code) 0" by (simp add: insn_start_def reach.here)
  then show ?thesis using correct by (auto simp: example_code_def)
qed

text \<open>
  C6.  The try table and the handlers of accepted code: every try item is a non-empty range inside
  the code whose start is an instruction, while its end may lie inside one; and every handler of every
  encoded handler list starts at an instruction that is not a \<open>move-result\<close> and is flagged as a branch
  target.
\<close>

theorem tries_verified:
  assumes "static_pass df ci v = Some (True, v')" "insn_flags v = replicate (length (insns ci)) 0"
    and "length (insns ci) < 2 ^ 31" "TriesSize ci \<noteq> 0"
  shows "list_all (try_ok ci) (try_items ci) \<and>
    (\<exists>n p hs. DecodeUnsignedLeb128 (handler_data ci) = Some (n, p) \<and> all_handlers (unat n) p = Some hs \<and>
       (\<forall>(ty, addr) \<in> set hs. handler_target_ok ci v' addr))"
  by (rule static_pass_tries [OF assms])

theorem tries_verified_witness:
  "try_ok example_code \<lparr>start_addr = 0, insn_count = 1, handler_off = 1\<rparr>"
proof -
  have "list_all (try_ok example_code) (try_items example_code)"
    using tries_verified [OF example_static example_sizes(2,1,3)] by simp
  then show ?thesis by (simp add: example_code_def)
qed

text \<open>
  C28.  The widths pass answers for every code without reading outside it, and what it accepts is
  laid out with exactly the instruction starts flagged.
\<close>

theorem ComputeWidths_answers:
  assumes "length (insns ci) < 2 ^ 31" "insn_flags v = replicate (length (insns ci)) 0"
  shows "\<exists>ok v'. ComputeWidthsAndCountOps ci v = Some (ok, v') \<and>
    (ok \<longrightarrow> laid_out (insns ci) \<and> flags_match ci v')"
proof -
  obtain ok v' where r: "ComputeWidthsAndCountOps ci v = Some (ok, v')"
    using ComputeWidths_total [OF assms(1), of v] assms(2) by auto
  then show ?thesis using ComputeWidths_layout [OF assms] by (cases ok) (auto simp: flags_match_def)
qed

theorem ComputeWidths_answers_witness: "laid_out [0x0012, 0xFF28]"
  using ComputeWidths_answers [OF example_sizes(1) example_sizes(2) [of example_verifier]] unfolding example_widths
  by (auto simp: example_code_def)

text \<open>
  C29.  Dispatching to the instance of the first opcode with the same format, verify flags and
  return-ness changes nothing: the instance verifies every instruction as the instance of its own
  opcode would, walks the same distance and flags the same returns.
\<close>

theorem dispatch_equivalent:
  "VerifyInstruction (find_dispatch_opcode opcode) = VerifyInstruction opcode \<and>
   walk_size (find_dispatch_opcode opcode) = walk_size opcode \<and>
   IsReturnOf (find_dispatch_opcode opcode) = IsReturnOf opcode"
  by (simp add: dispatch_simps)

text \<open>
  C30.  \<open>IsOffsetInRange\<close>, computed in 32 bits by cases on the sign, holds exactly when the exact sum
  of position and offset lies in the code, and the 32-bit sum is then that position.
\<close>

theorem IsOffsetInRange_exact:
  assumes "dex_pc < end_pc" "unat end_pc < 2 ^ 31"
  shows "(IsOffsetInRange dex_pc end_pc offset \<longleftrightarrow>
      0 \<le> int (unat dex_pc) + sint offset \<and> int (unat dex_pc) + sint offset < int (unat end_pc)) \<and>
    (IsOffsetInRange dex_pc end_pc offset \<longrightarrow> int (unat (dex_pc + offset)) = int (unat dex_pc) + sint offset)"
proof -
  note r = offset_in_range [OF assms(1), of offset]
  have "int (unat (dex_pc + offset)) = int (unat dex_pc) + sint offset" if "IsOffsetInRange dex_pc end_pc offset"
  proof (rule int_unat_add_signed)
    show "0 \<le> int (unat dex_pc) + sint offset" using r that by blast
    have "int (unat end_pc) < 2 ^ 31" using assms(2) of_nat_less_iff [of "unat end_pc" "2 ^ 31", where ?'a = int] by simp
    then show "int (unat dex_pc) + sint offset < 2 ^ LENGTH(32)" using r that by simp
  qed
  then show ?thesis using r by blast
qed

theorem IsOffsetInRange_exact_witness:
  "IsOffsetInRange 5 9 (-5) \<and> int (unat (5 + (-5) :: u32)) = 0"
  using IsOffsetInRange_exact [of 5 9 "-5"] by simp

section \<open>Branch offsets\<close>

definition branch_row :: "u8 \<Rightarrow> InstructionDescriptor \<Rightarrow> bool" where
  "branch_row opcode d \<longleftrightarrow>
     format d = (if opcode = GOTO then k10t else if opcode = GOTO_16 then k20t else if opcode = GOTO_32 then k30t
                 else if opcode \<in> {IF_EQ, IF_NE, IF_LT, IF_GE, IF_GT, IF_LE} then k22t
                 else if opcode \<in> {IF_EQZ, IF_NEZ, IF_LTZ, IF_GEZ, IF_GTZ, IF_LEZ} then k21t else format d) \<and>
     (flags d AND 1 \<noteq> 0) = (opcode \<in> {GOTO, GOTO_16, GOTO_32, IF_EQ, IF_NE, IF_LT, IF_GE, IF_GT, IF_LE,
        IF_EQZ, IF_NEZ, IF_LTZ, IF_GEZ, IF_GTZ, IF_LEZ}) \<and>
     (flags d AND 1 \<noteq> 0 \<longrightarrow> (flags d AND 0x40 \<noteq> 0) = (opcode \<in> {GOTO, GOTO_16, GOTO_32}))"

lemma branch_row: "branch_row opcode (InstructionDescriptorOf opcode)"
  by (rule table_all)
    (simp add: DEX_INSTRUCTION_LIST_00_7F_def DEX_INSTRUCTION_LIST_80_FF_def branch_row_def)

lemma goto_offset: "(scast (ucast (drop_bit 8 d) :: u8) :: u32) = scast (signed_drop_bit 8 (d :: u16))"
proof (rule bit_word_eqI)
  fix n assume "n < LENGTH(32)"
  then show "bit (scast (ucast (drop_bit 8 d) :: u8) :: u32) n = bit (scast (signed_drop_bit 8 d) :: u32) n"
    by (cases "n = 7") (auto simp: bit_simps min_def not_less)
qed

text \<open>
  C31.  \<open>GetBranchOffset\<close>, which reads the code units itself, agrees with
  \<open>Instruction::GetTargetOffset\<close> on every instruction: the offset, whether the branch is
  conditional, and the one opcode that may branch to itself; it fails exactly where there is no branch.
\<close>

theorem GetBranchOffset_correct:
  assumes "Fetch16 (drop (unat pc) (insns ci)) 0 = Some d"
  shows "GetBranchOffset ci pc =
    (if IsBranch (Opcode d)
     then map_option (\<lambda>offset. Some (offset, \<not> IsUnconditional (Opcode d), Opcode d = GOTO_32))
            (GetTargetOffset (drop (unat pc) (insns ci)))
     else Some None)"
proof -
  let ?op = "Opcode d" and ?p = "drop (unat pc) (insns ci)"
  let ?if22 = "{IF_EQ, IF_NE, IF_LT, IF_GE, IF_GT, IF_LE}" and ?if21 = "{IF_EQZ, IF_NEZ, IF_LTZ, IF_GEZ, IF_GTZ, IF_LEZ}"
  note row = branch_row [of ?op, unfolded branch_row_def, folded FormatOf_def FlagsOf_def]
  have branch: "IsBranch ?op \<longleftrightarrow> ?op \<in> {GOTO, GOTO_16, GOTO_32} \<or> ?op \<in> ?if22 \<or> ?op \<in> ?if21"
    "IsBranch ?op \<Longrightarrow> IsUnconditional ?op \<longleftrightarrow> ?op \<in> {GOTO, GOTO_16, GOTO_32}"
    using row by (simp_all add: IsBranch_def IsUnconditional_def FlagsOf_def)
  have f32: "Fetch32 ?p (Suc 0) = do { lo \<leftarrow> Fetch16 ?p 1; hi \<leftarrow> Fetch16 ?p 2; Some (ucast lo OR push_bit 16 (ucast hi)) }"
    by (simp add: Fetch32_def numeral_2_eq_2)
  consider (goto) "?op \<in> {GOTO, GOTO_16, GOTO_32}" | (if22) "?op \<in> ?if22" | (if21) "?op \<in> ?if21"
    | (other) "?op \<notin> {GOTO, GOTO_16, GOTO_32}" "?op \<notin> ?if22" "?op \<notin> ?if21" by blast
  then show ?thesis
  proof cases
    case goto
    then have b: "IsBranch ?op" "IsUnconditional ?op" using branch by blast+
    from goto consider "?op = GOTO" | "?op = GOTO_16" | "?op = GOTO_32" by blast
    then show ?thesis
    proof cases
      case 1
      then have "FormatOf ?op = k10t" using row by simp
      then show ?thesis using assms b 1
        by (simp add: GetBranchOffset_def GetTargetOffset_def Let_def vreg_defs InstAA_def goto_offset)
    next
      case 2
      then have "FormatOf ?op = k20t" using row by simp
      then show ?thesis using assms b 2
        by (cases "Fetch16 ?p 1") (simp_all add: GetBranchOffset_def GetTargetOffset_def Let_def vreg_defs del: Fetch16_None)
    next
      case 3
      then have "FormatOf ?op = k30t" using row by simp
      then show ?thesis using assms b 3
        by (cases "Fetch16 ?p 1"; cases "Fetch16 ?p 2")
          (simp_all add: GetBranchOffset_def GetTargetOffset_def Let_def vreg_defs f32 del: Fetch16_None Fetch32_None)
    qed
  next
    case if22
    then have n: "?op \<notin> {GOTO, GOTO_16, GOTO_32}" by auto
    then have f: "FormatOf ?op = k22t" using row if22 by simp
    have b: "IsBranch ?op" "\<not> IsUnconditional ?op" "?op \<in> {IF_EQ, IF_NE, IF_LT, IF_GE, IF_GT, IF_LE, IF_EQZ, IF_NEZ, IF_LTZ, IF_GEZ, IF_GTZ, IF_LEZ}"
      using branch if22 n by blast+
    then show ?thesis using assms n f
      by (cases "Fetch16 ?p 1") (simp_all add: GetBranchOffset_def GetTargetOffset_def Let_def vreg_defs del: Fetch16_None)
  next
    case if21
    then have n: "?op \<notin> {GOTO, GOTO_16, GOTO_32}" "?op \<notin> ?if22" by auto
    then have f: "FormatOf ?op = k21t" using row if21 by simp
    have b: "IsBranch ?op" "\<not> IsUnconditional ?op" "?op \<in> {IF_EQ, IF_NE, IF_LT, IF_GE, IF_GT, IF_LE, IF_EQZ, IF_NEZ, IF_LTZ, IF_GEZ, IF_GTZ, IF_LEZ}"
      using branch if21 n by blast+
    then show ?thesis using assms n f
      by (cases "Fetch16 ?p 1") (simp_all add: GetBranchOffset_def GetTargetOffset_def Let_def vreg_defs del: Fetch16_None)
  next
    case other
    then have "\<not> IsBranch ?op" using branch by blast
    then show ?thesis using assms other by (simp add: GetBranchOffset_def Let_def)
  qed
qed

theorem GetBranchOffset_correct_witness:
  "GetBranchOffset example_code 1 = Some (Some (-1, False, False))"
proof -
  have "IsBranch 0x28" "IsUnconditional 0x28" "FormatOf 0x28 = k10t"
    using branch_row [of "0x28"] by (simp_all add: branch_row_def IsBranch_def IsUnconditional_def FlagsOf_def FormatOf_def)
  then show ?thesis
    using GetBranchOffset_correct [of 1 example_code "0xFF28"]
    by (simp add: example_code_def Fetch16_def Opcode_def GetTargetOffset_def vreg_defs InstAA_def)
qed

section \<open>Two gaps of the pass\<close>

text \<open>
  C38.  The static pass does not check the call-site index of \<open>invoke-custom\<close>: the flag
  \<open>kVerifyRegBCallSite\<close> is outside the mask of \<open>GetVerifyTypeArgumentBOf\<close>, so the case of
  \<open>VerifyInstruction\<close> that calls \<open>CheckCallSiteIndex\<close> is never taken.  The result for both forms of the
  instruction depends neither on the index nor on the tables of the dex file, whatever the arguments;
  without arguments the instruction is accepted.  A bad index is left to \<open>CheckCallSite\<close> of the
  code-flow analysis.
\<close>

theorem call_site_unchecked:
  "VerifyInstruction INVOKE_CUSTOM df ci dex_pc end_pc (unit0 # call_site_idx # rest) inst_data v =
     VerifyInstruction INVOKE_CUSTOM df' ci dex_pc end_pc (unit0 # other_idx # rest) inst_data v \<and>
   VerifyInstruction INVOKE_CUSTOM_RANGE df ci dex_pc end_pc (unit0 # call_site_idx # rest) inst_data v =
     VerifyInstruction INVOKE_CUSTOM_RANGE df' ci dex_pc end_pc (unit0 # other_idx # rest) inst_data v \<and>
   VerifyInstruction INVOKE_CUSTOM df ci dex_pc end_pc [0x00FC, call_site_idx, 0] 0x00FC v = Some (True, v)"
proof (intro conjI)
  have f: "Fetch16 (unit0 # i # rest) 0 = Some unit0" "Fetch16 (unit0 # i # rest) 2 = Fetch16 rest 0" for i
    by (simp_all add: Fetch16_def)
  have args: "CheckVarArgRegs ci (unit0 # i # rest) n v = CheckVarArgRegs ci (unit0 # j # rest) n v" for i j n v
    by (simp add: CheckVarArgRegs_def GetVarArgs_def f)
  show "VerifyInstruction INVOKE_CUSTOM df ci dex_pc end_pc (unit0 # call_site_idx # rest) inst_data v =
     VerifyInstruction INVOKE_CUSTOM df' ci dex_pc end_pc (unit0 # other_idx # rest) inst_data v"
    using args [of call_site_idx _ _ other_idx] by (simp add: verify_defs example_descriptors VRegA_def vreg_defs)
  show "VerifyInstruction INVOKE_CUSTOM_RANGE df ci dex_pc end_pc (unit0 # call_site_idx # rest) inst_data v =
     VerifyInstruction INVOKE_CUSTOM_RANGE df' ci dex_pc end_pc (unit0 # other_idx # rest) inst_data v"
    by (simp add: verify_defs example_descriptors VRegA_def VRegC_def vreg_defs f)
  have "CheckVarArgRegs ci [0x00FC, call_site_idx, 0] 0 v = Some (True, v)"
    by (simp add: CheckVarArgRegs_def Fetch16_def GetVarArgs_def InstB_def check_def Let_def)
  then show "VerifyInstruction INVOKE_CUSTOM df ci dex_pc end_pc [0x00FC, call_site_idx, 0] 0x00FC v = Some (True, v)"
    by (simp add: verify_defs example_descriptors VRegA_def vreg_defs InstB_def)
qed

text \<open>
  C39.  \<open>CheckAndMarkSwitchTargets\<close> reads the case count of a payload before it looks at the
  signature.  Where the payload offset of a switch leads to an instruction of one code unit, at an
  even position, that is the last of the code, this reads the code unit behind the code, \<open>None\<close> in the
  model.  Nothing before has refused such code: the instruction starts are those that the widths
  pass flagged.
\<close>

theorem switch_payload_read_past_end:
  assumes "flags_match ci v" "length (insns ci) < 2 ^ 31" "pc < length (insns ci)" "VRegB_31t inst = Some offset"
    and "int pc + sint offset = int target" "insn_start (insns ci) target" "target + 1 = length (insns ci)" "even target"
  shows "CheckAndMarkSwitchTargets ci (of_nat pc) (InsnsSizeInCodeUnits ci) inst inst_data v = None"
proof -
  have n: "unat (of_nat pc :: u32) = pc" "unat (InsnsSizeInCodeUnits ci) = length (insns ci)" "unat (of_nat target :: u32) = target"
    using assms(2,3,7) by (simp_all add: InsnsSizeInCodeUnits_def unat_of_nat take_bit_nat_eq_self_iff)
  have lt: "(of_nat pc :: u32) < InsnsSizeInCodeUnits ci" using assms(3) n by (simp add: word_less_nat_alt)
  have range: "IsOffsetInRange (of_nat pc) (InsnsSizeInCodeUnits ci) offset"
    unfolding offset_in_range [OF lt] n using assms(5,7) by simp
  have "int (unat (of_nat pc + offset :: u32)) = int target"
    using int_unat_add_signed [of "of_nat pc" offset] assms(2,5,7) n(1) by simp
  then have t: "unat (of_nat pc + offset :: u32) = target" by (simp only: of_nat_eq_iff)
  have "unat ((of_nat pc + offset :: u32) mod 2) = 0" unfolding unat_mod t using assms(8) by simp
  then have "(of_nat pc + offset :: u32) mod 2 = 0" unfolding unat_eq_zero .
  moreover have "GetInstructionFlags (of_nat pc + offset) v = Some (insn_flags v ! target)" "IsOpcode (insn_flags v ! target)"
    using assms(1,6,7) t by (auto simp: GetInstructionFlags_def flags_match_def)
  moreover have "Fetch16 (InstructionAt ci (of_nat pc + offset)) 1 = None" using assms(7) t by (simp add: InstructionAt_def Fetch16_def)
  ultimately show ?thesis using range by (simp add: CheckAndMarkSwitchTargets_def assms(4) Let_def del: Fetch16_None)
qed

theorem switch_payload_read_past_end_witness:
  "ComputeWidthsAndCountOps short_payload_code (example_verifier\<lparr>insn_flags := [0, 0, 0, 0, 0]\<rparr>) =
     Some (True, example_verifier\<lparr>insn_flags := [4, 0, 0, 4, 4]\<rparr>) \<and>
   CheckAndMarkSwitchTargets short_payload_code 0 5 (insns short_payload_code) 0x002B
     (example_verifier\<lparr>insn_flags := [4, 0, 0, 4, 4]\<rparr>) = None"
proof -
  let ?ci = short_payload_code and ?before = "example_verifier\<lparr>insn_flags := [0, 0, 0, 0, 0]\<rparr>"
  let ?after = "example_verifier\<lparr>insn_flags := [4, 0, 0, 4, 4]\<rparr>"
  have widths: "ComputeWidthsAndCountOps ?ci ?before = Some (True, ?after)"
    by (simp add: ComputeWidthsAndCountOps_def ComputeWidthsLoop.simps [of _ 0] ComputeWidthsLoop.simps [of _ 3]
        ComputeWidthsLoop.simps [of _ 4] ComputeWidthsLoop.simps [of _ 5] instruction_width_def InsnsSizeInCodeUnits_def InstructionAt_def
        short_payload_code_def Fetch16_def Opcode_def example_descriptors SizeInCodeUnitsOfFormat_def Let_def ModifyInstructionFlags_def
        SetIsOpcode_def)
  have len: "length (insns ?ci) = 5" by (simp add: short_payload_code_def)
  have five: "(5 :: nat) = Suc (Suc (Suc (Suc (Suc 0))))" by simp
  have "insn_flags ?before = replicate (length (insns ?ci)) 0" unfolding len five by simp
  note w = ComputeWidths_layout [OF _ this widths]
  have m: "flags_match ?ci ?after" using w len by (simp add: flags_match_def)
  then have "IsOpcode (insn_flags ?after ! 4) \<longleftrightarrow> insn_start (insns ?ci) 4"
    unfolding flags_match_def len by (elim conjE allE [of _ 4]) simp
  then have start: "insn_start (insns ?ci) 4" by (simp add: IsOpcode_def)
  have "CheckAndMarkSwitchTargets ?ci (of_nat 0) (InsnsSizeInCodeUnits ?ci) (insns ?ci) 0x002B ?after = None"
    by (rule switch_payload_read_past_end [OF m _ _ _ _ start, where offset = 4])
      (simp_all add: len, simp add: short_payload_code_def vreg_defs Fetch32_def Fetch16_def)
  then show ?thesis using widths by (simp add: InsnsSizeInCodeUnits_def len)
qed

end
