(* ===== verification/ShadowFrame.thy ===== *)
theory ShadowFrame
  imports CodeItem
begin

text \<open>
  The interpreter's register file: \<open>JValue\<close> (\<open>runtime/jvalue.h\<close>) and \<open>ShadowFrame\<close>
  (\<open>runtime/interpreter/shadow_frame.h\<close>, \<open>shadow_frame-inl.h\<close>, \<open>shadow_frame.cc\<close>).

  A reference is the 32-bit compressed pointer, \<open>0\<close> for null.  A \<open>JValue\<close> is the 64 bits of
  the union on a little-endian 64-bit machine, so its narrower members are its low bits.  The
  two halves of the array \<open>vregs_\<close> are two lists.  Floats and doubles are their bit patterns.
  An access to a register outside the frame is \<open>None\<close>.
\<close>

named_theorems frame_simps \<open>reading and writing the registers of a frame\<close>

section \<open>JValue\<close>

type_synonym JValue = u64

definition JValue_GetB :: "JValue \<Rightarrow> u8" where
  "JValue_GetB v = ucast v"

definition JValue_SetB :: "u8 \<Rightarrow> JValue" where
  "JValue_SetB new_b = signed_drop_bit 56 (push_bit 56 (scast new_b))"

definition JValue_GetC :: "JValue \<Rightarrow> u16" where
  "JValue_GetC v = ucast v"

definition JValue_SetC :: "u16 \<Rightarrow> JValue" where
  "JValue_SetC new_c = ucast new_c"

definition JValue_GetI :: "JValue \<Rightarrow> u32" where
  "JValue_GetI v = ucast v"

definition JValue_SetI :: "u32 \<Rightarrow> JValue" where
  "JValue_SetI new_i = signed_drop_bit 32 (push_bit 32 (scast new_i))"

definition JValue_GetJ :: "JValue \<Rightarrow> u64" where
  "JValue_GetJ v = v"

definition JValue_SetJ :: "u64 \<Rightarrow> JValue" where
  "JValue_SetJ new_j = new_j"

definition JValue_GetL :: "JValue \<Rightarrow> u32" where
  "JValue_GetL v = ucast v"

definition JValue_SetL :: "u32 \<Rightarrow> JValue" where
  "JValue_SetL new_l = ucast new_l"

definition JValue_GetS :: "JValue \<Rightarrow> u16" where
  "JValue_GetS v = ucast v"

definition JValue_SetS :: "u16 \<Rightarrow> JValue" where
  "JValue_SetS new_s = signed_drop_bit 48 (push_bit 48 (scast new_s))"

definition JValue_GetZ :: "JValue \<Rightarrow> u8" where
  "JValue_GetZ v = ucast v"

definition JValue_SetZ :: "u8 \<Rightarrow> JValue" where
  "JValue_SetZ new_z = ucast new_z"

section \<open>The shadow frame\<close>

abbreviation (input) kNotifyFramePop :: u32 where "kNotifyFramePop \<equiv> 0x01"
abbreviation (input) kForcePopFrame :: u32 where "kForcePopFrame \<equiv> 0x02"
abbreviation (input) kForceRetryInst :: u32 where "kForceRetryInst \<equiv> 0x04"
abbreviation (input) kSkipMethodExitEvents :: u32 where "kSkipMethodExitEvents \<equiv> 0x08"
abbreviation (input) kSkipNextExceptionEvent :: u32 where "kSkipNextExceptionEvent \<equiv> 0x10"
abbreviation (input) kNotifyDexPcMoveEvents :: u32 where "kNotifyDexPcMoveEvents \<equiv> 0x20"
abbreviation (input) kNotifyExceptionHandledEvent :: u32 where "kNotifyExceptionHandledEvent \<equiv> 0x40"

text \<open>\<open>monitors\<close> is the vector of \<open>LockCountData\<close>, \<open>None\<close> until it is first used.\<close>

record ShadowFrame =
  number_of_vregs :: u32
  frame_dex_pc :: u32
  frame_flags :: u32
  monitors :: "u32 list option"
  vregs :: "u32 list"
  references :: "u32 list"

definition CreateShadowFrame :: "u32 \<Rightarrow> u32 \<Rightarrow> ShadowFrame" where
  "CreateShadowFrame num_vregs dex_pc =
     \<lparr> number_of_vregs = num_vregs, frame_dex_pc = dex_pc, frame_flags = 0, monitors = None,
       vregs = replicate (unat num_vregs) 0, references = replicate (unat num_vregs) 0 \<rparr>"

subsection \<open>Registers\<close>

definition GetVReg :: "ShadowFrame \<Rightarrow> nat \<Rightarrow> u32 option" where
  "GetVReg f i = (if i < unat (number_of_vregs f) then Some (vregs f ! i) else None)"

definition GetVRegShort :: "ShadowFrame \<Rightarrow> nat \<Rightarrow> u16 option" where
  "GetVRegShort f i = map_option ucast (GetVReg f i)"

definition GetVRegFloat :: "ShadowFrame \<Rightarrow> nat \<Rightarrow> u32 option" where
  "GetVRegFloat f i = (if i < unat (number_of_vregs f) then Some (vregs f ! i) else None)"

definition GetVRegLong :: "ShadowFrame \<Rightarrow> nat \<Rightarrow> u64 option" where
  "GetVRegLong f i =
     (if i + 1 < unat (number_of_vregs f)
      then Some (ucast (vregs f ! i) OR push_bit 32 (ucast (vregs f ! (i + 1)))) else None)"

definition GetVRegDouble :: "ShadowFrame \<Rightarrow> nat \<Rightarrow> u64 option" where
  "GetVRegDouble f i =
     (if i + 1 < unat (number_of_vregs f)
      then Some (ucast (vregs f ! i) OR push_bit 32 (ucast (vregs f ! (i + 1)))) else None)"

definition GetVRegReference :: "ShadowFrame \<Rightarrow> nat \<Rightarrow> u32 option" where
  "GetVRegReference f i = (if i < unat (number_of_vregs f) then Some (references f ! i) else None)"

definition SetVReg :: "ShadowFrame \<Rightarrow> nat \<Rightarrow> u32 \<Rightarrow> ShadowFrame option" where
  "SetVReg f i val =
     (if i < unat (number_of_vregs f)
      then Some (f\<lparr>vregs := (vregs f)[i := val], references := (references f)[i := 0]\<rparr>) else None)"

definition SetVRegFloat :: "ShadowFrame \<Rightarrow> nat \<Rightarrow> u32 \<Rightarrow> ShadowFrame option" where
  "SetVRegFloat f i val =
     (if i < unat (number_of_vregs f)
      then Some (f\<lparr>vregs := (vregs f)[i := val], references := (references f)[i := 0]\<rparr>) else None)"

definition SetVRegLong :: "ShadowFrame \<Rightarrow> nat \<Rightarrow> u64 \<Rightarrow> ShadowFrame option" where
  "SetVRegLong f i val =
     (if i + 1 < unat (number_of_vregs f)
      then Some (f\<lparr>vregs := (vregs f)[i := ucast val, i + 1 := ucast (drop_bit 32 val)],
                   references := (references f)[i := 0, i + 1 := 0]\<rparr>) else None)"

definition SetVRegDouble :: "ShadowFrame \<Rightarrow> nat \<Rightarrow> u64 \<Rightarrow> ShadowFrame option" where
  "SetVRegDouble f i val =
     (if i + 1 < unat (number_of_vregs f)
      then Some (f\<lparr>vregs := (vregs f)[i := ucast val, i + 1 := ucast (drop_bit 32 val)],
                   references := (references f)[i := 0, i + 1 := 0]\<rparr>) else None)"

definition SetVRegReference :: "ShadowFrame \<Rightarrow> nat \<Rightarrow> u32 \<Rightarrow> ShadowFrame option" where
  "SetVRegReference f i val =
     (if i < unat (number_of_vregs f)
      then Some (f\<lparr>vregs := (vregs f)[i := val], references := (references f)[i := val]\<rparr>) else None)"

definition GetThisObject :: "bool \<Rightarrow> ShadowFrame \<Rightarrow> u16 \<Rightarrow> u32 option" where
  "GetThisObject is_static f num_ins =
     (if is_static then Some 0
      else GetVRegReference f (unat (number_of_vregs f - ucast num_ins)))"

subsection \<open>The dex pc\<close>

definition SetDexPC :: "ShadowFrame \<Rightarrow> u32 \<Rightarrow> ShadowFrame" where
  "SetDexPC f dex_pc = f\<lparr>frame_dex_pc := dex_pc\<rparr>"

definition GetDexPC :: "ShadowFrame \<Rightarrow> u32" where
  "GetDexPC f = frame_dex_pc f"

definition AdvanceDexPc :: "CodeItemDataAccessor \<Rightarrow> ShadowFrame \<Rightarrow> ShadowFrame option" where
  "AdvanceDexPc accessor f =
     do { n \<leftarrow> SizeInCodeUnits (InstructionAt accessor (frame_dex_pc f));
          Some (SetDexPC f (frame_dex_pc f + of_nat n)) }"

subsection \<open>Flags\<close>

definition UpdateFrameFlag :: "ShadowFrame \<Rightarrow> bool \<Rightarrow> u32 \<Rightarrow> ShadowFrame" where
  "UpdateFrameFlag f enable flag =
     (if enable then f\<lparr>frame_flags := frame_flags f OR flag\<rparr>
      else f\<lparr>frame_flags := frame_flags f AND NOT flag\<rparr>)"

definition GetFrameFlag :: "ShadowFrame \<Rightarrow> u32 \<Rightarrow> bool" where
  "GetFrameFlag f flag \<longleftrightarrow> frame_flags f AND flag \<noteq> 0"

definition NeedsNotifyPop :: "ShadowFrame \<Rightarrow> bool" where
  "NeedsNotifyPop f = GetFrameFlag f kNotifyFramePop"

definition GetForcePopFrame :: "ShadowFrame \<Rightarrow> bool" where
  "GetForcePopFrame f = GetFrameFlag f kForcePopFrame"

definition SetForcePopFrame :: "ShadowFrame \<Rightarrow> bool \<Rightarrow> ShadowFrame" where
  "SetForcePopFrame f enable = UpdateFrameFlag f enable kForcePopFrame"

definition GetForceRetryInstruction :: "ShadowFrame \<Rightarrow> bool" where
  "GetForceRetryInstruction f = GetFrameFlag f kForceRetryInst"

definition SetForceRetryInstruction :: "ShadowFrame \<Rightarrow> bool \<Rightarrow> ShadowFrame" where
  "SetForceRetryInstruction f enable = UpdateFrameFlag f enable kForceRetryInst"

definition GetSkipMethodExitEvents :: "ShadowFrame \<Rightarrow> bool" where
  "GetSkipMethodExitEvents f = GetFrameFlag f kSkipMethodExitEvents"

definition GetSkipNextExceptionEvent :: "ShadowFrame \<Rightarrow> bool" where
  "GetSkipNextExceptionEvent f = GetFrameFlag f kSkipNextExceptionEvent"

definition SetSkipNextExceptionEvent :: "ShadowFrame \<Rightarrow> bool \<Rightarrow> ShadowFrame" where
  "SetSkipNextExceptionEvent f enable = UpdateFrameFlag f enable kSkipNextExceptionEvent"

definition GetNotifyDexPcMoveEvents :: "ShadowFrame \<Rightarrow> bool" where
  "GetNotifyDexPcMoveEvents f = GetFrameFlag f kNotifyDexPcMoveEvents"

definition GetNotifyExceptionHandledEvent :: "ShadowFrame \<Rightarrow> bool" where
  "GetNotifyExceptionHandledEvent f = GetFrameFlag f kNotifyExceptionHandledEvent"

definition SetNotifyExceptionHandledEvent :: "ShadowFrame \<Rightarrow> bool \<Rightarrow> ShadowFrame" where
  "SetNotifyExceptionHandledEvent f enable = UpdateFrameFlag f enable kNotifyExceptionHandledEvent"

subsection \<open>Consistency\<close>

text \<open>The rule a frame visible to the collector obeys: the reference half of a register is its
  raw half or null.\<close>

definition CheckConsistentVRegs :: "ShadowFrame \<Rightarrow> bool" where
  "CheckConsistentVRegs f \<longleftrightarrow>
     (\<forall>i < unat (number_of_vregs f). vregs f ! i = references f ! i \<or> references f ! i = 0)"

text \<open>A frame is well formed when both halves have one element per register, and they agree.\<close>

definition frame_wf :: "ShadowFrame \<Rightarrow> bool" where
  "frame_wf f \<longleftrightarrow> length (vregs f) = unat (number_of_vregs f) \<and>
     length (references f) = unat (number_of_vregs f) \<and> CheckConsistentVRegs f"

section \<open>Facts\<close>

lemma signed_shift_cast:
  fixes x :: "'a::len word"
  assumes "n + LENGTH('a) = LENGTH('b::len)"
  shows "signed_drop_bit n (push_bit n (scast x :: 'b word)) = scast x"
proof (rule bit_word_eqI)
  fix i assume "i < LENGTH('b)"
  moreover have "n < LENGTH('b)" using assms len_gt_0 [where 'a = 'a] by linarith
  ultimately show "bit (signed_drop_bit n (push_bit n (scast x :: 'b word))) i = bit (scast x :: 'b word) i"
    using assms by (auto simp: bit_signed_drop_bit_iff bit_push_bit_iff bit_signed_iff)
qed

lemma ucast_scast_down:
  "LENGTH('a::len) \<le> LENGTH('b::len) \<Longrightarrow> ucast (scast (x :: 'a word) :: 'b word) = x"
  by (rule bit_word_eqI) (auto simp: bit_signed_iff bit_unsigned_iff min_def dest!: le_antisym [of "LENGTH('a) - Suc 0"])

lemma ucast_ucast_down:
  "LENGTH('a::len) \<le> LENGTH('b::len) \<Longrightarrow> ucast (ucast (x :: 'a word) :: 'b word) = x"
  by (rule bit_word_eqI) (auto simp: bit_unsigned_iff)

lemmas JValue_defs = JValue_GetB_def JValue_SetB_def JValue_GetC_def JValue_SetC_def
  JValue_GetI_def JValue_SetI_def JValue_GetJ_def JValue_SetJ_def JValue_GetL_def JValue_SetL_def
  JValue_GetS_def JValue_SetS_def JValue_GetZ_def JValue_SetZ_def

lemma JValue_roundtrip [simp]:
  "JValue_GetB (JValue_SetB x8) = x8" "JValue_GetC (JValue_SetC x16) = x16"
  "JValue_GetI (JValue_SetI x32) = x32" "JValue_GetJ (JValue_SetJ x64) = x64"
  "JValue_GetL (JValue_SetL x32) = x32" "JValue_GetS (JValue_SetS x16) = x16"
  "JValue_GetZ (JValue_SetZ x8) = x8"
  by (simp_all add: JValue_defs signed_shift_cast ucast_scast_down ucast_ucast_down)

lemma split_long [simp]:
  "ucast (ucast (val :: u64) :: u32) OR push_bit 32 (ucast (ucast (drop_bit 32 val) :: u32)) = val"
  by (rule bit_word_eqI) (auto simp: bit_simps)

lemma low_half [simp]: "ucast ((ucast (lo :: u32) :: u64) OR push_bit 32 (ucast (hi :: u32))) = lo"
  by (rule bit_word_eqI) (auto simp: bit_simps)

lemma high_half [simp]: "ucast (drop_bit 32 ((ucast (lo :: u32) :: u64) OR push_bit 32 (ucast (hi :: u32)))) = hi"
  by (rule bit_word_eqI) (auto simp: bit_simps dest: bit_imp_le_length)

lemma frame_lengths:
  assumes "frame_wf f"
  shows "length (vregs f) = unat (number_of_vregs f)" "length (references f) = unat (number_of_vregs f)"
  using assms by (simp_all add: frame_wf_def)

text \<open>Every setter keeps the frame well formed and its size, pc, flags and monitors.\<close>

definition regs_only :: "ShadowFrame \<Rightarrow> ShadowFrame \<Rightarrow> bool" where
  "regs_only f f' \<longleftrightarrow> number_of_vregs f' = number_of_vregs f \<and> frame_dex_pc f' = frame_dex_pc f \<and>
     frame_flags f' = frame_flags f \<and> monitors f' = monitors f \<and> (frame_wf f \<longrightarrow> frame_wf f')"

lemma SetVReg_regs_only: "SetVReg f i val = Some f' \<Longrightarrow> regs_only f f'"
  by (auto simp: SetVReg_def regs_only_def frame_wf_def CheckConsistentVRegs_def nth_list_update
    split: if_splits)

lemma SetVRegFloat_eq [simp]: "SetVRegFloat = SetVReg"
  by (intro ext) (simp add: SetVReg_def SetVRegFloat_def)

lemma SetVRegDouble_eq [simp]: "SetVRegDouble = SetVRegLong"
  by (intro ext) (simp add: SetVRegLong_def SetVRegDouble_def)

lemma GetVRegFloat_eq [simp]: "GetVRegFloat = GetVReg"
  by (intro ext) (simp add: GetVReg_def GetVRegFloat_def)

lemma GetVRegDouble_eq [simp]: "GetVRegDouble = GetVRegLong"
  by (intro ext) (simp add: GetVRegLong_def GetVRegDouble_def)

lemma SetVRegLong_regs_only: "SetVRegLong f i val = Some f' \<Longrightarrow> regs_only f f'"
  by (auto simp: SetVRegLong_def regs_only_def frame_wf_def CheckConsistentVRegs_def nth_list_update
    split: if_splits)

lemma SetVRegReference_regs_only: "SetVRegReference f i val = Some f' \<Longrightarrow> regs_only f f'"
  by (auto simp: SetVRegReference_def regs_only_def frame_wf_def CheckConsistentVRegs_def nth_list_update
    split: if_splits)

lemma GetVReg_SetVReg:
  assumes "frame_wf f" "SetVReg f i val = Some f'"
  shows "GetVReg f' j = (if j = i then Some val else GetVReg f j)"
    and "GetVRegReference f' j = (if j = i then Some 0 else GetVRegReference f j)"
  using assms by (auto simp: SetVReg_def GetVReg_def GetVRegReference_def frame_wf_def split: if_splits)

lemma GetVReg_SetVRegReference:
  assumes "frame_wf f" "SetVRegReference f i val = Some f'"
  shows "GetVReg f' j = (if j = i then Some val else GetVReg f j)"
    and "GetVRegReference f' j = (if j = i then Some val else GetVRegReference f j)"
  using assms
  by (auto simp: SetVRegReference_def GetVReg_def GetVRegReference_def frame_wf_def split: if_splits)

lemma GetVRegLong_SetVRegLong:
  assumes "frame_wf f" "SetVRegLong f i val = Some f'"
  shows "GetVRegLong f' i = Some val"
    and "j \<noteq> i \<Longrightarrow> j \<noteq> i + 1 \<Longrightarrow> GetVReg f' j = GetVReg f j"
    and "GetVRegReference f' j = (if j = i \<or> j = i + 1 then Some 0 else GetVRegReference f j)"
  using assms
  by (auto simp: SetVRegLong_def GetVRegLong_def GetVReg_def GetVRegReference_def frame_wf_def
    nth_list_update split: if_splits)

lemma CreateShadowFrame_wf: "frame_wf (CreateShadowFrame num_vregs dex_pc)"
  by (simp add: CreateShadowFrame_def frame_wf_def CheckConsistentVRegs_def)

lemma UpdateFrameFlag_simps [simp]:
  "number_of_vregs (UpdateFrameFlag f e flag) = number_of_vregs f"
  "frame_dex_pc (UpdateFrameFlag f e flag) = frame_dex_pc f"
  "monitors (UpdateFrameFlag f e flag) = monitors f"
  "vregs (UpdateFrameFlag f e flag) = vregs f"
  "references (UpdateFrameFlag f e flag) = references f"
  "frame_wf (UpdateFrameFlag f e flag) = frame_wf f"
  by (simp_all add: UpdateFrameFlag_def frame_wf_def CheckConsistentVRegs_def)

lemma GetFrameFlag_Update_same: "flag \<noteq> 0 \<Longrightarrow> GetFrameFlag (UpdateFrameFlag f e flag) flag = e"
  by (auto simp: UpdateFrameFlag_def GetFrameFlag_def and.assoc word_ao_dist)

lemma GetFrameFlag_Update_other:
  assumes "flag AND flag' = 0"
  shows "GetFrameFlag (UpdateFrameFlag f e flag) flag' = GetFrameFlag f flag'"
proof -
  have sep: "bit flag n \<Longrightarrow> \<not> bit flag' n" for n
    using arg_cong [OF assms, of "\<lambda>w. bit w n"] by (simp add: bit_and_iff)
  have "(w AND NOT flag) AND flag' = w AND flag'" for w
    by (rule bit_word_eqI) (auto simp: bit_simps dest: sep)
  moreover have "(w OR flag) AND flag' = w AND flag'" for w
    using assms by (simp add: word_ao_dist)
  ultimately show ?thesis by (simp add: UpdateFrameFlag_def GetFrameFlag_def)
qed

end
