(* ===== verification/ObjectMemory.thy ===== *)
theory ObjectMemory
  imports ShadowFrame
begin

text \<open>
  Objects and arrays in memory: the field accessors of \<open>runtime/mirror/object-inl.h\<close> and
  \<open>object.h\<close> and the array accessors of \<open>runtime/mirror/array.h\<close>, \<open>array-inl.h\<close> and
  \<open>object_array-inl.h\<close>.

  The memory of an object is its bytes, addressed by the object's reference and the offset in
  it; words are little endian.  A volatile access is a plain one, since one thread is modelled,
  and the barriers of the collector and the recording of transactions have no effect.
\<close>

type_synonym heap_memory = "u32 \<Rightarrow> nat \<Rightarrow> u8"

section \<open>Words in memory\<close>

primrec load_bytes :: "heap_memory \<Rightarrow> u32 \<Rightarrow> nat \<Rightarrow> nat \<Rightarrow> u64" where
  "load_bytes h obj offset 0 = 0"
| "load_bytes h obj offset (Suc n) = ucast (h obj offset) OR push_bit 8 (load_bytes h obj (offset + 1) n)"

definition store_byte :: "heap_memory \<Rightarrow> u32 \<Rightarrow> nat \<Rightarrow> u8 \<Rightarrow> heap_memory" where
  "store_byte h obj offset b = h(obj := (h obj)(offset := b))"

primrec store_bytes :: "heap_memory \<Rightarrow> u32 \<Rightarrow> nat \<Rightarrow> nat \<Rightarrow> u64 \<Rightarrow> heap_memory" where
  "store_bytes h obj offset 0 v = h"
| "store_bytes h obj offset (Suc n) v = store_bytes (store_byte h obj offset (ucast v)) obj (offset + 1) n (drop_bit 8 v)"

section \<open>Fields\<close>

definition GetFieldBoolean :: "heap_memory \<Rightarrow> u32 \<Rightarrow> nat \<Rightarrow> u8" where
  "GetFieldBoolean h obj field_offset = ucast (load_bytes h obj field_offset 1)"

definition GetFieldByte :: "heap_memory \<Rightarrow> u32 \<Rightarrow> nat \<Rightarrow> u8" where
  "GetFieldByte h obj field_offset = ucast (load_bytes h obj field_offset 1)"

definition GetFieldChar :: "heap_memory \<Rightarrow> u32 \<Rightarrow> nat \<Rightarrow> u16" where
  "GetFieldChar h obj field_offset = ucast (load_bytes h obj field_offset 2)"

definition GetFieldShort :: "heap_memory \<Rightarrow> u32 \<Rightarrow> nat \<Rightarrow> u16" where
  "GetFieldShort h obj field_offset = ucast (load_bytes h obj field_offset 2)"

definition GetField32 :: "heap_memory \<Rightarrow> u32 \<Rightarrow> nat \<Rightarrow> u32" where
  "GetField32 h obj field_offset = ucast (load_bytes h obj field_offset 4)"

definition GetField64 :: "heap_memory \<Rightarrow> u32 \<Rightarrow> nat \<Rightarrow> u64" where
  "GetField64 h obj field_offset = load_bytes h obj field_offset 8"

definition GetFieldObject :: "heap_memory \<Rightarrow> u32 \<Rightarrow> nat \<Rightarrow> u32" where
  "GetFieldObject h obj field_offset = ucast (load_bytes h obj field_offset 4)"

definition SetFieldBoolean :: "heap_memory \<Rightarrow> u32 \<Rightarrow> nat \<Rightarrow> u8 \<Rightarrow> heap_memory" where
  "SetFieldBoolean h obj field_offset new_value = store_bytes h obj field_offset 1 (ucast new_value)"

definition SetFieldByte :: "heap_memory \<Rightarrow> u32 \<Rightarrow> nat \<Rightarrow> u8 \<Rightarrow> heap_memory" where
  "SetFieldByte h obj field_offset new_value = store_bytes h obj field_offset 1 (ucast new_value)"

definition SetFieldChar :: "heap_memory \<Rightarrow> u32 \<Rightarrow> nat \<Rightarrow> u16 \<Rightarrow> heap_memory" where
  "SetFieldChar h obj field_offset new_value = store_bytes h obj field_offset 2 (ucast new_value)"

definition SetFieldShort :: "heap_memory \<Rightarrow> u32 \<Rightarrow> nat \<Rightarrow> u16 \<Rightarrow> heap_memory" where
  "SetFieldShort h obj field_offset new_value = store_bytes h obj field_offset 2 (ucast new_value)"

definition SetField32 :: "heap_memory \<Rightarrow> u32 \<Rightarrow> nat \<Rightarrow> u32 \<Rightarrow> heap_memory" where
  "SetField32 h obj field_offset new_value = store_bytes h obj field_offset 4 (ucast new_value)"

definition SetField64 :: "heap_memory \<Rightarrow> u32 \<Rightarrow> nat \<Rightarrow> u64 \<Rightarrow> heap_memory" where
  "SetField64 h obj field_offset new_value = store_bytes h obj field_offset 8 new_value"

definition SetFieldObject :: "heap_memory \<Rightarrow> u32 \<Rightarrow> nat \<Rightarrow> u32 \<Rightarrow> heap_memory" where
  "SetFieldObject h obj field_offset new_value = store_bytes h obj field_offset 4 (ucast new_value)"

text \<open>The class pointer is the first word of an object, the lock word the second.\<close>

definition GetClass :: "heap_memory \<Rightarrow> u32 \<Rightarrow> u32" where
  "GetClass h obj = GetFieldObject h obj 0"

section \<open>Arrays\<close>

definition LengthOffset :: nat where
  "LengthOffset = 8"

definition FirstElementOffset :: nat where
  "FirstElementOffset = 12"

definition RoundDown :: "int \<Rightarrow> int \<Rightarrow> int" where
  "RoundDown x n = (x AND (- n))"

definition RoundUp :: "nat \<Rightarrow> nat \<Rightarrow> nat" where
  "RoundUp x n = nat (RoundDown (int x + int n - 1) (int n))"

definition DataOffset :: "nat \<Rightarrow> nat" where
  "DataOffset component_size = RoundUp FirstElementOffset component_size"

definition GetLength :: "heap_memory \<Rightarrow> u32 \<Rightarrow> u32" where
  "GetLength h array = GetField32 h array LengthOffset"

definition GetRawData :: "nat \<Rightarrow> nat \<Rightarrow> nat" where
  "GetRawData component_size index = DataOffset component_size + index * component_size"

text \<open>\<open>CheckIsValidIndex\<close> without the exception it throws, which the caller adds.\<close>

definition IsValidIndex :: "heap_memory \<Rightarrow> u32 \<Rightarrow> u32 \<Rightarrow> bool" where
  "IsValidIndex h array index \<longleftrightarrow> \<not> GetLength h array \<le> index"

definition PrimitiveArray_GetWithoutChecks :: "nat \<Rightarrow> heap_memory \<Rightarrow> u32 \<Rightarrow> u32 \<Rightarrow> u64" where
  "PrimitiveArray_GetWithoutChecks component_size h array i =
     load_bytes h array (GetRawData component_size (unat i)) component_size"

definition PrimitiveArray_SetWithoutChecks :: "nat \<Rightarrow> heap_memory \<Rightarrow> u32 \<Rightarrow> u32 \<Rightarrow> u64 \<Rightarrow> heap_memory" where
  "PrimitiveArray_SetWithoutChecks component_size h array i val =
     store_bytes h array (GetRawData component_size (unat i)) component_size val"

definition OffsetOfElement :: "u32 \<Rightarrow> nat" where
  "OffsetOfElement i = DataOffset 4 + unat i * 4"

definition ObjectArray_GetWithoutChecks :: "heap_memory \<Rightarrow> u32 \<Rightarrow> u32 \<Rightarrow> u32" where
  "ObjectArray_GetWithoutChecks h array i = GetFieldObject h array (OffsetOfElement i)"

definition ObjectArray_SetWithoutChecks :: "heap_memory \<Rightarrow> u32 \<Rightarrow> u32 \<Rightarrow> u32 \<Rightarrow> heap_memory" where
  "ObjectArray_SetWithoutChecks h array i object = SetFieldObject h array (OffsetOfElement i) object"

text \<open>The bytes that \<open>memcpy\<close> writes into an object.\<close>

primrec copy_bytes :: "heap_memory \<Rightarrow> u32 \<Rightarrow> nat \<Rightarrow> u8 list \<Rightarrow> heap_memory" where
  "copy_bytes h obj offset [] = h"
| "copy_bytes h obj offset (b # bs) = copy_bytes (store_byte h obj offset b) obj (offset + 1) bs"

section \<open>Facts\<close>

lemma store_byte_apply: "store_byte h obj i b p j = (if p = obj \<and> j = i then b else h p j)"
  by (simp add: store_byte_def)

lemma store_bytes_outside:
  "p \<noteq> obj \<or> j < offset \<or> offset + n \<le> j \<Longrightarrow> store_bytes h obj offset n v p j = h p j"
  by (induction n arbitrary: h offset v) (auto simp: store_byte_apply)

lemma store_bytes_inside:
  "i < n \<Longrightarrow> store_bytes h obj offset n v obj (offset + i) = ucast (drop_bit (8 * i) v)"
proof (induction n arbitrary: h offset v i)
  case (Suc n)
  show ?case
  proof (cases i)
    case 0
    then show ?thesis using store_bytes_outside [of obj obj offset "offset + 1" n] by (simp add: store_byte_apply)
  next
    case (Suc k)
    then show ?thesis
      using Suc.IH [of k "store_byte h obj offset (ucast v)" "offset + 1" "drop_bit 8 v"] Suc.prems
      by (simp add: add.assoc drop_bit_drop_bit add.commute)
  qed
qed simp

lemma load_bytes_cong:
  "(\<And>i. i < n \<Longrightarrow> h obj (offset + i) = h' obj (offset + i)) \<Longrightarrow> load_bytes h obj offset n = load_bytes h' obj offset n"
proof (induction n arbitrary: offset)
  case (Suc n)
  have "h obj offset = h' obj offset" using Suc.prems [of 0] by simp
  moreover have "load_bytes h obj (offset + 1) n = load_bytes h' obj (offset + 1) n"
    by (rule Suc.IH) (use Suc.prems in \<open>force simp: add.assoc\<close>)
  ultimately show ?case by simp
qed simp

lemma load_store_other:
  "p \<noteq> obj \<or> j + m \<le> offset \<or> offset + n \<le> j \<Longrightarrow>
     load_bytes (store_bytes h obj offset n v) p j m = load_bytes h p j m"
  by (rule load_bytes_cong, rule store_bytes_outside) auto

lemma take_byte_step:
  "ucast (ucast (v :: u64) :: u8) OR push_bit 8 (take_bit k (drop_bit 8 v)) = take_bit (k + 8) v"
  by (rule bit_word_eqI) (auto simp: bit_simps)

lemma load_store_same: "load_bytes (store_bytes h obj offset n v) obj offset n = take_bit (8 * n) v"
proof (induction n arbitrary: h offset v)
  case (Suc n)
  have "store_bytes (store_byte h obj offset (ucast v)) obj (offset + 1) n (drop_bit 8 v) obj offset = ucast v"
    by (subst store_bytes_outside) (simp_all add: store_byte_apply)
  then show ?case
    using Suc.IH [of "store_byte h obj offset (ucast v)" "offset + 1" "drop_bit 8 v"] take_byte_step [of v "8 * n"]
    by (simp add: add.commute)
qed simp

lemma ucast_take_ucast:
  "LENGTH('a::len) \<le> k \<Longrightarrow> k \<le> 64 \<Longrightarrow> ucast (take_bit k (ucast (x :: 'a word) :: u64)) = x"
  by (rule bit_word_eqI) (auto simp: bit_simps)

lemma field_get_set [simp]:
  "GetFieldBoolean (SetFieldBoolean h obj i x8) obj i = x8"
  "GetFieldByte (SetFieldByte h obj i x8) obj i = x8"
  "GetFieldChar (SetFieldChar h obj i x16) obj i = x16"
  "GetFieldShort (SetFieldShort h obj i x16) obj i = x16"
  "GetField32 (SetField32 h obj i x32) obj i = x32"
  "GetField64 (SetField64 h obj i x64) obj i = x64"
  "GetFieldObject (SetFieldObject h obj i x32) obj i = x32"
  unfolding GetFieldBoolean_def SetFieldBoolean_def GetFieldByte_def SetFieldByte_def
    GetFieldChar_def SetFieldChar_def GetFieldShort_def SetFieldShort_def GetField32_def
    SetField32_def GetField64_def SetField64_def GetFieldObject_def SetFieldObject_def load_store_same
  by (simp_all add: ucast_take_ucast take_bit_word_eq_self)

lemma copy_bytes_apply:
  "copy_bytes h obj offset bs p j =
     (if p = obj \<and> offset \<le> j \<and> j < offset + length bs then bs ! (j - offset) else h p j)"
  by (induction bs arbitrary: h offset) (auto simp: store_byte_apply nth_Cons' Suc_diff_le)

lemma DataOffset_values [simp]: "DataOffset 1 = 12" "DataOffset (Suc 0) = 12" "DataOffset 2 = 12" "DataOffset 4 = 12" "DataOffset 8 = 16"
  by (simp_all add: DataOffset_def FirstElementOffset_def RoundUp_def RoundDown_def)

text \<open>Elements do not overlap each other, nor the length and the class of their array.\<close>

lemma elements_disjoint:
  fixes i j :: nat
  assumes "i \<noteq> j"
  shows "GetRawData n i + n \<le> GetRawData n j \<or> GetRawData n j + n \<le> GetRawData n i"
proof -
  have "i + 1 \<le> j \<or> j + 1 \<le> i" using assms by linarith
  then have "(i + 1) * n \<le> j * n \<or> (j + 1) * n \<le> i * n" by (metis mult_le_mono1)
  then show ?thesis by (auto simp: GetRawData_def)
qed

lemma element_behind_length:
  assumes "n \<in> {1, 2, 4, 8}" shows "LengthOffset + 4 \<le> GetRawData n i"
  using assms by (auto simp: GetRawData_def LengthOffset_def)

end
