(* ===== verification/Ieee754.thy ===== *)
theory Ieee754
  imports ShadowFrame
begin

text \<open>
  The C++ types \<open>float\<close> and \<open>double\<close> on a machine with IEEE 754 arithmetic, as the
  interpreter uses them: bit patterns in the registers, the operators \<open>+ - * /\<close>, \<open>fmod\<close>,
  comparison, conversion, and the saturating conversion \<open>art_float_to_integral\<close> of
  \<open>runtime/entrypoints/entrypoint_utils-inl.h\<close>.  A format has \<open>E\<close> exponent bits and \<open>F\<close>
  fraction bits.  Results are rounded to nearest, ties to even.  C++ leaves open which NaN an
  operation returns; here it is the quiet NaN with a zero payload.
\<close>

section \<open>Values\<close>

text \<open>\<open>Fin s m e\<close> is \<open>m * 2 ^ e\<close>, negated when \<open>s\<close>; zeros keep their sign.\<close>

datatype fp = NaN | Inf bool | Fin bool int int

definition fp_bias :: "nat \<Rightarrow> int" where
  "fp_bias E = 2 ^ (E - 1) - 1"

definition fp_qmin :: "nat \<Rightarrow> nat \<Rightarrow> int" where
  "fp_qmin E F = 1 - fp_bias E - int F"

definition fp_decode :: "nat \<Rightarrow> nat \<Rightarrow> int \<Rightarrow> fp" where
  "fp_decode E F b =
     (let f = b mod 2 ^ F; e = b div 2 ^ F mod 2 ^ E; s = (b div 2 ^ (E + F) mod 2 = 1) in
      if e = 2 ^ E - 1 then (if f = 0 then Inf s else NaN)
      else if e = 0 then Fin s f (fp_qmin E F)
      else Fin s (f + 2 ^ F) (fp_qmin E F + e - 1))"

definition fp_sign_bit :: "nat \<Rightarrow> nat \<Rightarrow> bool \<Rightarrow> int" where
  "fp_sign_bit E F s = (if s then 2 ^ (E + F) else 0)"

definition fp_inf :: "nat \<Rightarrow> nat \<Rightarrow> int" where
  "fp_inf E F = (2 ^ E - 1) * 2 ^ F"

definition fp_nan :: "nat \<Rightarrow> nat \<Rightarrow> int" where
  "fp_nan E F = fp_inf E F + 2 ^ (F - 1)"

section \<open>Rounding\<close>

text \<open>\<open>ilog2 n\<close> is the position of the leading bit of a positive \<open>n\<close>.\<close>

function ilog2 :: "int \<Rightarrow> int" where
  "ilog2 n = (if n \<le> 1 then 0 else ilog2 (n div 2) + 1)"
  by pat_completeness auto
termination by (relation "measure nat") auto

declare ilog2.simps [simp del]

definition round_half_even :: "int \<Rightarrow> int \<Rightarrow> int" where
  "round_half_even n d =
     (let q = n div d; r = n mod d in
      if 2 * r < d then q else if d < 2 * r then q + 1 else if even q then q else q + 1)"

text \<open>\<open>n / d * 2 ^ x\<close> over \<open>2 ^ q\<close>, as a fraction.\<close>

definition scaled :: "int \<Rightarrow> int \<Rightarrow> int \<Rightarrow> int \<Rightarrow> int \<times> int" where
  "scaled n d x q = (if q \<le> x then (n * 2 ^ nat (x - q), d) else (n, d * 2 ^ nat (q - x)))"

text \<open>The exponent of the unit in the last place of a positive \<open>n / d * 2 ^ x\<close>: the one that
  gives \<open>F + 1\<close> significant bits, but not below that of the subnormal numbers.\<close>

definition fp_ulp :: "nat \<Rightarrow> nat \<Rightarrow> int \<Rightarrow> int \<Rightarrow> int \<Rightarrow> int" where
  "fp_ulp E F n d x =
     (let k = ilog2 n - ilog2 d; (a, b) = scaled n d 0 k; k' = (if b \<le> a then k else k - 1) in
      max (fp_qmin E F) (k' + x - int F))"

definition fp_round :: "nat \<Rightarrow> nat \<Rightarrow> bool \<Rightarrow> int \<Rightarrow> int \<Rightarrow> int \<Rightarrow> int" where
  "fp_round E F s n d x =
     fp_sign_bit E F s +
     (if n = 0 then 0
      else let q = fp_ulp E F n d x; (a, b) = scaled n d x q; m = round_half_even a b in
           min (fp_inf E F) (m + (q - fp_qmin E F) * 2 ^ F))"

definition fp_encode :: "nat \<Rightarrow> nat \<Rightarrow> fp \<Rightarrow> int" where
  "fp_encode E F v =
     (case v of NaN \<Rightarrow> fp_nan E F | Inf s \<Rightarrow> fp_sign_bit E F s + fp_inf E F
      | Fin s m e \<Rightarrow> fp_round E F s m 1 e)"

section \<open>Arithmetic on values\<close>

text \<open>The results before rounding; a quotient is the fraction of two magnitudes.\<close>

definition fp_signed :: "bool \<Rightarrow> int \<Rightarrow> int" where
  "fp_signed s m = (if s then - m else m)"

fun fp_add :: "nat \<Rightarrow> nat \<Rightarrow> fp \<Rightarrow> fp \<Rightarrow> int" where
  "fp_add E F (Fin s m e) (Fin t n f) =
     (let x = min e f; i = fp_signed s (m * 2 ^ nat (e - x)) + fp_signed t (n * 2 ^ nat (f - x)) in
      if i = 0 then fp_sign_bit E F (s \<and> t) else fp_round E F (i < 0) \<bar>i\<bar> 1 x)"
| "fp_add E F (Inf s) (Fin t n f) = fp_encode E F (Inf s)"
| "fp_add E F (Fin s m e) (Inf t) = fp_encode E F (Inf t)"
| "fp_add E F (Inf s) (Inf t) = (if s = t then fp_encode E F (Inf s) else fp_nan E F)"
| "fp_add E F NaN w = fp_nan E F"
| "fp_add E F (Fin s m e) NaN = fp_nan E F"
| "fp_add E F (Inf s) NaN = fp_nan E F"

fun fp_neg :: "fp \<Rightarrow> fp" where
  "fp_neg (Fin s m e) = Fin (\<not> s) m e"
| "fp_neg (Inf s) = Inf (\<not> s)"
| "fp_neg NaN = NaN"

fun fp_mul :: "nat \<Rightarrow> nat \<Rightarrow> fp \<Rightarrow> fp \<Rightarrow> int" where
  "fp_mul E F (Fin s m e) (Fin t n f) = fp_round E F (s \<noteq> t) (m * n) 1 (e + f)"
| "fp_mul E F (Inf s) (Fin t n f) = (if n = 0 then fp_nan E F else fp_encode E F (Inf (s \<noteq> t)))"
| "fp_mul E F (Fin s m e) (Inf t) = (if m = 0 then fp_nan E F else fp_encode E F (Inf (s \<noteq> t)))"
| "fp_mul E F (Inf s) (Inf t) = fp_encode E F (Inf (s \<noteq> t))"
| "fp_mul E F NaN w = fp_nan E F"
| "fp_mul E F (Fin s m e) NaN = fp_nan E F"
| "fp_mul E F (Inf s) NaN = fp_nan E F"

fun fp_div :: "nat \<Rightarrow> nat \<Rightarrow> fp \<Rightarrow> fp \<Rightarrow> int" where
  "fp_div E F (Fin s m e) (Fin t n f) =
     (if n = 0 then (if m = 0 then fp_nan E F else fp_encode E F (Inf (s \<noteq> t)))
      else fp_round E F (s \<noteq> t) m n (e - f))"
| "fp_div E F (Inf s) (Fin t n f) = fp_encode E F (Inf (s \<noteq> t))"
| "fp_div E F (Fin s m e) (Inf t) = fp_sign_bit E F (s \<noteq> t)"
| "fp_div E F (Inf s) (Inf t) = fp_nan E F"
| "fp_div E F NaN w = fp_nan E F"
| "fp_div E F (Fin s m e) NaN = fp_nan E F"
| "fp_div E F (Inf s) NaN = fp_nan E F"

fun fp_fmod :: "nat \<Rightarrow> nat \<Rightarrow> fp \<Rightarrow> fp \<Rightarrow> int" where
  "fp_fmod E F (Fin s m e) (Fin t n f) =
     (if n = 0 then fp_nan E F
      else let x = min e f in
           fp_round E F s (m * 2 ^ nat (e - x) mod (n * 2 ^ nat (f - x))) 1 x)"
| "fp_fmod E F (Fin s m e) (Inf t) = fp_round E F s m 1 e"
| "fp_fmod E F (Inf s) w = fp_nan E F"
| "fp_fmod E F NaN w = fp_nan E F"
| "fp_fmod E F (Fin s m e) NaN = fp_nan E F"

fun fp_less :: "fp \<Rightarrow> fp \<Rightarrow> bool" where
  "fp_less (Fin s m e) (Fin t n f) \<longleftrightarrow>
     (let x = min e f in fp_signed s (m * 2 ^ nat (e - x)) < fp_signed t (n * 2 ^ nat (f - x)))"
| "fp_less (Inf s) (Fin t n f) \<longleftrightarrow> s"
| "fp_less (Fin s m e) (Inf t) \<longleftrightarrow> \<not> t"
| "fp_less (Inf s) (Inf t) \<longleftrightarrow> s \<and> \<not> t"
| "fp_less NaN w \<longleftrightarrow> False"
| "fp_less (Fin s m e) NaN \<longleftrightarrow> False"
| "fp_less (Inf s) NaN \<longleftrightarrow> False"

fun fp_equal :: "fp \<Rightarrow> fp \<Rightarrow> bool" where
  "fp_equal (Fin s m e) (Fin t n f) \<longleftrightarrow>
     (let x = min e f in fp_signed s (m * 2 ^ nat (e - x)) = fp_signed t (n * 2 ^ nat (f - x)))"
| "fp_equal (Inf s) (Inf t) \<longleftrightarrow> s = t"
| "fp_equal (Inf s) (Fin t n f) \<longleftrightarrow> False"
| "fp_equal (Fin s m e) (Inf t) \<longleftrightarrow> False"
| "fp_equal NaN w \<longleftrightarrow> False"
| "fp_equal (Fin s m e) NaN \<longleftrightarrow> False"
| "fp_equal (Inf s) NaN \<longleftrightarrow> False"

text \<open>The integer part; a cast of NaN, of an infinity or out of range is undefined in C++ and
  does not happen in the sources.\<close>

fun fp_trunc :: "fp \<Rightarrow> int" where
  "fp_trunc (Fin s m e) = fp_signed s (if 0 \<le> e then m * 2 ^ nat e else m div 2 ^ nat (- e))"
| "fp_trunc (Inf s) = 0"
| "fp_trunc NaN = 0"

definition fp_of_int :: "int \<Rightarrow> fp" where
  "fp_of_int i = Fin (i < 0) \<bar>i\<bar> 0"

section \<open>float and double\<close>

definition float_val :: "u32 \<Rightarrow> fp" where
  "float_val a = fp_decode 8 23 (uint a)"

definition double_val :: "u64 \<Rightarrow> fp" where
  "double_val a = fp_decode 11 52 (uint a)"

definition float_add :: "u32 \<Rightarrow> u32 \<Rightarrow> u32" where
  "float_add a b = word_of_int (fp_add 8 23 (float_val a) (float_val b))"

definition float_sub :: "u32 \<Rightarrow> u32 \<Rightarrow> u32" where
  "float_sub a b = word_of_int (fp_add 8 23 (float_val a) (fp_neg (float_val b)))"

definition float_mul :: "u32 \<Rightarrow> u32 \<Rightarrow> u32" where
  "float_mul a b = word_of_int (fp_mul 8 23 (float_val a) (float_val b))"

definition float_div :: "u32 \<Rightarrow> u32 \<Rightarrow> u32" where
  "float_div a b = word_of_int (fp_div 8 23 (float_val a) (float_val b))"

definition fmodf :: "u32 \<Rightarrow> u32 \<Rightarrow> u32" where
  "fmodf a b = word_of_int (fp_fmod 8 23 (float_val a) (float_val b))"

definition float_neg :: "u32 \<Rightarrow> u32" where
  "float_neg a = a XOR 0x80000000"

definition double_add :: "u64 \<Rightarrow> u64 \<Rightarrow> u64" where
  "double_add a b = word_of_int (fp_add 11 52 (double_val a) (double_val b))"

definition double_sub :: "u64 \<Rightarrow> u64 \<Rightarrow> u64" where
  "double_sub a b = word_of_int (fp_add 11 52 (double_val a) (fp_neg (double_val b)))"

definition double_mul :: "u64 \<Rightarrow> u64 \<Rightarrow> u64" where
  "double_mul a b = word_of_int (fp_mul 11 52 (double_val a) (double_val b))"

definition double_div :: "u64 \<Rightarrow> u64 \<Rightarrow> u64" where
  "double_div a b = word_of_int (fp_div 11 52 (double_val a) (double_val b))"

definition fmod :: "u64 \<Rightarrow> u64 \<Rightarrow> u64" where
  "fmod a b = word_of_int (fp_fmod 11 52 (double_val a) (double_val b))"

definition double_neg :: "u64 \<Rightarrow> u64" where
  "double_neg a = a XOR 0x8000000000000000"

definition int_to_float :: "int \<Rightarrow> u32" where
  "int_to_float i = word_of_int (fp_encode 8 23 (fp_of_int i))"

definition int_to_double :: "int \<Rightarrow> u64" where
  "int_to_double i = word_of_int (fp_encode 11 52 (fp_of_int i))"

definition float_to_double :: "u32 \<Rightarrow> u64" where
  "float_to_double a = word_of_int (fp_encode 11 52 (float_val a))"

definition double_to_float :: "u64 \<Rightarrow> u32" where
  "double_to_float a = word_of_int (fp_encode 8 23 (double_val a))"

section \<open>The saturating conversion\<close>

text \<open>\<open>art_float_to_integral\<close> at the integer type with the given bounds, for a value \<open>f\<close>
  whose type converts the bounds with \<open>as_float\<close>.\<close>

definition art_float_to_integral :: "(int \<Rightarrow> fp) \<Rightarrow> int \<Rightarrow> int \<Rightarrow> fp \<Rightarrow> int" where
  "art_float_to_integral as_float kMinInt kMaxInt f =
     (let kMaxIntAsFloat = as_float kMaxInt; kMinIntAsFloat = as_float kMinInt in
      if fp_less kMinIntAsFloat f then (if fp_less f kMaxIntAsFloat then fp_trunc f else kMaxInt)
      else if \<not> fp_equal f f then 0 else kMinInt)"

definition float_to_int32 :: "u32 \<Rightarrow> u32" where
  "float_to_int32 a = word_of_int (art_float_to_integral (\<lambda>i. float_val (int_to_float i)) (- (2 ^ 31)) (2 ^ 31 - 1) (float_val a))"

definition float_to_int64 :: "u32 \<Rightarrow> u64" where
  "float_to_int64 a = word_of_int (art_float_to_integral (\<lambda>i. float_val (int_to_float i)) (- (2 ^ 63)) (2 ^ 63 - 1) (float_val a))"

definition double_to_int32 :: "u64 \<Rightarrow> u32" where
  "double_to_int32 a = word_of_int (art_float_to_integral (\<lambda>i. double_val (int_to_double i)) (- (2 ^ 31)) (2 ^ 31 - 1) (double_val a))"

definition double_to_int64 :: "u64 \<Rightarrow> u64" where
  "double_to_int64 a = word_of_int (art_float_to_integral (\<lambda>i. double_val (int_to_double i)) (- (2 ^ 63)) (2 ^ 63 - 1) (double_val a))"

end
