(* ===== verification/InterpreterState.thy ===== *)
theory InterpreterState
  imports ObjectMemory Ieee754
begin

text \<open>
  The state of the switch interpreter and the runtime it calls.

  \<open>interp\<close> holds what \<open>SwitchImplContext\<close>, the thread and the loop's local variables hold:
  the shadow frame, the result register and the result, the pending and the asynchronous
  exception, the memory of the objects, the next instruction, and the request to leave the loop.
  \<open>Instruction* next\<close> is the index of its first code unit.  The field \<open>world\<close> is everything else
  in the process.

  \<open>runtime\<close> collects the parts of the process the interpreter calls and that are not modelled:
  the class linker, the allocator, the listeners of the instrumentation, the JIT, and the calls
  of other methods.  Each may change the whole state; \<open>runtime_ok\<close> states what the interpreter
  relies on.
\<close>

section \<open>State\<close>

record 'w interp =
  frame :: ShadowFrame
  result_register :: JValue
  ctx_result :: JValue
  exception :: u32
  async_exception :: u32
  heap :: heap_memory
  next_inst :: int
  exit_interpreter_loop :: bool
  world :: 'w

definition IsExceptionPending :: "'w interp \<Rightarrow> bool" where
  "IsExceptionPending s \<longleftrightarrow> exception s \<noteq> 0"

definition ClearException :: "'w interp \<Rightarrow> 'w interp" where
  "ClearException s = s\<lparr>exception := 0\<rparr>"

definition SetException :: "u32 \<Rightarrow> 'w interp \<Rightarrow> 'w interp" where
  "SetException new_exception s = s\<lparr>exception := new_exception\<rparr>"

definition ObserveAsyncException :: "'w interp \<Rightarrow> bool \<times> 'w interp" where
  "ObserveAsyncException s =
     (if async_exception s \<noteq> 0
      then (True, s\<lparr>exception := async_exception s, async_exception := 0\<rparr>)
      else (IsExceptionPending s, s))"

section \<open>The runtime\<close>

datatype exception_kind =
    NullPointerException
  | NullPointerExceptionForFieldAccess
  | ArrayIndexOutOfBoundsException u32 u32
  | ArrayStoreException u32
  | ArithmeticExceptionDivideByZero
  | NegativeArraySizeException u32
  | ClassCastException u32 u32
  | IllegalMonitorStateException u32
  | InternalError

datatype listener =
    FieldReadListeners | FieldWriteListeners | BranchListeners | MethodExitListeners
  | WatchedFramePopListeners | ExceptionThrownListeners | ExceptionHandledListeners

datatype listener_event =
    BranchEvent u32 u32
  | DexPcMovedEvent u32 u32
  | ExceptionThrownEvent u32
  | ExceptionHandledEvent u32
  | MethodUnwindEvent u32
  | WatchedFramePopped
  | FieldReadEvent u32 u32 u64
  | FieldWriteEvent u32 u32 u64 JValue

datatype InvokeType = kStatic | kDirect | kVirtual | kSuper | kInterface | kPolymorphic | kCustom

datatype PrimitiveType =
  kPrimNot | kPrimBoolean | kPrimByte | kPrimChar | kPrimShort | kPrimInt | kPrimLong | kPrimFloat
  | kPrimDouble | kPrimVoid

record 'w runtime =
  accessor :: CodeItemDataAccessor
  method_is_static :: bool
  SkipAccessChecks :: bool
  MustCountLocks :: bool
  virtual_threads :: bool
  target_sdk_version :: u32
  Throw :: "exception_kind \<Rightarrow> 'w interp \<Rightarrow> 'w interp"
  AllowThreadSuspension :: "'w interp \<Rightarrow> 'w interp"
  IsExceptionThrownByCurrentMethod :: "u32 \<Rightarrow> 'w interp \<Rightarrow> bool"
  IsVirtualThreadParking :: "'w interp \<Rightarrow> bool"
  MonitorEnter :: "u32 \<Rightarrow> 'w interp \<Rightarrow> 'w interp"
  MonitorExit :: "u32 \<Rightarrow> 'w interp \<Rightarrow> 'w interp"
  HasListeners :: "listener \<Rightarrow> 'w interp \<Rightarrow> bool"
  Event :: "listener_event \<Rightarrow> 'w interp \<Rightarrow> 'w interp"
  MethodExitEvent :: "JValue \<Rightarrow> 'w interp \<Rightarrow> JValue \<times> 'w interp"
  MaybeDoOnStackReplacement :: "u32 \<Rightarrow> u32 \<Rightarrow> 'w interp \<Rightarrow> JValue option \<times> 'w interp"
  AddSamples :: "'w interp \<Rightarrow> 'w interp"
  ResolveVerifyAndClinit :: "u16 \<Rightarrow> 'w interp \<Rightarrow> u32 \<times> 'w interp"
  ResolveClassFromTypeIndex :: "u16 \<Rightarrow> 'w interp \<Rightarrow> u32 \<times> 'w interp"
  ResolveReturnType :: "'w interp \<Rightarrow> u32 \<times> 'w interp"
  ResolveMethodHandle :: "u32 \<Rightarrow> 'w interp \<Rightarrow> u32 \<times> 'w interp"
  ResolveMethodType :: "u16 \<Rightarrow> 'w interp \<Rightarrow> u32 \<times> 'w interp"
  StringClassIsVisiblyInitialized :: "'w interp \<Rightarrow> bool"
  EnsureStringClassInitialized :: "'w interp \<Rightarrow> bool \<times> 'w interp"
  ClassLinker_ResolveString :: "u32 \<Rightarrow> 'w interp \<Rightarrow> u32 \<times> 'w interp"
  InterpreterCache_Get :: "int \<Rightarrow> 'w interp \<Rightarrow> u64 option"
  NterpGetStaticField :: "int \<Rightarrow> bool \<Rightarrow> 'w interp \<Rightarrow> u64 \<times> 'w interp"
  NterpGetInstanceFieldOffset :: "int \<Rightarrow> 'w interp \<Rightarrow> u32 \<times> 'w interp"
  ResolveFieldWithAccessChecks :: "u16 \<Rightarrow> bool \<Rightarrow> bool \<Rightarrow> 'w interp \<Rightarrow> u64 \<times> 'w interp"
  Field_GetOffset :: "u64 \<Rightarrow> nat"
  Field_GetDeclaringClass :: "u64 \<Rightarrow> u32"
  Field_IsStatic :: "u64 \<Rightarrow> bool"
  Field_ResolveType :: "u64 \<Rightarrow> 'w interp \<Rightarrow> u32 \<times> 'w interp"
  IsAssignableFrom :: "u32 \<Rightarrow> u32 \<Rightarrow> bool"
  IsInterface :: "u32 \<Rightarrow> bool"
  IsArrayClass :: "u32 \<Rightarrow> bool"
  GetComponentType :: "u32 \<Rightarrow> u32"
  GetPrimitiveType :: "u32 \<Rightarrow> PrimitiveType"
  IsStringClass :: "u32 \<Rightarrow> bool"
  IsThrowableClass :: "u32 \<Rightarrow> bool"
  AllocObjectFromCode :: "u32 \<Rightarrow> 'w interp \<Rightarrow> u32 \<times> 'w interp"
  AllocEmptyString :: "'w interp \<Rightarrow> u32 \<times> 'w interp"
  AllocArrayFromCode :: "u16 \<Rightarrow> u32 \<Rightarrow> 'w interp \<Rightarrow> u32 \<times> 'w interp"
  Array_Alloc :: "u32 \<Rightarrow> u32 \<Rightarrow> 'w interp \<Rightarrow> u32 \<times> 'w interp"
  FindMethodToCall :: "InvokeType \<Rightarrow> u32 \<Rightarrow> int \<Rightarrow> 'w interp \<Rightarrow> u64 \<times> bool \<times> 'w interp"
  DoCall :: "bool \<Rightarrow> u64 \<Rightarrow> int \<Rightarrow> bool \<Rightarrow> 'w interp \<Rightarrow> bool \<times> 'w interp"
  DoInvokePolymorphic :: "bool \<Rightarrow> int \<Rightarrow> 'w interp \<Rightarrow> bool \<times> 'w interp"
  DoInvokeCustom_operands :: "u32 \<Rightarrow> InstructionOperands \<Rightarrow> 'w interp \<Rightarrow> bool \<times> 'w interp"
  FindLocksAtDexPc :: "u32 \<Rightarrow> nat list list"

end
