(* ===== verification/InterpreterCommon.thy ===== *)
theory InterpreterCommon
  imports InterpreterState
begin

text \<open>
  The helpers shared by the handlers of the interpreter: \<open>runtime/interpreter/safe_math.h\<close>,
  \<open>lock_count_data.cc\<close>, \<open>interpreter_common.h\<close>, \<open>interpreter_common.cc\<close>, the field accesses of
  \<open>runtime/common_dex_operations.h\<close>, \<open>FillArrayData\<close> of \<open>entrypoint_utils.cc\<close>, and the classes
  \<open>InactiveTransactionChecker\<close> and \<open>ActiveInstrumentationHandler\<close> of
  \<open>interpreter_switch_impl0.cc\<close>, with which the interpreter is compiled outside transactions.
\<close>

section \<open>Arithmetic with wrap-around\<close>

definition SafeAdd :: "'a::len word \<Rightarrow> 'a word \<Rightarrow> 'a word" where
  "SafeAdd a b = a + b"

definition SafeSub :: "'a::len word \<Rightarrow> 'a word \<Rightarrow> 'a word" where
  "SafeSub a b = a - b"

definition SafeMul :: "'a::len word \<Rightarrow> 'a word \<Rightarrow> 'a word" where
  "SafeMul a b = a * b"

text \<open>Division of C++ integers: towards zero, the remainder with the sign of the dividend.\<close>

definition cdiv :: "int \<Rightarrow> int \<Rightarrow> int" where
  "cdiv a b = sgn a * sgn b * (\<bar>a\<bar> div \<bar>b\<bar>)"

definition cmod :: "int \<Rightarrow> int \<Rightarrow> int" where
  "cmod a b = sgn a * (\<bar>a\<bar> mod \<bar>b\<bar>)"

definition DoIntDivide :: "'w runtime \<Rightarrow> nat \<Rightarrow> u32 \<Rightarrow> u32 \<Rightarrow> 'w interp \<Rightarrow> (bool \<times> 'w interp) option" where
  "DoIntDivide rt result_reg dividend divisor s =
     (if divisor = 0 then Some (False, Throw rt ArithmeticExceptionDivideByZero s)
      else do { f \<leftarrow> SetVReg (frame s) result_reg
                       (if dividend = 0x80000000 \<and> divisor = - 1 then 0x80000000
                        else word_of_int (cdiv (sint dividend) (sint divisor)));
                Some (True, s\<lparr>frame := f\<rparr>) })"

definition DoIntRemainder :: "'w runtime \<Rightarrow> nat \<Rightarrow> u32 \<Rightarrow> u32 \<Rightarrow> 'w interp \<Rightarrow> (bool \<times> 'w interp) option" where
  "DoIntRemainder rt result_reg dividend divisor s =
     (if divisor = 0 then Some (False, Throw rt ArithmeticExceptionDivideByZero s)
      else do { f \<leftarrow> SetVReg (frame s) result_reg
                       (if dividend = 0x80000000 \<and> divisor = - 1 then 0
                        else word_of_int (cmod (sint dividend) (sint divisor)));
                Some (True, s\<lparr>frame := f\<rparr>) })"

definition DoLongDivide :: "'w runtime \<Rightarrow> nat \<Rightarrow> u64 \<Rightarrow> u64 \<Rightarrow> 'w interp \<Rightarrow> (bool \<times> 'w interp) option" where
  "DoLongDivide rt result_reg dividend divisor s =
     (if divisor = 0 then Some (False, Throw rt ArithmeticExceptionDivideByZero s)
      else do { f \<leftarrow> SetVRegLong (frame s) result_reg
                       (if dividend = 0x8000000000000000 \<and> divisor = - 1 then 0x8000000000000000
                        else word_of_int (cdiv (sint dividend) (sint divisor)));
                Some (True, s\<lparr>frame := f\<rparr>) })"

definition DoLongRemainder :: "'w runtime \<Rightarrow> nat \<Rightarrow> u64 \<Rightarrow> u64 \<Rightarrow> 'w interp \<Rightarrow> (bool \<times> 'w interp) option" where
  "DoLongRemainder rt result_reg dividend divisor s =
     (if divisor = 0 then Some (False, Throw rt ArithmeticExceptionDivideByZero s)
      else do { f \<leftarrow> SetVRegLong (frame s) result_reg
                       (if dividend = 0x8000000000000000 \<and> divisor = - 1 then 0
                        else word_of_int (cmod (sint dividend) (sint divisor)));
                Some (True, s\<lparr>frame := f\<rparr>) })"

section \<open>Switches\<close>

text \<open>The code units from an index on: what a pointer computed from an instruction's address
  points to.\<close>

definition code_at :: "CodeItemDataAccessor \<Rightarrow> int \<Rightarrow> u16 list" where
  "code_at acc i = (if 0 \<le> i then drop (nat i) (insns acc) else [])"

text \<open>The difference of two \<open>int32_t\<close>; an overflow is undefined.\<close>

definition signed_sub :: "u32 \<Rightarrow> u32 \<Rightarrow> u32 option" where
  "signed_sub a b = (if sint (a - b) = sint a - sint b then Some (a - b) else None)"

definition DoPackedSwitch :: "CodeItemDataAccessor \<Rightarrow> int \<Rightarrow> u16 list \<Rightarrow> u16 \<Rightarrow> ShadowFrame \<Rightarrow> u32 option" where
  "DoPackedSwitch acc pos inst inst_data f =
     do { offset \<leftarrow> VRegB_31t inst;
          let switch_data = code_at acc (pos + sint offset);
          test_val \<leftarrow> GetVReg f (unat (VRegA_31t inst_data));
          case_count \<leftarrow> Fetch16 switch_data 1;
          if case_count = 0 then Some 3
          else do { first_key \<leftarrow> Fetch32 switch_data 2;
                    index \<leftarrow> signed_sub test_val first_key;
                    if 0 \<le>s index \<and> sint index < uint case_count
                    then Fetch32 switch_data (4 + 2 * unat index)
                    else Some 3 } }"

function DoSparseSwitchLoop :: "u16 list \<Rightarrow> nat \<Rightarrow> u32 \<Rightarrow> int \<Rightarrow> int \<Rightarrow> u32 option" where
  "DoSparseSwitchLoop switch_data case_count test_val lo hi =
     (if lo \<le> hi then
        do { let mid = (lo + hi) div 2;
             foundVal \<leftarrow> Fetch32 switch_data (2 + 2 * nat mid);
             if test_val <s foundVal then DoSparseSwitchLoop switch_data case_count test_val lo (mid - 1)
             else if foundVal <s test_val then DoSparseSwitchLoop switch_data case_count test_val (mid + 1) hi
             else Fetch32 switch_data (2 + 2 * case_count + 2 * nat mid) }
      else Some 3)"
  by pat_completeness auto
termination by (relation "measure (\<lambda>(d, n, v, lo, hi). nat (hi - lo + 1))") auto

declare DoSparseSwitchLoop.simps [simp del]

definition DoSparseSwitch :: "CodeItemDataAccessor \<Rightarrow> int \<Rightarrow> u16 list \<Rightarrow> u16 \<Rightarrow> ShadowFrame \<Rightarrow> u32 option" where
  "DoSparseSwitch acc pos inst inst_data f =
     do { offset \<leftarrow> VRegB_31t inst;
          let switch_data = code_at acc (pos + sint offset);
          test_val \<leftarrow> GetVReg f (unat (VRegA_31t inst_data));
          case_count \<leftarrow> Fetch16 switch_data 1;
          if case_count = 0 then Some 3
          else DoSparseSwitchLoop switch_data (unat case_count) test_val 0 (uint case_count - 1) }"

section \<open>Transactions and instrumentation\<close>

definition ReadConstraint :: "u32 \<Rightarrow> 'w interp \<Rightarrow> bool" where
  "ReadConstraint obj s = False"

definition WriteConstraint :: "u32 \<Rightarrow> 'w interp \<Rightarrow> bool" where
  "WriteConstraint obj s = False"

definition WriteValueConstraint :: "u32 \<Rightarrow> 'w interp \<Rightarrow> bool" where
  "WriteValueConstraint val s = False"

definition AllocationConstraint :: "u32 \<Rightarrow> 'w interp \<Rightarrow> bool" where
  "AllocationConstraint klass s = False"

definition IsTransactionAborted :: "'w interp \<Rightarrow> bool" where
  "IsTransactionAborted s = False"

definition NeedsMethodExitEvent :: "'w runtime \<Rightarrow> 'w interp \<Rightarrow> bool" where
  "NeedsMethodExitEvent rt s \<longleftrightarrow> HasListeners rt MethodExitListeners s \<or> HasListeners rt WatchedFramePopListeners s"

definition HandledEvent :: "'w runtime \<Rightarrow> bool \<Rightarrow> 'w interp \<Rightarrow> bool \<times> 'w interp" where
  "HandledEvent rt is_move_exception s =
     (let exc = exception s; s = Event rt (ExceptionHandledEvent exc) (ClearException s) in
      if IsExceptionPending s then (False, s)
      else if is_move_exception then (True, SetException exc s) else (True, s))"

text \<open>\<open>save_ref\<close> asks to keep the reference in the result register over the event.\<close>

definition DoDexPcMoveEvent :: "'w runtime \<Rightarrow> u32 \<Rightarrow> bool \<Rightarrow> 'w interp \<Rightarrow> (bool \<times> 'w interp) option" where
  "DoDexPcMoveEvent rt dex_pc save_ref s =
     do { let thr = exception s;
          let saved = JValue_GetL (result_register s);
          let s = ClearException s;
          this_object \<leftarrow> GetThisObject (method_is_static rt) (frame s) (ins_size (accessor rt));
          let s = Event rt (DexPcMovedEvent this_object dex_pc) s;
          let s = (if save_ref then s\<lparr>result_register := JValue_SetL saved\<rparr> else s);
          Some (if IsExceptionPending s then (False, s)
                else if thr \<noteq> 0 then (True, SetException thr s) else (True, s)) }"

text \<open>One round of the events of a method exit: whether an event was sent so far, and the
  result, which a listener may replace.\<close>

definition exit_events_round :: "'w runtime \<Rightarrow> bool \<times> JValue \<times> 'w interp \<Rightarrow> bool \<times> JValue \<times> 'w interp" where
  "exit_events_round rt =
     (\<lambda>(had_event, result, s).
        let s = s\<lparr>frame := SetForcePopFrame (frame s) False\<rparr>;
            (had_event, result, s) =
              (if HasListeners rt MethodExitListeners s \<and> \<not> GetSkipMethodExitEvents (frame s)
               then (True, MethodExitEvent rt result s) else (had_event, result, s))
        in if NeedsNotifyPop (frame s) \<and> HasListeners rt WatchedFramePopListeners s
           then (True, result, Event rt WatchedFramePopped s) else (had_event, result, s))"

partial_function (option) exit_events_loop ::
  "'w runtime \<Rightarrow> bool \<times> JValue \<times> 'w interp \<Rightarrow> (bool \<times> JValue \<times> 'w interp) option" where
  "exit_events_loop rt x =
     (let y = exit_events_round rt x in
      if GetForcePopFrame (frame (snd (snd y))) then exit_events_loop rt y else Some y)"

declare exit_events_loop.simps [code]

definition SendMethodExitEvents :: "'w runtime \<Rightarrow> JValue \<Rightarrow> 'w interp \<Rightarrow> (bool \<times> JValue \<times> 'w interp) option" where
  "SendMethodExitEvents rt result s =
     do { (had_event, result, s) \<leftarrow> exit_events_loop rt (False, result, s);
          Some (if had_event then \<not> IsExceptionPending s else True, result, s) }"

section \<open>Monitors\<close>

definition AddMonitor :: "u32 \<Rightarrow> 'w interp \<Rightarrow> 'w interp" where
  "AddMonitor obj s =
     (if obj = 0 then s
      else if IsExceptionPending s then s
      else s\<lparr>frame := (frame s)\<lparr>monitors :=
             Some ((case monitors (frame s) of None \<Rightarrow> [] | Some ms \<Rightarrow> ms) @ [obj])\<rparr>\<rparr>)"

definition RemoveMonitorOrThrow :: "'w runtime \<Rightarrow> u32 \<Rightarrow> 'w interp \<Rightarrow> 'w interp" where
  "RemoveMonitorOrThrow rt obj s =
     (if obj = 0 then s
      else case monitors (frame s) of
             None \<Rightarrow> Throw rt (IllegalMonitorStateException obj) (ClearException s)
           | Some ms \<Rightarrow>
               (if obj \<in> set ms then s\<lparr>frame := (frame s)\<lparr>monitors := Some (remove1 obj ms)\<rparr>\<rparr>
                else Throw rt (IllegalMonitorStateException obj) (ClearException s)))"

primrec release_monitors :: "'w runtime \<Rightarrow> u32 list \<Rightarrow> 'w interp \<Rightarrow> 'w interp" where
  "release_monitors rt [] s = s"
| "release_monitors rt (obj # objs) s =
     (let s = MonitorExit rt obj s in
      release_monitors rt objs (if IsExceptionPending s then ClearException s else s))"

definition CheckAllMonitorsReleasedOrThrow :: "'w runtime \<Rightarrow> 'w interp \<Rightarrow> bool \<times> 'w interp" where
  "CheckAllMonitorsReleasedOrThrow rt s =
     (case monitors (frame s) of
        Some (first # rest) \<Rightarrow>
          (let s = release_monitors rt (first # rest) (ClearException s);
               s = Throw rt (IllegalMonitorStateException first) s
           in (False, s\<lparr>frame := (frame s)\<lparr>monitors := Some []\<rparr>\<rparr>))
      | _ \<Rightarrow> (True, s))"

definition DoMonitorEnter :: "'w runtime \<Rightarrow> u32 \<Rightarrow> 'w interp \<Rightarrow> 'w interp" where
  "DoMonitorEnter rt ref s =
     (let s = MonitorEnter rt ref s in
      if IsExceptionPending s then MonitorExit rt ref s
      else if MustCountLocks rt then AddMonitor ref s else s)"

definition DoMonitorExit :: "'w runtime \<Rightarrow> u32 \<Rightarrow> 'w interp \<Rightarrow> 'w interp" where
  "DoMonitorExit rt ref s =
     (let s = MonitorExit rt ref s in if MustCountLocks rt then RemoveMonitorOrThrow rt ref s else s)"

definition DoMonitorCheckOnExit :: "'w runtime \<Rightarrow> 'w interp \<Rightarrow> bool \<times> 'w interp" where
  "DoMonitorCheckOnExit rt s = (if MustCountLocks rt then CheckAllMonitorsReleasedOrThrow rt s else (True, s))"

text \<open>
  \<open>VisitMonitors\<close> runs over the vector of monitors with iterators taken at the start.  When the
  visitor erases an element, the iterators from it on are no longer valid; advancing one of them
  is undefined, the answer \<open>None\<close>.
\<close>

function unlock_visited :: "'w runtime \<Rightarrow> nat \<Rightarrow> nat \<Rightarrow> u32 list \<Rightarrow> 'w interp \<Rightarrow> 'w interp option" where
  "unlock_visited rt i n ms s =
     (if i < n then
        (let s = DoMonitorExit rt (ms ! i) s in
         if monitors (frame s) = Some ms then unlock_visited rt (i + 1) n ms s else None)
      else Some s)"
  by pat_completeness auto
termination by (relation "measure (\<lambda>(rt, i, n, ms, s). n - i)") auto

declare unlock_visited.simps [simp del]

primrec unlock_registers :: "'w runtime \<Rightarrow> nat list list \<Rightarrow> 'w interp \<Rightarrow> 'w interp option" where
  "unlock_registers rt [] s = Some s"
| "unlock_registers rt (dex_registers # locks) s =
     (case dex_registers of
        [] \<Rightarrow> unlock_registers rt locks s
      | r # _ \<Rightarrow> do { ref \<leftarrow> GetVRegReference (frame s) r;
                      unlock_registers rt locks (DoMonitorExit rt ref s) })"

definition UnlockHeldMonitors :: "'w runtime \<Rightarrow> 'w interp \<Rightarrow> 'w interp option" where
  "UnlockHeldMonitors rt s =
     (if MustCountLocks rt then
        (case monitors (frame s) of None \<Rightarrow> Some s | Some ms \<Rightarrow> unlock_visited rt 0 (length ms) ms s)
      else unlock_registers rt (FindLocksAtDexPc rt (GetDexPC (frame s))) s)"

definition PerformNonStandardReturn :: "'w runtime \<Rightarrow> 'w interp \<Rightarrow> 'w interp option" where
  "PerformNonStandardReturn rt s =
     do { let s = (if IsExceptionPending s then ClearException s else s);
          s \<leftarrow> UnlockHeldMonitors rt s;
          let s = snd (DoMonitorCheckOnExit rt s);
          let s = s\<lparr>ctx_result := 0\<rparr>;
          if NeedsMethodExitEvent rt s
          then do { (_, result, s) \<leftarrow> SendMethodExitEvents rt (ctx_result s) s;
                    Some (s\<lparr>ctx_result := result\<rparr>) }
          else Some s }"

section \<open>Exceptions\<close>

definition InstanceOf :: "'w runtime \<Rightarrow> heap_memory \<Rightarrow> u32 \<Rightarrow> u32 \<Rightarrow> bool" where
  "InstanceOf rt h obj klass = IsAssignableFrom rt klass (GetClass h obj)"

definition VerifierInstanceOf :: "'w runtime \<Rightarrow> heap_memory \<Rightarrow> u32 \<Rightarrow> u32 \<Rightarrow> bool" where
  "VerifierInstanceOf rt h obj klass \<longleftrightarrow> IsInterface rt klass \<or> InstanceOf rt h obj klass"

text \<open>The test of one handler type, as the search of the catch block calls it: an unresolved
  class is skipped and the error cleared.\<close>

definition catch_type_matches :: "'w runtime \<Rightarrow> u32 \<Rightarrow> 'w interp \<Rightarrow> u16 \<Rightarrow> bool option \<times> 'w interp" where
  "catch_type_matches rt exception_type s type_idx =
     (let (klass, s) = ResolveClassFromTypeIndex rt type_idx s in
      if klass = 0 then (None, ClearException s) else (Some (IsAssignableFrom rt klass exception_type), s))"

text \<open>\<open>ArtMethod::FindCatchBlock\<close> sets the pending exception aside while the handler types are
  resolved; the type it looks for is an argument.\<close>

definition find_catch_block :: "'w runtime \<Rightarrow> u32 \<Rightarrow> u32 \<Rightarrow> 'w interp \<Rightarrow> (u32 \<times> bool \<times> 'w interp) option" where
  "find_catch_block rt exception_type dex_pc s =
     (let exc = exception s in
      do { (found_dex_pc, has_no_move_exception, s) \<leftarrow>
             FindCatchBlock (catch_type_matches rt exception_type) (accessor rt) dex_pc False (ClearException s);
           Some (found_dex_pc, has_no_move_exception, if exc \<noteq> 0 then SetException exc s else s) })"

definition MoveToExceptionHandler :: "'w runtime \<Rightarrow> bool \<Rightarrow> bool \<Rightarrow> 'w interp \<Rightarrow> (bool \<times> 'w interp) option" where
  "MoveToExceptionHandler rt skip_listeners skip_throw_listener s =
     (let exc = exception s;
          report = (\<not> skip_throw_listener \<and> HasListeners rt ExceptionThrownListeners s \<and>
                    IsExceptionThrownByCurrentMethod rt exc s);
          s = (if report then Event rt (ExceptionThrownEvent exc) s else s)
      in if report \<and> GetForcePopFrame (frame s) then Some (True, s)
         else do {
           (found_dex_pc, clear_exception, s) \<leftarrow>
             find_catch_block rt (GetClass (heap s) exc) (GetDexPC (frame s)) s;
           if found_dex_pc = kDexNoIndex then
             (if skip_listeners then Some (GetForcePopFrame (frame s), s)
              else let popped = NeedsNotifyPop (frame s);
                       s = (if popped then Event rt WatchedFramePopped s else s)
                   in if popped \<and> GetForcePopFrame (frame s) then Some (True, s)
                      else let s = Event rt (MethodUnwindEvent (GetDexPC (frame s))) s
                           in Some (GetForcePopFrame (frame s), s))
           else
             let s = s\<lparr>frame := SetDexPC (frame s) found_dex_pc\<rparr> in
             if \<not> skip_listeners \<and> HasListeners rt ExceptionHandledListeners s
             then Some (True, s\<lparr>frame := SetNotifyExceptionHandledEvent (frame s) True\<rparr>)
             else if clear_exception then Some (True, ClearException s)
             else Some (True, s) })"

section \<open>Calls and strings\<close>

definition DoInvoke :: "'w runtime \<Rightarrow> InvokeType \<Rightarrow> bool \<Rightarrow> int \<Rightarrow> u16 list \<Rightarrow> 'w interp \<Rightarrow> (bool \<times> 'w interp) option" where
  "DoInvoke rt type is_range pos inst s =
     (let (observed, s) = ObserveAsyncException s in
      if observed then Some (False, s)
      else do {
        vregC \<leftarrow> (if is_range then map_option unat (VRegC_3rc inst) else map_option unat (VRegC_35c inst));
        obj \<leftarrow> (if type = kStatic then Some 0 else GetVRegReference (frame s) vregC);
        let (called_method, string_init, s) = FindMethodToCall rt type obj pos s;
        if called_method = 0 then Some (False, s\<lparr>result_register := JValue_SetJ 0\<rparr>)
        else Some (DoCall rt is_range called_method pos string_init s) })"

definition DoInvokeCustom :: "'w runtime \<Rightarrow> bool \<Rightarrow> u16 list \<Rightarrow> u16 \<Rightarrow> 'w interp \<Rightarrow> (bool \<times> 'w interp) option" where
  "DoInvokeCustom rt is_range inst inst_data s =
     do { call_site_idx \<leftarrow> map_option ucast (if is_range then VRegB_3rc inst else VRegB_35c inst);
          if is_range then
            do { vregC \<leftarrow> VRegC_3rc inst;
                 Some (DoInvokeCustom_operands rt call_site_idx
                         (RangeInstructionOperands (ucast vregC) (ucast (VRegA_3rc inst_data))) s) }
          else
            do { (_, args) \<leftarrow> GetVarArgs inst inst_data;
                 Some (DoInvokeCustom_operands rt call_site_idx
                         (VarArgsInstructionOperands args (ucast (VRegA_35c inst_data))) s) } }"

definition ResolveString :: "'w runtime \<Rightarrow> u32 \<Rightarrow> 'w interp \<Rightarrow> u32 \<times> 'w interp" where
  "ResolveString rt string_idx s =
     (let (ok, s) = (if StringClassIsVisiblyInitialized rt s then (True, s) else EnsureStringClassInitialized rt s) in
      if ok then ClassLinker_ResolveString rt string_idx s else (0, s))"

section \<open>Fields\<close>

definition GetFieldValue :: "PrimitiveType \<Rightarrow> ShadowFrame \<Rightarrow> nat \<Rightarrow> JValue option" where
  "GetFieldValue field_type f vreg =
     (case field_type of
        kPrimBoolean \<Rightarrow> map_option (\<lambda>v. JValue_SetZ (ucast v)) (GetVReg f vreg)
      | kPrimByte \<Rightarrow> map_option (\<lambda>v. JValue_SetB (ucast v)) (GetVReg f vreg)
      | kPrimChar \<Rightarrow> map_option (\<lambda>v. JValue_SetC (ucast v)) (GetVReg f vreg)
      | kPrimShort \<Rightarrow> map_option (\<lambda>v. JValue_SetS (ucast v)) (GetVReg f vreg)
      | kPrimInt \<Rightarrow> map_option JValue_SetI (GetVReg f vreg)
      | kPrimLong \<Rightarrow> map_option JValue_SetJ (GetVRegLong f vreg)
      | kPrimNot \<Rightarrow> map_option JValue_SetL (GetVRegReference f vreg)
      | _ \<Rightarrow> None)"

text \<open>The answer of \<open>GetFieldInfo\<close> is the field (\<open>0\<close> for an instance field) and its offset;
  it is not defined when an exception is pending.\<close>

definition GetFieldInfo :: "'w runtime \<Rightarrow> int \<Rightarrow> bool \<Rightarrow> bool \<Rightarrow> 'w interp \<Rightarrow> (u64 \<times> nat) \<times> 'w interp" where
  "GetFieldInfo rt pos is_static resolve_field_type s =
     (let (tls_value, s) =
            (case InterpreterCache_Get rt pos s of
               Some v \<Rightarrow> (v, s)
             | None \<Rightarrow> if is_static then NterpGetStaticField rt pos resolve_field_type s
                       else map_prod ucast id (NterpGetInstanceFieldOffset rt pos s))
      in if is_static
         then (let field = tls_value AND NOT 1 in ((field, Field_GetOffset rt field), s))
         else ((0, nat \<bar>sint (ucast tls_value :: u32)\<bar>), s))"

definition field_get :: "PrimitiveType \<Rightarrow> heap_memory \<Rightarrow> u32 \<Rightarrow> nat \<Rightarrow> JValue option" where
  "field_get field_type h obj offset =
     (case field_type of
        kPrimBoolean \<Rightarrow> Some (JValue_SetZ (GetFieldBoolean h obj offset))
      | kPrimByte \<Rightarrow> Some (JValue_SetB (GetFieldByte h obj offset))
      | kPrimChar \<Rightarrow> Some (JValue_SetC (GetFieldChar h obj offset))
      | kPrimShort \<Rightarrow> Some (JValue_SetS (GetFieldShort h obj offset))
      | kPrimInt \<Rightarrow> Some (JValue_SetI (GetField32 h obj offset))
      | kPrimLong \<Rightarrow> Some (JValue_SetJ (GetField64 h obj offset))
      | kPrimNot \<Rightarrow> Some (JValue_SetL (GetFieldObject h obj offset))
      | _ \<Rightarrow> None)"

definition field_set :: "PrimitiveType \<Rightarrow> heap_memory \<Rightarrow> u32 \<Rightarrow> nat \<Rightarrow> JValue \<Rightarrow> heap_memory option" where
  "field_set field_type h obj offset val =
     (case field_type of
        kPrimBoolean \<Rightarrow> Some (SetFieldBoolean h obj offset (JValue_GetZ val))
      | kPrimByte \<Rightarrow> Some (SetFieldByte h obj offset (JValue_GetB val))
      | kPrimChar \<Rightarrow> Some (SetFieldChar h obj offset (JValue_GetC val))
      | kPrimShort \<Rightarrow> Some (SetFieldShort h obj offset (JValue_GetS val))
      | kPrimInt \<Rightarrow> Some (SetField32 h obj offset (JValue_GetI val))
      | kPrimLong \<Rightarrow> Some (SetField64 h obj offset (JValue_GetJ val))
      | kPrimNot \<Rightarrow> Some (SetFieldObject h obj offset (JValue_GetL val))
      | _ \<Rightarrow> None)"

definition DoFieldGetCommon :: "'w runtime \<Rightarrow> PrimitiveType \<Rightarrow> u32 \<Rightarrow> u64 \<Rightarrow> 'w interp \<Rightarrow> (JValue option \<times> 'w interp) option" where
  "DoFieldGetCommon rt field_type obj field s =
     (let report = HasListeners rt FieldReadListeners s;
          this_object = (if Field_IsStatic rt field then 0 else obj);
          s = (if report then Event rt (FieldReadEvent this_object (GetDexPC (frame s)) field) s else s)
      in if report \<and> IsExceptionPending s then Some (None, s)
         else do { v \<leftarrow> field_get field_type (heap s) obj (Field_GetOffset rt field); Some (Some v, s) })"

definition DoFieldPutCommon :: "'w runtime \<Rightarrow> PrimitiveType \<Rightarrow> u32 \<Rightarrow> u64 \<Rightarrow> JValue \<Rightarrow> 'w interp \<Rightarrow> (bool \<times> 'w interp) option" where
  "DoFieldPutCommon rt field_type obj field val s =
     (let report = HasListeners rt FieldWriteListeners s;
          this_object = (if Field_IsStatic rt field then 0 else obj);
          s = (if report then Event rt (FieldWriteEvent this_object (GetDexPC (frame s)) field val) s else s)
      in if report \<and> IsExceptionPending s then Some (False, s)
         else if report \<and> GetForcePopFrame (frame s) then Some (True, s)
         else
           let reg = JValue_GetL val;
               check_type = (field_type = kPrimNot \<and> reg \<noteq> 0 \<and> \<not> SkipAccessChecks rt);
               (field_class, s) = (if check_type then Field_ResolveType rt field s else (0, s))
           in if check_type \<and> field_class = 0 then Some (False, s)
              else if check_type \<and> \<not> VerifierInstanceOf rt (heap s) reg field_class
              then Some (False, Throw rt InternalError s)
              else do { h \<leftarrow> field_set field_type (heap s) obj (Field_GetOffset rt field) val;
                        Some (True, s\<lparr>heap := h\<rparr>) })"

section \<open>Arrays\<close>

text \<open>Byte \<open>i\<close> of a sequence of little-endian code units.\<close>

definition code_byte :: "u16 list \<Rightarrow> nat \<Rightarrow> u8" where
  "code_byte units i = (if even i then ucast (units ! (i div 2)) else ucast (drop_bit 8 (units ! (i div 2))))"

definition code_bytes :: "u16 list \<Rightarrow> nat \<Rightarrow> u8 list option" where
  "code_bytes units n = (if n \<le> 2 * length units then Some (map (code_byte units) [0..<n]) else None)"

definition FillArrayData :: "'w runtime \<Rightarrow> u32 \<Rightarrow> u16 list \<Rightarrow> 'w interp \<Rightarrow> (bool \<times> 'w interp) option" where
  "FillArrayData rt obj payload s =
     (if obj = 0 then Some (False, Throw rt NullPointerException s)
      else do {
        element_width \<leftarrow> Fetch16 payload 1;
        element_count \<leftarrow> Fetch32 payload 2;
        if sint (GetLength (heap s) obj) < sint element_count
        then Some (False, Throw rt (ArrayIndexOutOfBoundsException element_count (GetLength (heap s) obj)) s)
        else do {
          let size_in_bytes = element_count * ucast element_width;
          data \<leftarrow> code_bytes (drop 4 payload) (unat size_in_bytes);
          Some (True, s\<lparr>heap := copy_bytes (heap s) obj (GetRawData (unat element_width) 0) data\<rparr>) } })"

primrec fill_ints :: "heap_memory \<Rightarrow> u32 \<Rightarrow> nat \<Rightarrow> u32 list \<Rightarrow> heap_memory" where
  "fill_ints h array i [] = h"
| "fill_ints h array i (v # vs) = fill_ints (PrimitiveArray_SetWithoutChecks 4 h array (of_nat i) (ucast v)) array (i + 1) vs"

primrec fill_objects :: "heap_memory \<Rightarrow> u32 \<Rightarrow> nat \<Rightarrow> u32 list \<Rightarrow> heap_memory" where
  "fill_objects h array i [] = h"
| "fill_objects h array i (v # vs) = fill_objects (ObjectArray_SetWithoutChecks h array (of_nat i) v) array (i + 1) vs"

primrec read_all :: "(nat \<Rightarrow> 'a option) \<Rightarrow> nat list \<Rightarrow> 'a list option" where
  "read_all get [] = Some []"
| "read_all get (r # rs) = do { v \<leftarrow> get r; vs \<leftarrow> read_all get rs; Some (v # vs) }"

definition DoFilledNewArray :: "'w runtime \<Rightarrow> bool \<Rightarrow> u16 list \<Rightarrow> u16 \<Rightarrow> 'w interp \<Rightarrow> (bool \<times> 'w interp) option" where
  "DoFilledNewArray rt is_range inst inst_data s =
     (let array_length = (ucast (if is_range then VRegA_3rc inst_data else VRegA_35c inst_data) :: u32) in
      if \<not> is_range \<and> 5 <s array_length then None
      else if array_length <s 0 then Some (False, Throw rt (NegativeArraySizeException array_length) s)
      else do {
        type_idx \<leftarrow> (if is_range then VRegB_3rc inst else VRegB_35c inst);
        let (array_class, s) = ResolveVerifyAndClinit rt type_idx s;
        if array_class = 0 then Some (False, s)
        else if \<not> IsArrayClass rt array_class then None
        else
          let component_type = GetPrimitiveType rt (GetComponentType rt array_class) in
          if component_type \<noteq> kPrimNot \<and> component_type \<noteq> kPrimInt then Some (False, Throw rt InternalError s)
          else
            let (new_array, s) = Array_Alloc rt array_class array_length s in
            if new_array = 0 then Some (False, s)
            else do {
              regs \<leftarrow> (if is_range
                        then map_option (\<lambda>vregC. map (\<lambda>i. unat vregC + i) [0..<unat array_length]) (VRegC_3rc inst)
                        else map_option (\<lambda>(_, args). map unat args) (GetVarArgs inst inst_data));
              h \<leftarrow> (if component_type = kPrimInt
                     then map_option (fill_ints (heap s) new_array 0) (read_all (GetVReg (frame s)) regs)
                     else map_option (fill_objects (heap s) new_array 0) (read_all (GetVRegReference (frame s)) regs));
              Some (True, s\<lparr>heap := h, result_register := JValue_SetL new_array\<rparr>) } })"

end
