(* ===== verification/InterpreterSwitch.thy ===== *)
theory InterpreterSwitch
  imports InterpreterCommon
begin

text \<open>
  The instruction handlers of \<open>runtime/interpreter/interpreter_switch_impl-inl.h\<close>, compiled with
  \<open>transaction_active = false\<close>.  The class \<open>InstructionHandler\<close> is a record; its method
  \<open>ADD_INT\<close> is \<open>OP_ADD_INT\<close>, as the sources name the function that calls it, and likewise for the
  other opcodes.  A handler answers whether execution goes on normally, with the new state;
  \<open>None\<close> is an access outside the frame or the code, or a failed \<open>CHECK\<close>.
\<close>

section \<open>The handler object\<close>

text \<open>\<open>inst_pos\<close> is the address of the instruction, the index of its first code unit; \<open>inst\<close> the
  code units from there on.\<close>

record InstructionHandler =
  kFormat :: Format
  dex_pc :: u32
  inst_pos :: int
  inst :: "u16 list"
  inst_data :: u16

text \<open>The constructor takes the dex pc as a \<open>uint16_t\<close> and stores it in 32 bits.\<close>

definition InstructionHandler_new :: "Format \<Rightarrow> u32 \<Rightarrow> int \<Rightarrow> u16 list \<Rightarrow> u16 \<Rightarrow> InstructionHandler" where
  "InstructionHandler_new fmt pc pos i d =
     \<lparr>kFormat = fmt, dex_pc = ucast (ucast pc :: u16), inst_pos = pos, inst = i, inst_data = d\<rparr>"

type_synonym 'w handler = "'w runtime \<Rightarrow> InstructionHandler \<Rightarrow> 'w interp \<Rightarrow> (bool \<times> 'w interp) option"

definition operand_A :: "InstructionHandler \<Rightarrow> u32 option" where
  "operand_A h = VRegA (kFormat h) (inst h) (inst_data h)"

definition operand_B :: "InstructionHandler \<Rightarrow> u32 option" where
  "operand_B h = VRegB (kFormat h) (inst h) (inst_data h)"

definition operand_C :: "InstructionHandler \<Rightarrow> u32 option" where
  "operand_C h = VRegC (kFormat h) (inst h)"

text \<open>The registers the operands name, as an integer, a long or a reference; a float and a double
  are read as their bits.\<close>

definition GetVReg_A :: "InstructionHandler \<Rightarrow> 'w interp \<Rightarrow> u32 option" where
  "GetVReg_A h s = do { i \<leftarrow> operand_A h; GetVReg (frame s) (unat i) }"

definition GetVReg_B :: "InstructionHandler \<Rightarrow> 'w interp \<Rightarrow> u32 option" where
  "GetVReg_B h s = do { i \<leftarrow> operand_B h; GetVReg (frame s) (unat i) }"

definition GetVReg_C :: "InstructionHandler \<Rightarrow> 'w interp \<Rightarrow> u32 option" where
  "GetVReg_C h s = do { i \<leftarrow> operand_C h; GetVReg (frame s) (unat i) }"

definition GetVRegLong_A :: "InstructionHandler \<Rightarrow> 'w interp \<Rightarrow> u64 option" where
  "GetVRegLong_A h s = do { i \<leftarrow> operand_A h; GetVRegLong (frame s) (unat i) }"

definition GetVRegLong_B :: "InstructionHandler \<Rightarrow> 'w interp \<Rightarrow> u64 option" where
  "GetVRegLong_B h s = do { i \<leftarrow> operand_B h; GetVRegLong (frame s) (unat i) }"

definition GetVRegLong_C :: "InstructionHandler \<Rightarrow> 'w interp \<Rightarrow> u64 option" where
  "GetVRegLong_C h s = do { i \<leftarrow> operand_C h; GetVRegLong (frame s) (unat i) }"

definition GetVRegReference_A :: "InstructionHandler \<Rightarrow> 'w interp \<Rightarrow> u32 option" where
  "GetVRegReference_A h s = do { i \<leftarrow> operand_A h; GetVRegReference (frame s) (unat i) }"

definition GetVRegReference_B :: "InstructionHandler \<Rightarrow> 'w interp \<Rightarrow> u32 option" where
  "GetVRegReference_B h s = do { i \<leftarrow> operand_B h; GetVRegReference (frame s) (unat i) }"

definition GetVRegFloat_A :: "InstructionHandler \<Rightarrow> 'w interp \<Rightarrow> u32 option" where
  "GetVRegFloat_A h s = do { i \<leftarrow> operand_A h; GetVRegFloat (frame s) (unat i) }"

definition GetVRegFloat_B :: "InstructionHandler \<Rightarrow> 'w interp \<Rightarrow> u32 option" where
  "GetVRegFloat_B h s = do { i \<leftarrow> operand_B h; GetVRegFloat (frame s) (unat i) }"

definition GetVRegFloat_C :: "InstructionHandler \<Rightarrow> 'w interp \<Rightarrow> u32 option" where
  "GetVRegFloat_C h s = do { i \<leftarrow> operand_C h; GetVRegFloat (frame s) (unat i) }"

definition GetVRegDouble_A :: "InstructionHandler \<Rightarrow> 'w interp \<Rightarrow> u64 option" where
  "GetVRegDouble_A h s = do { i \<leftarrow> operand_A h; GetVRegDouble (frame s) (unat i) }"

definition GetVRegDouble_B :: "InstructionHandler \<Rightarrow> 'w interp \<Rightarrow> u64 option" where
  "GetVRegDouble_B h s = do { i \<leftarrow> operand_B h; GetVRegDouble (frame s) (unat i) }"

definition GetVRegDouble_C :: "InstructionHandler \<Rightarrow> 'w interp \<Rightarrow> u64 option" where
  "GetVRegDouble_C h s = do { i \<leftarrow> operand_C h; GetVRegDouble (frame s) (unat i) }"

text \<open>Storing into the register operand A names, as the last step of a handler.\<close>

definition SetVReg_A :: "InstructionHandler \<Rightarrow> u32 \<Rightarrow> 'w interp \<Rightarrow> (bool \<times> 'w interp) option" where
  "SetVReg_A h val s = do { i \<leftarrow> operand_A h; f \<leftarrow> SetVReg (frame s) (unat i) val; Some (True, s\<lparr>frame := f\<rparr>) }"

definition SetVRegLong_A :: "InstructionHandler \<Rightarrow> u64 \<Rightarrow> 'w interp \<Rightarrow> (bool \<times> 'w interp) option" where
  "SetVRegLong_A h val s = do { i \<leftarrow> operand_A h; f \<leftarrow> SetVRegLong (frame s) (unat i) val; Some (True, s\<lparr>frame := f\<rparr>) }"

definition SetVRegReference_A :: "InstructionHandler \<Rightarrow> u32 \<Rightarrow> 'w interp \<Rightarrow> (bool \<times> 'w interp) option" where
  "SetVRegReference_A h val s = do { i \<leftarrow> operand_A h; f \<leftarrow> SetVRegReference (frame s) (unat i) val; Some (True, s\<lparr>frame := f\<rparr>) }"

definition SetVRegFloat_A :: "InstructionHandler \<Rightarrow> u32 \<Rightarrow> 'w interp \<Rightarrow> (bool \<times> 'w interp) option" where
  "SetVRegFloat_A h val s = do { i \<leftarrow> operand_A h; f \<leftarrow> SetVRegFloat (frame s) (unat i) val; Some (True, s\<lparr>frame := f\<rparr>) }"

definition SetVRegDouble_A :: "InstructionHandler \<Rightarrow> u64 \<Rightarrow> 'w interp \<Rightarrow> (bool \<times> 'w interp) option" where
  "SetVRegDouble_A h val s = do { i \<leftarrow> operand_A h; f \<leftarrow> SetVRegDouble (frame s) (unat i) val; Some (True, s\<lparr>frame := f\<rparr>) }"

definition SetNextInstruction :: "int \<Rightarrow> 'w interp \<Rightarrow> 'w interp" where
  "SetNextInstruction next_pos s = s\<lparr>next_inst := next_pos\<rparr>"

definition ExitInterpreterLoop :: "'w interp \<Rightarrow> 'w interp" where
  "ExitInterpreterLoop s = s\<lparr>exit_interpreter_loop := True\<rparr>"

definition DoAssignabilityChecks :: "'w runtime \<Rightarrow> bool" where
  "DoAssignabilityChecks rt = (\<not> SkipAccessChecks rt)"

section \<open>Field instructions\<close>

definition DoFieldGet :: "bool \<Rightarrow> PrimitiveType \<Rightarrow> 'w handler" where
  "DoFieldGet is_static field_type rt h s =
     (let should_report = HasListeners rt FieldReadListeners s;
          ((field, offset), s) = GetFieldInfo rt (inst_pos h) is_static False s
      in if IsExceptionPending s then Some (False, s)
      else do {
        (stop, obj, field, s) \<leftarrow>
          (if is_static then
             (let obj = Field_GetDeclaringClass rt field in Some (ReadConstraint obj s, obj, field, s))
           else do {
             obj \<leftarrow> GetVRegReference (frame s) (unat (VRegB_22c (inst_data h)));
             if should_report \<or> obj = 0 then
               do { field_idx \<leftarrow> VRegC_22c (inst h);
                    let (field, s) = ResolveFieldWithAccessChecks rt field_idx False False s;
                    if obj = 0 then Some (True, obj, field, Throw rt NullPointerExceptionForFieldAccess s)
                    else do { obj \<leftarrow> GetVRegReference (frame s) (unat (VRegB_22c (inst_data h)));
                              Some (False, obj, field, s) } }
             else Some (False, obj, field, s) });
        if stop then Some (False, s)
        else do {
          let vregA = unat (if is_static then VRegA_21c (inst_data h) else VRegA_22c (inst_data h));
          (reported, s) \<leftarrow> (if should_report then DoFieldGetCommon rt field_type obj field s
                            else Some (None, s));
          if should_report \<and> reported = None then
            (if IsExceptionPending s then Some (False, s) else None)
          else do {
            f \<leftarrow> (case field_type of
                 kPrimBoolean \<Rightarrow> SetVReg (frame s) vregA (ucast (case reported of Some r \<Rightarrow> JValue_GetZ r | None \<Rightarrow> GetFieldBoolean (heap s) obj offset))
               | kPrimByte \<Rightarrow> SetVReg (frame s) vregA (scast (case reported of Some r \<Rightarrow> JValue_GetB r | None \<Rightarrow> GetFieldByte (heap s) obj offset))
               | kPrimChar \<Rightarrow> SetVReg (frame s) vregA (ucast (case reported of Some r \<Rightarrow> JValue_GetC r | None \<Rightarrow> GetFieldChar (heap s) obj offset))
               | kPrimShort \<Rightarrow> SetVReg (frame s) vregA (scast (case reported of Some r \<Rightarrow> JValue_GetS r | None \<Rightarrow> GetFieldShort (heap s) obj offset))
               | kPrimInt \<Rightarrow> SetVReg (frame s) vregA (case reported of Some r \<Rightarrow> JValue_GetI r | None \<Rightarrow> GetField32 (heap s) obj offset)
               | kPrimLong \<Rightarrow> SetVRegLong (frame s) vregA (case reported of Some r \<Rightarrow> JValue_GetJ r | None \<Rightarrow> GetField64 (heap s) obj offset)
               | kPrimNot \<Rightarrow> SetVRegReference (frame s) vregA (case reported of Some r \<Rightarrow> JValue_GetL r | None \<Rightarrow> GetFieldObject (heap s) obj offset)
               | _ \<Rightarrow> None);
            Some (True, s\<lparr>frame := f\<rparr>) } } })"

definition DoFieldPut :: "bool \<Rightarrow> PrimitiveType \<Rightarrow> 'w handler" where
  "DoFieldPut is_static field_type rt h s =
     (let should_report = HasListeners rt FieldWriteListeners s;
          vregA = unat (if is_static then VRegA_21c (inst_data h) else VRegA_22c (inst_data h))
      in do {
        ref \<leftarrow> GetVRegReference (frame s) vregA;
        let resolve_field_type = (ref \<noteq> 0);
        let ((field, offset), s) = GetFieldInfo rt (inst_pos h) is_static resolve_field_type s;
        if IsExceptionPending s then Some (False, s)
        else do {
          (stop, obj, field, s) \<leftarrow>
            (if is_static then Some (False, Field_GetDeclaringClass rt field, field, s)
             else do {
               obj \<leftarrow> GetVRegReference (frame s) (unat (VRegB_22c (inst_data h)));
               if should_report \<or> obj = 0 then
                 do { field_idx \<leftarrow> VRegC_22c (inst h);
                      let (field, s) = ResolveFieldWithAccessChecks rt field_idx True resolve_field_type s;
                      if obj = 0 then Some (True, obj, field, Throw rt NullPointerExceptionForFieldAccess s)
                      else do { obj \<leftarrow> GetVRegReference (frame s) (unat (VRegB_22c (inst_data h)));
                                Some (False, obj, field, s) } }
               else Some (False, obj, field, s) });
          if stop \<or> WriteConstraint obj s then Some (False, s)
          else do {
            val \<leftarrow> GetFieldValue field_type (frame s) vregA;
            if field_type = kPrimNot \<and> WriteValueConstraint (JValue_GetL val) s then Some (False, s)
            else if should_report then DoFieldPutCommon rt field_type obj field val s
            else do { mem \<leftarrow> field_set field_type (heap s) obj offset val;
                      Some (True, s\<lparr>heap := mem\<rparr>) } } } })"

section \<open>Shared parts of the handlers\<close>

definition CheckTransactionAbort :: "'w handler" where
  "CheckTransactionAbort rt h s =
     (if IsTransactionAborted s then
        do { let abort_exception = exception s;
             s \<leftarrow> PerformNonStandardReturn rt (ClearException s);
             Some (False, ExitInterpreterLoop (SetException abort_exception s)) }
      else Some (True, s))"

definition CheckForceReturn :: "'w handler" where
  "CheckForceReturn rt h s =
     (if GetForcePopFrame (frame s) then
        do { s \<leftarrow> PerformNonStandardReturn rt s; Some (False, ExitInterpreterLoop s) }
      else Some (True, s))"

definition HandlePendingException :: "'w handler" where
  "HandlePendingException rt h s =
     do { let s = AllowThreadSuspension rt s;
          (ok, s) \<leftarrow> CheckTransactionAbort rt h s;
          if \<not> ok then Some (False, s)
          else do {
            (ok, s) \<leftarrow> CheckForceReturn rt h s;
            if \<not> ok then Some (False, s)
            else do {
              let skip_event = GetSkipNextExceptionEvent (frame s);
              let s = s\<lparr>frame := SetSkipNextExceptionEvent (frame s) False\<rparr>;
              (found, s) \<leftarrow> MoveToExceptionHandler rt skip_event skip_event s;
              if \<not> found then
                (let s = snd (DoMonitorCheckOnExit rt s)
                 in Some (False, ExitInterpreterLoop (s\<lparr>ctx_result := 0\<rparr>)))
              else do {
                (ok, s) \<leftarrow> CheckForceReturn rt h s;
                if \<not> ok then Some (False, s)
                else let displacement = GetDexPC (frame s) - dex_pc h
                     in Some (True, SetNextInstruction (inst_pos h + sint displacement) s) } } } }"

definition PossiblyHandlePendingExceptionOnInvoke :: "bool \<Rightarrow> 'w handler" where
  "PossiblyHandlePendingExceptionOnInvoke is_exception_pending rt h s =
     (if GetForceRetryInstruction (frame s) then
        (let s = s\<lparr>frame := SetForceRetryInstruction (frame s) False\<rparr>;
             s = (if is_exception_pending then ClearException s else s)
         in Some (True, SetNextInstruction (inst_pos h) s))
      else if is_exception_pending then Some (False, s)
      else Some (True, s))"

definition Preamble :: "'w handler" where
  "Preamble rt h s =
     do { (ok, s) \<leftarrow> CheckForceReturn rt h s;
          if \<not> ok then Some (False, s)
          else do {
            (ok, s) \<leftarrow>
              (if GetNotifyDexPcMoveEvents (frame s) then
                 do { (ok, s) \<leftarrow> DoDexPcMoveEvent rt (dex_pc h) (Opcode (inst_data h) = MOVE_RESULT_OBJECT) s;
                      if \<not> ok then Some (False, s\<lparr>frame := SetSkipNextExceptionEvent (frame s) True\<rparr>)
                      else CheckForceReturn rt h s }
               else Some (True, s));
            if \<not> ok then Some (False, s)
            else if GetNotifyExceptionHandledEvent (frame s) then
              (let s = s\<lparr>frame := SetNotifyExceptionHandledEvent (frame s) False\<rparr>;
                   (ok, s) = HandledEvent rt (Opcode (inst_data h) = MOVE_EXCEPTION) s
               in if \<not> ok then Some (False, s) else CheckForceReturn rt h s)
            else Some (True, s) } }"

definition HandleReturn :: "JValue \<Rightarrow> 'w handler" where
  "HandleReturn result rt h s =
     (let s = AllowThreadSuspension rt s;
          (ok, s) = DoMonitorCheckOnExit rt s
      in if \<not> ok then Some (False, s)
      else do {
        (ok, result, s) \<leftarrow> (if NeedsMethodExitEvent rt s then SendMethodExitEvents rt result s
                            else Some (True, result, s));
        if \<not> ok then Some (False, s\<lparr>frame := SetSkipNextExceptionEvent (frame s) True\<rparr>)
        else Some (False, ExitInterpreterLoop (s\<lparr>ctx_result := result\<rparr>)) })"

definition HandleBranch :: "u32 \<Rightarrow> 'w handler" where
  "HandleBranch offset rt h s =
     (let (observed, s) = ObserveAsyncException s in
      if observed then Some (False, s)
      else
        let s = (if HasListeners rt BranchListeners s then Event rt (BranchEvent (dex_pc h) offset) s else s);
            (osr, s) = MaybeDoOnStackReplacement rt (dex_pc h) offset s
        in (case osr of
              Some result \<Rightarrow> Some (False, ExitInterpreterLoop (s\<lparr>ctx_result := result\<rparr>))
            | None \<Rightarrow>
                let s = SetNextInstruction (inst_pos h + sint offset) s in
                if offset \<le>s 0 then
                  (let s = AddSamples rt s;
                       s = s\<lparr>frame := SetDexPC (frame s) (word_of_int (next_inst s))\<rparr>
                   in Some (True, AllowThreadSuspension rt s))
                else Some (True, s)))"

definition HandleIf :: "bool \<Rightarrow> u32 \<Rightarrow> 'w handler" where
  "HandleIf cond offset rt h s =
     HandleBranch (if cond then offset else of_nat (SizeInCodeUnitsOfFormat (kFormat h))) rt h s"

text \<open>The comparisons of \<open>HandleCmpl\<close> and \<open>HandleCmpg\<close> are those of the type they are
  instantiated with.\<close>

definition HandleCmpl :: "('v \<Rightarrow> 'v \<Rightarrow> bool) \<Rightarrow> ('v \<Rightarrow> 'v \<Rightarrow> bool) \<Rightarrow> 'v \<Rightarrow> 'v \<Rightarrow> 'w handler" where
  "HandleCmpl lt eq val1 val2 rt h s =
     SetVReg_A h (if lt val2 val1 then 1 else if eq val1 val2 then 0 else - 1) s"

definition HandleCmpg :: "('v \<Rightarrow> 'v \<Rightarrow> bool) \<Rightarrow> ('v \<Rightarrow> 'v \<Rightarrow> bool) \<Rightarrow> 'v \<Rightarrow> 'v \<Rightarrow> 'w handler" where
  "HandleCmpg lt eq val1 val2 rt h s =
     SetVReg_A h (if lt val1 val2 then - 1 else if eq val1 val2 then 0 else 1) s"

definition HandleConstString :: "'w handler" where
  "HandleConstString rt h s =
     do { idx \<leftarrow> operand_B h;
          let (str, s) = ResolveString rt idx s;
          if str = 0 then Some (False, s) else SetVRegReference_A h str s }"

text \<open>\<open>load\<close> reads the element of the array type, converted to the register's type, and \<open>set_reg\<close>
  stores it.\<close>

definition HandleAGet ::
  "(heap_memory \<Rightarrow> u32 \<Rightarrow> u32 \<Rightarrow> 'v) \<Rightarrow> (InstructionHandler \<Rightarrow> 'v \<Rightarrow> 'w interp \<Rightarrow> (bool \<times> 'w interp) option) \<Rightarrow> 'w handler" where
  "HandleAGet load set_reg rt h s =
     do { array \<leftarrow> GetVRegReference_B h s;
          if array = 0 then Some (False, Throw rt NullPointerException s)
          else do {
            index \<leftarrow> GetVReg_C h s;
            if \<not> IsValidIndex (heap s) array index
            then Some (False, Throw rt (ArrayIndexOutOfBoundsException index (GetLength (heap s) array)) s)
            else set_reg h (load (heap s) array index) s } }"

definition HandleAPut :: "nat \<Rightarrow> u64 \<Rightarrow> 'w handler" where
  "HandleAPut component_size val rt h s =
     do { array \<leftarrow> GetVRegReference_B h s;
          if array = 0 then Some (False, Throw rt NullPointerException s)
          else do {
            index \<leftarrow> GetVReg_C h s;
            if \<not> IsValidIndex (heap s) array index
            then Some (False, Throw rt (ArrayIndexOutOfBoundsException index (GetLength (heap s) array)) s)
            else if WriteConstraint array s then Some (False, s)
            else Some (True, s\<lparr>heap := PrimitiveArray_SetWithoutChecks component_size (heap s) array index val\<rparr>) } }"

definition HandleInvoke :: "InvokeType \<Rightarrow> bool \<Rightarrow> 'w handler" where
  "HandleInvoke type is_range rt h s =
     do { (success, s) \<leftarrow> DoInvoke rt type is_range (inst_pos h) (inst h) s;
          PossiblyHandlePendingExceptionOnInvoke (\<not> success) rt h s }"

text \<open>\<open>UnexpectedOpcode\<close> ends the process.\<close>

definition HandleUnused :: "'w handler" where
  "HandleUnused rt h s = None"

end
