(* ===== verification/InterpreterOps.thy ===== *)
theory InterpreterOps
  imports InterpreterSwitch
begin

text \<open>
  The methods of \<open>InstructionHandler\<close> in \<open>runtime/interpreter/interpreter_switch_impl-inl.h\<close>, from
  \<open>NOP\<close> to \<open>USHR_INT_LIT8\<close>, in the order of the source, and the switch over them.  The method
  \<open>ADD_INT\<close> is \<open>OP_ADD_INT\<close>.  Families of methods that differ in one argument are lists of
  handlers, in the order of their opcodes: \<open>handlers_IGET\<close> holds \<open>IGET\<close>, \<open>IGET_WIDE\<close>,
  \<open>IGET_OBJECT\<close>, \<open>IGET_BOOLEAN\<close>, \<open>IGET_BYTE\<close>, \<open>IGET_CHAR\<close>, \<open>IGET_SHORT\<close>.
\<close>

section \<open>Moves\<close>

text \<open>The methods for the short, the \<open>FROM16\<close> and the \<open>16\<close> form of a move have the same text.\<close>

definition OP_NOP :: "'w handler" where
  "OP_NOP rt h s = Some (True, s)"

definition OP_MOVE :: "'w handler" where
  "OP_MOVE rt h s = do { v \<leftarrow> GetVReg_B h s; SetVReg_A h v s }"

definition OP_MOVE_WIDE :: "'w handler" where
  "OP_MOVE_WIDE rt h s = do { v \<leftarrow> GetVRegLong_B h s; SetVRegLong_A h v s }"

definition OP_MOVE_OBJECT :: "'w handler" where
  "OP_MOVE_OBJECT rt h s = do { v \<leftarrow> GetVRegReference_B h s; SetVRegReference_A h v s }"

definition OP_MOVE_RESULT :: "'w handler" where
  "OP_MOVE_RESULT rt h s = SetVReg_A h (JValue_GetI (result_register s)) s"

definition OP_MOVE_RESULT_WIDE :: "'w handler" where
  "OP_MOVE_RESULT_WIDE rt h s = SetVRegLong_A h (JValue_GetJ (result_register s)) s"

definition OP_MOVE_RESULT_OBJECT :: "'w handler" where
  "OP_MOVE_RESULT_OBJECT rt h s = SetVRegReference_A h (JValue_GetL (result_register s)) s"

definition OP_MOVE_EXCEPTION :: "'w handler" where
  "OP_MOVE_EXCEPTION rt h s = do { (ok, s) \<leftarrow> SetVRegReference_A h (exception s) s; Some (ok, ClearException s) }"

section \<open>Returns\<close>

definition OP_RETURN_VOID :: "'w handler" where
  "OP_RETURN_VOID rt h s = HandleReturn 0 rt h s"

definition OP_RETURN :: "'w handler" where
  "OP_RETURN rt h s = do { v \<leftarrow> GetVReg_A h s; HandleReturn (JValue_SetI v) rt h s }"

definition OP_RETURN_WIDE :: "'w handler" where
  "OP_RETURN_WIDE rt h s = do { v \<leftarrow> GetVRegLong_A h s; HandleReturn (JValue_SetJ v) rt h s }"

definition OP_RETURN_OBJECT :: "'w handler" where
  "OP_RETURN_OBJECT rt h s = 
     (let s = AllowThreadSuspension rt s;
          (ok, s) = DoMonitorCheckOnExit rt s
      in if \<not> ok then Some (False, s)
      else do {
        obj_result \<leftarrow> GetVRegReference_A h s;
        let check_type = (obj_result \<noteq> 0 \<and> DoAssignabilityChecks rt);
        let (return_type, s) = (if check_type then ResolveReturnType rt s else (0, s));
        obj_result \<leftarrow> (if check_type then GetVRegReference_A h s else Some obj_result);
        if check_type \<and> return_type = 0 then Some (False, s)
        else if check_type \<and> \<not> VerifierInstanceOf rt (heap s) obj_result return_type then
          (if target_sdk_version rt \<le> 29 then Some (False, Throw rt InternalError s) else None)
        else do {
          (ok, result, s) \<leftarrow>
            (if NeedsMethodExitEvent rt s
             then do { (ok, r, s) \<leftarrow> SendMethodExitEvents rt (JValue_SetL obj_result) s;
                       Some (ok, JValue_SetL (JValue_GetL r), s) }
             else Some (True, JValue_SetL obj_result, s));
          if \<not> ok then Some (False, s\<lparr>frame := SetSkipNextExceptionEvent (frame s) True\<rparr>)
          else Some (False, ExitInterpreterLoop (s\<lparr>ctx_result := result\<rparr>)) } })"

section \<open>Constants\<close>

text \<open>\<open>CONST_4\<close> and \<open>CONST_16\<close> read as \<open>CONST\<close>, \<open>CONST_WIDE_16\<close> as \<open>CONST_WIDE_32\<close>.\<close>

definition OP_CONST :: "'w handler" where
  "OP_CONST rt h s = do { b \<leftarrow> operand_B h; SetVReg_A h b s }"

definition OP_CONST_HIGH16 :: "'w handler" where
  "OP_CONST_HIGH16 rt h s = do { b \<leftarrow> operand_B h; SetVReg_A h (push_bit 16 b) s }"

definition OP_CONST_WIDE_32 :: "'w handler" where
  "OP_CONST_WIDE_32 rt h s = do { b \<leftarrow> operand_B h; SetVRegLong_A h (scast b) s }"

definition OP_CONST_WIDE :: "'w handler" where
  "OP_CONST_WIDE rt h s = do { b \<leftarrow> WideVRegB (inst h); SetVRegLong_A h b s }"

definition OP_CONST_WIDE_HIGH16 :: "'w handler" where
  "OP_CONST_WIDE_HIGH16 rt h s = do { b \<leftarrow> operand_B h; SetVRegLong_A h (push_bit 48 (scast b)) s }"

definition OP_CONST_CLASS :: "'w handler" where
  "OP_CONST_CLASS rt h s = 
     do { idx \<leftarrow> operand_B h;
          let (ref, s) = ResolveVerifyAndClinit rt (ucast idx) s;
          if ref = 0 then Some (False, s) else SetVRegReference_A h ref s }"

definition OP_CONST_METHOD_HANDLE :: "'w handler" where
  "OP_CONST_METHOD_HANDLE rt h s = 
     do { idx \<leftarrow> operand_B h;
          let (ref, s) = ResolveMethodHandle rt idx s;
          if ref = 0 then Some (False, s) else SetVRegReference_A h ref s }"

definition OP_CONST_METHOD_TYPE :: "'w handler" where
  "OP_CONST_METHOD_TYPE rt h s = 
     do { idx \<leftarrow> operand_B h;
          let (ref, s) = ResolveMethodType rt (ucast idx) s;
          if ref = 0 then Some (False, s) else SetVRegReference_A h ref s }"

section \<open>Monitors and type tests\<close>

definition OP_MONITOR_ENTER :: "'w handler" where
  "OP_MONITOR_ENTER rt h s = 
     (let (observed, s) = ObserveAsyncException s in
      if observed then Some (False, s)
      else do {
        obj \<leftarrow> GetVRegReference_A h s;
        if obj = 0 then Some (False, Throw rt NullPointerException s)
        else let s = DoMonitorEnter rt obj s in Some (\<not> IsExceptionPending s, s) })"

definition OP_MONITOR_EXIT :: "'w handler" where
  "OP_MONITOR_EXIT rt h s = 
     (let (observed, s) = ObserveAsyncException s in
      if observed then Some (False, s)
      else do {
        obj \<leftarrow> GetVRegReference_A h s;
        if obj = 0 then Some (False, Throw rt NullPointerException s)
        else let s = DoMonitorExit rt obj s in Some (\<not> IsExceptionPending s, s) })"

definition OP_CHECK_CAST :: "'w handler" where
  "OP_CHECK_CAST rt h s = 
     do { type_idx \<leftarrow> operand_B h;
          let (c, s) = ResolveVerifyAndClinit rt (ucast type_idx) s;
          if c = 0 then Some (False, s)
          else do {
            obj \<leftarrow> GetVRegReference_A h s;
            if obj \<noteq> 0 \<and> \<not> InstanceOf rt (heap s) obj c
            then Some (False, Throw rt (ClassCastException c (GetClass (heap s) obj)) s)
            else Some (True, s) } }"

definition OP_INSTANCE_OF :: "'w handler" where
  "OP_INSTANCE_OF rt h s = 
     do { type_idx \<leftarrow> operand_C h;
          let (c, s) = ResolveVerifyAndClinit rt (ucast type_idx) s;
          if c = 0 then Some (False, s)
          else do { obj \<leftarrow> GetVRegReference_B h s;
                    SetVReg_A h (if obj \<noteq> 0 \<and> InstanceOf rt (heap s) obj c then 1 else 0) s } }"

section \<open>Arrays and objects\<close>

definition OP_ARRAY_LENGTH :: "'w handler" where
  "OP_ARRAY_LENGTH rt h s = 
     do { array \<leftarrow> GetVRegReference_B h s;
          if array = 0 then Some (False, Throw rt NullPointerException s)
          else SetVReg_A h (GetLength (heap s) array) s }"

definition OP_NEW_INSTANCE :: "'w handler" where
  "OP_NEW_INSTANCE rt h s = 
     do { type_idx \<leftarrow> operand_B h;
          let (c, s) = ResolveVerifyAndClinit rt (ucast type_idx) s;
          if c \<noteq> 0 \<and> AllocationConstraint c s then Some (False, s)
          else
            let (obj, s) = (if c = 0 then (0, s)
                            else if IsStringClass rt c then AllocEmptyString rt s
                            else AllocObjectFromCode rt c s)
            in if obj = 0 then Some (False, s) else SetVRegReference_A h obj s }"

definition OP_NEW_ARRAY :: "'w handler" where
  "OP_NEW_ARRAY rt h s = 
     do { array_length \<leftarrow> GetVReg_B h s;
          type_idx \<leftarrow> operand_C h;
          let (array, s) = AllocArrayFromCode rt (ucast type_idx) array_length s;
          if array = 0 then Some (False, s) else SetVRegReference_A h array s }"

definition OP_FILLED_NEW_ARRAY :: "'w handler" where
  "OP_FILLED_NEW_ARRAY rt h s = DoFilledNewArray rt False (inst h) (inst_data h) s"

definition OP_FILLED_NEW_ARRAY_RANGE :: "'w handler" where
  "OP_FILLED_NEW_ARRAY_RANGE rt h s = DoFilledNewArray rt True (inst h) (inst_data h) s"

definition OP_FILL_ARRAY_DATA :: "'w handler" where
  "OP_FILL_ARRAY_DATA rt h s = 
     do { offset \<leftarrow> operand_B h;
          let payload = code_at (accessor rt) (inst_pos h + sint offset);
          obj \<leftarrow> GetVRegReference_A h s;
          FillArrayData rt obj payload s }"

definition OP_THROW :: "'w handler" where
  "OP_THROW rt h s = 
     (let (observed, s) = ObserveAsyncException s in
      if observed then Some (False, s)
      else do {
        exc \<leftarrow> GetVRegReference_A h s;
        if exc = 0 then Some (False, Throw rt NullPointerException s)
        else if DoAssignabilityChecks rt \<and> \<not> IsThrowableClass rt (GetClass (heap s) exc)
        then Some (False, Throw rt InternalError s)
        else Some (False, SetException exc s) })"

section \<open>Branches\<close>

definition OP_GOTO :: "'w handler" where
  "OP_GOTO rt h s = do { offset \<leftarrow> operand_A h; HandleBranch offset rt h s }"

definition OP_PACKED_SWITCH :: "'w handler" where
  "OP_PACKED_SWITCH rt h s = 
     do { offset \<leftarrow> DoPackedSwitch (accessor rt) (inst_pos h) (inst h) (inst_data h) (frame s);
          HandleBranch offset rt h s }"

definition OP_SPARSE_SWITCH :: "'w handler" where
  "OP_SPARSE_SWITCH rt h s = 
     do { offset \<leftarrow> DoSparseSwitch (accessor rt) (inst_pos h) (inst h) (inst_data h) (frame s);
          HandleBranch offset rt h s }"

definition OP_CMPL_FLOAT :: "'w handler" where
  "OP_CMPL_FLOAT rt h s = do { b \<leftarrow> GetVRegFloat_B h s; c \<leftarrow> GetVRegFloat_C h s; HandleCmpl fp_less fp_equal (float_val b) (float_val c) rt h s }"

definition OP_CMPG_FLOAT :: "'w handler" where
  "OP_CMPG_FLOAT rt h s = do { b \<leftarrow> GetVRegFloat_B h s; c \<leftarrow> GetVRegFloat_C h s; HandleCmpg fp_less fp_equal (float_val b) (float_val c) rt h s }"

definition OP_CMPL_DOUBLE :: "'w handler" where
  "OP_CMPL_DOUBLE rt h s = do { b \<leftarrow> GetVRegDouble_B h s; c \<leftarrow> GetVRegDouble_C h s; HandleCmpl fp_less fp_equal (double_val b) (double_val c) rt h s }"

definition OP_CMPG_DOUBLE :: "'w handler" where
  "OP_CMPG_DOUBLE rt h s = do { b \<leftarrow> GetVRegDouble_B h s; c \<leftarrow> GetVRegDouble_C h s; HandleCmpg fp_less fp_equal (double_val b) (double_val c) rt h s }"

definition OP_CMP_LONG :: "'w handler" where
  "OP_CMP_LONG rt h s = do { b \<leftarrow> GetVRegLong_B h s; c \<leftarrow> GetVRegLong_C h s; HandleCmpl (\<lambda>x y. x <s y) (=) b c rt h s }"

definition handlers_IF :: "'w handler list" where
  "handlers_IF =
     [\<lambda>rt h s. do { a \<leftarrow> GetVReg_A h s; b \<leftarrow> GetVReg_B h s; offset \<leftarrow> operand_C h; HandleIf (a = b) offset rt h s },
      \<lambda>rt h s. do { a \<leftarrow> GetVReg_A h s; b \<leftarrow> GetVReg_B h s; offset \<leftarrow> operand_C h; HandleIf (a \<noteq> b) offset rt h s },
      \<lambda>rt h s. do { a \<leftarrow> GetVReg_A h s; b \<leftarrow> GetVReg_B h s; offset \<leftarrow> operand_C h; HandleIf (a <s b) offset rt h s },
      \<lambda>rt h s. do { a \<leftarrow> GetVReg_A h s; b \<leftarrow> GetVReg_B h s; offset \<leftarrow> operand_C h; HandleIf (b \<le>s a) offset rt h s },
      \<lambda>rt h s. do { a \<leftarrow> GetVReg_A h s; b \<leftarrow> GetVReg_B h s; offset \<leftarrow> operand_C h; HandleIf (b <s a) offset rt h s },
      \<lambda>rt h s. do { a \<leftarrow> GetVReg_A h s; b \<leftarrow> GetVReg_B h s; offset \<leftarrow> operand_C h; HandleIf (a \<le>s b) offset rt h s }]"

definition handlers_IFZ :: "'w handler list" where
  "handlers_IFZ =
     [\<lambda>rt h s. do { a \<leftarrow> GetVReg_A h s; offset \<leftarrow> operand_B h; HandleIf (a = 0) offset rt h s },
      \<lambda>rt h s. do { a \<leftarrow> GetVReg_A h s; offset \<leftarrow> operand_B h; HandleIf (a \<noteq> 0) offset rt h s },
      \<lambda>rt h s. do { a \<leftarrow> GetVReg_A h s; offset \<leftarrow> operand_B h; HandleIf (a <s 0) offset rt h s },
      \<lambda>rt h s. do { a \<leftarrow> GetVReg_A h s; offset \<leftarrow> operand_B h; HandleIf (0 \<le>s a) offset rt h s },
      \<lambda>rt h s. do { a \<leftarrow> GetVReg_A h s; offset \<leftarrow> operand_B h; HandleIf (0 <s a) offset rt h s },
      \<lambda>rt h s. do { a \<leftarrow> GetVReg_A h s; offset \<leftarrow> operand_B h; HandleIf (a \<le>s 0) offset rt h s }]"

section \<open>Array elements\<close>

definition handlers_AGET :: "'w handler list" where
  "handlers_AGET =
     [\<lambda>rt h s. HandleAGet (\<lambda>m array i. ucast (PrimitiveArray_GetWithoutChecks 4 m array i)) SetVReg_A rt h s,
      \<lambda>rt h s. HandleAGet (PrimitiveArray_GetWithoutChecks 8) SetVRegLong_A rt h s,
      \<lambda>rt h s. HandleAGet ObjectArray_GetWithoutChecks SetVRegReference_A rt h s,
      \<lambda>rt h s. HandleAGet (\<lambda>m array i. ucast (ucast (PrimitiveArray_GetWithoutChecks 1 m array i) :: u8)) SetVReg_A rt h s,
      \<lambda>rt h s. HandleAGet (\<lambda>m array i. scast (ucast (PrimitiveArray_GetWithoutChecks 1 m array i) :: u8)) SetVReg_A rt h s,
      \<lambda>rt h s. HandleAGet (\<lambda>m array i. ucast (ucast (PrimitiveArray_GetWithoutChecks 2 m array i) :: u16)) SetVReg_A rt h s,
      \<lambda>rt h s. HandleAGet (\<lambda>m array i. scast (ucast (PrimitiveArray_GetWithoutChecks 2 m array i) :: u16)) SetVReg_A rt h s]"

definition OP_APUT_OBJECT :: "'w handler" where
  "OP_APUT_OBJECT rt h s = 
     do { array \<leftarrow> GetVRegReference_B h s;
          if array = 0 then Some (False, Throw rt NullPointerException s)
          else do {
            index \<leftarrow> GetVReg_C h s;
            val \<leftarrow> GetVRegReference_A h s;
            if \<not> IsValidIndex (heap s) array index
            then Some (False, Throw rt (ArrayIndexOutOfBoundsException index (GetLength (heap s) array)) s)
            else if val \<noteq> 0 \<and> \<not> InstanceOf rt (heap s) val (GetComponentType rt (GetClass (heap s) array))
            then Some (False, Throw rt (ArrayStoreException val) s)
            else if WriteConstraint array s \<or> WriteValueConstraint val s then Some (False, s)
            else Some (True, s\<lparr>heap := ObjectArray_SetWithoutChecks (heap s) array index val\<rparr>) } }"

definition handlers_APUT :: "'w handler list" where
  "handlers_APUT =
     [\<lambda>rt h s. do { v \<leftarrow> GetVReg_A h s; HandleAPut 4 (ucast v) rt h s },
      \<lambda>rt h s. do { v \<leftarrow> GetVRegLong_A h s; HandleAPut 8 v rt h s },
      \<lambda>rt h s. OP_APUT_OBJECT rt h s,
      \<lambda>rt h s. do { v \<leftarrow> GetVReg_A h s; HandleAPut 1 (ucast (ucast v :: u8)) rt h s },
      \<lambda>rt h s. do { v \<leftarrow> GetVReg_A h s; HandleAPut 1 (ucast (ucast v :: u8)) rt h s },
      \<lambda>rt h s. do { v \<leftarrow> GetVReg_A h s; HandleAPut 2 (ucast (ucast v :: u16)) rt h s },
      \<lambda>rt h s. do { v \<leftarrow> GetVReg_A h s; HandleAPut 2 (ucast (ucast v :: u16)) rt h s }]"

section \<open>Fields\<close>

definition handlers_IGET :: "'w handler list" where
  "handlers_IGET =
     [\<lambda>rt h s. DoFieldGet False kPrimInt rt h s,
      \<lambda>rt h s. DoFieldGet False kPrimLong rt h s,
      \<lambda>rt h s. DoFieldGet False kPrimNot rt h s,
      \<lambda>rt h s. DoFieldGet False kPrimBoolean rt h s,
      \<lambda>rt h s. DoFieldGet False kPrimByte rt h s,
      \<lambda>rt h s. DoFieldGet False kPrimChar rt h s,
      \<lambda>rt h s. DoFieldGet False kPrimShort rt h s]"

definition handlers_SGET :: "'w handler list" where
  "handlers_SGET =
     [\<lambda>rt h s. DoFieldGet True kPrimInt rt h s,
      \<lambda>rt h s. DoFieldGet True kPrimLong rt h s,
      \<lambda>rt h s. DoFieldGet True kPrimNot rt h s,
      \<lambda>rt h s. DoFieldGet True kPrimBoolean rt h s,
      \<lambda>rt h s. DoFieldGet True kPrimByte rt h s,
      \<lambda>rt h s. DoFieldGet True kPrimChar rt h s,
      \<lambda>rt h s. DoFieldGet True kPrimShort rt h s]"

definition handlers_IPUT :: "'w handler list" where
  "handlers_IPUT =
     [\<lambda>rt h s. DoFieldPut False kPrimInt rt h s,
      \<lambda>rt h s. DoFieldPut False kPrimLong rt h s,
      \<lambda>rt h s. DoFieldPut False kPrimNot rt h s,
      \<lambda>rt h s. DoFieldPut False kPrimBoolean rt h s,
      \<lambda>rt h s. DoFieldPut False kPrimByte rt h s,
      \<lambda>rt h s. DoFieldPut False kPrimChar rt h s,
      \<lambda>rt h s. DoFieldPut False kPrimShort rt h s]"

definition handlers_SPUT :: "'w handler list" where
  "handlers_SPUT =
     [\<lambda>rt h s. DoFieldPut True kPrimInt rt h s,
      \<lambda>rt h s. DoFieldPut True kPrimLong rt h s,
      \<lambda>rt h s. DoFieldPut True kPrimNot rt h s,
      \<lambda>rt h s. DoFieldPut True kPrimBoolean rt h s,
      \<lambda>rt h s. DoFieldPut True kPrimByte rt h s,
      \<lambda>rt h s. DoFieldPut True kPrimChar rt h s,
      \<lambda>rt h s. DoFieldPut True kPrimShort rt h s]"

section \<open>Calls\<close>

definition handlers_INVOKE :: "'w handler list" where
  "handlers_INVOKE =
     [\<lambda>rt h s. HandleInvoke kVirtual False rt h s,
      \<lambda>rt h s. HandleInvoke kSuper False rt h s,
      \<lambda>rt h s. HandleInvoke kDirect False rt h s,
      \<lambda>rt h s. HandleInvoke kStatic False rt h s,
      \<lambda>rt h s. HandleInvoke kInterface False rt h s]"

definition handlers_INVOKE_RANGE :: "'w handler list" where
  "handlers_INVOKE_RANGE =
     [\<lambda>rt h s. HandleInvoke kVirtual True rt h s,
      \<lambda>rt h s. HandleInvoke kSuper True rt h s,
      \<lambda>rt h s. HandleInvoke kDirect True rt h s,
      \<lambda>rt h s. HandleInvoke kStatic True rt h s,
      \<lambda>rt h s. HandleInvoke kInterface True rt h s]"

definition OP_INVOKE_POLYMORPHIC :: "'w handler" where
  "OP_INVOKE_POLYMORPHIC rt h s = 
     (let (success, s) = DoInvokePolymorphic rt False (inst_pos h) s
      in PossiblyHandlePendingExceptionOnInvoke (\<not> success) rt h s)"

definition OP_INVOKE_POLYMORPHIC_RANGE :: "'w handler" where
  "OP_INVOKE_POLYMORPHIC_RANGE rt h s = 
     (let (success, s) = DoInvokePolymorphic rt True (inst_pos h) s
      in PossiblyHandlePendingExceptionOnInvoke (\<not> success) rt h s)"

definition OP_INVOKE_CUSTOM :: "'w handler" where
  "OP_INVOKE_CUSTOM rt h s = 
     do { (success, s) \<leftarrow> DoInvokeCustom rt False (inst h) (inst_data h) s;
          PossiblyHandlePendingExceptionOnInvoke (\<not> success) rt h s }"

definition OP_INVOKE_CUSTOM_RANGE :: "'w handler" where
  "OP_INVOKE_CUSTOM_RANGE rt h s = 
     do { (success, s) \<leftarrow> DoInvokeCustom rt True (inst h) (inst_data h) s;
          PossiblyHandlePendingExceptionOnInvoke (\<not> success) rt h s }"

section \<open>Unary operations and conversions\<close>

text \<open>The negation of the least integer is a signed overflow, which is undefined.\<close>

definition OP_NEG_INT :: "'w handler" where
  "OP_NEG_INT rt h s = do { b \<leftarrow> GetVReg_B h s; if b = 0x80000000 then None else SetVReg_A h (- b) s }"

definition OP_NOT_INT :: "'w handler" where
  "OP_NOT_INT rt h s = do { b \<leftarrow> GetVReg_B h s; SetVReg_A h (NOT b) s }"

definition OP_NEG_LONG :: "'w handler" where
  "OP_NEG_LONG rt h s =
     do { b \<leftarrow> GetVRegLong_B h s; if b = 0x8000000000000000 then None else SetVRegLong_A h (- b) s }"

definition OP_NOT_LONG :: "'w handler" where
  "OP_NOT_LONG rt h s = do { b \<leftarrow> GetVRegLong_B h s; SetVRegLong_A h (NOT b) s }"

definition OP_NEG_FLOAT :: "'w handler" where
  "OP_NEG_FLOAT rt h s = do { b \<leftarrow> GetVRegFloat_B h s; SetVRegFloat_A h (float_neg b) s }"

definition OP_NEG_DOUBLE :: "'w handler" where
  "OP_NEG_DOUBLE rt h s = do { b \<leftarrow> GetVRegDouble_B h s; SetVRegDouble_A h (double_neg b) s }"

definition OP_INT_TO_LONG :: "'w handler" where
  "OP_INT_TO_LONG rt h s = do { b \<leftarrow> GetVReg_B h s; SetVRegLong_A h (scast b) s }"

definition OP_INT_TO_FLOAT :: "'w handler" where
  "OP_INT_TO_FLOAT rt h s = do { b \<leftarrow> GetVReg_B h s; SetVRegFloat_A h (int_to_float (sint b)) s }"

definition OP_INT_TO_DOUBLE :: "'w handler" where
  "OP_INT_TO_DOUBLE rt h s = do { b \<leftarrow> GetVReg_B h s; SetVRegDouble_A h (int_to_double (sint b)) s }"

definition OP_LONG_TO_INT :: "'w handler" where
  "OP_LONG_TO_INT rt h s = do { b \<leftarrow> GetVRegLong_B h s; SetVReg_A h (ucast b) s }"

definition OP_LONG_TO_FLOAT :: "'w handler" where
  "OP_LONG_TO_FLOAT rt h s = do { b \<leftarrow> GetVRegLong_B h s; SetVRegFloat_A h (int_to_float (sint b)) s }"

definition OP_LONG_TO_DOUBLE :: "'w handler" where
  "OP_LONG_TO_DOUBLE rt h s = do { b \<leftarrow> GetVRegLong_B h s; SetVRegDouble_A h (int_to_double (sint b)) s }"

definition OP_FLOAT_TO_INT :: "'w handler" where
  "OP_FLOAT_TO_INT rt h s = do { b \<leftarrow> GetVRegFloat_B h s; SetVReg_A h (float_to_int32 b) s }"

definition OP_FLOAT_TO_LONG :: "'w handler" where
  "OP_FLOAT_TO_LONG rt h s = do { b \<leftarrow> GetVRegFloat_B h s; SetVRegLong_A h (float_to_int64 b) s }"

definition OP_FLOAT_TO_DOUBLE :: "'w handler" where
  "OP_FLOAT_TO_DOUBLE rt h s = do { b \<leftarrow> GetVRegFloat_B h s; SetVRegDouble_A h (float_to_double b) s }"

definition OP_DOUBLE_TO_INT :: "'w handler" where
  "OP_DOUBLE_TO_INT rt h s = do { b \<leftarrow> GetVRegDouble_B h s; SetVReg_A h (double_to_int32 b) s }"

definition OP_DOUBLE_TO_LONG :: "'w handler" where
  "OP_DOUBLE_TO_LONG rt h s = do { b \<leftarrow> GetVRegDouble_B h s; SetVRegLong_A h (double_to_int64 b) s }"

definition OP_DOUBLE_TO_FLOAT :: "'w handler" where
  "OP_DOUBLE_TO_FLOAT rt h s = do { b \<leftarrow> GetVRegDouble_B h s; SetVRegFloat_A h (double_to_float b) s }"

definition OP_INT_TO_BYTE :: "'w handler" where
  "OP_INT_TO_BYTE rt h s = do { b \<leftarrow> GetVReg_B h s; SetVReg_A h (scast (ucast b :: u8)) s }"

definition OP_INT_TO_CHAR :: "'w handler" where
  "OP_INT_TO_CHAR rt h s = do { b \<leftarrow> GetVReg_B h s; SetVReg_A h (ucast (ucast b :: u16)) s }"

definition OP_INT_TO_SHORT :: "'w handler" where
  "OP_INT_TO_SHORT rt h s = do { b \<leftarrow> GetVReg_B h s; SetVReg_A h (scast (ucast b :: u16)) s }"

section \<open>Binary operations\<close>

definition OP_ADD_INT :: "'w handler" where
  "OP_ADD_INT rt h s = do { x \<leftarrow> GetVReg_B h s; y \<leftarrow> GetVReg_C h s; SetVReg_A h (SafeAdd x y) s }"

definition OP_SUB_INT :: "'w handler" where
  "OP_SUB_INT rt h s = do { x \<leftarrow> GetVReg_B h s; y \<leftarrow> GetVReg_C h s; SetVReg_A h (SafeSub x y) s }"

definition OP_MUL_INT :: "'w handler" where
  "OP_MUL_INT rt h s = do { x \<leftarrow> GetVReg_B h s; y \<leftarrow> GetVReg_C h s; SetVReg_A h (SafeMul x y) s }"

definition OP_DIV_INT :: "'w handler" where
  "OP_DIV_INT rt h s = do { x \<leftarrow> GetVReg_B h s; y \<leftarrow> GetVReg_C h s; a \<leftarrow> operand_A h; DoIntDivide rt (unat a) x y s }"

definition OP_REM_INT :: "'w handler" where
  "OP_REM_INT rt h s = do { x \<leftarrow> GetVReg_B h s; y \<leftarrow> GetVReg_C h s; a \<leftarrow> operand_A h; DoIntRemainder rt (unat a) x y s }"

definition OP_SHL_INT :: "'w handler" where
  "OP_SHL_INT rt h s = do { x \<leftarrow> GetVReg_B h s; y \<leftarrow> GetVReg_C h s; SetVReg_A h (push_bit (unat (y AND 0x1f)) x) s }"

definition OP_SHR_INT :: "'w handler" where
  "OP_SHR_INT rt h s = do { x \<leftarrow> GetVReg_B h s; y \<leftarrow> GetVReg_C h s; SetVReg_A h (signed_drop_bit (unat (y AND 0x1f)) x) s }"

definition OP_USHR_INT :: "'w handler" where
  "OP_USHR_INT rt h s = do { x \<leftarrow> GetVReg_B h s; y \<leftarrow> GetVReg_C h s; SetVReg_A h (drop_bit (unat (y AND 0x1f)) x) s }"

definition OP_AND_INT :: "'w handler" where
  "OP_AND_INT rt h s = do { x \<leftarrow> GetVReg_B h s; y \<leftarrow> GetVReg_C h s; SetVReg_A h (x AND y) s }"

definition OP_OR_INT :: "'w handler" where
  "OP_OR_INT rt h s = do { x \<leftarrow> GetVReg_B h s; y \<leftarrow> GetVReg_C h s; SetVReg_A h (x OR y) s }"

definition OP_XOR_INT :: "'w handler" where
  "OP_XOR_INT rt h s = do { x \<leftarrow> GetVReg_B h s; y \<leftarrow> GetVReg_C h s; SetVReg_A h (x XOR y) s }"

definition OP_ADD_LONG :: "'w handler" where
  "OP_ADD_LONG rt h s = do { x \<leftarrow> GetVRegLong_B h s; y \<leftarrow> GetVRegLong_C h s; SetVRegLong_A h (SafeAdd x y) s }"

definition OP_SUB_LONG :: "'w handler" where
  "OP_SUB_LONG rt h s = do { x \<leftarrow> GetVRegLong_B h s; y \<leftarrow> GetVRegLong_C h s; SetVRegLong_A h (SafeSub x y) s }"

definition OP_MUL_LONG :: "'w handler" where
  "OP_MUL_LONG rt h s = do { x \<leftarrow> GetVRegLong_B h s; y \<leftarrow> GetVRegLong_C h s; SetVRegLong_A h (SafeMul x y) s }"

definition OP_DIV_LONG :: "'w handler" where
  "OP_DIV_LONG rt h s = do { x \<leftarrow> GetVRegLong_B h s; y \<leftarrow> GetVRegLong_C h s; a \<leftarrow> operand_A h; DoLongDivide rt (unat a) x y s }"

definition OP_REM_LONG :: "'w handler" where
  "OP_REM_LONG rt h s = do { x \<leftarrow> GetVRegLong_B h s; y \<leftarrow> GetVRegLong_C h s; a \<leftarrow> operand_A h; DoLongRemainder rt (unat a) x y s }"

definition OP_AND_LONG :: "'w handler" where
  "OP_AND_LONG rt h s = do { x \<leftarrow> GetVRegLong_B h s; y \<leftarrow> GetVRegLong_C h s; SetVRegLong_A h (x AND y) s }"

definition OP_OR_LONG :: "'w handler" where
  "OP_OR_LONG rt h s = do { x \<leftarrow> GetVRegLong_B h s; y \<leftarrow> GetVRegLong_C h s; SetVRegLong_A h (x OR y) s }"

definition OP_XOR_LONG :: "'w handler" where
  "OP_XOR_LONG rt h s = do { x \<leftarrow> GetVRegLong_B h s; y \<leftarrow> GetVRegLong_C h s; SetVRegLong_A h (x XOR y) s }"

definition OP_SHL_LONG :: "'w handler" where
  "OP_SHL_LONG rt h s = do { x \<leftarrow> GetVRegLong_B h s; y \<leftarrow> GetVReg_C h s; SetVRegLong_A h (push_bit (unat (y AND 0x3f)) x) s }"

definition OP_SHR_LONG :: "'w handler" where
  "OP_SHR_LONG rt h s = do { x \<leftarrow> GetVRegLong_B h s; y \<leftarrow> GetVReg_C h s; SetVRegLong_A h (signed_drop_bit (unat (y AND 0x3f)) x) s }"

definition OP_USHR_LONG :: "'w handler" where
  "OP_USHR_LONG rt h s = do { x \<leftarrow> GetVRegLong_B h s; y \<leftarrow> GetVReg_C h s; SetVRegLong_A h (drop_bit (unat (y AND 0x3f)) x) s }"

definition OP_ADD_FLOAT :: "'w handler" where
  "OP_ADD_FLOAT rt h s = do { x \<leftarrow> GetVRegFloat_B h s; y \<leftarrow> GetVRegFloat_C h s; SetVRegFloat_A h (float_add x y) s }"

definition OP_SUB_FLOAT :: "'w handler" where
  "OP_SUB_FLOAT rt h s = do { x \<leftarrow> GetVRegFloat_B h s; y \<leftarrow> GetVRegFloat_C h s; SetVRegFloat_A h (float_sub x y) s }"

definition OP_MUL_FLOAT :: "'w handler" where
  "OP_MUL_FLOAT rt h s = do { x \<leftarrow> GetVRegFloat_B h s; y \<leftarrow> GetVRegFloat_C h s; SetVRegFloat_A h (float_mul x y) s }"

definition OP_DIV_FLOAT :: "'w handler" where
  "OP_DIV_FLOAT rt h s = do { x \<leftarrow> GetVRegFloat_B h s; y \<leftarrow> GetVRegFloat_C h s; SetVRegFloat_A h (float_div x y) s }"

definition OP_REM_FLOAT :: "'w handler" where
  "OP_REM_FLOAT rt h s = do { x \<leftarrow> GetVRegFloat_B h s; y \<leftarrow> GetVRegFloat_C h s; SetVRegFloat_A h (fmodf x y) s }"

definition OP_ADD_DOUBLE :: "'w handler" where
  "OP_ADD_DOUBLE rt h s = do { x \<leftarrow> GetVRegDouble_B h s; y \<leftarrow> GetVRegDouble_C h s; SetVRegDouble_A h (double_add x y) s }"

definition OP_SUB_DOUBLE :: "'w handler" where
  "OP_SUB_DOUBLE rt h s = do { x \<leftarrow> GetVRegDouble_B h s; y \<leftarrow> GetVRegDouble_C h s; SetVRegDouble_A h (double_sub x y) s }"

definition OP_MUL_DOUBLE :: "'w handler" where
  "OP_MUL_DOUBLE rt h s = do { x \<leftarrow> GetVRegDouble_B h s; y \<leftarrow> GetVRegDouble_C h s; SetVRegDouble_A h (double_mul x y) s }"

definition OP_DIV_DOUBLE :: "'w handler" where
  "OP_DIV_DOUBLE rt h s = do { x \<leftarrow> GetVRegDouble_B h s; y \<leftarrow> GetVRegDouble_C h s; SetVRegDouble_A h (double_div x y) s }"

definition OP_REM_DOUBLE :: "'w handler" where
  "OP_REM_DOUBLE rt h s = do { x \<leftarrow> GetVRegDouble_B h s; y \<leftarrow> GetVRegDouble_C h s; SetVRegDouble_A h (fmod x y) s }"

section \<open>Binary operations on the destination\<close>

definition handlers_INT_2ADDR :: "'w handler list" where
  "handlers_INT_2ADDR =
     [\<lambda>rt h s. do { x \<leftarrow> GetVReg_A h s; y \<leftarrow> GetVReg_B h s; SetVReg_A h (SafeAdd x y) s },
      \<lambda>rt h s. do { x \<leftarrow> GetVReg_A h s; y \<leftarrow> GetVReg_B h s; SetVReg_A h (SafeSub x y) s },
      \<lambda>rt h s. do { x \<leftarrow> GetVReg_A h s; y \<leftarrow> GetVReg_B h s; SetVReg_A h (SafeMul x y) s },
      \<lambda>rt h s. do { x \<leftarrow> GetVReg_A h s; y \<leftarrow> GetVReg_B h s; a \<leftarrow> operand_A h; DoIntDivide rt (unat a) x y s },
      \<lambda>rt h s. do { x \<leftarrow> GetVReg_A h s; y \<leftarrow> GetVReg_B h s; a \<leftarrow> operand_A h; DoIntRemainder rt (unat a) x y s },
      \<lambda>rt h s. do { x \<leftarrow> GetVReg_A h s; y \<leftarrow> GetVReg_B h s; SetVReg_A h (x AND y) s },
      \<lambda>rt h s. do { x \<leftarrow> GetVReg_A h s; y \<leftarrow> GetVReg_B h s; SetVReg_A h (x OR y) s },
      \<lambda>rt h s. do { x \<leftarrow> GetVReg_A h s; y \<leftarrow> GetVReg_B h s; SetVReg_A h (x XOR y) s },
      \<lambda>rt h s. do { x \<leftarrow> GetVReg_A h s; y \<leftarrow> GetVReg_B h s; SetVReg_A h (push_bit (unat (y AND 0x1f)) x) s },
      \<lambda>rt h s. do { x \<leftarrow> GetVReg_A h s; y \<leftarrow> GetVReg_B h s; SetVReg_A h (signed_drop_bit (unat (y AND 0x1f)) x) s },
      \<lambda>rt h s. do { x \<leftarrow> GetVReg_A h s; y \<leftarrow> GetVReg_B h s; SetVReg_A h (drop_bit (unat (y AND 0x1f)) x) s }]"

definition handlers_LONG_2ADDR :: "'w handler list" where
  "handlers_LONG_2ADDR =
     [\<lambda>rt h s. do { x \<leftarrow> GetVRegLong_A h s; y \<leftarrow> GetVRegLong_B h s; SetVRegLong_A h (SafeAdd x y) s },
      \<lambda>rt h s. do { x \<leftarrow> GetVRegLong_A h s; y \<leftarrow> GetVRegLong_B h s; SetVRegLong_A h (SafeSub x y) s },
      \<lambda>rt h s. do { x \<leftarrow> GetVRegLong_A h s; y \<leftarrow> GetVRegLong_B h s; SetVRegLong_A h (SafeMul x y) s },
      \<lambda>rt h s. do { x \<leftarrow> GetVRegLong_A h s; y \<leftarrow> GetVRegLong_B h s; a \<leftarrow> operand_A h; DoLongDivide rt (unat a) x y s },
      \<lambda>rt h s. do { x \<leftarrow> GetVRegLong_A h s; y \<leftarrow> GetVRegLong_B h s; a \<leftarrow> operand_A h; DoLongRemainder rt (unat a) x y s },
      \<lambda>rt h s. do { x \<leftarrow> GetVRegLong_A h s; y \<leftarrow> GetVRegLong_B h s; SetVRegLong_A h (x AND y) s },
      \<lambda>rt h s. do { x \<leftarrow> GetVRegLong_A h s; y \<leftarrow> GetVRegLong_B h s; SetVRegLong_A h (x OR y) s },
      \<lambda>rt h s. do { x \<leftarrow> GetVRegLong_A h s; y \<leftarrow> GetVRegLong_B h s; SetVRegLong_A h (x XOR y) s },
      \<lambda>rt h s. do { x \<leftarrow> GetVRegLong_A h s; y \<leftarrow> GetVReg_B h s; SetVRegLong_A h (push_bit (unat (y AND 0x3f)) x) s },
      \<lambda>rt h s. do { x \<leftarrow> GetVRegLong_A h s; y \<leftarrow> GetVReg_B h s; SetVRegLong_A h (signed_drop_bit (unat (y AND 0x3f)) x) s },
      \<lambda>rt h s. do { x \<leftarrow> GetVRegLong_A h s; y \<leftarrow> GetVReg_B h s; SetVRegLong_A h (drop_bit (unat (y AND 0x3f)) x) s }]"

definition handlers_FP_2ADDR :: "'w handler list" where
  "handlers_FP_2ADDR =
     [\<lambda>rt h s. do { x \<leftarrow> GetVRegFloat_A h s; y \<leftarrow> GetVRegFloat_B h s; SetVRegFloat_A h (float_add x y) s },
      \<lambda>rt h s. do { x \<leftarrow> GetVRegFloat_A h s; y \<leftarrow> GetVRegFloat_B h s; SetVRegFloat_A h (float_sub x y) s },
      \<lambda>rt h s. do { x \<leftarrow> GetVRegFloat_A h s; y \<leftarrow> GetVRegFloat_B h s; SetVRegFloat_A h (float_mul x y) s },
      \<lambda>rt h s. do { x \<leftarrow> GetVRegFloat_A h s; y \<leftarrow> GetVRegFloat_B h s; SetVRegFloat_A h (float_div x y) s },
      \<lambda>rt h s. do { x \<leftarrow> GetVRegFloat_A h s; y \<leftarrow> GetVRegFloat_B h s; SetVRegFloat_A h (fmodf x y) s },
      \<lambda>rt h s. do { x \<leftarrow> GetVRegDouble_A h s; y \<leftarrow> GetVRegDouble_B h s; SetVRegDouble_A h (double_add x y) s },
      \<lambda>rt h s. do { x \<leftarrow> GetVRegDouble_A h s; y \<leftarrow> GetVRegDouble_B h s; SetVRegDouble_A h (double_sub x y) s },
      \<lambda>rt h s. do { x \<leftarrow> GetVRegDouble_A h s; y \<leftarrow> GetVRegDouble_B h s; SetVRegDouble_A h (double_mul x y) s },
      \<lambda>rt h s. do { x \<leftarrow> GetVRegDouble_A h s; y \<leftarrow> GetVRegDouble_B h s; SetVRegDouble_A h (double_div x y) s },
      \<lambda>rt h s. do { x \<leftarrow> GetVRegDouble_A h s; y \<leftarrow> GetVRegDouble_B h s; SetVRegDouble_A h (fmod x y) s }]"

section \<open>Operations with a literal\<close>

definition handlers_LIT16 :: "'w handler list" where
  "handlers_LIT16 =
     [\<lambda>rt h s. do { x \<leftarrow> GetVReg_B h s; y \<leftarrow> operand_C h; SetVReg_A h (SafeAdd x y) s },
      \<lambda>rt h s. do { x \<leftarrow> GetVReg_B h s; y \<leftarrow> operand_C h; SetVReg_A h (SafeSub y x) s },
      \<lambda>rt h s. do { x \<leftarrow> GetVReg_B h s; y \<leftarrow> operand_C h; SetVReg_A h (SafeMul x y) s },
      \<lambda>rt h s. do { x \<leftarrow> GetVReg_B h s; y \<leftarrow> operand_C h; a \<leftarrow> operand_A h; DoIntDivide rt (unat a) x y s },
      \<lambda>rt h s. do { x \<leftarrow> GetVReg_B h s; y \<leftarrow> operand_C h; a \<leftarrow> operand_A h; DoIntRemainder rt (unat a) x y s },
      \<lambda>rt h s. do { x \<leftarrow> GetVReg_B h s; y \<leftarrow> operand_C h; SetVReg_A h (x AND y) s },
      \<lambda>rt h s. do { x \<leftarrow> GetVReg_B h s; y \<leftarrow> operand_C h; SetVReg_A h (x OR y) s },
      \<lambda>rt h s. do { x \<leftarrow> GetVReg_B h s; y \<leftarrow> operand_C h; SetVReg_A h (x XOR y) s }]"

definition handlers_LIT8 :: "'w handler list" where
  "handlers_LIT8 =
     [\<lambda>rt h s. do { x \<leftarrow> GetVReg_B h s; y \<leftarrow> operand_C h; SetVReg_A h (SafeAdd x y) s },
      \<lambda>rt h s. do { x \<leftarrow> GetVReg_B h s; y \<leftarrow> operand_C h; SetVReg_A h (SafeSub y x) s },
      \<lambda>rt h s. do { x \<leftarrow> GetVReg_B h s; y \<leftarrow> operand_C h; SetVReg_A h (SafeMul x y) s },
      \<lambda>rt h s. do { x \<leftarrow> GetVReg_B h s; y \<leftarrow> operand_C h; a \<leftarrow> operand_A h; DoIntDivide rt (unat a) x y s },
      \<lambda>rt h s. do { x \<leftarrow> GetVReg_B h s; y \<leftarrow> operand_C h; a \<leftarrow> operand_A h; DoIntRemainder rt (unat a) x y s },
      \<lambda>rt h s. do { x \<leftarrow> GetVReg_B h s; y \<leftarrow> operand_C h; SetVReg_A h (x AND y) s },
      \<lambda>rt h s. do { x \<leftarrow> GetVReg_B h s; y \<leftarrow> operand_C h; SetVReg_A h (x OR y) s },
      \<lambda>rt h s. do { x \<leftarrow> GetVReg_B h s; y \<leftarrow> operand_C h; SetVReg_A h (x XOR y) s },
      \<lambda>rt h s. do { x \<leftarrow> GetVReg_B h s; y \<leftarrow> operand_C h; SetVReg_A h (push_bit (unat (y AND 0x1f)) x) s },
      \<lambda>rt h s. do { x \<leftarrow> GetVReg_B h s; y \<leftarrow> operand_C h; SetVReg_A h (signed_drop_bit (unat (y AND 0x1f)) x) s },
      \<lambda>rt h s. do { x \<leftarrow> GetVReg_B h s; y \<leftarrow> operand_C h; SetVReg_A h (drop_bit (unat (y AND 0x1f)) x) s }]"

section \<open>The switch\<close>

text \<open>The handlers in the order of \<open>DEX_INSTRUCTION_LIST\<close>, which the macro \<open>OPCODE_CASE\<close> expands
  into the cases of the switch.\<close>

definition handlers_00_7F :: "'w handler list" where
  "handlers_00_7F =
      [OP_NOP, OP_MOVE, OP_MOVE, OP_MOVE, OP_MOVE_WIDE, OP_MOVE_WIDE, OP_MOVE_WIDE, OP_MOVE_OBJECT,
        OP_MOVE_OBJECT, OP_MOVE_OBJECT, OP_MOVE_RESULT, OP_MOVE_RESULT_WIDE, OP_MOVE_RESULT_OBJECT, OP_MOVE_EXCEPTION,
        OP_RETURN_VOID, OP_RETURN, OP_RETURN_WIDE, OP_RETURN_OBJECT, OP_CONST, OP_CONST, OP_CONST, OP_CONST_HIGH16,
        OP_CONST_WIDE_32, OP_CONST_WIDE_32, OP_CONST_WIDE, OP_CONST_WIDE_HIGH16, HandleConstString, HandleConstString,
        OP_CONST_CLASS, OP_MONITOR_ENTER, OP_MONITOR_EXIT, OP_CHECK_CAST, OP_INSTANCE_OF, OP_ARRAY_LENGTH,
        OP_NEW_INSTANCE, OP_NEW_ARRAY, OP_FILLED_NEW_ARRAY, OP_FILLED_NEW_ARRAY_RANGE, OP_FILL_ARRAY_DATA, OP_THROW,
        OP_GOTO, OP_GOTO, OP_GOTO, OP_PACKED_SWITCH, OP_SPARSE_SWITCH, OP_CMPL_FLOAT, OP_CMPG_FLOAT, OP_CMPL_DOUBLE,
        OP_CMPG_DOUBLE, OP_CMP_LONG] @
      handlers_IF @
      handlers_IFZ @
      [HandleUnused, HandleUnused, HandleUnused, HandleUnused, HandleUnused, HandleUnused] @
      handlers_AGET @
      handlers_APUT @
      handlers_IGET @
      handlers_IPUT @
      handlers_SGET @
      handlers_SPUT @
      handlers_INVOKE @
      [HandleUnused] @
      handlers_INVOKE_RANGE @
      [HandleUnused, HandleUnused, OP_NEG_INT, OP_NOT_INT, OP_NEG_LONG, OP_NOT_LONG, OP_NEG_FLOAT]"

definition handlers_80_FF :: "'w handler list" where
  "handlers_80_FF =
      [OP_NEG_DOUBLE, OP_INT_TO_LONG, OP_INT_TO_FLOAT, OP_INT_TO_DOUBLE, OP_LONG_TO_INT, OP_LONG_TO_FLOAT,
        OP_LONG_TO_DOUBLE, OP_FLOAT_TO_INT, OP_FLOAT_TO_LONG, OP_FLOAT_TO_DOUBLE, OP_DOUBLE_TO_INT, OP_DOUBLE_TO_LONG,
        OP_DOUBLE_TO_FLOAT, OP_INT_TO_BYTE, OP_INT_TO_CHAR, OP_INT_TO_SHORT, OP_ADD_INT, OP_SUB_INT, OP_MUL_INT,
        OP_DIV_INT, OP_REM_INT, OP_AND_INT, OP_OR_INT, OP_XOR_INT, OP_SHL_INT, OP_SHR_INT, OP_USHR_INT, OP_ADD_LONG,
        OP_SUB_LONG, OP_MUL_LONG, OP_DIV_LONG, OP_REM_LONG, OP_AND_LONG, OP_OR_LONG, OP_XOR_LONG, OP_SHL_LONG,
        OP_SHR_LONG, OP_USHR_LONG, OP_ADD_FLOAT, OP_SUB_FLOAT, OP_MUL_FLOAT, OP_DIV_FLOAT, OP_REM_FLOAT,
        OP_ADD_DOUBLE, OP_SUB_DOUBLE, OP_MUL_DOUBLE, OP_DIV_DOUBLE, OP_REM_DOUBLE] @
      handlers_INT_2ADDR @
      handlers_LONG_2ADDR @
      handlers_FP_2ADDR @
      handlers_LIT16 @
      handlers_LIT8 @
      [HandleUnused, HandleUnused, HandleUnused, HandleUnused, HandleUnused, HandleUnused, HandleUnused,
        HandleUnused, HandleUnused, HandleUnused, HandleUnused, HandleUnused, HandleUnused, HandleUnused,
        HandleUnused, HandleUnused, HandleUnused, HandleUnused, HandleUnused, HandleUnused, HandleUnused,
        HandleUnused, HandleUnused, OP_INVOKE_POLYMORPHIC, OP_INVOKE_POLYMORPHIC_RANGE, OP_INVOKE_CUSTOM,
        OP_INVOKE_CUSTOM_RANGE, OP_CONST_METHOD_HANDLE, OP_CONST_METHOD_TYPE]"

definition OPCODE_CASE :: "u8 \<Rightarrow> 'w handler" where
  "OPCODE_CASE opcode = (handlers_00_7F @ handlers_80_FF) ! unat opcode"

end
