(* ===== verification/InterpreterLoop.thy ===== *)
theory InterpreterLoop
  imports InterpreterOps
begin

text \<open>
  The loop of the switch interpreter: \<open>ExecuteSwitchImplCpp\<close> of
  \<open>runtime/interpreter/interpreter_switch_impl-inl.h\<close> and its wrapper \<open>ExecuteSwitchImpl\<close> of
  \<open>interpreter_switch_impl.h\<close>.  One turn of the loop is \<open>switch_step\<close>; the loop takes the number
  of turns it may make, and \<open>Running\<close> is its answer when they are used up.
\<close>

section \<open>One turn\<close>

datatype 'w outcome = Running "'w interp" | Returned "'w interp"

definition switch_step :: "'w runtime \<Rightarrow> 'w interp \<Rightarrow> 'w outcome option" where
  "switch_step rt s =
     do { let pos = next_inst s;
          let pc = (word_of_int pos :: u32);
          let code = code_at (accessor rt) pos;
          let s = s\<lparr>frame := SetDexPC (frame s) pc, exit_interpreter_loop := False\<rparr>;
          d \<leftarrow> Fetch16 code 0;
          (ok, s) \<leftarrow> Preamble rt (InstructionHandler_new kInvalidFormat pc pos code d) s;
          (success, s) \<leftarrow>
            (if ok then
               (let fmt = FormatOf (Opcode d)
                in OPCODE_CASE (Opcode d) rt (InstructionHandler_new fmt pc pos code d)
                     (SetNextInstruction (pos + int (SizeInCodeUnitsOfFormat fmt)) s))
             else Some (False, s));
          if success then Some (Running s)
          else if exit_interpreter_loop s then Some (Returned (s\<lparr>frame := SetDexPC (frame s) kDexNoIndex\<rparr>))
          else if IsExceptionPending s then
            (if virtual_threads rt \<and> IsVirtualThreadParking rt s then Some (Returned s)
             else do {
               (ok, s) \<leftarrow> HandlePendingException rt (InstructionHandler_new kInvalidFormat pc pos code d) s;
               if ok then Some (Running s)
               else Some (Returned (s\<lparr>frame := SetDexPC (frame s) kDexNoIndex\<rparr>)) })
          else Some (Running s) }"

section \<open>The loop\<close>

primrec switch_loop :: "'w runtime \<Rightarrow> nat \<Rightarrow> 'w interp \<Rightarrow> 'w outcome option" where
  "switch_loop rt 0 s = Some (Running s)"
| "switch_loop rt (Suc n) s =
     do { r \<leftarrow> switch_step rt s;
          case r of Running s \<Rightarrow> switch_loop rt n s | Returned s \<Rightarrow> Some (Returned s) }"

definition ExecuteSwitchImplCpp :: "'w runtime \<Rightarrow> nat \<Rightarrow> 'w interp \<Rightarrow> 'w outcome option" where
  "ExecuteSwitchImplCpp rt fuel s =
     switch_loop rt fuel (s\<lparr>next_inst := int (unat (GetDexPC (frame s)))\<rparr>)"

definition ExecuteSwitchImpl :: "'w runtime \<Rightarrow> nat \<Rightarrow> JValue \<Rightarrow> 'w interp \<Rightarrow> (JValue \<times> 'w interp) option" where
  "ExecuteSwitchImpl rt fuel result_reg s =
     do { r \<leftarrow> ExecuteSwitchImplCpp rt fuel (s\<lparr>result_register := result_reg, ctx_result := 0\<rparr>);
          case r of Returned s \<Rightarrow> Some (ctx_result s, s) | Running s \<Rightarrow> None }"

text \<open>The states of the loop.\<close>

inductive reachable :: "'w runtime \<Rightarrow> 'w interp \<Rightarrow> 'w interp \<Rightarrow> bool" for rt s where
  start: "reachable rt s s"
| turn: "reachable rt s t \<Longrightarrow> switch_step rt t = Some (Running u) \<Longrightarrow> reachable rt s u"

lemma switch_loop_Suc:
  "switch_step rt s = Some (Running t) \<Longrightarrow> switch_loop rt (Suc n) s = switch_loop rt n t"
  "switch_step rt s = Some (Returned t) \<Longrightarrow> switch_loop rt (Suc n) s = Some (Returned t)"
  by simp_all

text \<open>A loop that has returned keeps its answer when it may make more turns.\<close>

lemma switch_loop_more: "switch_loop rt n s = Some (Returned t) \<Longrightarrow> n \<le> m \<Longrightarrow> switch_loop rt m s = Some (Returned t)"
proof (induction n arbitrary: s m)
  case (Suc n)
  then obtain k where "m = Suc k" "n \<le> k" by (cases m) auto
  with Suc show ?case by (auto simp: bind_eq_Some_conv split: outcome.splits)
qed simp

lemma reachable_step:
  assumes "switch_step rt s = Some (Running u)" "reachable rt u t"
  shows "reachable rt s t"
  using assms(2,1) by (induction rule: reachable.induct) (auto intro: reachable.intros)

lemma switch_loop_reachable: "switch_loop rt n s = Some (Running t) \<Longrightarrow> reachable rt s t"
proof (induction n arbitrary: s)
  case (Suc n)
  then obtain r where r: "switch_step rt s = Some r"
    "(case r of Running u \<Rightarrow> switch_loop rt n u | Returned u \<Rightarrow> Some (Returned u)) = Some (Running t)"
    by (auto simp: bind_eq_Some_conv)
  then obtain u where "r = Running u" by (cases r) simp_all
  with r show ?case using Suc.IH [of u] by (auto intro: reachable_step)
qed (simp add: reachable.start)

end
