(* ===== verification/InterpreterSafe.thy ===== *)
theory InterpreterSafe
  imports InterpreterLoop VerifierSound
begin

text \<open>
  What the interpreter keeps: every handler leaves the frame its size and its two halves
  consistent, keeps to the frame and the code, and goes on at a successor of the instruction.
  The facts about the unmodelled runtime they rest on are collected in \<open>runtime_ok\<close> and
  \<open>method_ok\<close>.
\<close>

section \<open>What a call into the runtime keeps\<close>

definition nregs :: "'w interp \<Rightarrow> nat" where
  "nregs s = unat (number_of_vregs (frame s))"

definition kept :: "'w interp \<Rightarrow> 'w interp \<Rightarrow> bool" where
  "kept s s' \<longleftrightarrow> number_of_vregs (frame s') = number_of_vregs (frame s) \<and>
     frame_dex_pc (frame s') = frame_dex_pc (frame s) \<and> next_inst s' = next_inst s \<and>
     (frame_wf (frame s) \<longrightarrow> frame_wf (frame s'))"

text \<open>The runtime leaves the interpreted frame its size and its dex pc, and a well-formed frame well
  formed: collector, debugger and listeners change registers only in both halves.\<close>

definition callouts_keep :: "'w runtime \<Rightarrow> bool" where
  "callouts_keep rt \<longleftrightarrow>
     (\<forall>s k. kept s (Throw rt k s)) \<and> (\<forall>s. kept s (AllowThreadSuspension rt s)) \<and>
     (\<forall>s k. kept s (MonitorEnter rt k s)) \<and> (\<forall>s k. kept s (MonitorExit rt k s)) \<and>
     (\<forall>s k. kept s (Event rt k s)) \<and> (\<forall>s k. kept s (snd (MethodExitEvent rt k s))) \<and>
     (\<forall>s k l. kept s (snd (MaybeDoOnStackReplacement rt k l s))) \<and> (\<forall>s. kept s (AddSamples rt s)) \<and>
     (\<forall>s k. kept s (snd (ResolveVerifyAndClinit rt k s))) \<and>
     (\<forall>s k. kept s (snd (ResolveClassFromTypeIndex rt k s))) \<and>
     (\<forall>s. kept s (snd (ResolveReturnType rt s))) \<and> (\<forall>s k. kept s (snd (ResolveMethodHandle rt k s))) \<and>
     (\<forall>s k. kept s (snd (ResolveMethodType rt k s))) \<and> (\<forall>s. kept s (snd (EnsureStringClassInitialized rt s))) \<and>
     (\<forall>s k. kept s (snd (ClassLinker_ResolveString rt k s))) \<and>
     (\<forall>s k l. kept s (snd (NterpGetStaticField rt k l s))) \<and>
     (\<forall>s k. kept s (snd (NterpGetInstanceFieldOffset rt k s))) \<and>
     (\<forall>s k l m. kept s (snd (ResolveFieldWithAccessChecks rt k l m s))) \<and>
     (\<forall>s k. kept s (snd (Field_ResolveType rt k s))) \<and> (\<forall>s k. kept s (snd (AllocObjectFromCode rt k s))) \<and>
     (\<forall>s. kept s (snd (AllocEmptyString rt s))) \<and> (\<forall>s k l. kept s (snd (AllocArrayFromCode rt k l s))) \<and>
     (\<forall>s k l. kept s (snd (Array_Alloc rt k l s))) \<and>
     (\<forall>s k l m. kept s (snd (snd (FindMethodToCall rt k l m s)))) \<and>
     (\<forall>s k l m n. kept s (snd (DoCall rt k l m n s))) \<and> (\<forall>s k l. kept s (snd (DoInvokePolymorphic rt k l s))) \<and>
     (\<forall>s k l. kept s (snd (DoInvokeCustom_operands rt k l s)))"

named_theorems kept_intros \<open>states that keep the frame\<close>

lemma kept_refl [kept_intros]: "kept s s"
  by (simp add: kept_def)

lemma kept_trans: "kept s t \<Longrightarrow> kept t u \<Longrightarrow> kept s u"
  by (simp add: kept_def)

lemma kept_nregs: "kept s s' \<Longrightarrow> nregs s' = nregs s"
  by (simp add: kept_def nregs_def)

lemma callouts_kept:
  assumes "callouts_keep rt" "kept s t"
  shows "kept s (Throw rt k t)" "kept s (AllowThreadSuspension rt t)" "kept s (MonitorEnter rt r t)"
    "kept s (MonitorExit rt r t)" "kept s (Event rt e t)" "kept s (snd (MethodExitEvent rt v t))"
    "kept s (snd (MaybeDoOnStackReplacement rt r r' t))" "kept s (AddSamples rt t)"
    "kept s (snd (ResolveVerifyAndClinit rt i t))" "kept s (snd (ResolveClassFromTypeIndex rt i t))"
    "kept s (snd (ResolveReturnType rt t))" "kept s (snd (ResolveMethodHandle rt r t))"
    "kept s (snd (ResolveMethodType rt i t))" "kept s (snd (EnsureStringClassInitialized rt t))"
    "kept s (snd (ClassLinker_ResolveString rt r t))" "kept s (snd (NterpGetStaticField rt p b t))"
    "kept s (snd (NterpGetInstanceFieldOffset rt p t))" "kept s (snd (ResolveFieldWithAccessChecks rt i b b' t))"
    "kept s (snd (Field_ResolveType rt fld t))" "kept s (snd (AllocObjectFromCode rt r t))"
    "kept s (snd (AllocEmptyString rt t))" "kept s (snd (AllocArrayFromCode rt i r t))"
    "kept s (snd (Array_Alloc rt r r' t))" "kept s (snd (snd (FindMethodToCall rt ty r p t)))"
    "kept s (snd (DoCall rt b fld p b' t))" "kept s (snd (DoInvokePolymorphic rt b p t))"
    "kept s (snd (DoInvokeCustom_operands rt r ops t))"
  using assms(1) by (simp_all add: callouts_keep_def kept_trans [OF assms(2)])

lemma kept_updates [kept_intros]:
  assumes "kept s t"
  shows "kept s (t\<lparr>heap := m\<rparr>)" "kept s (t\<lparr>exception := e\<rparr>)" "kept s (t\<lparr>async_exception := e\<rparr>)"
    "kept s (t\<lparr>result_register := v\<rparr>)" "kept s (t\<lparr>ctx_result := v\<rparr>)" "kept s (t\<lparr>exit_interpreter_loop := b\<rparr>)"
    "kept s (ClearException t)" "kept s (SetException e t)" "kept s (ExitInterpreterLoop t)"
    "kept s (snd (ObserveAsyncException t))"
    "kept s (t\<lparr>frame := UpdateFrameFlag (frame t) b fl\<rparr>)"
    "kept s (t\<lparr>frame := SetForcePopFrame (frame t) b\<rparr>)" "kept s (t\<lparr>frame := SetForceRetryInstruction (frame t) b\<rparr>)"
    "kept s (t\<lparr>frame := SetSkipNextExceptionEvent (frame t) b\<rparr>)"
    "kept s (t\<lparr>frame := SetNotifyExceptionHandledEvent (frame t) b\<rparr>)"
    "kept s (t\<lparr>frame := (frame t)\<lparr>monitors := ms\<rparr>\<rparr>)"
  using assms
  by (simp_all add: kept_def ClearException_def SetException_def ExitInterpreterLoop_def ObserveAsyncException_def
      SetForcePopFrame_def SetForceRetryInstruction_def SetSkipNextExceptionEvent_def
      SetNotifyExceptionHandledEvent_def frame_wf_def CheckConsistentVRegs_def)

lemma kept_regs: "kept s t \<Longrightarrow> regs_only (frame t) f \<Longrightarrow> kept s (t\<lparr>frame := f\<rparr>)"
  by (simp add: kept_def regs_only_def)

section \<open>What the interpreter relies on\<close>

text \<open>Listeners of the method's exit ask only finitely often for the frame to be popped: when one
  sets the flag, fewer requests are left.\<close>

definition pop_requested :: "('w \<Rightarrow> nat) \<Rightarrow> 'w interp \<Rightarrow> 'w interp \<Rightarrow> bool" where
  "pop_requested m s u \<longleftrightarrow> m (world u) \<le> m (world s) \<and>
     (GetForcePopFrame (frame u) \<longrightarrow> GetForcePopFrame (frame s) \<or> m (world u) < m (world s))"

definition listeners_settle :: "'w runtime \<Rightarrow> bool" where
  "listeners_settle rt \<longleftrightarrow>
     (\<exists>m. \<forall>s. (\<forall>v. pop_requested m s (snd (MethodExitEvent rt v s))) \<and> pop_requested m s (Event rt WatchedFramePopped s))"

text \<open>A throwing function leaves an exception pending, and so does a failed resolution of the return
  type.  Locks are not counted for the method, and its returned objects are checked only for apps
  that tolerate a wrong one.\<close>

definition runtime_ok :: "'w runtime \<Rightarrow> bool" where
  "runtime_ok rt \<longleftrightarrow> callouts_keep rt \<and> listeners_settle rt \<and> \<not> MustCountLocks rt \<and>
     (\<forall>k s. IsExceptionPending (Throw rt k s)) \<and>
     (\<forall>s. fst (ResolveReturnType rt s) = 0 \<longrightarrow> IsExceptionPending (snd (ResolveReturnType rt s))) \<and>
     (SkipAccessChecks rt \<or> target_sdk_version rt \<le> 29)"

text \<open>The registers of the locks the verifier finds lie in the frame; a method that is not static has
  a receiver; the class of an array type is an array class.\<close>

definition method_ok :: "'w runtime \<Rightarrow> dex_file \<Rightarrow> bool" where
  "method_ok rt df \<longleftrightarrow>
     (\<forall>pc. \<forall>regs \<in> set (FindLocksAtDexPc rt pc). \<forall>r \<in> set regs. r < unat (registers_size (accessor rt))) \<and>
     (method_is_static rt \<or> 0 < ins_size (accessor rt)) \<and>
     (\<forall>idx s. first_char (GetTypeDescriptor df idx) = CHR ''['' \<longrightarrow> fst (ResolveVerifyAndClinit rt idx s) \<noteq> 0 \<longrightarrow>
        IsArrayClass rt (fst (ResolveVerifyAndClinit rt idx s)))"

section \<open>Safe results\<close>

text \<open>A handler's result is safe when it is defined, keeps the frame, goes on at one of the given
  positions unless it asks to leave the loop or an exception is pending, and, when it does not go
  on normally, leaves the dex pc that of the instruction.\<close>

definition halted :: "'w interp \<Rightarrow> bool" where
  "halted s \<longleftrightarrow> exit_interpreter_loop s \<or> IsExceptionPending s"

definition safe :: "int set \<Rightarrow> 'w interp \<Rightarrow> (bool \<times> 'w interp) option \<Rightarrow> bool" where
  "safe T s r \<longleftrightarrow>
     (\<exists>b s'. r = Some (b, s') \<and> number_of_vregs (frame s') = number_of_vregs (frame s) \<and>
        (frame_wf (frame s) \<longrightarrow> frame_wf (frame s')) \<and> (b \<or> \<not> halted s' \<longrightarrow> next_inst s' \<in> T) \<and>
        (\<not> b \<longrightarrow> frame_dex_pc (frame s') = frame_dex_pc (frame s)))"

definition int_reg :: "u32 option \<Rightarrow> nat \<Rightarrow> bool" where
  "int_reg x n \<longleftrightarrow> (\<exists>i. x = Some i \<and> unat i < n)"

definition wide_reg :: "u32 option \<Rightarrow> nat \<Rightarrow> bool" where
  "wide_reg x n \<longleftrightarrow> (\<exists>i. x = Some i \<and> unat i + 1 < n)"

named_theorems safe_intros \<open>rules that follow the text of a handler\<close>

lemma safe_Some [safe_intros]: "kept s s' \<Longrightarrow> next_inst s \<in> T \<Longrightarrow> safe T s (Some (b, s'))"
  by (simp add: safe_def kept_def)

lemma safe_stop: "kept s s' \<Longrightarrow> halted s' \<Longrightarrow> safe T s (Some (False, s'))"
  by (auto simp: safe_def kept_def)

lemma safe_next: "kept s s' \<Longrightarrow> p \<in> T \<Longrightarrow> safe T s (Some (b, SetNextInstruction p s'))"
  by (simp add: safe_def kept_def SetNextInstruction_def)

lemma safe_if [safe_intros]:
  "(P \<Longrightarrow> safe T s a) \<Longrightarrow> (\<not> P \<Longrightarrow> safe T s b) \<Longrightarrow> safe T s (if P then a else b)"
  by simp

lemma safe_operand [safe_intros]:
  "operand_B h \<noteq> None \<Longrightarrow> (\<And>i. operand_B h = Some i \<Longrightarrow> safe T s (f i)) \<Longrightarrow> safe T s (Option.bind (operand_B h) f)"
  "operand_C h \<noteq> None \<Longrightarrow> (\<And>i. operand_C h = Some i \<Longrightarrow> safe T s (f i)) \<Longrightarrow> safe T s (Option.bind (operand_C h) f)"
  by auto

lemma safe_reg_A:
  "int_reg (operand_A h) n \<Longrightarrow> (\<And>i. unat i < n \<Longrightarrow> safe T s (f i)) \<Longrightarrow> safe T s (Option.bind (operand_A h) f)"
  "wide_reg (operand_A h) n \<Longrightarrow> (\<And>i. unat i + 1 < n \<Longrightarrow> safe T s (f i)) \<Longrightarrow> safe T s (Option.bind (operand_A h) f)"
  by (auto simp: int_reg_def wide_reg_def)

lemma kept_if [kept_intros]: "(P \<Longrightarrow> kept s t) \<Longrightarrow> (\<not> P \<Longrightarrow> kept s u) \<Longrightarrow> kept s (if P then t else u)"
  by simp

lemma safe_Get [safe_intros]:
  assumes "kept s t"
  shows "int_reg (operand_A h) (nregs s) \<Longrightarrow> (\<And>v. safe T s (f v)) \<Longrightarrow> safe T s (Option.bind (GetVReg_A h t) f)"
    "int_reg (operand_B h) (nregs s) \<Longrightarrow> (\<And>v. safe T s (f v)) \<Longrightarrow> safe T s (Option.bind (GetVReg_B h t) f)"
    "int_reg (operand_C h) (nregs s) \<Longrightarrow> (\<And>v. safe T s (f v)) \<Longrightarrow> safe T s (Option.bind (GetVReg_C h t) f)"
    "int_reg (operand_A h) (nregs s) \<Longrightarrow> (\<And>v. safe T s (f v)) \<Longrightarrow> safe T s (Option.bind (GetVRegFloat_A h t) f)"
    "int_reg (operand_B h) (nregs s) \<Longrightarrow> (\<And>v. safe T s (f v)) \<Longrightarrow> safe T s (Option.bind (GetVRegFloat_B h t) f)"
    "int_reg (operand_C h) (nregs s) \<Longrightarrow> (\<And>v. safe T s (f v)) \<Longrightarrow> safe T s (Option.bind (GetVRegFloat_C h t) f)"
    "int_reg (operand_A h) (nregs s) \<Longrightarrow> (\<And>v. safe T s (f v)) \<Longrightarrow> safe T s (Option.bind (GetVRegReference_A h t) f)"
    "int_reg (operand_B h) (nregs s) \<Longrightarrow> (\<And>v. safe T s (f v)) \<Longrightarrow> safe T s (Option.bind (GetVRegReference_B h t) f)"
    "wide_reg (operand_A h) (nregs s) \<Longrightarrow> (\<And>w. safe T s (g w)) \<Longrightarrow> safe T s (Option.bind (GetVRegLong_A h t) g)"
    "wide_reg (operand_B h) (nregs s) \<Longrightarrow> (\<And>w. safe T s (g w)) \<Longrightarrow> safe T s (Option.bind (GetVRegLong_B h t) g)"
    "wide_reg (operand_C h) (nregs s) \<Longrightarrow> (\<And>w. safe T s (g w)) \<Longrightarrow> safe T s (Option.bind (GetVRegLong_C h t) g)"
    "wide_reg (operand_A h) (nregs s) \<Longrightarrow> (\<And>w. safe T s (g w)) \<Longrightarrow> safe T s (Option.bind (GetVRegDouble_A h t) g)"
    "wide_reg (operand_B h) (nregs s) \<Longrightarrow> (\<And>w. safe T s (g w)) \<Longrightarrow> safe T s (Option.bind (GetVRegDouble_B h t) g)"
    "wide_reg (operand_C h) (nregs s) \<Longrightarrow> (\<And>w. safe T s (g w)) \<Longrightarrow> safe T s (Option.bind (GetVRegDouble_C h t) g)"
  using kept_nregs [OF assms]
  by (auto simp: int_reg_def wide_reg_def nregs_def GetVReg_A_def GetVReg_B_def GetVReg_C_def GetVRegFloat_A_def
      GetVRegFloat_B_def GetVRegFloat_C_def GetVRegReference_A_def GetVRegReference_B_def GetVRegLong_A_def
      GetVRegLong_B_def GetVRegLong_C_def GetVRegDouble_A_def GetVRegDouble_B_def GetVRegDouble_C_def
      GetVReg_def GetVRegReference_def GetVRegLong_def)

lemma safe_Set [safe_intros]:
  assumes "kept s t" "next_inst s \<in> T"
  shows "int_reg (operand_A h) (nregs s) \<Longrightarrow> safe T s (SetVReg_A h v t)"
    "int_reg (operand_A h) (nregs s) \<Longrightarrow> safe T s (SetVRegFloat_A h v t)"
    "int_reg (operand_A h) (nregs s) \<Longrightarrow> safe T s (SetVRegReference_A h v t)"
    "wide_reg (operand_A h) (nregs s) \<Longrightarrow> safe T s (SetVRegLong_A h w t)"
    "wide_reg (operand_A h) (nregs s) \<Longrightarrow> safe T s (SetVRegDouble_A h w t)"
proof -
  have store: "safe T s (do { f \<leftarrow> r; Some (True, t\<lparr>frame := f\<rparr>) })"
    if "r \<noteq> None" "\<And>f. r = Some f \<Longrightarrow> regs_only (frame t) f" for r
    using that by (auto intro!: safe_Some assms(2) kept_regs [OF assms(1)])
  note n = kept_nregs [OF assms(1), unfolded nregs_def]
  show "safe T s (SetVReg_A h v t)" if r: "int_reg (operand_A h) (nregs s)"
  proof -
    obtain i where i: "operand_A h = Some i" "SetVReg (frame t) (unat i) v \<noteq> None"
      using r n by (auto simp: int_reg_def nregs_def SetVReg_def)
    show ?thesis using store [OF i(2) SetVReg_regs_only] i(1) by (simp add: SetVReg_A_def)
  qed
  show "safe T s (SetVRegFloat_A h v t)" if r: "int_reg (operand_A h) (nregs s)"
  proof -
    obtain i where i: "operand_A h = Some i" "SetVReg (frame t) (unat i) v \<noteq> None"
      using r n by (auto simp: int_reg_def nregs_def SetVReg_def)
    show ?thesis using store [OF i(2) SetVReg_regs_only] i(1) by (simp add: SetVRegFloat_A_def)
  qed
  show "safe T s (SetVRegReference_A h v t)" if r: "int_reg (operand_A h) (nregs s)"
  proof -
    obtain i where i: "operand_A h = Some i" "SetVRegReference (frame t) (unat i) v \<noteq> None"
      using r n by (auto simp: int_reg_def nregs_def SetVRegReference_def)
    show ?thesis using store [OF i(2) SetVRegReference_regs_only] i(1) by (simp add: SetVRegReference_A_def)
  qed
  show "safe T s (SetVRegLong_A h w t)" if r: "wide_reg (operand_A h) (nregs s)"
  proof -
    obtain i where i: "operand_A h = Some i" "SetVRegLong (frame t) (unat i) w \<noteq> None"
      using r n by (auto simp: wide_reg_def nregs_def SetVRegLong_def)
    show ?thesis using store [OF i(2) SetVRegLong_regs_only] i(1) by (simp add: SetVRegLong_A_def)
  qed
  show "safe T s (SetVRegDouble_A h w t)" if r: "wide_reg (operand_A h) (nregs s)"
  proof -
    obtain i where i: "operand_A h = Some i" "SetVRegLong (frame t) (unat i) w \<noteq> None"
      using r n by (auto simp: wide_reg_def nregs_def SetVRegLong_def)
    show ?thesis using store [OF i(2) SetVRegLong_regs_only] i(1) by (simp add: SetVRegDouble_A_def)
  qed
qed

lemma safe_frame:
  assumes "kept s t" "next_inst s \<in> T" "r \<noteq> None" "\<And>f. r = Some f \<Longrightarrow> regs_only (frame t) f"
  shows "safe T s (do { f \<leftarrow> r; Some (b, t\<lparr>frame := f\<rparr>) })"
  using assms(3,4) by (auto intro!: safe_Some assms(2) kept_regs [OF assms(1)])

section \<open>Arithmetic\<close>

lemma safe_divide:
  assumes "callouts_keep rt" "kept s t" "next_inst s \<in> T"
  shows "r < nregs s \<Longrightarrow> safe T s (DoIntDivide rt r x y t)" "r < nregs s \<Longrightarrow> safe T s (DoIntRemainder rt r x y t)"
    "r + 1 < nregs s \<Longrightarrow> safe T s (DoLongDivide rt r v w t)" "r + 1 < nregs s \<Longrightarrow> safe T s (DoLongRemainder rt r v w t)"
proof -
  have n: "SetVReg (frame t) r a \<noteq> None" if "r < nregs s" for a
    using that kept_nregs [OF assms(2)] by (simp add: SetVReg_def nregs_def)
  have l: "SetVRegLong (frame t) r a \<noteq> None" if "r + 1 < nregs s" for a
    using that kept_nregs [OF assms(2)] by (simp add: SetVRegLong_def nregs_def)
  note rules = safe_if safe_Some [OF callouts_kept(1) [OF assms(1,2)] assms(3)] safe_frame [OF assms(2,3)]
  show "r < nregs s \<Longrightarrow> safe T s (DoIntDivide rt r x y t)"
    unfolding DoIntDivide_def by (intro rules n) (auto dest: SetVReg_regs_only)
  show "r < nregs s \<Longrightarrow> safe T s (DoIntRemainder rt r x y t)"
    unfolding DoIntRemainder_def by (intro rules n) (auto dest: SetVReg_regs_only)
  show "r + 1 < nregs s \<Longrightarrow> safe T s (DoLongDivide rt r v w t)"
    unfolding DoLongDivide_def by (intro rules l) (auto dest: SetVRegLong_regs_only)
  show "r + 1 < nregs s \<Longrightarrow> safe T s (DoLongRemainder rt r v w t)"
    unfolding DoLongRemainder_def by (intro rules l) (auto dest: SetVRegLong_regs_only)
qed

section \<open>Leaving the method\<close>

text \<open>A result that keeps the frame, and stops the instruction only to leave the loop or with an
  exception.\<close>

definition halts :: "'w interp \<Rightarrow> (bool \<times> 'w interp) option \<Rightarrow> bool" where
  "halts s r \<longleftrightarrow> (\<exists>b u. r = Some (b, u) \<and> kept s u \<and> (\<not> b \<longrightarrow> halted u))"

lemma halts_go: "kept s u \<Longrightarrow> halts s (Some (True, u))"
  by (auto simp: halts_def)

lemma halts_stop: "kept s u \<Longrightarrow> halted u \<Longrightarrow> halts s (Some (False, u))"
  by (auto simp: halts_def)

lemma halts_if: "(P \<Longrightarrow> halts s a) \<Longrightarrow> (\<not> P \<Longrightarrow> halts s b) \<Longrightarrow> halts s (if P then a else b)"
  by simp

lemma halts_bind:
  assumes "halts s r" "\<And>u. kept s u \<Longrightarrow> halts s (f True u)" "\<And>u. kept s u \<Longrightarrow> halted u \<Longrightarrow> halts s (f False u)"
  shows "halts s (Option.bind r (\<lambda>p. f (fst p) (snd p)))"
proof -
  obtain b u where "r = Some (b, u)" "kept s u" "\<not> b \<longrightarrow> halted u" using assms(1) by (auto simp: halts_def)
  then show ?thesis using assms(2,3) by (cases b) simp_all
qed

lemma halts_after: "kept s t \<Longrightarrow> halts t r \<Longrightarrow> halts s r"
  unfolding halts_def using kept_trans by blast

lemma halted_updates [simp]:
  "halted (ExitInterpreterLoop s)" "halted (s\<lparr>ctx_result := v\<rparr>) = halted s" "halted (s\<lparr>frame := f\<rparr>) = halted s"
  "IsExceptionPending s \<Longrightarrow> halted s"
  by (simp_all add: halted_def ExitInterpreterLoop_def IsExceptionPending_def)

lemma exit_events_round_kept:
  assumes "callouts_keep rt"
  shows "kept (snd (snd x)) (snd (snd (exit_events_round rt x)))"
proof (cases x)
  case (fields b r s)
  show ?thesis unfolding fields exit_events_round_def Let_def
    by (simp add: case_prod_beta callouts_kept [OF assms] kept_intros)
qed

lemma exit_events_round_pops:
  assumes "\<And>s v. pop_requested m s (snd (MethodExitEvent rt v s))" "\<And>s. pop_requested m s (Event rt WatchedFramePopped s)"
    and "GetForcePopFrame (frame (snd (snd (exit_events_round rt x))))"
  shows "m (world (snd (snd (exit_events_round rt x)))) < m (world (snd (snd x)))"
proof (cases x)
  case (fields b r s)
  define t where "t = s\<lparr>frame := SetForcePopFrame (frame s) False\<rparr>"
  have t: "\<not> GetForcePopFrame (frame t)" "world t = world s"
    by (simp_all add: t_def GetForcePopFrame_def SetForcePopFrame_def GetFrameFlag_Update_same)
  define u where "u = (if HasListeners rt MethodExitListeners t \<and> \<not> GetSkipMethodExitEvents (frame t)
    then snd (MethodExitEvent rt r t) else t)"
  have u: "pop_requested m t u" using assms(1) by (simp add: u_def pop_requested_def)
  have "snd (snd (exit_events_round rt x)) =
      (if NeedsNotifyPop (frame u) \<and> HasListeners rt WatchedFramePopListeners u then Event rt WatchedFramePopped u else u)"
    by (cases "HasListeners rt MethodExitListeners t \<and> \<not> GetSkipMethodExitEvents (frame t)")
      (auto simp: fields exit_events_round_def Let_def case_prod_beta t_def u_def)
  moreover have "pop_requested m u (Event rt WatchedFramePopped u)" by (rule assms(2))
  ultimately show ?thesis using assms(3) u t by (auto simp: fields pop_requested_def split: if_splits)
qed

lemma exit_events_loop_ok:
  assumes "callouts_keep rt" "listeners_settle rt"
  shows "\<exists>y. exit_events_loop rt x = Some y \<and> kept (snd (snd x)) (snd (snd y)) \<and> \<not> GetForcePopFrame (frame (snd (snd y)))"
proof -
  obtain m where m: "\<And>s v. pop_requested m s (snd (MethodExitEvent rt v s))" "\<And>s. pop_requested m s (Event rt WatchedFramePopped s)"
    using assms(2) unfolding listeners_settle_def by blast
  show ?thesis
  proof (induction x rule: measure_induct_rule [of "\<lambda>x. m (world (snd (snd x)))"])
    case (less x)
    let ?y = "exit_events_round rt x"
    note k = exit_events_round_kept [OF assms(1), of x]
    show ?case
    proof (cases "GetForcePopFrame (frame (snd (snd ?y)))")
      case True
      then show ?thesis
        using less [OF exit_events_round_pops [OF m True]] kept_trans [OF k]
        by (auto simp: exit_events_loop.simps [of rt x] Let_def)
    next
      case False
      then show ?thesis using k by (simp add: exit_events_loop.simps [of rt x] Let_def)
    qed
  qed
qed

lemma SendMethodExitEvents_ok:
  assumes "callouts_keep rt" "listeners_settle rt"
  shows "\<exists>ok v u. SendMethodExitEvents rt r t = Some (ok, v, u) \<and> kept t u \<and> (\<not> ok \<longrightarrow> halted u)"
proof -
  obtain y where y: "exit_events_loop rt (False, r, t) = Some y" "kept t (snd (snd y))"
    using exit_events_loop_ok [OF assms, of "(False, r, t)"] by auto
  then show ?thesis
    by (cases y) (auto simp: SendMethodExitEvents_def halted_def)
qed

lemma unlock_registers_ok:
  assumes "callouts_keep rt" "\<not> MustCountLocks rt" "\<forall>regs \<in> set locks. \<forall>r \<in> set regs. r < nregs s"
  shows "\<exists>u. unlock_registers rt locks s = Some u \<and> kept s u"
  using assms(3)
proof (induction locks arbitrary: s)
  case Nil
  then show ?case by (simp add: kept_refl)
next
  case (Cons regs locks)
  show ?case
  proof (cases regs)
    case Nil
    then show ?thesis using Cons by simp
  next
    case (Cons r rs)
    then have "r < nregs s" using Cons.prems by simp
    then obtain ref where ref: "GetVRegReference (frame s) r = Some ref" by (simp add: GetVRegReference_def nregs_def)
    have k: "kept s (DoMonitorExit rt ref s)"
      using assms(2) by (simp add: DoMonitorExit_def Let_def callouts_kept [OF assms(1)] kept_refl)
    have "\<forall>regs \<in> set locks. \<forall>r \<in> set regs. r < nregs (DoMonitorExit rt ref s)" using Cons.prems kept_nregs [OF k] by simp
    then obtain u where "unlock_registers rt locks (DoMonitorExit rt ref s) = Some u" "kept (DoMonitorExit rt ref s) u"
      using Cons.IH by blast
    then show ?thesis using Cons ref kept_trans [OF k] by auto
  qed
qed

text \<open>A frame of the method: it has the registers of the method's code.\<close>

definition method_frame :: "'w runtime \<Rightarrow> 'w interp \<Rightarrow> bool" where
  "method_frame rt s \<longleftrightarrow> number_of_vregs (frame s) = ucast (registers_size (accessor rt)) \<and>
     ins_size (accessor rt) \<le> registers_size (accessor rt)"

lemma method_frame_kept: "method_frame rt s \<Longrightarrow> kept s t \<Longrightarrow> method_frame rt t"
  by (simp add: method_frame_def kept_def)

lemma method_frame_nregs: "method_frame rt s \<Longrightarrow> nregs s = unat (registers_size (accessor rt))"
  by (simp add: method_frame_def nregs_def unat_ucast_up)

lemma PerformNonStandardReturn_ok:
  assumes "runtime_ok rt" "method_ok rt df" "method_frame rt s"
  shows "\<exists>u. PerformNonStandardReturn rt s = Some u \<and> kept s u"
proof -
  have rt: "callouts_keep rt" "listeners_settle rt" "\<not> MustCountLocks rt" using assms(1) by (simp_all add: runtime_ok_def)
  define t where "t = (if IsExceptionPending s then ClearException s else s)"
  have t: "kept s t" by (simp add: t_def kept_intros)
  then have "\<forall>regs \<in> set (FindLocksAtDexPc rt pc). \<forall>r \<in> set regs. r < nregs t" for pc
    using assms(2) method_frame_nregs [OF method_frame_kept [OF assms(3) t]] by (auto simp: method_ok_def)
  then obtain u where u: "UnlockHeldMonitors rt t = Some u" "kept s u"
    using unlock_registers_ok [OF rt(1,3)] rt(3) kept_trans [OF t] by (simp add: UnlockHeldMonitors_def) blast
  define w where "w = u\<lparr>ctx_result := 0\<rparr>"
  have w: "kept s w" "snd (DoMonitorCheckOnExit rt u) = u"
    using u(2) rt(3) by (simp_all add: w_def kept_intros DoMonitorCheckOnExit_def)
  obtain ok v x where x: "SendMethodExitEvents rt (ctx_result w) w = Some (ok, v, x)" "kept w x"
    using SendMethodExitEvents_ok [OF rt(1,2)] by blast
  have "kept s (x\<lparr>ctx_result := v\<rparr>)" by (intro kept_updates kept_trans [OF w(1) x(2)])
  then show ?thesis using u(1) w x(1) by (simp add: PerformNonStandardReturn_def Let_def t_def [symmetric] w_def [symmetric])
qed

lemma CheckForceReturn_halts:
  assumes "runtime_ok rt" "method_ok rt df" "method_frame rt s" "kept s t"
  shows "halts s (CheckForceReturn rt h t)"
proof -
  obtain u where u: "PerformNonStandardReturn rt t = Some u" "kept t u"
    using PerformNonStandardReturn_ok [OF assms(1,2) method_frame_kept [OF assms(3,4)]] by blast
  have "kept s (ExitInterpreterLoop u)" by (intro kept_updates kept_trans [OF assms(4) u(2)])
  then show ?thesis using assms(4) u(1) by (auto simp: CheckForceReturn_def halts_go halts_stop)
qed

lemma GetThisObject_ok:
  assumes "method_ok rt df" "method_frame rt s"
  shows "\<exists>obj. GetThisObject (method_is_static rt) (frame s) (ins_size (accessor rt)) = Some obj"
proof -
  let ?r = "registers_size (accessor rt)" and ?i = "ins_size (accessor rt)"
  have "unat (ucast ?r - ucast ?i :: u32) = unat ?r - unat ?i"
    using assms(2) by (subst unat_sub) (simp_all add: method_frame_def word_le_nat_alt unat_ucast_up)
  then show ?thesis
    using assms method_frame_nregs [OF assms(2)]
    by (auto simp: GetThisObject_def GetVRegReference_def method_ok_def method_frame_def word_less_nat_alt
        word_le_nat_alt unat_ucast_up)
qed

lemma DoDexPcMoveEvent_halts:
  assumes "callouts_keep rt" "method_ok rt df" "method_frame rt s" "kept s t"
  shows "halts s (DoDexPcMoveEvent rt pc save t)"
proof -
  have k: "kept s (ClearException t)" by (intro kept_updates assms(4))
  obtain obj where "GetThisObject (method_is_static rt) (frame (ClearException t)) (ins_size (accessor rt)) = Some obj"
    using GetThisObject_ok [OF assms(2) method_frame_kept [OF assms(3) k]] by blast
  then show ?thesis unfolding DoDexPcMoveEvent_def Let_def
    by (auto intro!: halts_go halts_stop kept_updates(4,8) callouts_kept [OF assms(1)] k simp: IsExceptionPending_def halted_def)
qed

lemma Preamble_halts:
  assumes "runtime_ok rt" "method_ok rt df" "method_frame rt s"
  shows "halts s (Preamble rt h s)"
proof -
  have rt: "callouts_keep rt" using assms(1) by (simp add: runtime_ok_def)
  note force = CheckForceReturn_halts [OF assms] and move = DoDexPcMoveEvent_halts [OF rt assms(2,3)]
  have handled: "halts s (if \<not> fst (HandledEvent rt b t) then Some (False, snd (HandledEvent rt b t))
      else CheckForceReturn rt h (snd (HandledEvent rt b t)))" if "kept s t" for b t
    using that unfolding HandledEvent_def Let_def
    by (auto intro!: halts_stop force kept_updates callouts_kept [OF rt])
  show ?thesis unfolding Preamble_def Let_def case_prod_beta
    by (intro halts_bind force kept_refl halts_if move halts_stop halts_go kept_updates handled; simp)
qed

end
