(* ===== verification/InterpreterHandlers.thy ===== *)
theory InterpreterHandlers
  imports InterpreterSafe
begin

text \<open>
  Every handler of the switch is safe.  What a handler needs of its instruction is its \<open>need\<close>:
  the kind of each operand and the way the instruction goes on.  The tables \<open>needs_00_7F\<close> and
  \<open>needs_80_FF\<close> give the needs of the handlers in the order of the opcodes.
\<close>

section \<open>Needs\<close>

datatype operand_kind = Absent | Literal | Single | Wide

datatype flow_kind =
    Falls | Leaves | Jumps | BranchesB | BranchesC | PackedTable | SparseTable | ArrayData | WideLiteral
  | InstanceField | StaticField | Arguments bool | Range bool | CallSite | CallSiteRange | Calls | NewArray | NewArrayRange
  | NegatesInt | NegatesLong | Never

type_synonym need = "operand_kind \<times> operand_kind \<times> operand_kind \<times> flow_kind"

primrec operand_fits :: "operand_kind \<Rightarrow> u32 option \<Rightarrow> nat \<Rightarrow> bool" where
  "operand_fits Absent x n = True"
| "operand_fits Literal x n = (x \<noteq> None)"
| "operand_fits Single x n = int_reg x n"
| "operand_fits Wide x n = wide_reg x n"

definition goes_to :: "InstructionHandler \<Rightarrow> int set \<Rightarrow> u32 option \<Rightarrow> bool" where
  "goes_to h T x \<longleftrightarrow> (\<exists>offset. x = Some offset \<and> inst_pos h + sint offset \<in> T)"

definition array_data_fits :: "u16 list \<Rightarrow> bool" where
  "array_data_fits p \<longleftrightarrow>
     (\<exists>w c. Fetch16 p 1 = Some w \<and> Fetch32 p 2 = Some c \<and> 8 + unat w * unat c \<le> 2 * length p)"

definition array_type_fits :: "dex_file \<Rightarrow> u16 option \<Rightarrow> bool" where
  "array_type_fits df x \<longleftrightarrow> (\<exists>idx. x = Some idx \<and> first_char (GetTypeDescriptor df idx) = CHR ''['')"

primrec flow_fits :: "flow_kind \<Rightarrow> 'w runtime \<Rightarrow> dex_file \<Rightarrow> InstructionHandler \<Rightarrow> int set \<Rightarrow> 'w interp \<Rightarrow> bool" where
  "flow_fits Falls rt df h T s = (next_inst s \<in> T)"
| "flow_fits Leaves rt df h T s = True"
| "flow_fits Jumps rt df h T s = goes_to h T (operand_A h)"
| "flow_fits BranchesB rt df h T s = (next_inst s \<in> T \<and> goes_to h T (operand_B h))"
| "flow_fits BranchesC rt df h T s = (next_inst s \<in> T \<and> goes_to h T (operand_C h))"
| "flow_fits PackedTable rt df h T s =
     goes_to h T (DoPackedSwitch (accessor rt) (inst_pos h) (inst h) (inst_data h) (frame s))"
| "flow_fits SparseTable rt df h T s =
     goes_to h T (DoSparseSwitch (accessor rt) (inst_pos h) (inst h) (inst_data h) (frame s))"
| "flow_fits ArrayData rt df h T s =
     (next_inst s \<in> T \<and>
      (\<exists>offset. operand_B h = Some offset \<and> array_data_fits (code_at (accessor rt) (inst_pos h + sint offset))))"
| "flow_fits WideLiteral rt df h T s = (next_inst s \<in> T \<and> WideVRegB (inst h) \<noteq> None)"
| "flow_fits InstanceField rt df h T s = (next_inst s \<in> T \<and> kFormat h = k22c)"
| "flow_fits StaticField rt df h T s = (next_inst s \<in> T \<and> kFormat h = k21c)"
| "flow_fits (Arguments receiver) rt df h T s =
     (next_inst s \<in> T \<and> inst_pos h \<in> T \<and> (\<exists>c. VRegC_35c (inst h) = Some c \<and> (receiver \<longrightarrow> unat c < nregs s)))"
| "flow_fits (Range receiver) rt df h T s =
     (next_inst s \<in> T \<and> inst_pos h \<in> T \<and> (\<exists>c. VRegC_3rc (inst h) = Some c \<and> (receiver \<longrightarrow> unat c < nregs s)))"
| "flow_fits CallSite rt df h T s =
     (next_inst s \<in> T \<and> inst_pos h \<in> T \<and> VRegB_35c (inst h) \<noteq> None \<and> GetVarArgs (inst h) (inst_data h) \<noteq> None)"
| "flow_fits CallSiteRange rt df h T s =
     (next_inst s \<in> T \<and> inst_pos h \<in> T \<and> VRegB_3rc (inst h) \<noteq> None \<and> VRegC_3rc (inst h) \<noteq> None)"
| "flow_fits Calls rt df h T s = (next_inst s \<in> T \<and> inst_pos h \<in> T)"
| "flow_fits NewArray rt df h T s =
     (next_inst s \<in> T \<and> array_type_fits df (VRegB_35c (inst h)) \<and> unat (VRegA_35c (inst_data h)) \<le> 5 \<and>
      (\<exists>count args. GetVarArgs (inst h) (inst_data h) = Some (count, args) \<and> (\<forall>r \<in> set args. unat r < nregs s)))"
| "flow_fits NewArrayRange rt df h T s =
     (next_inst s \<in> T \<and> array_type_fits df (VRegB_3rc (inst h)) \<and>
      (\<exists>c. VRegC_3rc (inst h) = Some c \<and> unat (VRegA_3rc (inst_data h)) + unat c \<le> nregs s))"
| "flow_fits NegatesInt rt df h T s = (next_inst s \<in> T \<and> GetVReg_B h s \<noteq> Some 0x80000000)"
| "flow_fits NegatesLong rt df h T s = (next_inst s \<in> T \<and> GetVRegLong_B h s \<noteq> Some 0x8000000000000000)"
| "flow_fits Never rt df h T s = False"

definition fits :: "need \<Rightarrow> 'w runtime \<Rightarrow> dex_file \<Rightarrow> InstructionHandler \<Rightarrow> int set \<Rightarrow> 'w interp \<Rightarrow> bool" where
  "fits = (\<lambda>(a, b, c, k) rt df h T s.
     operand_fits a (operand_A h) (nregs s) \<and> operand_fits b (operand_B h) (nregs s) \<and>
     operand_fits c (operand_C h) (nregs s) \<and> flow_fits k rt df h T s \<and>
     next_inst s = inst_pos h + int (SizeInCodeUnitsOfFormat (kFormat h)))"

definition handler_safe :: "need \<Rightarrow> 'w handler \<Rightarrow> bool" where
  "handler_safe need run \<longleftrightarrow>
     (\<forall>rt df h s T. runtime_ok rt \<longrightarrow> method_ok rt df \<longrightarrow> method_frame rt s \<longrightarrow> fits need rt df h T s \<longrightarrow>
        safe T s (run rt h s))"

named_theorems handler_oks \<open>handlers that are safe when their needs are met\<close>

lemma handler_safeI:
  assumes "\<And>rt df h s T. runtime_ok rt \<Longrightarrow> method_ok rt df \<Longrightarrow> method_frame rt s \<Longrightarrow> fits need rt df h T s \<Longrightarrow>
    safe T s (run rt h s)"
  shows "handler_safe need run"
  using assms by (simp add: handler_safe_def)

lemma fits_parts:
  assumes "fits (a, b, c, k) rt df h T s"
  shows "operand_fits a (operand_A h) (nregs s)" "operand_fits b (operand_B h) (nregs s)"
    "operand_fits c (operand_C h) (nregs s)" "flow_fits k rt df h T s"
    "next_inst s = inst_pos h + int (SizeInCodeUnitsOfFormat (kFormat h))"
  using assms by (simp_all add: fits_def)

lemma handler_safe_Falls:
  assumes "\<And>rt h s T. callouts_keep rt \<Longrightarrow> next_inst s \<in> T \<Longrightarrow> operand_fits a (operand_A h) (nregs s) \<Longrightarrow>
    operand_fits b (operand_B h) (nregs s) \<Longrightarrow> operand_fits c (operand_C h) (nregs s) \<Longrightarrow> safe T s (run rt h s)"
  shows "handler_safe (a, b, c, Falls) run"
proof (rule handler_safeI)
  fix rt :: "'a runtime" and df h s T
  assume rt: "runtime_ok rt" and f: "fits (a, b, c, Falls) rt df h T s"
  have "callouts_keep rt" using rt by (simp add: runtime_ok_def)
  then show "safe T s (run rt h s)" using fits_parts [OF f] by (intro assms) simp_all
qed

lemma replicate_needs:
  "replicate 3 (n :: need) = [n, n, n]" "replicate 5 n = [n, n, n, n, n]" "replicate 6 n = [n, n, n, n, n, n]"
  "replicate 8 n = [n, n, n, n, n, n, n, n]" "replicate 11 n = [n, n, n, n, n, n, n, n, n, n, n]"
  by (simp_all add: numeral_eq_Suc)

section \<open>Moves and arithmetic\<close>

lemmas two_ops = OP_MOVE_def OP_MOVE_OBJECT_def OP_NOT_INT_def OP_NEG_FLOAT_def OP_INT_TO_FLOAT_def
  OP_FLOAT_TO_INT_def OP_INT_TO_BYTE_def OP_INT_TO_CHAR_def OP_INT_TO_SHORT_def OP_MOVE_WIDE_def
  OP_NOT_LONG_def OP_NEG_DOUBLE_def OP_LONG_TO_DOUBLE_def OP_DOUBLE_TO_LONG_def OP_INT_TO_LONG_def OP_INT_TO_DOUBLE_def
  OP_FLOAT_TO_LONG_def OP_FLOAT_TO_DOUBLE_def OP_LONG_TO_INT_def OP_LONG_TO_FLOAT_def OP_DOUBLE_TO_INT_def
  OP_DOUBLE_TO_FLOAT_def

lemma two_operands_ok [handler_oks]:
  "handler_safe (Single, Single, Absent, Falls) OP_MOVE" "handler_safe (Single, Single, Absent, Falls) OP_MOVE_OBJECT"
  "handler_safe (Single, Single, Absent, Falls) OP_NOT_INT"
  "handler_safe (Single, Single, Absent, Falls) OP_NEG_FLOAT" "handler_safe (Single, Single, Absent, Falls) OP_INT_TO_FLOAT"
  "handler_safe (Single, Single, Absent, Falls) OP_FLOAT_TO_INT" "handler_safe (Single, Single, Absent, Falls) OP_INT_TO_BYTE"
  "handler_safe (Single, Single, Absent, Falls) OP_INT_TO_CHAR" "handler_safe (Single, Single, Absent, Falls) OP_INT_TO_SHORT"
  "handler_safe (Wide, Wide, Absent, Falls) OP_MOVE_WIDE"
  "handler_safe (Wide, Wide, Absent, Falls) OP_NOT_LONG" "handler_safe (Wide, Wide, Absent, Falls) OP_NEG_DOUBLE"
  "handler_safe (Wide, Wide, Absent, Falls) OP_LONG_TO_DOUBLE" "handler_safe (Wide, Wide, Absent, Falls) OP_DOUBLE_TO_LONG"
  "handler_safe (Wide, Single, Absent, Falls) OP_INT_TO_LONG" "handler_safe (Wide, Single, Absent, Falls) OP_INT_TO_DOUBLE"
  "handler_safe (Wide, Single, Absent, Falls) OP_FLOAT_TO_LONG" "handler_safe (Wide, Single, Absent, Falls) OP_FLOAT_TO_DOUBLE"
  "handler_safe (Single, Wide, Absent, Falls) OP_LONG_TO_INT" "handler_safe (Single, Wide, Absent, Falls) OP_LONG_TO_FLOAT"
  "handler_safe (Single, Wide, Absent, Falls) OP_DOUBLE_TO_INT" "handler_safe (Single, Wide, Absent, Falls) OP_DOUBLE_TO_FLOAT"
  by (rule handler_safe_Falls, unfold two_ops operand_fits.simps, intro safe_intros kept_refl; assumption)+

lemma negations_ok [handler_oks]:
  "handler_safe (Single, Single, Absent, NegatesInt) (OP_NEG_INT :: 'a handler)"
  "handler_safe (Wide, Wide, Absent, NegatesLong) (OP_NEG_LONG :: 'a handler)"
proof -
  show "handler_safe (Single, Single, Absent, NegatesInt) (OP_NEG_INT :: 'a handler)"
  proof (rule handler_safeI)
    fix rt :: "'a runtime" and df h s T
    assume f: "fits (Single, Single, Absent, NegatesInt) rt df h T s"
    then obtain v where v: "GetVReg_B h s = Some v" "v \<noteq> 0x80000000"
      using fits_parts(2,4) [OF f] by (auto simp: GetVReg_B_def GetVReg_def int_reg_def nregs_def)
    show "safe T s (OP_NEG_INT rt h s)"
      using fits_parts(1,4) [OF f] v by (simp add: OP_NEG_INT_def safe_Set kept_refl)
  qed
  show "handler_safe (Wide, Wide, Absent, NegatesLong) (OP_NEG_LONG :: 'a handler)"
  proof (rule handler_safeI)
    fix rt :: "'a runtime" and df h s T
    assume f: "fits (Wide, Wide, Absent, NegatesLong) rt df h T s"
    then obtain v where v: "GetVRegLong_B h s = Some v" "v \<noteq> 0x8000000000000000"
      using fits_parts(2,4) [OF f] by (auto simp: GetVRegLong_B_def GetVRegLong_def wide_reg_def nregs_def)
    show "safe T s (OP_NEG_LONG rt h s)"
      using fits_parts(1,4) [OF f] v by (simp add: OP_NEG_LONG_def safe_Set kept_refl)
  qed
qed

lemmas three_ops = OP_ADD_INT_def OP_SUB_INT_def OP_MUL_INT_def OP_AND_INT_def OP_OR_INT_def OP_XOR_INT_def OP_SHL_INT_def
  OP_SHR_INT_def OP_USHR_INT_def OP_ADD_FLOAT_def OP_SUB_FLOAT_def OP_MUL_FLOAT_def OP_DIV_FLOAT_def OP_REM_FLOAT_def
  OP_CMPL_FLOAT_def OP_CMPG_FLOAT_def OP_CMPL_DOUBLE_def OP_CMPG_DOUBLE_def OP_CMP_LONG_def HandleCmpl_def HandleCmpg_def
  OP_ADD_LONG_def OP_SUB_LONG_def OP_MUL_LONG_def OP_AND_LONG_def OP_OR_LONG_def OP_XOR_LONG_def OP_SHL_LONG_def
  OP_SHR_LONG_def OP_USHR_LONG_def OP_ADD_DOUBLE_def OP_SUB_DOUBLE_def OP_MUL_DOUBLE_def OP_DIV_DOUBLE_def OP_REM_DOUBLE_def

lemma three_operands_ok [handler_oks]:
  "handler_safe (Single, Single, Single, Falls) OP_ADD_INT" "handler_safe (Single, Single, Single, Falls) OP_SUB_INT"
  "handler_safe (Single, Single, Single, Falls) OP_MUL_INT" "handler_safe (Single, Single, Single, Falls) OP_AND_INT"
  "handler_safe (Single, Single, Single, Falls) OP_OR_INT" "handler_safe (Single, Single, Single, Falls) OP_XOR_INT"
  "handler_safe (Single, Single, Single, Falls) OP_SHL_INT" "handler_safe (Single, Single, Single, Falls) OP_SHR_INT"
  "handler_safe (Single, Single, Single, Falls) OP_USHR_INT" "handler_safe (Single, Single, Single, Falls) OP_ADD_FLOAT"
  "handler_safe (Single, Single, Single, Falls) OP_SUB_FLOAT" "handler_safe (Single, Single, Single, Falls) OP_MUL_FLOAT"
  "handler_safe (Single, Single, Single, Falls) OP_DIV_FLOAT" "handler_safe (Single, Single, Single, Falls) OP_REM_FLOAT"
  "handler_safe (Single, Single, Single, Falls) OP_CMPL_FLOAT" "handler_safe (Single, Single, Single, Falls) OP_CMPG_FLOAT"
  "handler_safe (Single, Wide, Wide, Falls) OP_CMPL_DOUBLE" "handler_safe (Single, Wide, Wide, Falls) OP_CMPG_DOUBLE"
  "handler_safe (Single, Wide, Wide, Falls) OP_CMP_LONG" "handler_safe (Wide, Wide, Wide, Falls) OP_ADD_LONG"
  "handler_safe (Wide, Wide, Wide, Falls) OP_SUB_LONG" "handler_safe (Wide, Wide, Wide, Falls) OP_MUL_LONG"
  "handler_safe (Wide, Wide, Wide, Falls) OP_AND_LONG" "handler_safe (Wide, Wide, Wide, Falls) OP_OR_LONG"
  "handler_safe (Wide, Wide, Wide, Falls) OP_XOR_LONG" "handler_safe (Wide, Wide, Single, Falls) OP_SHL_LONG"
  "handler_safe (Wide, Wide, Single, Falls) OP_SHR_LONG" "handler_safe (Wide, Wide, Single, Falls) OP_USHR_LONG"
  "handler_safe (Wide, Wide, Wide, Falls) OP_ADD_DOUBLE" "handler_safe (Wide, Wide, Wide, Falls) OP_SUB_DOUBLE"
  "handler_safe (Wide, Wide, Wide, Falls) OP_MUL_DOUBLE" "handler_safe (Wide, Wide, Wide, Falls) OP_DIV_DOUBLE"
  "handler_safe (Wide, Wide, Wide, Falls) OP_REM_DOUBLE"
  by (rule handler_safe_Falls, unfold three_ops operand_fits.simps, intro safe_intros kept_refl; assumption)+

lemma division_safe [handler_oks]:
  "handler_safe (Single, Single, Single, Falls) OP_DIV_INT" "handler_safe (Single, Single, Single, Falls) OP_REM_INT"
  "handler_safe (Wide, Wide, Wide, Falls) OP_DIV_LONG" "handler_safe (Wide, Wide, Wide, Falls) OP_REM_LONG"
  by (rule handler_safe_Falls, unfold OP_DIV_INT_def OP_REM_INT_def OP_DIV_LONG_def OP_REM_LONG_def operand_fits.simps,
    intro safe_Get safe_reg_A kept_refl safe_divide; assumption)+

lemma two_address_safe [handler_oks]:
  "list_all2 handler_safe (replicate 11 (Single, Single, Absent, Falls)) handlers_INT_2ADDR"
  "list_all2 handler_safe (replicate 8 (Wide, Wide, Absent, Falls) @ replicate 3 (Wide, Single, Absent, Falls)) handlers_LONG_2ADDR"
  "list_all2 handler_safe (replicate 5 (Single, Single, Absent, Falls) @ replicate 5 (Wide, Wide, Absent, Falls)) handlers_FP_2ADDR"
  by ((unfold handlers_INT_2ADDR_def handlers_LONG_2ADDR_def handlers_FP_2ADDR_def replicate_needs append.simps list_all2_Cons list_all2_Nil)?,
    intro conjI refl handler_safe_Falls, unfold operand_fits.simps,
    (intro safe_Get safe_reg_A kept_refl safe_Set safe_divide; assumption)+)+

lemma literals_safe [handler_oks]:
  "list_all2 handler_safe (replicate 8 (Single, Single, Literal, Falls)) handlers_LIT16"
  "list_all2 handler_safe (replicate 11 (Single, Single, Literal, Falls)) handlers_LIT8"
  by ((unfold handlers_LIT16_def handlers_LIT8_def replicate_needs append.simps list_all2_Cons list_all2_Nil)?,
    intro conjI refl handler_safe_Falls, unfold operand_fits.simps,
    (intro safe_Get safe_operand safe_reg_A kept_refl safe_Set safe_divide; assumption)+)+

lemma constants_safe [handler_oks]:
  "handler_safe (Absent, Absent, Absent, Falls) OP_NOP"
  "handler_safe (Single, Absent, Absent, Falls) OP_MOVE_RESULT" "handler_safe (Single, Absent, Absent, Falls) OP_MOVE_RESULT_OBJECT"
  "handler_safe (Wide, Absent, Absent, Falls) OP_MOVE_RESULT_WIDE"
  "handler_safe (Single, Literal, Absent, Falls) OP_CONST" "handler_safe (Single, Literal, Absent, Falls) OP_CONST_HIGH16"
  "handler_safe (Wide, Literal, Absent, Falls) OP_CONST_WIDE_32" "handler_safe (Wide, Literal, Absent, Falls) OP_CONST_WIDE_HIGH16"
  by (rule handler_safe_Falls, unfold OP_NOP_def OP_MOVE_RESULT_def OP_MOVE_RESULT_OBJECT_def OP_MOVE_RESULT_WIDE_def OP_CONST_def
    OP_CONST_HIGH16_def OP_CONST_WIDE_32_def OP_CONST_WIDE_HIGH16_def operand_fits.simps, intro safe_intros kept_refl; assumption)+

lemma wide_constant_safe [handler_oks]: "handler_safe (Wide, Literal, Absent, WideLiteral) OP_CONST_WIDE"
proof (rule handler_safeI)
  fix rt :: "'a runtime" and df h s T
  assume f: "fits (Wide, Literal, Absent, WideLiteral) rt df h T s"
  then obtain b where "WideVRegB (inst h) = Some b" "next_inst s \<in> T" using fits_parts(4) [OF f] by auto
  then show "safe T s (OP_CONST_WIDE rt h s)"
    using fits_parts(1) [OF f] by (simp add: OP_CONST_WIDE_def safe_Set kept_refl)
qed

lemma safe_Set_then:
  assumes "kept s t" "next_inst s \<in> T" "int_reg (operand_A h) (nregs s)" "\<And>u. kept s u \<Longrightarrow> kept s (g u)"
  shows "safe T s (do { (ok, u) \<leftarrow> SetVRegReference_A h v t; Some (ok, g u) })"
proof -
  obtain i f where i: "operand_A h = Some i" "SetVRegReference (frame t) (unat i) v = Some f"
    using assms(3) kept_nregs [OF assms(1)] by (auto simp: int_reg_def nregs_def SetVRegReference_def)
  then show ?thesis
    using kept_regs [OF assms(1) SetVRegReference_regs_only [OF i(2)]] assms(2,4) by (simp add: SetVRegReference_A_def safe_Some)
qed

lemma move_exception_safe [handler_oks]: "handler_safe (Single, Absent, Absent, Falls) OP_MOVE_EXCEPTION"
  by (rule handler_safe_Falls, unfold OP_MOVE_EXCEPTION_def operand_fits.simps, intro safe_Set_then kept_refl kept_updates; assumption)

section \<open>Objects, arrays and monitors\<close>

lemma kept_snd [kept_intros]:
  "(P \<Longrightarrow> kept s (snd x)) \<Longrightarrow> (\<not> P \<Longrightarrow> kept s (snd y)) \<Longrightarrow> kept s (snd (if P then x else y))"
  "kept s t \<Longrightarrow> kept s (snd (v, t))" "kept s (snd p) \<Longrightarrow> kept s (snd (map_prod f id p))"
  by simp_all

lemma monitors_kept:
  assumes "callouts_keep rt" "kept s t"
  shows "kept s (DoMonitorEnter rt obj t)" "kept s (DoMonitorExit rt obj t)"
proof -
  have add: "kept s (AddMonitor obj u)" if "kept s u" for u
    using that by (simp add: AddMonitor_def kept_updates)
  have remove: "kept s (RemoveMonitorOrThrow rt obj u)" if "kept s u" for u
    using that by (auto simp: RemoveMonitorOrThrow_def intro!: kept_updates callouts_kept [OF assms(1)] split: option.split)
  show "kept s (DoMonitorEnter rt obj t)" unfolding DoMonitorEnter_def Let_def
    by (intro kept_if add callouts_kept [OF assms(1)] assms(2))
  show "kept s (DoMonitorExit rt obj t)" unfolding DoMonitorExit_def Let_def
    by (intro kept_if remove callouts_kept [OF assms(1)] assms(2))
qed

lemma ResolveString_kept: "callouts_keep rt \<Longrightarrow> kept s t \<Longrightarrow> kept s (snd (ResolveString rt idx t))"
  unfolding ResolveString_def Let_def case_prod_beta by (intro kept_intros callouts_kept; assumption)

lemmas object_ops = OP_CONST_CLASS_def OP_CONST_METHOD_HANDLE_def OP_CONST_METHOD_TYPE_def HandleConstString_def
  OP_MONITOR_ENTER_def OP_MONITOR_EXIT_def OP_CHECK_CAST_def OP_INSTANCE_OF_def OP_ARRAY_LENGTH_def OP_NEW_INSTANCE_def
  OP_NEW_ARRAY_def OP_APUT_OBJECT_def

lemma object_ops_safe [handler_oks]:
  "handler_safe (Single, Literal, Absent, Falls) OP_CONST_CLASS" "handler_safe (Single, Literal, Absent, Falls) OP_CONST_METHOD_HANDLE"
  "handler_safe (Single, Literal, Absent, Falls) OP_CONST_METHOD_TYPE" "handler_safe (Single, Literal, Absent, Falls) HandleConstString"
  "handler_safe (Single, Absent, Absent, Falls) OP_MONITOR_ENTER" "handler_safe (Single, Absent, Absent, Falls) OP_MONITOR_EXIT"
  "handler_safe (Single, Literal, Absent, Falls) OP_CHECK_CAST" "handler_safe (Single, Single, Literal, Falls) OP_INSTANCE_OF"
  "handler_safe (Single, Single, Absent, Falls) OP_ARRAY_LENGTH" "handler_safe (Single, Literal, Absent, Falls) OP_NEW_INSTANCE"
  "handler_safe (Single, Single, Literal, Falls) OP_NEW_ARRAY" "handler_safe (Single, Single, Single, Falls) OP_APUT_OBJECT"
  by (rule handler_safe_Falls, unfold object_ops Let_def case_prod_beta operand_fits.simps,
    intro safe_intros kept_intros ResolveString_kept monitors_kept callouts_kept; assumption)+

lemma array_elements_safe [handler_oks]:
  "list_all2 handler_safe ([(Single, Single, Single, Falls), (Wide, Single, Single, Falls)] @ replicate 5 (Single, Single, Single, Falls))
     handlers_AGET"
  "list_all2 handler_safe ([(Single, Single, Single, Falls), (Wide, Single, Single, Falls)] @ replicate 5 (Single, Single, Single, Falls))
     handlers_APUT"
  by ((unfold handlers_AGET_def handlers_APUT_def replicate_needs append.simps list_all2_Cons list_all2_Nil)?,
    intro conjI refl handler_safe_Falls,
    unfold HandleAGet_def HandleAPut_def OP_APUT_OBJECT_def operand_fits.simps,
    (intro safe_intros kept_intros callouts_kept; assumption)+)+

section \<open>Returns and exceptions\<close>

lemma MonitorCheck_uncounted: "runtime_ok rt \<Longrightarrow> DoMonitorCheckOnExit rt t = (True, t)"
  by (simp add: runtime_ok_def DoMonitorCheckOnExit_def)

lemma exit_events_safe:
  assumes "runtime_ok rt" "kept s t"
    and "x = (if P then map_option (\<lambda>(ok, r, u). (ok, g r, u)) (SendMethodExitEvents rt r t) else Some (True, r, t))"
  shows "safe T s (do { (ok, result, u) \<leftarrow> x;
      if \<not> ok then Some (False, u\<lparr>frame := SetSkipNextExceptionEvent (frame u) True\<rparr>)
      else Some (False, ExitInterpreterLoop (u\<lparr>ctx_result := result\<rparr>)) })"
proof -
  have "callouts_keep rt" "listeners_settle rt" using assms(1) by (simp_all add: runtime_ok_def)
  then obtain ok v u where "SendMethodExitEvents rt r t = Some (ok, v, u)" "kept t u" "\<not> ok \<longrightarrow> halted u"
    using SendMethodExitEvents_ok by blast
  then show ?thesis using assms(2) kept_trans [of s t u] unfolding assms(3)
    by (auto intro!: safe_stop kept_updates)
qed

lemma HandleReturn_safe:
  assumes "runtime_ok rt" "kept s t"
  shows "safe T s (HandleReturn result rt h t)"
proof -
  have "callouts_keep rt" using assms(1) by (simp add: runtime_ok_def)
  then have k: "kept s (AllowThreadSuspension rt t)" using assms(2) by (intro callouts_kept)
  show ?thesis unfolding HandleReturn_def Let_def MonitorCheck_uncounted [OF assms(1)] case_prod_conv not_True_eq_False if_False
    by (rule exit_events_safe [OF assms(1) k, where g = "\<lambda>r. r" and r = result and
        P = "NeedsMethodExitEvent rt (AllowThreadSuspension rt t)"]) (simp add: case_prod_beta option.map_id)
qed

lemma returns_safe [handler_oks]:
  "handler_safe (Absent, Absent, Absent, Leaves) OP_RETURN_VOID" "handler_safe (Single, Absent, Absent, Leaves) OP_RETURN"
  "handler_safe (Wide, Absent, Absent, Leaves) OP_RETURN_WIDE"
  by (rule handler_safeI, drule fits_parts(1), unfold OP_RETURN_VOID_def OP_RETURN_def OP_RETURN_WIDE_def operand_fits.simps,
    intro safe_Get kept_refl HandleReturn_safe; assumption)+

lemma return_object_safe [handler_oks]: "handler_safe (Single, Absent, Absent, Leaves) OP_RETURN_OBJECT"
proof (rule handler_safeI)
  fix rt :: "'a runtime" and df h s T
  assume rt: "runtime_ok rt" and "fits (Single, Absent, Absent, Leaves) rt df h T s"
  then have A: "int_reg (operand_A h) (nregs s)" using fits_parts(1) by fastforce
  have callouts: "callouts_keep rt" and sdk: "DoAssignabilityChecks rt \<Longrightarrow> target_sdk_version rt \<le> 29"
    and throws: "\<And>k t. halted (Throw rt k t)" and resolves: "\<And>t. fst (ResolveReturnType rt t) = 0 \<Longrightarrow> halted (snd (ResolveReturnType rt t))"
    using rt by (auto simp: runtime_ok_def halted_def DoAssignabilityChecks_def)
  have reg: "\<exists>v. GetVRegReference_A h t = Some v" if "kept s t" for t
    using A kept_nregs [OF that] by (auto simp: int_reg_def nregs_def GetVRegReference_A_def GetVRegReference_def)
  have exit: "safe T s (do { (ok, result, u) \<leftarrow>
        (if NeedsMethodExitEvent rt t
         then do { (ok, r, u) \<leftarrow> SendMethodExitEvents rt (JValue_SetL obj) t; Some (ok, JValue_SetL (JValue_GetL r), u) }
         else Some (True, JValue_SetL obj, t));
      if \<not> ok then Some (False, u\<lparr>frame := SetSkipNextExceptionEvent (frame u) True\<rparr>)
      else Some (False, ExitInterpreterLoop (u\<lparr>ctx_result := result\<rparr>)) })" if k: "kept s t" for obj t
    by (rule exit_events_safe [OF rt k, where g = "\<lambda>r. JValue_SetL (JValue_GetL r)" and r = "JValue_SetL obj" and
        P = "NeedsMethodExitEvent rt t"]) (cases "SendMethodExitEvents rt (JValue_SetL obj) t"; auto)
  define t where "t = AllowThreadSuspension rt s"
  have t: "kept s t" unfolding t_def using callouts by (intro callouts_kept kept_refl)
  obtain obj where obj: "GetVRegReference_A h t = Some obj" using reg [OF t] by blast
  define u where "u = snd (ResolveReturnType rt t)"
  have u: "kept s u" unfolding u_def using callouts t by (intro callouts_kept)
  obtain obj' where obj': "GetVRegReference_A h u = Some obj'" using reg [OF u] by blast
  show "safe T s (OP_RETURN_OBJECT rt h s)"
  proof (cases "obj \<noteq> 0 \<and> DoAssignabilityChecks rt")
    case False
    then show ?thesis using exit [OF t] obj
      by (auto simp: OP_RETURN_OBJECT_def Let_def MonitorCheck_uncounted [OF rt] t_def [symmetric])
  next
    case True
    have thrown: "safe T s (Some (False, Throw rt InternalError u))"
      using callouts u throws by (intro safe_stop callouts_kept)
    obtain c where c: "ResolveReturnType rt t = (c, u)" by (metis u_def prod.collapse)
    have stop: "safe T s (Some (False, u))" if "c = 0" using that resolves [of t] u c by (simp add: safe_stop)
    show ?thesis
      using exit [OF u, of obj'] obj obj' True sdk thrown stop
      by (auto simp: OP_RETURN_OBJECT_def Let_def MonitorCheck_uncounted [OF rt] t_def [symmetric] c)
  qed
qed

lemma throw_safe [handler_oks]: "handler_safe (Single, Absent, Absent, Leaves) OP_THROW"
proof (rule handler_safeI)
  fix rt :: "'a runtime" and df h s T
  assume rt: "runtime_ok rt" and "fits (Single, Absent, Absent, Leaves) rt df h T s"
  then have A: "int_reg (operand_A h) (nregs s)" using fits_parts(1) by fastforce
  have callouts: "callouts_keep rt" and throws: "\<And>k t. halted (Throw rt k t)"
    using rt by (auto simp: runtime_ok_def halted_def)
  have "fst (ObserveAsyncException s) \<Longrightarrow> halted (snd (ObserveAsyncException s))"
    by (auto simp: ObserveAsyncException_def halted_def IsExceptionPending_def)
  moreover have "v \<noteq> 0 \<Longrightarrow> halted (SetException v t)" for v and t :: "'a interp"
    by (simp add: halted_def SetException_def IsExceptionPending_def)
  ultimately show "safe T s (OP_THROW rt h s)" unfolding OP_THROW_def Let_def case_prod_beta
    by (intro safe_if safe_stop safe_Get kept_updates kept_refl callouts_kept callouts throws A)
qed

section \<open>Branches\<close>

lemma Observe_halted: "fst (ObserveAsyncException t) \<Longrightarrow> halted (snd (ObserveAsyncException t))"
  by (auto simp: ObserveAsyncException_def halted_def IsExceptionPending_def)

lemma HandleBranch_safe:
  assumes "callouts_keep rt" "kept s t" "inst_pos h + sint offset \<in> T"
  shows "safe T s (HandleBranch offset rt h t)"
proof -
  define u where "u = snd (ObserveAsyncException t)"
  define v where "v = (if HasListeners rt BranchListeners u then Event rt (BranchEvent (dex_pc h) offset) u else u)"
  obtain osr w where w: "MaybeDoOnStackReplacement rt (dex_pc h) offset v = (osr, w)" by fastforce
  have u: "kept s u" unfolding u_def by (intro kept_updates assms(2))
  then have "kept s v" unfolding v_def by (intro kept_if callouts_kept [OF assms(1)])
  then have kw: "kept s w" using callouts_kept(7) [OF assms(1), of s v "dex_pc h" offset] by (simp add: w)
  define x where "x = AddSamples rt (SetNextInstruction (inst_pos h + sint offset) w)"
  define y where "y = AllowThreadSuspension rt (x\<lparr>frame := SetDexPC (frame x) (word_of_int (next_inst x))\<rparr>)"
  have x: "kept (SetNextInstruction (inst_pos h + sint offset) w) x"
    unfolding x_def by (intro callouts_kept [OF assms(1)] kept_refl)
  have "kept (x\<lparr>frame := SetDexPC (frame x) (word_of_int (next_inst x))\<rparr>) y"
    unfolding y_def by (intro callouts_kept [OF assms(1)] kept_refl)
  with x kw have y: "safe T s (Some (True, y))"
    using assms(3) by (auto simp: safe_def kept_def SetNextInstruction_def SetDexPC_def frame_wf_def CheckConsistentVRegs_def)
  have stop: "safe T s (Some (False, u))" if "fst (ObserveAsyncException t)"
    using that Observe_halted [of t] u by (simp add: u_def safe_stop)
  have left: "safe T s (Some (False, ExitInterpreterLoop (w\<lparr>ctx_result := r\<rparr>)))" for r
    by (intro safe_stop kept_updates kw) simp
  have "safe T s (Some (True, SetNextInstruction (inst_pos h + sint offset) w))"
    using assms(3) by (intro safe_next kw)
  then show ?thesis using y stop left
    by (simp add: HandleBranch_def Let_def case_prod_beta u_def [symmetric] v_def [symmetric] w x_def [symmetric] y_def [symmetric]
        split: option.split)
qed

lemma size_offset: "sint (of_nat (SizeInCodeUnitsOfFormat f) :: u32) = int (SizeInCodeUnitsOfFormat f)"
  by (cases f) (simp_all add: SizeInCodeUnitsOfFormat_def)

lemma HandleIf_safe:
  assumes "callouts_keep rt" "kept s t" "goes_to h T (Some offset)" "next_inst s \<in> T"
    and "next_inst s = inst_pos h + int (SizeInCodeUnitsOfFormat (kFormat h))"
  shows "safe T s (HandleIf c offset rt h t)"
  unfolding HandleIf_def using assms(3-5) by (intro HandleBranch_safe assms(1,2)) (auto simp: goes_to_def size_offset)

lemma branch_needs:
  assumes "fits (a, b, c, k) rt df h T s" "runtime_ok rt"
  shows "callouts_keep rt" "k \<in> {BranchesB, BranchesC} \<Longrightarrow> next_inst s \<in> T"
    "k = Jumps \<Longrightarrow> goes_to h T (operand_A h)" "k = BranchesB \<Longrightarrow> goes_to h T (operand_B h)"
    "k = BranchesC \<Longrightarrow> goes_to h T (operand_C h)"
  using fits_parts(4) [OF assms(1)] assms(2) by (auto simp: runtime_ok_def)

lemma goto_safe [handler_oks]: "handler_safe (Absent, Absent, Absent, Jumps) OP_GOTO"
  by (rule handler_safeI, frule (1) branch_needs(1), drule (1) branch_needs(3) [OF _ _ refl])
    (auto simp: OP_GOTO_def goes_to_def intro!: HandleBranch_safe kept_refl)

lemma if_safe:
  assumes "fits (Single, Single, Literal, BranchesC) rt df h T s" "runtime_ok rt"
  shows "safe T s (do { a \<leftarrow> GetVReg_A h s; b \<leftarrow> GetVReg_B h s; offset \<leftarrow> operand_C h; HandleIf (P a b) offset rt h s })"
proof -
  note needs = branch_needs [OF assms]
  obtain offset where o: "operand_C h = Some offset" "goes_to h T (Some offset)" using needs(5) by (auto simp: goes_to_def)
  show ?thesis using fits_parts(1,2) [OF assms(1)] needs(1,2) unfolding o(1)
    by (auto intro!: safe_Get kept_refl HandleIf_safe o(2) fits_parts(5) [OF assms(1)])
qed

lemma ifz_safe:
  assumes "fits (Single, Literal, Absent, BranchesB) rt df h T s" "runtime_ok rt"
  shows "safe T s (do { a \<leftarrow> GetVReg_A h s; offset \<leftarrow> operand_B h; HandleIf (P a) offset rt h s })"
proof -
  note needs = branch_needs [OF assms]
  obtain offset where o: "operand_B h = Some offset" "goes_to h T (Some offset)" using needs(4) by (auto simp: goes_to_def)
  show ?thesis using fits_parts(1) [OF assms(1)] needs(1,2) unfolding o(1)
    by (auto intro!: safe_Get kept_refl HandleIf_safe o(2) fits_parts(5) [OF assms(1)])
qed

lemma ifs_safe [handler_oks]:
  "list_all2 handler_safe (replicate 6 (Single, Single, Literal, BranchesC)) handlers_IF"
  "list_all2 handler_safe (replicate 6 (Single, Literal, Absent, BranchesB)) handlers_IFZ"
  by ((unfold handlers_IF_def handlers_IFZ_def replicate_needs list_all2_Cons list_all2_Nil)?,
    intro conjI refl handler_safeI if_safe ifz_safe; assumption)+

lemma switches_safe [handler_oks]:
  "handler_safe (Single, Literal, Absent, PackedTable) OP_PACKED_SWITCH"
  "handler_safe (Single, Literal, Absent, SparseTable) OP_SPARSE_SWITCH"
proof -
  have go: "safe T s (Option.bind x (\<lambda>offset. HandleBranch offset rt h s))" if "runtime_ok rt" "goes_to h T x" for rt h T s x
    using that by (auto simp: goes_to_def runtime_ok_def intro!: HandleBranch_safe kept_refl)
  show "handler_safe (Single, Literal, Absent, PackedTable) OP_PACKED_SWITCH"
    "handler_safe (Single, Literal, Absent, SparseTable) OP_SPARSE_SWITCH"
    by (auto intro!: handler_safeI go dest!: fits_parts(4) simp: OP_PACKED_SWITCH_def OP_SPARSE_SWITCH_def)
qed

section \<open>Fields\<close>

definition field_reg :: "PrimitiveType \<Rightarrow> nat \<Rightarrow> nat \<Rightarrow> bool" where
  "field_reg ty r n \<longleftrightarrow>
     (ty = kPrimLong \<and> r + 1 < n) \<or> (ty \<in> {kPrimBoolean, kPrimByte, kPrimChar, kPrimShort, kPrimInt, kPrimNot} \<and> r < n)"

lemma GetFieldInfo_kept: "callouts_keep rt \<Longrightarrow> kept s t \<Longrightarrow> kept s (snd (GetFieldInfo rt pos b b' t))"
  unfolding GetFieldInfo_def Let_def case_prod_beta
  by (cases "InterpreterCache_Get rt pos t") (auto intro!: callouts_kept)

lemma GetVRegReference_ok:
  assumes "kept s t" "r < nregs s"
  obtains v where "GetVRegReference (frame t) r = Some v"
  using that assms kept_nregs [OF assms(1)] by (simp add: GetVRegReference_def nregs_def)

lemma Set_ok:
  assumes "kept s t"
  shows "r < nregs s \<Longrightarrow> \<exists>f. SetVReg (frame t) r v = Some f \<and> kept s (t\<lparr>frame := f\<rparr>)"
    "r < nregs s \<Longrightarrow> \<exists>f. SetVRegReference (frame t) r v = Some f \<and> kept s (t\<lparr>frame := f\<rparr>)"
    "r + 1 < nregs s \<Longrightarrow> \<exists>f. SetVRegLong (frame t) r w = Some f \<and> kept s (t\<lparr>frame := f\<rparr>)"
proof -
  have n: "unat (number_of_vregs (frame t)) = nregs s" using kept_nregs [OF assms] by (simp add: nregs_def)
  note k = kept_regs [OF assms SetVReg_regs_only] kept_regs [OF assms SetVRegReference_regs_only]
    kept_regs [OF assms SetVRegLong_regs_only]
  show "r < nregs s \<Longrightarrow> \<exists>f. SetVReg (frame t) r v = Some f \<and> kept s (t\<lparr>frame := f\<rparr>)"
    using k(1) [of r v] n by (cases "SetVReg (frame t) r v") (auto simp: SetVReg_def)
  show "r < nregs s \<Longrightarrow> \<exists>f. SetVRegReference (frame t) r v = Some f \<and> kept s (t\<lparr>frame := f\<rparr>)"
    using k(2) [of r v] n by (cases "SetVRegReference (frame t) r v") (auto simp: SetVRegReference_def)
  show "r + 1 < nregs s \<Longrightarrow> \<exists>f. SetVRegLong (frame t) r w = Some f \<and> kept s (t\<lparr>frame := f\<rparr>)"
    using k(3) [of r w] n by (cases "SetVRegLong (frame t) r w") (auto simp: SetVRegLong_def)
qed

text \<open>Finding the object of a field access: it may end with an exception.\<close>

lemma field_object:
  assumes "callouts_keep rt" "kept s t" "\<not> is_static \<Longrightarrow> b < nregs s" "\<not> is_static \<Longrightarrow> idx \<noteq> None"
  shows "\<exists>stop obj fld u. (if is_static then Some (x, start_obj, start_fld, t)
      else do { obj \<leftarrow> GetVRegReference (frame t) b;
                if P \<or> obj = 0 then
                  do { field_idx \<leftarrow> idx;
                       let (fld, u) = ResolveFieldWithAccessChecks rt field_idx p q t;
                       if obj = 0 then Some (True, obj, fld, Throw rt NullPointerExceptionForFieldAccess u)
                       else do { obj \<leftarrow> GetVRegReference (frame u) b; Some (False, obj, fld, u) } }
                else Some (False, obj, start_fld, t) }) = Some (stop, obj, fld, u) \<and> kept s u"
proof (cases is_static)
  case True
  then show ?thesis using assms(2) by simp
next
  case False
  then obtain v i where v: "GetVRegReference (frame t) b = Some v" and i: "idx = Some i"
    using assms(3,4) GetVRegReference_ok [OF assms(2)] by blast
  obtain fld u where u: "ResolveFieldWithAccessChecks rt i p q t = (fld, u)" by fastforce
  have k: "kept s u" using callouts_kept(18) [OF assms(1,2), of i p q] by (simp add: u)
  then obtain w where "GetVRegReference (frame u) b = Some w" using False assms(3) GetVRegReference_ok by blast
  then show ?thesis using False v i u k assms(2) callouts_kept(1) [OF assms(1) k] by auto
qed

lemma DoFieldGetCommon_ok:
  assumes "callouts_keep rt" "kept s t" "field_reg ty r n"
  shows "\<exists>v u. DoFieldGetCommon rt ty obj fld t = Some (v, u) \<and> kept s u \<and> (v = None \<longrightarrow> IsExceptionPending u)"
proof -
  have get: "\<exists>v. field_get ty m obj off = Some v" for m off
    using assms(3) by (auto simp: field_reg_def field_get_def)
  define u where "u = (if HasListeners rt FieldReadListeners t
    then Event rt (FieldReadEvent (if Field_IsStatic rt fld then 0 else obj) (GetDexPC (frame t)) fld) t else t)"
  have "kept s u" unfolding u_def by (intro kept_if callouts_kept [OF assms(1)] assms(2))
  then show ?thesis using get [of "heap u" "Field_GetOffset rt fld"]
    unfolding DoFieldGetCommon_def Let_def u_def [symmetric] by auto
qed

lemma DoFieldGet_safe:
  assumes "callouts_keep rt" "next_inst s \<in> T"
    and "field_reg ty (unat (if is_static then VRegA_21c (inst_data h) else VRegA_22c (inst_data h))) (nregs s)"
    and "\<not> is_static \<Longrightarrow> unat (VRegB_22c (inst_data h)) < nregs s" "\<not> is_static \<Longrightarrow> VRegC_22c (inst h) \<noteq> None"
  shows "safe T s (DoFieldGet is_static ty rt h s)"
proof -
  obtain fld0 off t where t: "GetFieldInfo rt (inst_pos h) is_static False s = ((fld0, off), t)" by (metis prod.exhaust)
  have kt: "kept s t" using GetFieldInfo_kept [OF assms(1) kept_refl, of s "inst_pos h" is_static False] by (simp add: t)
  obtain stop obj fld u where u: "kept s u"
    and obj: "(if is_static then (let obj = Field_GetDeclaringClass rt fld0 in Some (ReadConstraint obj t, obj, fld0, t))
      else do { obj \<leftarrow> GetVRegReference (frame t) (unat (VRegB_22c (inst_data h)));
                if HasListeners rt FieldReadListeners s \<or> obj = 0 then
                  do { field_idx \<leftarrow> VRegC_22c (inst h);
                       let (fld, u) = ResolveFieldWithAccessChecks rt field_idx False False t;
                       if obj = 0 then Some (True, obj, fld, Throw rt NullPointerExceptionForFieldAccess u)
                       else do { obj \<leftarrow> GetVRegReference (frame u) (unat (VRegB_22c (inst_data h))); Some (False, obj, fld, u) } }
                else Some (False, obj, fld0, t) }) = Some (stop, obj, fld, u)"
    using field_object [OF assms(1) kt assms(4,5), where start_fld = fld0] unfolding Let_def by blast
  have store: "\<exists>f. (case ty of
       kPrimBoolean \<Rightarrow> SetVReg (frame u) r x1 | kPrimByte \<Rightarrow> SetVReg (frame u) r x2 | kPrimChar \<Rightarrow> SetVReg (frame u) r x3
     | kPrimShort \<Rightarrow> SetVReg (frame u) r x4 | kPrimInt \<Rightarrow> SetVReg (frame u) r x5 | kPrimLong \<Rightarrow> SetVRegLong (frame u) r x6
     | kPrimNot \<Rightarrow> SetVRegReference (frame u) r x7 | _ \<Rightarrow> None) = Some f \<and> kept s (u\<lparr>frame := f\<rparr>)"
    if "kept s u" "field_reg ty r (nregs s)" for r u x1 x2 x3 x4 x5 x6 x7
    using that(2) Set_ok [OF that(1)] by (auto simp: field_reg_def)
  obtain r w where w: "(if HasListeners rt FieldReadListeners s then DoFieldGetCommon rt ty obj fld u else Some (None, u)) = Some (r, w)"
    "kept s w" "HasListeners rt FieldReadListeners s \<Longrightarrow> r = None \<Longrightarrow> IsExceptionPending w"
    using DoFieldGetCommon_ok [OF assms(1) u assms(3), of obj fld] u by (cases "HasListeners rt FieldReadListeners s") auto
  have go: "safe T s (Option.bind x (\<lambda>f. Some (True, w\<lparr>frame := f\<rparr>)))" if "\<exists>f. x = Some f \<and> kept s (w\<lparr>frame := f\<rparr>)" for x
    using that assms(2) by (auto intro: safe_Some)
  have "safe T s None" if "HasListeners rt FieldReadListeners s \<and> r = None" "\<not> IsExceptionPending w" using that w(3) by blast
  then show ?thesis unfolding DoFieldGet_def t Let_def obj [unfolded Let_def] w(1) case_prod_conv bind.bind_lunit
    by (intro safe_if go [OF store [OF w(2) assms(3)]] safe_Some kt u w(2) assms(2)) blast
qed

lemma DoFieldPutCommon_safe:
  assumes "callouts_keep rt" "next_inst s \<in> T" "kept s t" "field_reg ty r n"
  shows "safe T s (DoFieldPutCommon rt ty obj fld val t)"
proof -
  have set: "safe T s (do { m \<leftarrow> field_set ty (heap u) obj off val; Some (True, u\<lparr>heap := m\<rparr>) })" if "kept s u" for u off
    using assms(4) that by (auto simp: field_reg_def field_set_def intro!: safe_Some assms(2) kept_updates)
  show ?thesis unfolding DoFieldPutCommon_def Let_def case_prod_beta
    by (intro safe_if safe_Some set kept_if kept_snd callouts_kept assms(1-3))
qed

lemma GetFieldValue_ok:
  assumes "kept s t" "field_reg ty r (nregs s)"
  obtains v where "GetFieldValue ty (frame t) r = Some v"
proof -
  have n: "unat (number_of_vregs (frame t)) = nregs s" using kept_nregs [OF assms(1)] by (simp add: nregs_def)
  have "\<exists>v. GetFieldValue ty (frame t) r = Some v"
    using assms(2) by (auto simp: field_reg_def GetFieldValue_def GetVReg_def GetVRegLong_def GetVRegReference_def n)
  then show thesis using that by blast
qed

lemma DoFieldPut_safe:
  assumes "callouts_keep rt" "next_inst s \<in> T"
    and "field_reg ty (unat (if is_static then VRegA_21c (inst_data h) else VRegA_22c (inst_data h))) (nregs s)"
    and "\<not> is_static \<Longrightarrow> unat (VRegB_22c (inst_data h)) < nregs s" "\<not> is_static \<Longrightarrow> VRegC_22c (inst h) \<noteq> None"
  shows "safe T s (DoFieldPut is_static ty rt h s)"
proof -
  let ?A = "unat (if is_static then VRegA_21c (inst_data h) else VRegA_22c (inst_data h))"
  have "?A < nregs s" using assms(3) by (auto simp: field_reg_def)
  then obtain ref where ref: "GetVRegReference (frame s) ?A = Some ref" using GetVRegReference_ok [OF kept_refl] by blast
  obtain fld0 off t where t: "GetFieldInfo rt (inst_pos h) is_static (ref \<noteq> 0) s = ((fld0, off), t)" by (metis prod.exhaust)
  have kt: "kept s t" using GetFieldInfo_kept [OF assms(1) kept_refl, of s "inst_pos h" is_static "ref \<noteq> 0"] by (simp add: t)
  obtain stop obj fld u where u: "kept s u"
    and obj: "(if is_static then Some (False, Field_GetDeclaringClass rt fld0, fld0, t)
      else do { obj \<leftarrow> GetVRegReference (frame t) (unat (VRegB_22c (inst_data h)));
                if HasListeners rt FieldWriteListeners s \<or> obj = 0 then
                  do { field_idx \<leftarrow> VRegC_22c (inst h);
                       let (fld, u) = ResolveFieldWithAccessChecks rt field_idx True (ref \<noteq> 0) t;
                       if obj = 0 then Some (True, obj, fld, Throw rt NullPointerExceptionForFieldAccess u)
                       else do { obj \<leftarrow> GetVRegReference (frame u) (unat (VRegB_22c (inst_data h))); Some (False, obj, fld, u) } }
                else Some (False, obj, fld0, t) }) = Some (stop, obj, fld, u)"
    using field_object [OF assms(1) kt assms(4,5), where start_fld = fld0] by blast
  obtain val where val: "GetFieldValue ty (frame u) ?A = Some val" using GetFieldValue_ok [OF u assms(3)] by blast
  have set: "safe T s (do { m \<leftarrow> field_set ty (heap u) obj off val; Some (True, u\<lparr>heap := m\<rparr>) })"
    using assms(3) u by (auto simp: field_reg_def field_set_def intro!: safe_Some assms(2) kept_updates)
  show ?thesis unfolding DoFieldPut_def Let_def ref t obj [unfolded Let_def] val case_prod_conv bind.bind_lunit
    by (intro safe_if safe_Some DoFieldPutCommon_safe [OF _ _ _ assms(3)] set kt u assms(1,2))
qed

lemma field_needs:
  assumes "fits (a, b, c, k) rt df h T s" "runtime_ok rt"
  shows "callouts_keep rt"
    "k = StaticField \<Longrightarrow> next_inst s \<in> T" "k = InstanceField \<Longrightarrow> next_inst s \<in> T"
    "k = StaticField \<Longrightarrow> a = (if ty = kPrimLong then Wide else Single) \<Longrightarrow>
       ty \<in> {kPrimBoolean, kPrimByte, kPrimChar, kPrimShort, kPrimInt, kPrimLong, kPrimNot} \<Longrightarrow>
       field_reg ty (unat (VRegA_21c (inst_data h))) (nregs s)"
    "k = InstanceField \<Longrightarrow> a = (if ty = kPrimLong then Wide else Single) \<Longrightarrow>
       ty \<in> {kPrimBoolean, kPrimByte, kPrimChar, kPrimShort, kPrimInt, kPrimLong, kPrimNot} \<Longrightarrow>
       field_reg ty (unat (VRegA_22c (inst_data h))) (nregs s)"
    "k = InstanceField \<Longrightarrow> b = Single \<Longrightarrow> unat (VRegB_22c (inst_data h)) < nregs s"
    "k = InstanceField \<Longrightarrow> c = Literal \<Longrightarrow> VRegC_22c (inst h) \<noteq> None"
  using fits_parts(1-4) [OF assms(1)] assms(2)
  by (auto simp: runtime_ok_def field_reg_def operand_A_def operand_B_def operand_C_def VRegA_def VRegB_def VRegC_def
      int_reg_def wide_reg_def unat_ucast_up split: if_splits)

abbreviation field_needs_of :: "operand_kind \<Rightarrow> operand_kind \<Rightarrow> flow_kind \<Rightarrow> need list" where
  "field_needs_of b c k \<equiv> [(Single, b, c, k), (Wide, b, c, k)] @ replicate 5 (Single, b, c, k)"

lemma fields_safe [handler_oks]:
  "list_all2 handler_safe (field_needs_of Single Literal InstanceField) handlers_IGET"
  "list_all2 handler_safe (field_needs_of Single Literal InstanceField) handlers_IPUT"
  "list_all2 handler_safe (field_needs_of Literal Absent StaticField) handlers_SGET"
  "list_all2 handler_safe (field_needs_of Literal Absent StaticField) handlers_SPUT"
  by ((unfold handlers_IGET_def handlers_IPUT_def handlers_SGET_def handlers_SPUT_def replicate_needs append.simps list_all2_Cons list_all2_Nil)?,
    intro conjI refl handler_safeI;
    (rule DoFieldGet_safe DoFieldPut_safe; simp add: field_needs))+

section \<open>Array data\<close>

lemma data_units:
  assumes "array_data_fits p" "Fetch16 p 1 = Some w" "Fetch32 p 2 = Some c"
  shows "\<exists>bytes. code_bytes (drop 4 p) (unat (c * ucast w)) = Some bytes"
proof -
  have le: "8 + unat w * unat c \<le> 2 * length p" using assms by (simp add: array_data_fits_def)
  have "unat (c * ucast w) \<le> unat c * unat w"
    by (simp add: unat_word_ariths unat_ucast_up)
  then have "unat (c * ucast w) \<le> 2 * length (drop 4 p)" using le by (simp add: mult.commute)
  then show ?thesis by (simp add: code_bytes_def)
qed

lemma FillArrayData_safe:
  assumes "callouts_keep rt" "next_inst s \<in> T" "kept s t" "array_data_fits p"
  shows "safe T s (FillArrayData rt obj p t)"
proof -
  obtain w c where wc: "Fetch16 p 1 = Some w" "Fetch32 p 2 = Some c" using assms(4) by (auto simp: array_data_fits_def)
  obtain bytes where bytes: "code_bytes (drop 4 p) (unat (c * ucast w)) = Some bytes"
    using data_units [OF assms(4) wc] by blast
  show ?thesis unfolding FillArrayData_def wc Let_def bytes bind.bind_lunit
    by (intro safe_if safe_Some callouts_kept kept_updates assms(1-3))
qed

lemma fill_array_data_safe [handler_oks]: "handler_safe (Single, Literal, Absent, ArrayData) OP_FILL_ARRAY_DATA"
proof (rule handler_safeI)
  fix rt :: "'a runtime" and df h s T
  assume rt: "runtime_ok rt" and f: "fits (Single, Literal, Absent, ArrayData) rt df h T s"
  obtain offset where o: "operand_B h = Some offset" "array_data_fits (code_at (accessor rt) (inst_pos h + sint offset))"
    "next_inst s \<in> T"
    using fits_parts(4) [OF f] by auto
  have "callouts_keep rt" "int_reg (operand_A h) (nregs s)" using rt fits_parts(1) [OF f] by (simp_all add: runtime_ok_def)
  then show "safe T s (OP_FILL_ARRAY_DATA rt h s)" unfolding OP_FILL_ARRAY_DATA_def Let_def o(1) bind.bind_lunit
    by (intro safe_Get FillArrayData_safe kept_refl o(2,3))
qed

lemma read_all_ok: "\<forall>r \<in> set rs. \<exists>v. get r = Some v \<Longrightarrow> \<exists>vs. read_all get rs = Some vs"
  by (induction rs) auto

lemma DoFilledNewArray_safe:
  assumes "callouts_keep rt" "next_inst s \<in> T" "method_ok rt df"
    and "array_type_fits df (if is_range then VRegB_3rc i else VRegB_35c i)" "\<not> is_range \<Longrightarrow> unat (VRegA_35c d) \<le> 5"
    and "(if is_range then map_option (\<lambda>vregC. map (\<lambda>k. unat vregC + k) [0..<unat (VRegA_3rc d)]) (VRegC_3rc i)
      else map_option (\<lambda>(_, args). map unat args) (GetVarArgs i d)) = Some regs" "\<forall>r \<in> set regs. r < nregs s"
  shows "safe T s (DoFilledNewArray rt is_range i d s)"
proof -
  obtain idx where idx: "(if is_range then VRegB_3rc i else VRegB_35c i) = Some idx" "first_char (GetTypeDescriptor df idx) = CHR ''[''"
    using assms(4) by (auto simp: array_type_fits_def)
  obtain c t where t: "ResolveVerifyAndClinit rt idx s = (c, t)" by fastforce
  have kt: "kept s t" using callouts_kept(9) [OF assms(1) kept_refl, of s idx] by (simp add: t)
  have arr: "c \<noteq> 0 \<Longrightarrow> IsArrayClass rt c" using assms(3) idx(2) by (metis method_ok_def t fst_conv)
  let ?n = "ucast (if is_range then VRegA_3rc d else VRegA_35c d) :: u32"
  obtain a u where u: "Array_Alloc rt c ?n t = (a, u)" by fastforce
  have ku: "kept s u" using callouts_kept(23) [OF assms(1) kt, of c ?n] by (simp add: u)
  have small: "\<not> (\<not> is_range \<and> 5 <s ?n)"
  proof -
    have "sint (of_nat (unat (VRegA_35c d)) :: u32) = int (unat (VRegA_35c d))"
      using unsigned_less [of "VRegA_35c d", where ?'a = nat] by (intro sint_of_nat_u32) simp
    then have "sint (ucast (VRegA_35c d) :: u32) = int (unat (VRegA_35c d))" by simp
    moreover have "int (unat (VRegA_35c d)) \<le> int 5" if "\<not> is_range" using assms(5) [OF that] by (simp only: of_nat_le_iff)
    ultimately show ?thesis by (auto simp: word_sless_alt)
  qed
  have regs: "(if is_range then map_option (\<lambda>vregC. map (\<lambda>k. unat vregC + k) [0..<unat ?n]) (VRegC_3rc i)
      else map_option (\<lambda>(_, args). map unat args) (GetVarArgs i d)) = Some regs"
    using assms(6) by (simp add: unat_ucast_up split: if_splits)
  have "\<exists>v. GetVReg (frame u) r = Some v" "\<exists>v. GetVRegReference (frame u) r = Some v" if "r \<in> set regs" for r
    using that assms(7) kept_nregs [OF ku] by (auto simp: GetVReg_def GetVRegReference_def nregs_def)
  then obtain vs ws where "read_all (GetVReg (frame u)) regs = Some vs" "read_all (GetVRegReference (frame u)) regs = Some ws"
    using read_all_ok [of regs "GetVReg (frame u)"] read_all_ok [of regs "GetVRegReference (frame u)"] by blast
  then have fill: "safe T s (do { m \<leftarrow> (if P then map_option f (read_all (GetVReg (frame u)) regs)
        else map_option g (read_all (GetVRegReference (frame u)) regs)); Some (True, u\<lparr>heap := m, result_register := v\<rparr>) })" for P f g v
    by (auto intro!: safe_Some kept_updates ku assms(2))
  have dead: "safe T s None" if "\<not> IsArrayClass rt c" "c \<noteq> 0" using that arr by simp
  show ?thesis unfolding DoFilledNewArray_def Let_def idx(1) t u regs bind.bind_lunit case_prod_conv if_not_P [OF small]
    by (intro safe_if fill safe_Some callouts_kept kt ku kept_refl dead assms(1,2))
qed

lemma filled_new_array_safe [handler_oks]: "handler_safe (Absent, Absent, Absent, NewArray) OP_FILLED_NEW_ARRAY"
proof (rule handler_safeI)
  fix rt :: "'a runtime" and df h s T
  assume a: "runtime_ok rt" "method_ok rt df" "fits (Absent, Absent, Absent, NewArray) rt df h T s"
  note flow = fits_parts(4) [OF a(3), unfolded flow_fits.simps]
  obtain count args where args: "GetVarArgs (inst h) (inst_data h) = Some (count, args)" "\<forall>r \<in> set args. unat r < nregs s"
    using flow by blast
  show "safe T s (OP_FILLED_NEW_ARRAY rt h s)" unfolding OP_FILLED_NEW_ARRAY_def
    using flow args a(1,2) by (intro DoFilledNewArray_safe [where df = df and regs = "map unat args"]) (simp_all add: runtime_ok_def)
qed

lemma filled_new_array_range_safe [handler_oks]:
  "handler_safe (Absent, Absent, Absent, NewArrayRange) OP_FILLED_NEW_ARRAY_RANGE"
proof (rule handler_safeI)
  fix rt :: "'a runtime" and df h s T
  assume a: "runtime_ok rt" "method_ok rt df" "fits (Absent, Absent, Absent, NewArrayRange) rt df h T s"
  note flow = fits_parts(4) [OF a(3), unfolded flow_fits.simps]
  obtain c where c: "VRegC_3rc (inst h) = Some c" "unat (VRegA_3rc (inst_data h)) + unat c \<le> nregs s" using flow by blast
  show "safe T s (OP_FILLED_NEW_ARRAY_RANGE rt h s)" unfolding OP_FILLED_NEW_ARRAY_RANGE_def
    using flow c a(1,2)
    by (intro DoFilledNewArray_safe [where df = df and regs = "map (\<lambda>k. unat c + k) [0..<unat (VRegA_3rc (inst_data h))]"])
      (simp_all add: runtime_ok_def)
qed

section \<open>Calls\<close>

lemma Possibly_safe:
  assumes "next_inst s \<in> T" "inst_pos h \<in> T" "kept s t"
  shows "safe T s (PossiblyHandlePendingExceptionOnInvoke p rt h t)"
  unfolding PossiblyHandlePendingExceptionOnInvoke_def Let_def
  by (intro safe_if safe_Some safe_next kept_if kept_updates assms)

lemma call_safe:
  assumes "next_inst s \<in> T" "inst_pos h \<in> T" "\<exists>ok t. r = Some (ok, t) \<and> kept s t"
  shows "safe T s (Option.bind r (\<lambda>(ok, t). PossiblyHandlePendingExceptionOnInvoke (\<not> ok) rt h t))"
  using assms(3) Possibly_safe [OF assms(1,2)] by auto

lemma DoInvoke_ok:
  assumes "callouts_keep rt" "(if is_range then map_option unat (VRegC_3rc i) else map_option unat (VRegC_35c i)) = Some c"
    and "type \<noteq> kStatic \<Longrightarrow> c < nregs s"
  shows "\<exists>ok t. DoInvoke rt type is_range pos i s = Some (ok, t) \<and> kept s t"
proof -
  define t where "t = snd (ObserveAsyncException s)"
  have t: "kept s t" unfolding t_def by (intro kept_updates kept_refl)
  obtain obj where obj: "(if type = kStatic then Some 0 else GetVRegReference (frame t) c) = Some obj"
    using assms(3) GetVRegReference_ok [OF t, of c] by (cases "type = kStatic") auto
  obtain m b u where u: "FindMethodToCall rt type obj pos t = (m, b, u)" by (metis prod.exhaust)
  have ku: "kept s u" using callouts_kept(24) [OF assms(1) t, of type obj pos] by (simp add: u)
  have call: "kept s (snd (DoCall rt is_range m pos b u))" by (intro callouts_kept assms(1) ku)
  then show ?thesis
    unfolding DoInvoke_def Let_def case_prod_beta t_def [symmetric] assms(2) obj bind.bind_lunit u fst_conv snd_conv
    using t kept_updates(4) [OF ku] by (cases "DoCall rt is_range m pos b u") auto
qed

lemma invoke_safe:
  assumes "fits (a, b, c, k) rt df h T s" "runtime_ok rt"
    and "k = (if is_range then Range (type \<noteq> kStatic) else Arguments (type \<noteq> kStatic))"
  shows "safe T s (HandleInvoke type is_range rt h s)"
proof -
  have rt: "callouts_keep rt" using assms(2) by (simp add: runtime_ok_def)
  have n: "next_inst s \<in> T" "inst_pos h \<in> T" using fits_parts(4) [OF assms(1)] assms(3) by (auto split: if_splits)
  obtain w where w: "(if is_range then map_option unat (VRegC_3rc (inst h)) else map_option unat (VRegC_35c (inst h))) = Some w"
    "type \<noteq> kStatic \<Longrightarrow> w < nregs s"
    using fits_parts(4) [OF assms(1)] assms(3) by (auto split: if_splits)
  show ?thesis unfolding HandleInvoke_def
    by (intro call_safe n DoInvoke_ok [OF rt w(1)] w(2))
qed

abbreviation invoke_needs :: "(bool \<Rightarrow> flow_kind) \<Rightarrow> need list" where
  "invoke_needs k \<equiv> [(Absent, Absent, Absent, k True), (Absent, Absent, Absent, k True), (Absent, Absent, Absent, k True),
     (Absent, Absent, Absent, k False), (Absent, Absent, Absent, k True)]"

lemma invokes_safe [handler_oks]:
  "list_all2 handler_safe (invoke_needs Arguments) handlers_INVOKE"
  "list_all2 handler_safe (invoke_needs Range) handlers_INVOKE_RANGE"
  by ((unfold handlers_INVOKE_def handlers_INVOKE_RANGE_def list_all2_Cons list_all2_Nil)?,
    intro conjI refl handler_safeI; rule invoke_safe; simp)+

lemma polymorphic_safe [handler_oks]:
  "handler_safe (Absent, Absent, Absent, Calls) OP_INVOKE_POLYMORPHIC"
  "handler_safe (Absent, Absent, Absent, Calls) OP_INVOKE_POLYMORPHIC_RANGE"
  unfolding OP_INVOKE_POLYMORPHIC_def OP_INVOKE_POLYMORPHIC_RANGE_def Let_def case_prod_beta
  by (auto intro!: handler_safeI Possibly_safe callouts_kept kept_refl simp: runtime_ok_def fits_def)

lemma custom_safe [handler_oks]:
  "handler_safe (Absent, Absent, Absent, CallSite) OP_INVOKE_CUSTOM"
  "handler_safe (Absent, Absent, Absent, CallSiteRange) OP_INVOKE_CUSTOM_RANGE"
  unfolding OP_INVOKE_CUSTOM_def OP_INVOKE_CUSTOM_RANGE_def case_prod_beta
  by (auto intro!: handler_safeI Possibly_safe callouts_kept kept_refl simp: runtime_ok_def fits_def DoInvokeCustom_def)

lemma unused_safe [handler_oks]: "handler_safe (a, b, c, Never) HandleUnused"
  by (rule handler_safeI) (simp add: fits_def)

section \<open>The table\<close>

abbreviation s1 :: need where "s1 \<equiv> (Single, Absent, Absent, Falls)"
abbreviation s2 :: need where "s2 \<equiv> (Single, Single, Absent, Falls)"
abbreviation s3 :: need where "s3 \<equiv> (Single, Single, Single, Falls)"
abbreviation w2 :: need where "w2 \<equiv> (Wide, Wide, Absent, Falls)"
abbreviation w3 :: need where "w3 \<equiv> (Wide, Wide, Wide, Falls)"
abbreviation sl :: need where "sl \<equiv> (Single, Literal, Absent, Falls)"
abbreviation wl :: need where "wl \<equiv> (Wide, Literal, Absent, Falls)"
abbreviation plain :: "flow_kind \<Rightarrow> need" where "plain k \<equiv> (Absent, Absent, Absent, k)"

definition needs_00_7F :: "need list" where
  "needs_00_7F =
     [plain Falls, s2, s2, s2, w2, w2, w2, s2, s2, s2, s1, (Wide, Absent, Absent, Falls), s1, s1,
      plain Leaves, (Single, Absent, Absent, Leaves), (Wide, Absent, Absent, Leaves), (Single, Absent, Absent, Leaves),
      sl, sl, sl, sl, wl, wl, (Wide, Literal, Absent, WideLiteral), wl, sl, sl, sl, s1, s1, sl,
      (Single, Single, Literal, Falls), s2, sl, (Single, Single, Literal, Falls), plain NewArray, plain NewArrayRange,
      (Single, Literal, Absent, ArrayData), (Single, Absent, Absent, Leaves), plain Jumps, plain Jumps, plain Jumps,
      (Single, Literal, Absent, PackedTable), (Single, Literal, Absent, SparseTable), s3, s3,
      (Single, Wide, Wide, Falls), (Single, Wide, Wide, Falls), (Single, Wide, Wide, Falls)] @
     replicate 6 (Single, Single, Literal, BranchesC) @ replicate 6 (Single, Literal, Absent, BranchesB) @
     replicate 6 (plain Never) @
     ([s3, (Wide, Single, Single, Falls)] @ replicate 5 s3) @ ([s3, (Wide, Single, Single, Falls)] @ replicate 5 s3) @
     field_needs_of Single Literal InstanceField @ field_needs_of Single Literal InstanceField @
     field_needs_of Literal Absent StaticField @ field_needs_of Literal Absent StaticField @
     invoke_needs Arguments @ [plain Never] @ invoke_needs Range @ [plain Never, plain Never,
       (Single, Single, Absent, NegatesInt), s2, (Wide, Wide, Absent, NegatesLong), w2, s2]"

definition needs_80_FF :: "need list" where
  "needs_80_FF =
     [w2, (Wide, Single, Absent, Falls), s2, (Wide, Single, Absent, Falls), (Single, Wide, Absent, Falls),
      (Single, Wide, Absent, Falls), w2, s2, (Wide, Single, Absent, Falls), (Wide, Single, Absent, Falls),
      (Single, Wide, Absent, Falls), w2, (Single, Wide, Absent, Falls), s2, s2, s2,
      s3, s3, s3, s3, s3, s3, s3, s3, s3, s3, s3, w3, w3, w3, w3, w3, w3, w3, w3,
      (Wide, Wide, Single, Falls), (Wide, Wide, Single, Falls), (Wide, Wide, Single, Falls),
      s3, s3, s3, s3, s3, w3, w3, w3, w3, w3] @
     replicate 11 s2 @ (replicate 8 w2 @ replicate 3 (Wide, Single, Absent, Falls)) @ (replicate 5 s2 @ replicate 5 w2) @
     replicate 8 (Single, Single, Literal, Falls) @ replicate 11 (Single, Single, Literal, Falls) @
     (replicate 23 (plain Never) @ [plain Calls, plain Calls, plain CallSite, plain CallSiteRange, sl, sl])"

lemma handlers_table_safe: "list_all2 handler_safe (needs_00_7F @ needs_80_FF) (handlers_00_7F @ handlers_80_FF)"
proof -
  have never: "list_all2 handler_safe (replicate 6 (plain Never)) [HandleUnused, HandleUnused, HandleUnused, HandleUnused, HandleUnused, HandleUnused]"
    unfolding replicate_needs by (simp add: unused_safe)
  have last: "replicate 23 n @ xs = n # n # n # n # n # n # n # n # n # n # n # n # n # n # n # n # n # n # n # n # n # n # n # xs" for n :: need and xs
    by (simp add: numeral_eq_Suc)
  have low: "list_all2 handler_safe needs_00_7F handlers_00_7F"
    unfolding needs_00_7F_def handlers_00_7F_def
    by (intro list_all2_appendI handler_oks never) ((unfold list_all2_Cons list_all2_Nil)?, intro conjI refl handler_oks)+
  have "list_all2 handler_safe needs_80_FF handlers_80_FF"
    unfolding needs_80_FF_def handlers_80_FF_def last
    by (intro list_all2_appendI handler_oks) ((unfold list_all2_Cons list_all2_Nil)?, intro conjI refl handler_oks)+
  with low show ?thesis by (rule list_all2_appendI)
qed

text \<open>What the row of the opcode table promises of an opcode with such a need.\<close>

primrec A_ok :: "operand_kind \<Rightarrow> InstructionDescriptor \<Rightarrow> bool" where
  "A_ok Absent d = True"
| "A_ok Literal d = True"
| "A_ok Single d = (verify_flags d AND 3 = 1)"
| "A_ok Wide d = (verify_flags d AND 3 = 2)"

primrec B_ok :: "operand_kind \<Rightarrow> InstructionDescriptor \<Rightarrow> bool" where
  "B_ok Absent d = True"
| "B_ok Literal d = (format d \<in> {k11n, k12x, k21c, k21h, k21s, k21t, k22b, k22c, k22s, k22t, k22x, k23x,
      k31c, k31i, k31t, k32x, k35c, k3rc, k45cc, k4rcc, k51l})"
| "B_ok Single d = (verify_flags d AND 0x40001FC = 4)"
| "B_ok Wide d = (verify_flags d AND 0x40001FC = 0x100)"

primrec C_ok :: "operand_kind \<Rightarrow> InstructionDescriptor \<Rightarrow> bool" where
  "C_ok Absent d = True"
| "C_ok Literal d = (format d \<in> {k22b, k22c, k22s, k22t, k23x, k35c, k3rc, k45cc, k4rcc})"
| "C_ok Single d = (verify_flags d AND 0x3E00 = 0x200)"
| "C_ok Wide d = (verify_flags d AND 0x3E00 = 0x2000)"

primrec format_ok :: "flow_kind \<Rightarrow> Format \<Rightarrow> bool" where
  "format_ok Falls f = True"
| "format_ok Leaves f = True"
| "format_ok Jumps f = (f \<in> {k10t, k20t, k30t})"
| "format_ok BranchesB f = (f = k21t)"
| "format_ok BranchesC f = (f = k22t)"
| "format_ok PackedTable f = (f = k31t)"
| "format_ok SparseTable f = (f = k31t)"
| "format_ok ArrayData f = (f = k31t)"
| "format_ok WideLiteral f = (f = k51l)"
| "format_ok InstanceField f = (f = k22c)"
| "format_ok StaticField f = (f = k21c)"
| "format_ok (Arguments receiver) f = (f = k35c)"
| "format_ok (Range receiver) f = (f = k3rc)"
| "format_ok CallSite f = (f = k35c)"
| "format_ok CallSiteRange f = (f = k3rc)"
| "format_ok Calls f = True"
| "format_ok NewArray f = (f = k35c)"
| "format_ok NewArrayRange f = (f = k3rc)"
| "format_ok NegatesInt f = True"
| "format_ok NegatesLong f = True"
| "format_ok Never f = True"

definition flow_ok :: "flow_kind \<Rightarrow> u8 \<Rightarrow> InstructionDescriptor \<Rightarrow> bool" where
  "flow_ok k op d \<longleftrightarrow> format_ok k (format d) \<and>
     (k \<notin> {Leaves, Jumps, Never} \<longrightarrow> flags d AND kContinue \<noteq> 0) \<and>
     (k \<in> {Jumps, BranchesB, BranchesC} \<longrightarrow> flags d AND kBranch \<noteq> 0) \<and>
     (k = PackedTable \<longrightarrow> op = PACKED_SWITCH) \<and> (k = SparseTable \<longrightarrow> op = SPARSE_SWITCH) \<and>
     (k = ArrayData \<longrightarrow> op = FILL_ARRAY_DATA) \<and>
     (k = NegatesInt \<longrightarrow> op = NEG_INT) \<and> (k = NegatesLong \<longrightarrow> op = NEG_LONG) \<and>
     (k \<in> {Arguments True, Arguments False, Range True, Range False, CallSite, CallSiteRange, Calls} \<longrightarrow>
        flags d AND kInvoke \<noteq> 0 \<or> op \<in> {INVOKE_CUSTOM, INVOKE_CUSTOM_RANGE}) \<and>
     (k = Arguments True \<longrightarrow> verify_flags d AND 0x3FC000 = kVerifyVarArgNonZero) \<and>
     (k = Range True \<longrightarrow> verify_flags d AND 0x3FC000 = kVerifyVarArgRangeNonZero) \<and>
     (k \<in> {NewArray, NewArrayRange} \<longrightarrow> verify_flags d AND 0x40001FC = kVerifyRegBFilledNewArray) \<and>
     (k = Never \<longrightarrow> verify_flags d AND 0x3FC000 = kVerifyError)"

definition need_ok :: "u8 \<Rightarrow> InstructionDescriptor \<Rightarrow> need \<Rightarrow> bool" where
  "need_ok op d = (\<lambda>(a, b, c, k). A_ok a d \<and> B_ok b d \<and> C_ok c d \<and> flow_ok k op d)"

lemma needs_table_ok:
  "list_all2 (\<lambda>row need. need_ok (fst row) (INSTRUCTION_DESCR row) need)
     (DEX_INSTRUCTION_LIST_00_7F @ DEX_INSTRUCTION_LIST_80_FF) (needs_00_7F @ needs_80_FF)"
  by code_simp

lemma opcode_need:
  fixes rt :: "'a runtime"
  obtains need where "need_ok op (InstructionDescriptorOf op) need" "handler_safe need (OPCODE_CASE op :: 'a handler)"
proof -
  let ?rows = "DEX_INSTRUCTION_LIST_00_7F @ DEX_INSTRUCTION_LIST_80_FF"
  let ?needs = "needs_00_7F @ needs_80_FF" and ?handlers = "handlers_00_7F @ handlers_80_FF :: 'a handler list"
  have lt: "unat op < 256" using unsigned_less [of op, where ?'a = nat] by simp
  have len: "length ?needs = 256" using list_all2_lengthD [OF needs_table_ok] length_table by simp
  have "fst (?rows ! unat op) = map fst ?rows ! unat op" using lt length_table by (simp only: nth_map)
  then have "fst (?rows ! unat op) = op" unfolding opcodes_in_order using lt by simp
  moreover have "InstructionDescriptorOf op = INSTRUCTION_DESCR (?rows ! unat op)"
    using lt length_table by (simp only: InstructionDescriptorOf_def kInstructionDescriptors_def nth_map)
  ultimately have "need_ok op (InstructionDescriptorOf op) (?needs ! unat op)"
    using list_all2_nthD [OF needs_table_ok, of "unat op"] lt length_table by simp
  moreover have "handler_safe (?needs ! unat op) (?handlers ! unat op)"
    using list_all2_nthD [OF handlers_table_safe, of "unat op"] lt len by simp
  ultimately show thesis using that by (simp add: OPCODE_CASE_def)
qed

end
