(* ===== verification/InterpreterTables.thy ===== *)
theory InterpreterTables
  imports InterpreterHandlers
begin

text \<open>
  The tables behind the code: the interpreter's searches in switch payloads find what a lookup in
  the table finds.  The sparse search is a binary search in the same sense as the search of the
  try table, and rests on the same lemmas.
\<close>

section \<open>Sparse switches\<close>

definition signed_increasing :: "u32 list \<Rightarrow> bool" where
  "signed_increasing ks \<longleftrightarrow> sorted_wrt (\<lambda>k l. sint k < sint l) ks"

interpretation key_table: sorted_table "\<lambda>k v. v <s k" "\<lambda>k v. k <s v" signed_increasing
proof
  fix ks :: "u32 list" and v :: u32
  assume "signed_increasing ks"
  then show "search_ok (\<lambda>k v. v <s k) (\<lambda>k v. k <s v) ks v"
    by (fastforce simp: search_ok_def signed_increasing_def sorted_wrt_iff_nth_less word_sless_alt)
qed

text \<open>A payload holds keys and targets when its count is their number and each can be read.\<close>

definition sparse_payload :: "u16 list \<Rightarrow> u32 list \<Rightarrow> u32 list \<Rightarrow> bool" where
  "sparse_payload p keys targets \<longleftrightarrow>
     length targets = length keys \<and> length keys < 2 ^ 16 \<and> Fetch16 p 1 = Some (of_nat (length keys)) \<and>
     (\<forall>i < length keys. SparseSwitch_GetKeys p i = Some (keys ! i) \<and> SparseSwitch_GetTargets p i = Some (targets ! i))"

definition table_lookup :: "u32 list \<Rightarrow> u32 list \<Rightarrow> u32 \<Rightarrow> u32" where
  "table_lookup keys targets v = (case map_of (zip keys targets) v of Some t \<Rightarrow> t | None \<Rightarrow> 3)"

lemma signed_increasing_distinct: "signed_increasing ks \<Longrightarrow> distinct ks"
  unfolding signed_increasing_def by (induction ks) auto

lemma hits_iff: "hits (\<lambda>k v. v <s k) (\<lambda>k v. k <s v) ks v = {i. i < length ks \<and> ks ! i = v}"
  by (auto simp: hits_def word_sless_alt) (metis antisym_conv3 signed_word_eqI)

lemma lookup_hit:
  assumes "signed_increasing ks" "length ts = length ks" "i < length ks" "ks ! i = v"
  shows "table_lookup ks ts v = ts ! i"
  using assms map_of_zip_nth [of ks ts i] signed_increasing_distinct by (simp add: table_lookup_def)

lemma lookup_miss:
  assumes "length ts = length ks" "{i. i < length ks \<and> ks ! i = v} = {}"
  shows "table_lookup ks ts v = 3"
proof -
  have "v \<notin> set ks" using assms(2) by (auto simp: in_set_conv_nth)
  then show ?thesis using map_of_zip_is_None [OF assms(1) [symmetric], of v] by (simp add: table_lookup_def)
qed

lemma unat_of_nat_u16: "n < 2 ^ 16 \<Longrightarrow> unat (of_nat n :: u16) = n"
  by (simp add: unat_of_nat take_bit_nat_eq_self_iff)

lemma DoSparseSwitchLoop_correct:
  assumes "sparse_payload p ks ts" "signed_increasing ks"
    and "0 \<le> lo" "hi < int (length ks)" "-1 \<le> hi"
    and "narrowed (\<lambda>k v. v <s k) (\<lambda>k v. k <s v) ks v (nat lo) (nat (hi + 1))"
  shows "DoSparseSwitchLoop p (length ks) v lo hi = Some (table_lookup ks ts v)"
  using assms(3-6)
proof (induction "nat (hi - lo + 1)" arbitrary: lo hi rule: less_induct)
  case less
  have len: "length ts = length ks" "unat (of_nat (length ks) :: u16) = length ks" and count: "Fetch16 p 1 = Some (of_nat (length ks))"
    using assms(1) by (simp_all add: sparse_payload_def unat_of_nat_u16)
  note unfold = DoSparseSwitchLoop.simps [of p "length ks" v lo hi]
  show ?case
  proof (cases "lo \<le> hi")
    case False
    then have "hits (\<lambda>k v. v <s k) (\<lambda>k v. k <s v) ks v = {}"
      using less.prems by (intro key_table.narrow_empty) auto
    then show ?thesis using False len(1) by (simp add: unfold hits_iff lookup_miss)
  next
    case True
    define mid where "mid = (lo + hi) div 2"
    have mid: "lo \<le> mid" "mid \<le> hi" using True by (auto simp: mid_def)
    then have n: "nat mid < length ks" using less.prems by auto
    have key: "Fetch32 p (2 + 2 * nat mid) = Some (ks ! nat mid)"
      and tgt: "Fetch32 p (2 + 2 * length ks + 2 * nat mid) = Some (ts ! nat mid)"
      using assms(1) n len(2) count
      by (auto simp: sparse_payload_def SparseSwitch_GetKeys_def SparseSwitch_GetTargets_def SparseSwitch_case_count_def algebra_simps)
    consider "v <s ks ! nat mid" | "\<not> v <s ks ! nat mid" "ks ! nat mid <s v" | "\<not> v <s ks ! nat mid" "\<not> ks ! nat mid <s v"
      by blast
    then show ?thesis
    proof cases
      case 1
      have "narrowed (\<lambda>k v. v <s k) (\<lambda>k v. k <s v) ks v (nat lo) (nat mid)"
        by (rule key_table.narrow_left [OF assms(2) less.prems(4) 1])
      then have "DoSparseSwitchLoop p (length ks) v lo (mid - 1) = Some (table_lookup ks ts v)"
        using less.hyps [of "mid - 1" lo] mid less.prems by simp
      then show ?thesis using True 1 unfolding unfold Let_def mid_def [symmetric] key bind.bind_lunit by simp
    next
      case 2
      have "narrowed (\<lambda>k v. v <s k) (\<lambda>k v. k <s v) ks v (Suc (nat mid)) (nat (hi + 1))"
        by (rule key_table.narrow_right [OF assms(2) less.prems(4) 2(2) n])
      moreover have "nat (mid + 1) = Suc (nat mid)" using mid less.prems(1) by simp
      ultimately have "DoSparseSwitchLoop p (length ks) v (mid + 1) hi = Some (table_lookup ks ts v)"
        using less.hyps [of hi "mid + 1"] mid less.prems by simp
      then show ?thesis using True 2 unfolding unfold Let_def mid_def [symmetric] key bind.bind_lunit by simp
    next
      case 3
      then have "ks ! nat mid = v" using key_table.narrow_hit [OF assms(2) n 3] by (auto simp: hits_iff)
      then have "table_lookup ks ts v = ts ! nat mid" by (rule lookup_hit [OF assms(2) len(1) n])
      then show ?thesis using True 3 unfolding unfold Let_def mid_def [symmetric] key tgt bind.bind_lunit by simp
    qed
  qed
qed

lemma DoSparseSwitch_lookup:
  assumes "sparse_payload p ks ts" "signed_increasing ks"
    and "VRegB_31t i = Some offset" "code_at acc (pos + sint offset) = p" "GetVReg f (unat (VRegA_31t d)) = Some v"
  shows "DoSparseSwitch acc pos i d f = Some (table_lookup ks ts v)"
proof -
  have n: "Fetch16 p 1 = Some (of_nat (length ks))" "unat (of_nat (length ks) :: u16) = length ks" "length ts = length ks"
    using assms(1) by (simp_all add: sparse_payload_def unat_of_nat_u16)
  then have u: "uint (of_nat (length ks) :: u16) = int (length ks)" by (metis uint_nat)
  have z: "of_nat (length ks) = (0 :: u16) \<longleftrightarrow> ks = []" using n(2) by (metis length_0_conv unat_eq_zero)
  have "narrowed (\<lambda>k v. v <s k) (\<lambda>k v. k <s v) ks v 0 (length ks)" by (rule key_table.narrow_start)
  then have "DoSparseSwitchLoop p (length ks) v 0 (int (length ks) - 1) = Some (table_lookup ks ts v)"
    by (intro DoSparseSwitchLoop_correct [OF assms(1,2)]) simp_all
  then show ?thesis using n u
    by (cases "ks = []") (simp_all add: DoSparseSwitch_def assms(3-5) Let_def z table_lookup_def)
qed

section \<open>Packed switches\<close>

definition packed_payload :: "u16 list \<Rightarrow> u32 \<Rightarrow> u32 list \<Rightarrow> bool" where
  "packed_payload p first_key targets \<longleftrightarrow>
     length targets < 2 ^ 16 \<and> Fetch16 p 1 = Some (of_nat (length targets)) \<and> PackedSwitch_first_key p = Some first_key \<and>
     (\<forall>i < length targets. PackedSwitch_targets p i = Some (targets ! i))"

definition packed_lookup :: "u32 \<Rightarrow> u32 list \<Rightarrow> u32 \<Rightarrow> u32" where
  "packed_lookup first_key targets v =
     (if sint first_key \<le> sint v \<and> sint v < sint first_key + int (length targets)
      then targets ! nat (sint v - sint first_key) else 3)"

text \<open>The index is the difference of two signed numbers, which is undefined when it overflows.\<close>

definition in_int32 :: "int \<Rightarrow> bool" where
  "in_int32 x \<longleftrightarrow> - (2 ^ 31) \<le> x \<and> x < 2 ^ 31"

lemma sint_diff_wrap:
  fixes v k :: u32
  shows "sint (v - k) = (if sint v - sint k < - (2 ^ 31) then sint v - sint k + 2 ^ 32
     else if 2 ^ 31 \<le> sint v - sint k then sint v - sint k - 2 ^ 32 else sint v - sint k)"
proof -
  have r: "- (2 ^ 31) \<le> sint v" "sint v < 2 ^ 31" "- (2 ^ 31) \<le> sint k" "sint k < 2 ^ 31"
    using sint_ge [of v] sint_lt [of v] sint_ge [of k] sint_lt [of k] by simp_all
  have eq: "sint (v - k) = signed_take_bit 31 (sint v - sint k)" by (simp add: sint_word_ariths)
  have t: "signed_take_bit 31 x = x" if "- (2 ^ 31) \<le> x" "x < 2 ^ 31" for x :: int
    using that by (simp add: signed_take_bit_int_eq_self_iff)
  have p: "signed_take_bit 31 (x + 2 ^ 32) = signed_take_bit 31 x" for x :: int
  proof -
    have "(x + 2147483648 + 4294967296) mod 4294967296 = (x + 2147483648) mod (4294967296 :: int)" by (rule mod_add_self2)
    then show ?thesis by (simp add: signed_take_bit_eq_take_bit_shift take_bit_eq_mod)
  qed
  define x where "x = sint v - sint k"
  have x: "- (2 ^ 32) < x" "x < 2 ^ 32" using r by (simp_all add: x_def)
  consider "x < - (2 ^ 31)" | "2 ^ 31 \<le> x" | "- (2 ^ 31) \<le> x" "x < 2 ^ 31" by linarith
  then have "signed_take_bit 31 x = (if x < - (2 ^ 31) then x + 2 ^ 32 else if 2 ^ 31 \<le> x then x - 2 ^ 32 else x)"
  proof cases
    case 1
    then show ?thesis using p [of x] t [of "x + 2 ^ 32"] x by simp
  next
    case 2
    then show ?thesis using p [of "x - 2 ^ 32"] t [of "x - 2 ^ 32"] x by simp
  next
    case 3
    then show ?thesis using t [of x] by simp
  qed
  then show ?thesis unfolding eq x_def .
qed

lemma signed_sub_eq: "signed_sub v k = (if in_int32 (sint v - sint k) then Some (v - k) else None)"
  using sint_diff_wrap [of v k] by (auto simp: signed_sub_def in_int32_def)

lemma DoPackedSwitch_lookup:
  assumes "packed_payload p k ts"
    and "VRegB_31t i = Some offset" "code_at acc (pos + sint offset) = p" "GetVReg f (unat (VRegA_31t d)) = Some v"
  shows "DoPackedSwitch acc pos i d f =
    (if ts = [] \<or> in_int32 (sint v - sint k) then Some (packed_lookup k ts v) else None)"
proof -
  have n: "Fetch16 p 1 = Some (of_nat (length ts))" "unat (of_nat (length ts) :: u16) = length ts" and k: "Fetch32 p 2 = Some k"
    using assms(1) by (simp_all add: packed_payload_def unat_of_nat_u16 PackedSwitch_first_key_def)
  then have u: "uint (of_nat (length ts) :: u16) = int (length ts)" by (metis uint_nat)
  have z: "of_nat (length ts) = (0 :: u16) \<longleftrightarrow> ts = []" using n(2) by (metis length_0_conv unat_eq_zero)
  show ?thesis
  proof (cases "ts = [] \<or> \<not> in_int32 (sint v - sint k)")
    case True
    then show ?thesis using n k z by (auto simp: DoPackedSwitch_def assms(2-4) Let_def packed_lookup_def signed_sub_eq)
  next
    case False
    define idx where "idx = v - k"
    have e: "sint idx = sint v - sint k" using False sint_diff_wrap [of v k] by (auto simp: idx_def in_int32_def)
    have run: "DoPackedSwitch acc pos i d f =
        (if 0 \<le>s idx \<and> sint idx < int (length ts) then Fetch32 p (4 + 2 * unat idx) else Some 3)"
      unfolding DoPackedSwitch_def assms(2-4) Let_def bind.bind_lunit n(1) k u signed_sub_eq idx_def using z False by simp
    have i: "unat idx = nat (sint idx)" if "0 \<le> sint idx"
    proof -
      have "uint idx = sint idx" using that sint_lt [of idx] by (subst uint_sint) (simp add: take_bit_int_eq_self_iff)
      then show ?thesis by (metis nat_uint_eq)
    qed
    have "Fetch32 p (4 + 2 * j) = Some (ts ! j)" if "j < length ts" for j
      using assms(1) that by (simp add: packed_payload_def PackedSwitch_targets_def)
    then show ?thesis using False e i unfolding run packed_lookup_def by (auto simp: word_sle_eq)
  qed
qed

text \<open>Whether the index of a \<open>packed-switch\<close> overflows.\<close>

definition packed_overflows :: "CodeItemDataAccessor \<Rightarrow> int \<Rightarrow> u16 list \<Rightarrow> u16 \<Rightarrow> ShadowFrame \<Rightarrow> bool" where
  "packed_overflows acc pos i d f \<longleftrightarrow>
     (\<exists>offset v count k. VRegB_31t i = Some offset \<and> GetVReg f (unat (VRegA_31t d)) = Some v \<and>
        Fetch16 (code_at acc (pos + sint offset)) 1 = Some count \<and> count \<noteq> 0 \<and>
        Fetch32 (code_at acc (pos + sint offset)) 2 = Some k \<and> \<not> in_int32 (sint v - sint k))"

lemma packed_overflows_undefined: "packed_overflows acc pos i d f \<Longrightarrow> DoPackedSwitch acc pos i d f = None"
  by (auto simp: packed_overflows_def DoPackedSwitch_def signed_sub_eq Let_def)

lemma packed_overflows_iff:
  assumes "packed_payload p k ts"
    and "VRegB_31t i = Some offset" "code_at acc (pos + sint offset) = p" "GetVReg f (unat (VRegA_31t d)) = Some v"
  shows "packed_overflows acc pos i d f \<longleftrightarrow> ts \<noteq> [] \<and> \<not> in_int32 (sint v - sint k)"
proof -
  have "Fetch16 p 1 = Some (of_nat (length ts))" "unat (of_nat (length ts) :: u16) = length ts" "Fetch32 p 2 = Some k"
    using assms(1) by (simp_all add: packed_payload_def unat_of_nat_u16 PackedSwitch_first_key_def)
  moreover from this(2) have "of_nat (length ts) = (0 :: u16) \<longleftrightarrow> ts = []" by (metis length_0_conv unat_eq_zero)
  ultimately show ?thesis unfolding packed_overflows_def using assms(2-4) by simp
qed

text \<open>The steps of a handler that overflow a signed integer, which is undefined in C++.\<close>

definition signed_overflow :: "'w runtime \<Rightarrow> InstructionHandler \<Rightarrow> 'w interp \<Rightarrow> bool" where
  "signed_overflow rt h s \<longleftrightarrow>
     (Opcode (inst_data h) = NEG_INT \<and> GetVReg_B h s = Some 0x80000000) \<or>
     (Opcode (inst_data h) = NEG_LONG \<and> GetVRegLong_B h s = Some 0x8000000000000000) \<or>
     (Opcode (inst_data h) = PACKED_SWITCH \<and> packed_overflows (accessor rt) (inst_pos h) (inst h) (inst_data h) (frame s))"

lemma overflow_cases:
  "OPCODE_CASE NEG_INT = OP_NEG_INT" "OPCODE_CASE NEG_LONG = OP_NEG_LONG" "OPCODE_CASE PACKED_SWITCH = OP_PACKED_SWITCH"
  by (simp_all add: OPCODE_CASE_def handlers_00_7F_def handlers_IF_def handlers_IFZ_def handlers_AGET_def handlers_APUT_def
      handlers_IGET_def handlers_IPUT_def handlers_SGET_def handlers_SPUT_def handlers_INVOKE_def handlers_INVOKE_RANGE_def)

lemma signed_overflow_undefined:
  "signed_overflow rt h s \<Longrightarrow> OPCODE_CASE (Opcode (inst_data h)) rt h s = None"
  by (auto simp: signed_overflow_def overflow_cases OP_NEG_INT_def OP_NEG_LONG_def OP_PACKED_SWITCH_def packed_overflows_undefined)

end
