(* ===== verification/InterpreterVerified.thy ===== *)
theory InterpreterVerified
  imports InterpreterTables VerifierProps
begin

text \<open>
  Verified code runs safely.  The static pass of the verifier makes every instruction meet the
  needs of its handler.  That control reaches no payload and does not run off the end of the code
  is not a matter of the static pass; it is the condition \<open>flow_closed\<close> on the code.
\<close>

section \<open>Control flow\<close>

text \<open>The instructions control may go to from \<open>pc\<close>: the next one, a branch or switch target, a
  handler of an enclosing try block.\<close>

inductive flow :: "CodeItemDataAccessor \<Rightarrow> nat \<Rightarrow> nat \<Rightarrow> bool" for ci pc where
  onwards: "CanFlowThrough (Opcode (insns ci ! pc)) \<Longrightarrow>
    flow ci pc (pc + SizeInCodeUnitsOfFormat (FormatOf (Opcode (insns ci ! pc))))"
| branch: "IsBranch (Opcode (insns ci ! pc)) \<Longrightarrow> GetTargetOffset (drop pc (insns ci)) = Some offset \<Longrightarrow>
    flow ci pc (nat (int pc + sint offset))"
| packed: "Opcode (insns ci ! pc) = PACKED_SWITCH \<Longrightarrow> payload_at ci pc = Some p \<Longrightarrow> Fetch16 p 1 = Some count \<Longrightarrow>
    i < unat count \<Longrightarrow> PackedSwitch_targets p i = Some offset \<Longrightarrow> flow ci pc (nat (int pc + sint offset))"
| sparse: "Opcode (insns ci ! pc) = SPARSE_SWITCH \<Longrightarrow> payload_at ci pc = Some p \<Longrightarrow> Fetch16 p 1 = Some count \<Longrightarrow>
    i < unat count \<Longrightarrow> SparseSwitch_GetTargets p i = Some offset \<Longrightarrow> flow ci pc (nat (int pc + sint offset))"
| caught: "CatchHandlerIterator_at ci (of_nat pc) = Some it \<Longrightarrow> collect_handlers it = Some (hs, last_it) \<Longrightarrow>
    (ty, addr) \<in> set hs \<Longrightarrow> flow ci pc (unat addr)"

inductive flow_reach :: "CodeItemDataAccessor \<Rightarrow> nat \<Rightarrow> bool" for ci where
  entry: "flow_reach ci 0"
| step: "flow_reach ci pc \<Longrightarrow> flow ci pc q \<Longrightarrow> flow_reach ci q"

text \<open>A condition on the code: of the instructions \<open>flow\<close> reaches none is a payload, and control does
  not run off the end.  The code-flow analysis of the verifier checks the same of the instructions
  that it reaches, but it reaches fewer: it follows the handlers of a try block only from
  instructions that are flagged as throwing, and it does not go past an instruction whose
  verification failed with a runtime throw.  The interpreter may find an exception pending at any
  instruction (\<open>HandleBranch\<close> and \<open>return\<close> observe asynchronous exceptions, listeners may throw), so
  \<open>flow\<close> has an edge to the handlers from every instruction of a try block.\<close>

definition is_payload :: "u16 \<Rightarrow> bool" where
  "is_payload d \<longleftrightarrow> d \<in> {kPackedSwitchSignature, kSparseSwitchSignature, kArrayDataSignature}"

definition flow_closed :: "CodeItemDataAccessor \<Rightarrow> bool" where
  "flow_closed ci \<longleftrightarrow>
     (\<forall>pc. flow_reach ci pc \<longrightarrow> pc < length (insns ci) \<longrightarrow>
        \<not> is_payload (insns ci ! pc) \<and>
        (CanFlowThrough (Opcode (insns ci ! pc)) \<longrightarrow>
           pc + SizeInCodeUnitsOfFormat (FormatOf (Opcode (insns ci ! pc))) < length (insns ci)))"

text \<open>What the dex file verifier checks of the try items: each leads to one of the encoded handler
  lists.\<close>

definition handlers_encoded :: "CodeItemDataAccessor \<Rightarrow> bool" where
  "handlers_encoded ci \<longleftrightarrow>
     (\<forall>pc < length (insns ci). \<exists>it hs last_it.
        CatchHandlerIterator_at ci (of_nat pc) = Some it \<and> collect_handlers it = Some (hs, last_it) \<and>
        (TriesSize ci \<noteq> 0 \<longrightarrow>
           (\<exists>n p all. DecodeUnsignedLeb128 (handler_data ci) = Some (n, p) \<and> all_handlers (unat n) p = Some all \<and>
              set hs \<subseteq> set all)))"

section \<open>Instructions of verified code\<close>

definition at_insn :: "'w runtime \<Rightarrow> dex_file \<Rightarrow> nat \<Rightarrow> bool" where
  "at_insn rt df pc \<longleftrightarrow>
     (let ci = accessor rt in
        pc < length (insns ci) \<and> length (insns ci) < 2 ^ 16 \<and> laid_out (insns ci) \<and> insn_start (insns ci) pc \<and>
        insn_ok ci pc \<and> indices_ok df (drop pc (insns ci)) \<and> \<not> is_payload (insns ci ! pc) \<and>
        (CanFlowThrough (Opcode (insns ci ! pc)) \<longrightarrow>
           pc + SizeInCodeUnitsOfFormat (FormatOf (Opcode (insns ci ! pc))) < length (insns ci)))"

definition handler_at :: "'w runtime \<Rightarrow> nat \<Rightarrow> InstructionHandler" where
  "handler_at rt pc =
     (let d = insns (accessor rt) ! pc
      in InstructionHandler_new (FormatOf (Opcode d)) (of_nat pc) (int pc) (drop pc (insns (accessor rt))) d)"

text \<open>The instructions that ask \<open>PossiblyHandlePendingExceptionOnInvoke\<close> whether to retry.\<close>

definition retriable :: "u8 \<Rightarrow> bool" where
  "retriable opcode \<longleftrightarrow> IsInvoke opcode \<or> opcode \<in> {INVOKE_CUSTOM, INVOKE_CUSTOM_RANGE}"

definition flows_into :: "'w runtime \<Rightarrow> nat \<Rightarrow> int set \<Rightarrow> bool" where
  "flows_into rt pc T \<longleftrightarrow>
     (retriable (Opcode (insns (accessor rt) ! pc)) \<longrightarrow> int pc \<in> T) \<and>
     (\<forall>q. flow (accessor rt) pc q \<longrightarrow> q < length (insns (accessor rt)) \<longrightarrow> insn_start (insns (accessor rt)) q \<longrightarrow> int q \<in> T)"

lemma at_insn_facts:
  assumes "at_insn rt df pc"
  defines "ci \<equiv> accessor rt"
  shows "pc < length (insns ci)" "laid_out (insns ci)" "insn_start (insns ci) pc" "registers_ok ci (drop pc (insns ci))"
    "indices_ok df (drop pc (insns ci))" "drop pc (insns ci) ! 0 = insns ci ! pc"
    "Fetch16 (drop pc (insns ci)) 0 = Some (insns ci ! pc)"
    "SizeInCodeUnitsOfFormat (FormatOf (Opcode (insns ci ! pc))) \<le> length (drop pc (insns ci))"
    "SizeInCodeUnits (drop pc (insns ci)) = Some (SizeInCodeUnitsOfFormat (FormatOf (Opcode (insns ci ! pc))))"
proof -
  show pc: "pc < length (insns ci)" and lay: "laid_out (insns ci)" and start: "insn_start (insns ci) pc"
    and "registers_ok ci (drop pc (insns ci))" "indices_ok df (drop pc (insns ci))"
    using assms by (auto simp: at_insn_def Let_def insn_ok_def)
  show d: "drop pc (insns ci) ! 0 = insns ci ! pc" using pc by simp
  show f: "Fetch16 (drop pc (insns ci)) 0 = Some (insns ci ! pc)" using pc by (simp add: Fetch16_first d)
  have "\<not> is_payload (insns ci ! pc)" using assms by (simp add: at_insn_def Let_def)
  then show size: "SizeInCodeUnits (drop pc (insns ci)) = Some (SizeInCodeUnitsOfFormat (FormatOf (Opcode (insns ci ! pc))))"
    using f
    by (cases "Opcode (insns ci ! pc) = NOP")
      (simp_all add: SizeInCodeUnits_non_nop SizeInCodeUnits_nop SizeInCodeUnitsComplexOpcode_def FormatOf_NOP
        SizeInCodeUnitsOfFormat_def is_payload_def)
  obtain n where "SizeInCodeUnits (drop pc (insns ci)) = Some n" "pc + n \<le> length (insns ci)"
    using lay start pc unfolding laid_out_def by blast
  then show "SizeInCodeUnitsOfFormat (FormatOf (Opcode (insns ci ! pc))) \<le> length (drop pc (insns ci))" using size by simp
qed

lemma handler_at_fields:
  "kFormat (handler_at rt pc) = FormatOf (Opcode (insns (accessor rt) ! pc))" "inst_pos (handler_at rt pc) = int pc"
  "inst (handler_at rt pc) = drop pc (insns (accessor rt))" "inst_data (handler_at rt pc) = insns (accessor rt) ! pc"
  by (simp_all add: handler_at_def InstructionHandler_new_def Let_def)

lemma operands_fit:
  assumes "at_insn rt df pc" "n = unat (registers_size (accessor rt))"
  defines "d \<equiv> InstructionDescriptorOf (Opcode (insns (accessor rt) ! pc))"
  shows "A_ok k d \<Longrightarrow> operand_fits k (operand_A (handler_at rt pc)) n"
    "B_ok k d \<Longrightarrow> operand_fits k (operand_B (handler_at rt pc)) n"
    "C_ok k d \<Longrightarrow> operand_fits k (operand_C (handler_at rt pc)) n"
proof -
  note facts = at_insn_facts [OF assms(1)]
  have regs: "registers_ok (accessor rt) (drop pc (insns (accessor rt)))" by (rule facts(4))
  note reads = operand_reads [OF facts(7) refl facts(8)]
  show "A_ok k d \<Longrightarrow> operand_fits k (operand_A (handler_at rt pc)) n"
    using regs reads assms(2)
    by (cases k) (auto simp: d_def operand_A_def handler_at_fields registers_ok_def Let_def facts(6) GetVerifyTypeArgumentAOf_def
        VerifyFlagsOf_def int_reg_def wide_reg_def reg_ok_def wide_reg_ok_def)
  show "B_ok k d \<Longrightarrow> operand_fits k (operand_B (handler_at rt pc)) n"
    using regs reads assms(2)
    by (cases k) (auto simp: d_def operand_B_def handler_at_fields registers_ok_def Let_def facts(6) GetVerifyTypeArgumentBOf_def
        VerifyFlagsOf_def int_reg_def wide_reg_def reg_ok_def wide_reg_ok_def HasVRegB_def FormatOf_def)
  show "C_ok k d \<Longrightarrow> operand_fits k (operand_C (handler_at rt pc)) n"
    using regs reads assms(2)
    by (cases k) (auto simp: d_def operand_C_def handler_at_fields registers_ok_def Let_def facts(6) GetVerifyTypeArgumentCOf_def
        VerifyFlagsOf_def int_reg_def wide_reg_def reg_ok_def wide_reg_ok_def HasVRegC_def FormatOf_def)
qed

lemma goes_onwards:
  assumes "at_insn rt df pc" "flows_into rt pc T" "flags (InstructionDescriptorOf (Opcode (insns (accessor rt) ! pc))) AND kContinue \<noteq> 0"
  shows "int pc + int (SizeInCodeUnitsOfFormat (FormatOf (Opcode (insns (accessor rt) ! pc)))) \<in> T"
proof -
  let ?ci = "accessor rt"
  let ?q = "pc + SizeInCodeUnitsOfFormat (FormatOf (Opcode (insns ?ci ! pc)))"
  note facts = at_insn_facts [OF assms(1)]
  have c: "CanFlowThrough (Opcode (insns ?ci ! pc))" using assms(3) by (simp add: CanFlowThrough_def FlagsOf_def)
  then have lt: "?q < length (insns ?ci)" using assms(1) by (simp add: at_insn_def Let_def)
  have "insn_start (insns ?ci) ?q"
    using facts(1,3,9) reach_trans [of _ 0 pc ?q] reach.onward [OF facts(1,9) reach.here] by (simp add: insn_start_def)
  then show ?thesis using assms(2) flow.onwards [OF c] lt by (auto simp: flows_into_def)
qed

lemma goes_to_target:
  assumes "flows_into rt pc T" "target_ok (accessor rt) (int pc + sint offset)" "flow (accessor rt) pc (nat (int pc + sint offset))"
  shows "goes_to (handler_at rt pc) T (Some offset)"
proof -
  have "int (nat (int pc + sint offset)) \<in> T" using assms by (auto simp: flows_into_def target_ok_def)
  moreover have "0 \<le> int pc + sint offset" using assms(2) by (simp add: target_ok_def)
  ultimately show ?thesis by (simp add: goes_to_def handler_at_fields)
qed

lemma branch_fits:
  assumes "at_insn rt df pc" "flows_into rt pc T" "flags (InstructionDescriptorOf (Opcode (insns (accessor rt) ! pc))) AND kBranch \<noteq> 0"
  defines "f \<equiv> FormatOf (Opcode (insns (accessor rt) ! pc))"
  shows "f \<in> {k10t, k20t, k30t} \<Longrightarrow> goes_to (handler_at rt pc) T (operand_A (handler_at rt pc))"
    "f = k21t \<Longrightarrow> goes_to (handler_at rt pc) T (operand_B (handler_at rt pc))"
    "f = k22t \<Longrightarrow> goes_to (handler_at rt pc) T (operand_C (handler_at rt pc))"
proof -
  let ?ci = "accessor rt"
  note facts = at_insn_facts [OF assms(1)]
  have b: "IsBranch (Opcode (insns ?ci ! pc))" using assms(3) by (simp add: IsBranch_def FlagsOf_def)
  then obtain offset where o: "GetTargetOffset (drop pc (insns ?ci)) = Some offset" "target_ok ?ci (int pc + sint offset)"
    using assms(1) facts(6) by (auto simp: at_insn_def Let_def insn_ok_def)
  have "goes_to (handler_at rt pc) T (GetTargetOffset (drop pc (insns ?ci)))"
    using goes_to_target [OF assms(2) o(2) flow.branch [OF b o(1)]] o(1) by simp
  then show "f \<in> {k10t, k20t, k30t} \<Longrightarrow> goes_to (handler_at rt pc) T (operand_A (handler_at rt pc))"
    "f = k21t \<Longrightarrow> goes_to (handler_at rt pc) T (operand_B (handler_at rt pc))"
    "f = k22t \<Longrightarrow> goes_to (handler_at rt pc) T (operand_C (handler_at rt pc))"
    unfolding f_def using facts(7)
    by (auto simp: operand_A_def operand_B_def operand_C_def handler_at_fields GetTargetOffset_def VRegA_def VRegB_def VRegC_def)
qed

lemma switch_read:
  assumes "at_insn rt df pc" "IsSwitch (Opcode (insns (accessor rt) ! pc))"
    and "FormatOf (Opcode (insns (accessor rt) ! pc)) = k31t"
    and "unat (number_of_vregs f) = unat (registers_size (accessor rt))"
    and "A_ok Single (InstructionDescriptorOf (Opcode (insns (accessor rt) ! pc)))"
  obtains offset p v where "VRegB_31t (drop pc (insns (accessor rt))) = Some offset"
    "code_at (accessor rt) (int pc + sint offset) = p" "payload_at (accessor rt) pc = Some p"
    "switch_ok (accessor rt) pc (Opcode (insns (accessor rt) ! pc) = PACKED_SWITCH) p"
    "GetVReg f (unat (VRegA_31t (insns (accessor rt) ! pc))) = Some v"
proof -
  let ?ci = "accessor rt" and ?d = "insns (accessor rt) ! pc"
  note facts = at_insn_facts [OF assms(1)]
  obtain p where p: "payload_at ?ci pc = Some p" "switch_ok ?ci pc (Opcode ?d = PACKED_SWITCH) p"
    using assms(1,2) facts(6) by (auto simp: at_insn_def Let_def insn_ok_def)
  then obtain offset where o: "VRegB_31t (drop pc (insns ?ci)) = Some offset" "code_at ?ci (int pc + sint offset) = p"
    by (auto simp: payload_at_def Let_def bind_eq_Some_conv code_at_def split: if_splits)
  have "int_reg (operand_A (handler_at rt pc)) (unat (registers_size ?ci))"
    using operands_fit(1) [OF assms(1) refl assms(5)] by simp
  then have "unat (VRegA_31t ?d) < unat (number_of_vregs f)"
    using assms(3,4) by (auto simp: operand_A_def handler_at_fields VRegA_def int_reg_def unat_ucast_up)
  then show thesis using that o p by (simp add: GetVReg_def)
qed

lemma sparse_payload_of:
  assumes "switch_ok ci pc False p"
  obtains ks ts where "sparse_payload p ks ts" "signed_increasing ks"
    "\<And>i. i < length ts \<Longrightarrow> target_ok ci (int pc + sint (ts ! i))"
proof -
  obtain count where count: "Fetch16 p 1 = Some count"
    and tgt: "\<forall>i < unat count. \<exists>offset. SparseSwitch_GetTargets p i = Some offset \<and> target_ok ci (int pc + sint offset)"
    and keys: "\<forall>i j. i < j \<longrightarrow> j < unat count \<longrightarrow> (\<exists>k l. SparseSwitch_GetKeys p i = Some k \<and> SparseSwitch_GetKeys p j = Some l \<and> sint k < sint l)"
    using assms by (auto simp: switch_ok_def)
  have key: "SparseSwitch_GetKeys p i \<noteq> None" if "i < unat count" for i
    using tgt [rule_format, OF that] count
    by (auto simp: SparseSwitch_GetKeys_def SparseSwitch_GetTargets_def SparseSwitch_case_count_def Fetch32_def Fetch16_def
        bind_eq_Some_conv split: if_splits)
  define ks where "ks = map (\<lambda>i. the (SparseSwitch_GetKeys p i)) [0..<unat count]"
  define ts where "ts = map (\<lambda>i. the (SparseSwitch_GetTargets p i)) [0..<unat count]"
  have n: "unat count < 2 ^ 16" using unsigned_less [of count, where ?'a = nat] by simp
  have "sparse_payload p ks ts"
    using count n key tgt by (fastforce simp: sparse_payload_def ks_def ts_def)
  moreover have "signed_increasing ks"
    using keys by (fastforce simp: signed_increasing_def sorted_wrt_iff_nth_less ks_def)
  moreover have "target_ok ci (int pc + sint (ts ! i))" if "i < length ts" for i
    using that tgt by (fastforce simp: ts_def)
  ultimately show thesis using that by blast
qed

lemma packed_payload_of:
  assumes "switch_ok ci pc True p"
  obtains k ts where "packed_payload p k ts"
    "\<And>i. i < length ts \<Longrightarrow> target_ok ci (int pc + sint (ts ! i))"
proof -
  obtain count k where count: "Fetch16 p 1 = Some count" and k: "PackedSwitch_first_key p = Some k"
    and tgt: "\<forall>i < unat count. \<exists>offset. PackedSwitch_targets p i = Some offset \<and> target_ok ci (int pc + sint offset)"
    using assms by (auto simp: switch_ok_def)
  define ts where "ts = map (\<lambda>i. the (PackedSwitch_targets p i)) [0..<unat count]"
  have n: "unat count < 2 ^ 16" using unsigned_less [of count, where ?'a = nat] by simp
  have "packed_payload p k ts" using count n k tgt by (fastforce simp: packed_payload_def ts_def)
  moreover have "target_ok ci (int pc + sint (ts ! i))" if "i < length ts" for i
    using that tgt by (fastforce simp: ts_def)
  ultimately show thesis using that by blast
qed

lemma table_lookup_cases:
  assumes "length ts = length ks"
  obtains "table_lookup ks ts v = 3" | i where "i < length ts" "table_lookup ks ts v = ts ! i"
proof (cases "map_of (zip ks ts) v")
  case (Some t)
  then have "t \<in> set ts" by (meson map_of_SomeD set_zip_rightD)
  then show thesis using that(2) Some by (auto simp: table_lookup_def in_set_conv_nth)
qed (use that(1) in \<open>simp add: table_lookup_def\<close>)

lemma packed_lookup_cases:
  obtains "packed_lookup k ts v = 3" | i where "i < length ts" "packed_lookup k ts v = ts ! i"
proof (cases "sint k \<le> sint v \<and> sint v < sint k + int (length ts)")
  case True
  then have "nat (sint v - sint k) < length ts" by linarith
  then show thesis using that(2) True by (simp add: packed_lookup_def)
qed (use that(1) in \<open>auto simp: packed_lookup_def\<close>)

lemma switch_fits:
  assumes "at_insn rt df pc" "flows_into rt pc T" "FormatOf (Opcode (insns (accessor rt) ! pc)) = k31t"
    and "flags (InstructionDescriptorOf (Opcode (insns (accessor rt) ! pc))) AND kContinue \<noteq> 0"
    and "A_ok Single (InstructionDescriptorOf (Opcode (insns (accessor rt) ! pc)))"
    and "unat (number_of_vregs f) = unat (registers_size (accessor rt))"
  defines "d \<equiv> insns (accessor rt) ! pc"
  shows "Opcode d = PACKED_SWITCH \<Longrightarrow> \<not> packed_overflows (accessor rt) (int pc) (drop pc (insns (accessor rt))) d f \<Longrightarrow>
      goes_to (handler_at rt pc) T (DoPackedSwitch (accessor rt) (int pc) (drop pc (insns (accessor rt))) d f)"
    "Opcode d = SPARSE_SWITCH \<Longrightarrow>
      goes_to (handler_at rt pc) T (DoSparseSwitch (accessor rt) (int pc) (drop pc (insns (accessor rt))) d f)"
proof -
  let ?ci = "accessor rt"
  have "int pc + 3 \<in> T" using goes_onwards [OF assms(1,2,4)] assms(3) by (simp add: SizeInCodeUnitsOfFormat_def)
  then have default: "goes_to (handler_at rt pc) T (Some 3)" by (simp add: goes_to_def handler_at_fields)
  note read = switch_read [OF assms(1) _ assms(3,6,5)]
  show "goes_to (handler_at rt pc) T (DoPackedSwitch ?ci (int pc) (drop pc (insns ?ci)) d f)"
    if op: "Opcode d = PACKED_SWITCH" and no: "\<not> packed_overflows ?ci (int pc) (drop pc (insns ?ci)) d f"
  proof -
    obtain offset p v where r: "VRegB_31t (drop pc (insns ?ci)) = Some offset" "code_at ?ci (int pc + sint offset) = p"
      "payload_at ?ci pc = Some p" "switch_ok ?ci pc True p" "GetVReg f (unat (VRegA_31t d)) = Some v"
      using read op by (auto simp: switch_opcodes d_def)
    obtain k ts where p: "packed_payload p k ts"
      "\<And>i. i < length ts \<Longrightarrow> target_ok ?ci (int pc + sint (ts ! i))"
      using packed_payload_of [OF r(4)] by blast
    have hit: "goes_to (handler_at rt pc) T (Some (ts ! i))" if "i < length ts" for i
    proof (rule goes_to_target [OF assms(2) p(2) [OF that]], rule flow.packed)
      show "Opcode (insns ?ci ! pc) = PACKED_SWITCH" using op by (simp add: d_def)
      show "Fetch16 p 1 = Some (of_nat (length ts))" "i < unat (of_nat (length ts) :: u16)" "PackedSwitch_targets p i = Some (ts ! i)"
        using p(1) that unat_of_nat_u16 by (auto simp: packed_payload_def)
    qed (rule r(3))
    have "DoPackedSwitch ?ci (int pc) (drop pc (insns ?ci)) d f = Some (packed_lookup k ts v)"
      using DoPackedSwitch_lookup [OF p(1) r(1,2,5)] packed_overflows_iff [OF p(1) r(1,2,5)] no by auto
    then show ?thesis by (rule ssubst) (rule packed_lookup_cases [of k ts v]; use default hit in simp)
  qed
  show "goes_to (handler_at rt pc) T (DoSparseSwitch ?ci (int pc) (drop pc (insns ?ci)) d f)" if op: "Opcode d = SPARSE_SWITCH"
  proof -
    obtain offset p v where r: "VRegB_31t (drop pc (insns ?ci)) = Some offset" "code_at ?ci (int pc + sint offset) = p"
      "payload_at ?ci pc = Some p" "switch_ok ?ci pc False p" "GetVReg f (unat (VRegA_31t d)) = Some v"
      using read op by (auto simp: switch_opcodes d_def)
    obtain ks ts where p: "sparse_payload p ks ts" "signed_increasing ks"
      "\<And>i. i < length ts \<Longrightarrow> target_ok ?ci (int pc + sint (ts ! i))"
      using sparse_payload_of [OF r(4)] by blast
    then have len: "length ts = length ks" by (simp add: sparse_payload_def)
    have hit: "goes_to (handler_at rt pc) T (Some (ts ! i))" if "i < length ts" for i
    proof (rule goes_to_target [OF assms(2) p(3) [OF that]], rule flow.sparse)
      show "Opcode (insns ?ci ! pc) = SPARSE_SWITCH" using op by (simp add: d_def)
      show "Fetch16 p 1 = Some (of_nat (length ks))" "i < unat (of_nat (length ks) :: u16)" "SparseSwitch_GetTargets p i = Some (ts ! i)"
        using p(1) that len unat_of_nat_u16 by (auto simp: sparse_payload_def)
    qed (rule r(3))
    show ?thesis unfolding DoSparseSwitch_lookup [OF p(1,2) r(1,2,5)]
      by (rule table_lookup_cases [OF len, of v]) (use default hit in simp_all)
  qed
qed

lemma array_fits:
  assumes "at_insn rt df pc" "Opcode (insns (accessor rt) ! pc) = FILL_ARRAY_DATA" "FormatOf FILL_ARRAY_DATA = k31t"
  obtains offset where "operand_B (handler_at rt pc) = Some offset" "array_data_fits (code_at (accessor rt) (int pc + sint offset))"
proof -
  let ?ci = "accessor rt"
  note facts = at_insn_facts [OF assms(1)]
  obtain p where p: "payload_at ?ci pc = Some p" "Fetch16 p 0 = Some kArrayDataSignature"
    using assms(1,2) facts(6) by (auto simp: at_insn_def Let_def insn_ok_def)
  then obtain offset where o: "VRegB_31t (drop pc (insns ?ci)) = Some offset" "code_at ?ci (int pc + sint offset) = p"
    "p = drop (nat (int pc + sint offset)) (insns ?ci)" "nat (int pc + sint offset) < length (insns ?ci)"
    "insn_start (insns ?ci) (nat (int pc + sint offset))"
    by (auto simp: payload_at_def Let_def bind_eq_Some_conv code_at_def split: if_splits)
  have "data_fits p" using facts(2) o(4,5) unfolding o(3) laid_out_def by blast
  then have "array_data_fits p" using p(2) by (simp add: data_fits_def array_data_fits_def)
  moreover have "operand_B (handler_at rt pc) = Some offset"
    using o(1) assms(2,3) by (simp add: operand_B_def handler_at_fields VRegB_def)
  ultimately show thesis using that o(2) by blast
qed

lemma narrow_back: "ucast (ucast (w :: u16) :: u32) = w"
  by (rule bit_word_eqI) (simp add: bit_simps)

lemma unat_narrow: "unat (ucast (w :: u8) :: u32) = unat w" "unat (ucast (x :: u16) :: u32) = unat x"
  by (simp_all add: unat_ucast_up)

lemma arguments_fit:
  assumes "at_insn rt df pc" "n = unat (registers_size (accessor rt))"
    and "FormatOf (Opcode (insns (accessor rt) ! pc)) = k35c"
  defines "code \<equiv> drop pc (insns (accessor rt))" and "d \<equiv> insns (accessor rt) ! pc"
  shows "\<exists>args. GetVarArgs code d = Some (InstB d, args) \<and> unat (InstB d) \<le> 5 \<and> (\<forall>r \<in> set args. unat r < n)"
    "\<exists>c. VRegC_35c code = Some c \<and>
       (verify_flags (InstructionDescriptorOf (Opcode d)) AND 0x3FC000 = kVerifyVarArgNonZero \<longrightarrow> unat c < n)"
    "VRegB_35c code \<noteq> None"
proof -
  note facts = at_insn_facts [OF assms(1), folded code_def d_def]
  have len: "3 \<le> length code" using facts(8) assms(3) by (simp add: d_def SizeInCodeUnitsOfFormat_def)
  obtain count args where g: "GetVarArgs code d = Some (count, args)" "unat count \<le> 5" "length args = unat count"
    "list_all (reg_ok (accessor rt)) args"
    using facts(4) assms(3) by (auto simp: registers_ok_def Let_def facts(6) HasVarArgs_def d_def [symmetric])
  have count: "count = InstB d" using g(1) by (auto simp: GetVarArgs_def Let_def bind_eq_Some_conv)
  show "\<exists>args. GetVarArgs code d = Some (InstB d, args) \<and> unat (InstB d) \<le> 5 \<and> (\<forall>r \<in> set args. unat r < n)"
    using g assms(2) count by (auto simp: list_all_iff reg_ok_def)
  show "\<exists>c. VRegC_35c code = Some c \<and>
       (verify_flags (InstructionDescriptorOf (Opcode d)) AND 0x3FC000 = kVerifyVarArgNonZero \<longrightarrow> unat c < n)"
  proof (intro exI conjI impI)
    show c: "VRegC_35c code = Some (ucast (code ! 2 AND 0x0f))" using len by (simp add: VRegC_35c_def Fetch16_def)
    assume "verify_flags (InstructionDescriptorOf (Opcode d)) AND 0x3FC000 = kVerifyVarArgNonZero"
    then have "GetVerifyExtraFlagsOf (Opcode d) = kVerifyVarArgNonZero"
      by (simp add: GetVerifyExtraFlagsOf_def VerifyFlagsOf_def)
    then have "ucast (InstB d) \<noteq> (0 :: u32)"
      using facts(4) assms(3) by (auto simp: registers_ok_def Let_def facts(6) VRegA_def VRegA_35c_def d_def [symmetric])
    then have "InstB d \<noteq> 0" by auto
    then have "0 < unat (InstB d)" by (simp add: unat_gt_0)
    then have "args \<noteq> []" and "args ! 0 = ucast (code ! 2 AND 0x0f)"
      using g(1,2,3) len by (auto simp: GetVarArgs_def Let_def bind_eq_Some_conv count Fetch16_def word_le_nat_alt)
    then have "unat (ucast (code ! 2 AND 0x0f) :: u32) < n"
      using g(4) assms(2) by (metis list_all_length length_greater_0_conv reg_ok_def)
    then show "unat (ucast (code ! 2 AND 0x0f) :: u8) < n"
      unfolding unat_narrow(2) unsigned_ucast_eq by (meson le_less_trans take_bit_nat_less_eq_self)
  qed
  show "VRegB_35c code \<noteq> None" using len by (simp add: VRegB_35c_def Fetch16_def)
qed

lemma range_fits:
  assumes "at_insn rt df pc" "n = unat (registers_size (accessor rt))"
    and "FormatOf (Opcode (insns (accessor rt) ! pc)) = k3rc"
  defines "code \<equiv> drop pc (insns (accessor rt))" and "d \<equiv> insns (accessor rt) ! pc"
  shows "\<exists>c. VRegC_3rc code = Some c \<and> unat (VRegA_3rc d) + unat c \<le> n \<and>
       (verify_flags (InstructionDescriptorOf (Opcode d)) AND 0x3FC000 = kVerifyVarArgRangeNonZero \<longrightarrow> unat c < n)"
    "VRegB_3rc code \<noteq> None"
proof -
  note facts = at_insn_facts [OF assms(1), folded code_def d_def]
  have len: "3 \<le> length code" using facts(8) assms(3) by (simp add: d_def SizeInCodeUnitsOfFormat_def)
  then show "VRegB_3rc code \<noteq> None" by (simp add: VRegB_3rc_def Fetch16_def)
  obtain c where c: "VRegC_3rc code = Some c" using len by (simp add: VRegC_3rc_def Fetch16_def)
  have sum: "unat (VRegA_3rc d) + unat c \<le> n"
    using facts(4) assms(2,3) c
    by (auto simp: registers_ok_def Let_def facts(6) VRegA_def VRegC_def d_def [symmetric] unat_narrow)
  moreover have "unat c < n" if "verify_flags (InstructionDescriptorOf (Opcode d)) AND 0x3FC000 = kVerifyVarArgRangeNonZero"
  proof -
    have "GetVerifyExtraFlagsOf (Opcode d) = kVerifyVarArgRangeNonZero"
      using that by (simp add: GetVerifyExtraFlagsOf_def VerifyFlagsOf_def)
    then have "ucast (VRegA_3rc d) \<noteq> (0 :: u32)"
      using facts(4) assms(3) by (auto simp: registers_ok_def Let_def facts(6) VRegA_def d_def [symmetric])
    then have "VRegA_3rc d \<noteq> 0" by auto
    then have "0 < unat (VRegA_3rc d)" by (simp add: unat_gt_0)
    then show ?thesis using sum by linarith
  qed
  ultimately show "\<exists>c. VRegC_3rc code = Some c \<and> unat (VRegA_3rc d) + unat c \<le> n \<and>
       (verify_flags (InstructionDescriptorOf (Opcode d)) AND 0x3FC000 = kVerifyVarArgRangeNonZero \<longrightarrow> unat c < n)"
    using c by blast
qed

lemma array_type_fits_of:
  assumes "at_insn rt df pc" "verify_flags (InstructionDescriptorOf (Opcode (insns (accessor rt) ! pc))) AND 0x40001FC = kVerifyRegBFilledNewArray"
  defines "code \<equiv> drop pc (insns (accessor rt))" and "f \<equiv> FormatOf (Opcode (insns (accessor rt) ! pc))"
  shows "f = k35c \<Longrightarrow> array_type_fits df (VRegB_35c code)" "f = k3rc \<Longrightarrow> array_type_fits df (VRegB_3rc code)"
proof -
  note facts = at_insn_facts [OF assms(1), folded code_def]
  have "GetVerifyTypeArgumentBOf (Opcode (insns (accessor rt) ! pc)) = kVerifyRegBFilledNewArray"
    using assms(2) by (simp add: GetVerifyTypeArgumentBOf_def VerifyFlagsOf_def)
  then have "\<exists>b. VRegB f code (insns (accessor rt) ! pc) = Some b \<and> first_char (GetTypeDescriptor df (ucast b)) = CHR ''[''"
    using facts(5) by (auto simp: indices_ok_def Let_def facts(6) f_def)
  then show "f = k35c \<Longrightarrow> array_type_fits df (VRegB_35c code)" "f = k3rc \<Longrightarrow> array_type_fits df (VRegB_3rc code)"
    by (auto simp: VRegB_def array_type_fits_def narrow_back)
qed

lemma switch_operands: "A_ok Single (InstructionDescriptorOf PACKED_SWITCH)" "A_ok Single (InstructionDescriptorOf SPARSE_SWITCH)"
  by code_simp+

lemma flow_fits_of:
  assumes "at_insn rt df pc" "flows_into rt pc T" "nregs s = unat (registers_size (accessor rt))"
    and "next_inst s = int pc + int (SizeInCodeUnitsOfFormat (FormatOf (Opcode (insns (accessor rt) ! pc))))"
  defines "op \<equiv> Opcode (insns (accessor rt) ! pc)"
  assumes ok: "flow_ok k op (InstructionDescriptorOf op)" and no: "\<not> signed_overflow rt (handler_at rt pc) s"
  shows "flow_fits k rt df (handler_at rt pc) T s"
proof -
  note facts = at_insn_facts [OF assms(1), folded op_def]
  have onwards: "next_inst s \<in> T" if "k \<notin> {Leaves, Jumps, Never}"
    using goes_onwards [OF assms(1,2)] ok that assms(4) by (simp add: flow_ok_def op_def)
  have f: "format_ok k (FormatOf op)" using ok by (simp add: flow_ok_def FormatOf_def)
  have again: "int pc \<in> T" if "flags (InstructionDescriptorOf op) AND kInvoke \<noteq> 0 \<or> op \<in> {INVOKE_CUSTOM, INVOKE_CUSTOM_RANGE}"
    using assms(2) that by (simp add: flows_into_def retriable_def IsInvoke_def FlagsOf_def op_def)
  have no: "op = NEG_INT \<Longrightarrow> GetVReg_B (handler_at rt pc) s \<noteq> Some 0x80000000"
    "op = NEG_LONG \<Longrightarrow> GetVRegLong_B (handler_at rt pc) s \<noteq> Some 0x8000000000000000"
    "op = PACKED_SWITCH \<Longrightarrow> \<not> packed_overflows (accessor rt) (int pc) (drop pc (insns (accessor rt))) (insns (accessor rt) ! pc) (frame s)"
    using no by (auto simp: signed_overflow_def handler_at_fields op_def)
  have regs: "unat (number_of_vregs (frame s)) = unat (registers_size (accessor rt))" using assms(3) by (simp add: nregs_def)
  note branch = branch_fits [OF assms(1,2), folded op_def]
  note arguments = arguments_fit [OF assms(1,3), folded op_def] and range = range_fits [OF assms(1,3), folded op_def]
  note array_type = array_type_fits_of [OF assms(1), folded op_def]
  note switch = switch_fits [OF assms(1,2), folded op_def]
  show ?thesis
  proof (cases k)
    case PackedTable
    then have "op = PACKED_SWITCH" "flags (InstructionDescriptorOf op) AND kContinue \<noteq> 0" using ok by (auto simp: flow_ok_def)
    then show ?thesis using PackedTable f switch(1) switch_operands regs no(3) by (simp add: handler_at_fields)
  next
    case SparseTable
    then have "op = SPARSE_SWITCH" "flags (InstructionDescriptorOf op) AND kContinue \<noteq> 0" using ok by (auto simp: flow_ok_def)
    then show ?thesis using SparseTable f switch(2) switch_operands regs by (simp add: handler_at_fields)
  next
    case ArrayData
    then have "op = FILL_ARRAY_DATA" using ok by (simp add: flow_ok_def)
    then show ?thesis using ArrayData f onwards array_fits [OF assms(1)] by (auto simp: op_def handler_at_fields)
  next
    case WideLiteral
    then have "5 \<le> length (drop pc (insns (accessor rt)))" using facts(8) f by (simp add: SizeInCodeUnitsOfFormat_def)
    then show ?thesis using WideLiteral onwards
      by (simp add: handler_at_fields WideVRegB_def VRegB_51l_def Fetch32_def Fetch16_def Let_def)
  next
    case Never
    then have "GetVerifyExtraFlagsOf op = kVerifyError"
      using ok by (simp add: flow_ok_def GetVerifyExtraFlagsOf_def VerifyFlagsOf_def)
    then show ?thesis using assms(1) facts(6) by (simp add: at_insn_def Let_def insn_ok_def op_def)
  next
    case (Arguments receiver)
    then show ?thesis using f onwards arguments(2) ok again by (cases receiver) (auto simp: handler_at_fields flow_ok_def)
  next
    case (Range receiver)
    then show ?thesis using f onwards range(1) ok again by (cases receiver) (fastforce simp: handler_at_fields flow_ok_def)+
  next
    case CallSite
    then show ?thesis using f onwards arguments(1,3) ok again by (auto simp: handler_at_fields flow_ok_def)
  next
    case CallSiteRange
    then show ?thesis using f onwards range ok again by (auto simp: handler_at_fields flow_ok_def)
  next
    case Calls
    then show ?thesis using onwards ok again by (simp add: handler_at_fields flow_ok_def)
  next
    case NegatesInt
    then show ?thesis using onwards ok no(1) by (simp add: flow_ok_def)
  next
    case NegatesLong
    then show ?thesis using onwards ok no(2) by (simp add: flow_ok_def)
  next
    case NewArray
    then show ?thesis using f onwards arguments(1) array_type(1) ok
      by (auto simp: handler_at_fields flow_ok_def VRegA_35c_def)
  next
    case NewArrayRange
    then show ?thesis using f onwards range(1) array_type(2) ok by (auto simp: handler_at_fields flow_ok_def)
  qed (use f onwards branch ok in \<open>auto simp: handler_at_fields op_def flow_ok_def\<close>)
qed

lemma need_fits:
  assumes "at_insn rt df pc" "flows_into rt pc T" "nregs s = unat (registers_size (accessor rt))"
    and "next_inst s = int pc + int (SizeInCodeUnitsOfFormat (FormatOf (Opcode (insns (accessor rt) ! pc))))"
    and "need_ok (Opcode (insns (accessor rt) ! pc)) (InstructionDescriptorOf (Opcode (insns (accessor rt) ! pc))) need"
    and "\<not> signed_overflow rt (handler_at rt pc) s"
  shows "fits need rt df (handler_at rt pc) T s"
  using flow_fits_of [OF assms(1,2,3,4) _ assms(6)] operands_fit [OF assms(1,3)] assms(4,5)
  by (auto simp: fits_def need_ok_def handler_at_fields split: prod.splits)

lemma case_safe:
  assumes "at_insn rt df pc" "flows_into rt pc T" "runtime_ok rt" "method_ok rt df" "method_frame rt s"
    and "nregs s = unat (registers_size (accessor rt))"
    and "next_inst s = int pc + int (SizeInCodeUnitsOfFormat (FormatOf (Opcode (insns (accessor rt) ! pc))))"
    and "\<not> signed_overflow rt (handler_at rt pc) s"
  shows "safe T s (OPCODE_CASE (Opcode (insns (accessor rt) ! pc)) rt (handler_at rt pc) s)"
proof -
  obtain need where "need_ok (Opcode (insns (accessor rt) ! pc)) (InstructionDescriptorOf (Opcode (insns (accessor rt) ! pc))) need"
    "handler_safe need (OPCODE_CASE (Opcode (insns (accessor rt) ! pc)) :: 'a handler)"
    by (rule opcode_need)
  then show ?thesis using need_fits [OF assms(1,2,6,7) _ assms(8)] assms(3,4,5) by (simp add: handler_safe_def)
qed

end
