(* ===== verification/InterpreterRun.thy ===== *)
theory InterpreterRun
  imports InterpreterVerified
begin

text \<open>
  Pending exceptions and whole runs of the loop: where \<open>HandlePendingException\<close> goes on, and that
  a run through verified code never leaves the frame, the code or the opcodes.  What remains
  undefined is a signed overflow (\<open>turn_overflows\<close>).
\<close>

section \<open>Finding the handler\<close>

lemma first_match_ok:
  assumes "callouts_keep rt" "kept s t" "first_match (catch_type_matches rt k) hs t = (addr, u)"
  shows "kept s u" "addr = kDexNoIndex \<or> addr \<in> snd ` set hs"
proof -
  have "kept s u \<and> (addr = kDexNoIndex \<or> addr \<in> snd ` set hs)"
    using assms(2,3)
  proof (induction hs arbitrary: t)
    case (Cons h hs)
    obtain m w where m: "catch_type_matches rt k t (fst h) = (m, w)" by fastforce
    have "kept s (snd (catch_type_matches rt k t (fst h)))"
      unfolding catch_type_matches_def Let_def case_prod_beta
      by (auto intro!: kept_updates callouts_kept [OF assms(1)] Cons.prems(1))
    then have w: "kept s w" by (simp add: m)
    show ?case using Cons.prems Cons.IH [OF w] w by (auto simp: m split: if_splits option.splits bool.splits)
  qed simp
  then show "kept s u" "addr = kDexNoIndex \<or> addr \<in> snd ` set hs" by blast+
qed

definition catches :: "CodeItemDataAccessor \<Rightarrow> u32 \<Rightarrow> (u16 \<times> u32) list \<Rightarrow> bool" where
  "catches ci at hs \<longleftrightarrow>
     (\<exists>it last_it. CatchHandlerIterator_at ci at = Some it \<and> collect_handlers it = Some (hs, last_it)) \<and>
     (\<forall>addr \<in> snd ` set hs. unat addr < length (insns ci))"

lemma find_catch_block_ok:
  assumes "callouts_keep rt" "kept s t" "catches (accessor rt) at hs"
  shows "\<exists>addr b u. find_catch_block rt ty at t = Some (addr, b, u) \<and> kept s u \<and>
    (addr = kDexNoIndex \<or> addr \<in> snd ` set hs)"
proof -
  obtain it last_it where it: "CatchHandlerIterator_at (accessor rt) at = Some it" "collect_handlers it = Some (hs, last_it)"
    using assms(3) by (auto simp: catches_def)
  let ?m = "catch_type_matches rt ty"
  obtain addr u where m: "first_match ?m hs (ClearException t) = (addr, u)" by fastforce
  have u: "kept s u" "addr = kDexNoIndex \<or> addr \<in> snd ` set hs"
    using first_match_ok [OF assms(1) _ m] kept_updates(7) [OF assms(2)] by blast+
  obtain d where d: "addr \<noteq> kDexNoIndex \<Longrightarrow> Fetch16 (InstructionAt (accessor rt) addr) 0 = Some d"
    using u(2) assms(3) by (fastforce simp: catches_def InstructionAt_def Fetch16_def)
  have "kept s (SetException (exception t) u)" by (intro kept_updates u(1))
  then show ?thesis
    using d u it FindCatchBlockLoop_collect [OF it(2), of ?m "ClearException t"]
    by (auto simp: find_catch_block_def FindCatchBlock_def m Let_def)
qed

text \<open>The frame after a search: its size and its references, the catch address where the search
  ended at a handler.\<close>

definition moved :: "'w interp \<Rightarrow> 'w interp \<Rightarrow> bool" where
  "moved s u \<longleftrightarrow> number_of_vregs (frame u) = number_of_vregs (frame s) \<and> (frame_wf (frame s) \<longrightarrow> frame_wf (frame u))"

lemma kept_moved: "kept s u \<Longrightarrow> moved s u"
  by (simp add: kept_def moved_def)

lemma moved_trans: "moved s t \<Longrightarrow> moved t u \<Longrightarrow> moved s u"
  by (simp add: moved_def)

lemma moved_frame: "method_frame rt s \<Longrightarrow> moved s u \<Longrightarrow> method_frame rt u"
  by (simp add: method_frame_def moved_def)

definition handler_reached :: "(u16 \<times> u32) list \<Rightarrow> 'w interp \<Rightarrow> bool" where
  "handler_reached hs u \<longleftrightarrow> GetForcePopFrame (frame u) \<or> frame_dex_pc (frame u) \<in> snd ` set hs"

lemma moved_updates:
  assumes "moved s t"
  shows "moved s (t\<lparr>frame := SetDexPC (frame t) a\<rparr>)" "moved s (ClearException t)"
    "moved s (t\<lparr>frame := SetNotifyExceptionHandledEvent (frame t) b\<rparr>)"
  using assms by (simp_all add: moved_def SetDexPC_def ClearException_def SetNotifyExceptionHandledEvent_def
      frame_wf_def CheckConsistentVRegs_def)

lemma handler_reached_updates:
  assumes "handler_reached hs t"
  shows "handler_reached hs (ClearException t)"
    "handler_reached hs (t\<lparr>frame := SetNotifyExceptionHandledEvent (frame t) b\<rparr>)"
  using assms by (auto simp: handler_reached_def ClearException_def SetNotifyExceptionHandledEvent_def GetForcePopFrame_def
      GetFrameFlag_Update_other)

definition ends :: "(u16 \<times> u32) list \<Rightarrow> 'w interp \<Rightarrow> (bool \<times> 'w interp) option \<Rightarrow> bool" where
  "ends hs s r \<longleftrightarrow> (\<exists>found u. r = Some (found, u) \<and> moved s u \<and> (found \<longrightarrow> handler_reached hs u))"

lemma ends_Some: "moved s u \<Longrightarrow> (found \<Longrightarrow> handler_reached hs u) \<Longrightarrow> ends hs s (Some (found, u))"
  by (simp add: ends_def)

lemma ends_if: "(c \<Longrightarrow> ends hs s x) \<Longrightarrow> (\<not> c \<Longrightarrow> ends hs s y) \<Longrightarrow> ends hs s (if c then x else y)"
  by simp

lemma handler_reached_popped: "GetForcePopFrame (frame u) \<Longrightarrow> handler_reached hs u"
  by (simp add: handler_reached_def)

lemma MoveToExceptionHandler_ok:
  assumes "callouts_keep rt" "kept s t" "catches (accessor rt) (GetDexPC (frame s)) hs"
  shows "ends hs s (MoveToExceptionHandler rt a b t)"
proof -
  have k: "kept s (Event rt e x)" if "kept s x" for e x by (rule callouts_kept [OF assms(1) that])
  define report where "report \<longleftrightarrow> \<not> b \<and> HasListeners rt ExceptionThrownListeners t \<and> IsExceptionThrownByCurrentMethod rt (exception t) t"
  define x where "x = (if report then Event rt (ExceptionThrownEvent (exception t)) t else t)"
  have x: "kept s x" by (simp add: x_def k assms(2))
  then have "GetDexPC (frame x) = GetDexPC (frame s)" by (simp add: kept_def GetDexPC_def)
  then obtain addr c u where f: "find_catch_block rt (GetClass (heap x) (exception t)) (GetDexPC (frame x)) x = Some (addr, c, u)" "kept s u"
    "addr = kDexNoIndex \<or> addr \<in> snd ` set hs"
    using find_catch_block_ok [OF assms(1) x assms(3), of "GetClass (heap x) (exception t)"] by auto
  define y where "y = u\<lparr>frame := SetDexPC (frame u) addr\<rparr>"
  have y: "moved s y" "addr \<noteq> kDexNoIndex \<Longrightarrow> handler_reached hs y"
    unfolding y_def using f(3) by (intro moved_updates kept_moved f(2), auto simp: handler_reached_def SetDexPC_def)
  show ?thesis
    unfolding MoveToExceptionHandler_def Let_def report_def [symmetric] x_def [symmetric] f(1) bind.bind_lunit case_prod_conv
      y_def [symmetric]
    by (intro ends_if ends_Some moved_updates y(1) kept_moved k kept_if x f(2) handler_reached_updates)
      (auto intro: handler_reached_popped y(2))
qed

section \<open>Handling a pending exception\<close>

lemma HandlePendingException_ok:
  assumes "runtime_ok rt" "method_ok rt df" "method_frame rt s" "catches (accessor rt) (GetDexPC (frame s)) hs"
  shows "\<exists>ok u. HandlePendingException rt h s = Some (ok, u) \<and> moved s u \<and>
    (ok \<longrightarrow> (\<exists>addr \<in> snd ` set hs. GetDexPC (frame u) = addr \<and> next_inst u = inst_pos h + sint (addr - dex_pc h)))"
proof -
  have rt: "callouts_keep rt" using assms(1) by (simp add: runtime_ok_def)
  let ?t = "AllowThreadSuspension rt s"
  have t: "kept s ?t" by (rule callouts_kept [OF rt kept_refl])
  have "halts s (CheckTransactionAbort rt h ?t)"
  proof -
    obtain u where u: "PerformNonStandardReturn rt (ClearException ?t) = Some u" "kept (ClearException ?t) u"
      using PerformNonStandardReturn_ok [OF assms(1,2) method_frame_kept [OF assms(3) kept_updates(7) [OF t]]] by blast
    have "kept s (ExitInterpreterLoop (SetException (exception ?t) u))"
      by (intro kept_updates kept_trans [OF kept_updates(7) [OF t] u(2)])
    then show ?thesis using t u(1) by (auto simp: CheckTransactionAbort_def Let_def halts_go halts_stop)
  qed
  then obtain b1 s1 where s1: "CheckTransactionAbort rt h ?t = Some (b1, s1)" "kept s s1" by (auto simp: halts_def)
  obtain b2 s2 where s2: "CheckForceReturn rt h s1 = Some (b2, s2)" "kept s s2"
    using CheckForceReturn_halts [OF assms(1,2,3) s1(2), of h] by (auto simp: halts_def)
  define s3 where "s3 = s2\<lparr>frame := SetSkipNextExceptionEvent (frame s2) False\<rparr>"
  have s3: "kept s s3" unfolding s3_def by (intro kept_updates s2(2))
  obtain found u where u: "MoveToExceptionHandler rt (GetSkipNextExceptionEvent (frame s2)) (GetSkipNextExceptionEvent (frame s2)) s3 =
      Some (found, u)" "moved s u" "found \<longrightarrow> handler_reached hs u"
    using MoveToExceptionHandler_ok [OF rt s3 assms(4)] unfolding ends_def by blast
  have mf: "method_frame rt u" by (rule moved_frame [OF assms(3) u(2)])
  obtain b4 s4 where s4: "CheckForceReturn rt h u = Some (b4, s4)" "kept u s4"
    using CheckForceReturn_halts [OF assms(1,2) mf kept_refl, of h] by (auto simp: halts_def)
  have go: "b4 \<Longrightarrow> s4 = u \<and> \<not> GetForcePopFrame (frame u)"
    using s4(1) by (auto simp: CheckForceReturn_def bind_eq_Some_conv split: if_splits)
  have m4: "moved s s4" by (rule moved_trans [OF u(2) kept_moved [OF s4(2)]])
  have leave: "moved s (ExitInterpreterLoop (u\<lparr>ctx_result := 0\<rparr>))" "moved s (SetNextInstruction p x) = moved s x" for p x
    using u(2) by (simp_all add: moved_def ExitInterpreterLoop_def SetNextInstruction_def)
  have unlock: "DoMonitorCheckOnExit rt u = (True, u)" using assms(1) by (simp add: DoMonitorCheckOnExit_def runtime_ok_def)
  show ?thesis
    unfolding HandlePendingException_def Let_def s1(1) bind.bind_lunit case_prod_conv s2(1) s3_def [symmetric] u(1) s4(1)
    using go m4 leave u(2,3) kept_moved [OF s1(2)] kept_moved [OF s2(2)]
    by (auto simp: unlock handler_reached_def GetDexPC_def SetNextInstruction_def)
qed

section \<open>Runs through verified code\<close>

text \<open>What the verifier accepted, with the condition on the control flow and what the dex file
  verifier adds.
  Fewer than \<open>2\<^sup>1\<^sup>6\<close> code units: the handlers keep 16 bits of the dex pc.\<close>

definition verified_code :: "'w runtime \<Rightarrow> dex_file \<Rightarrow> bool" where
  "verified_code rt df \<longleftrightarrow>
     (let ci = accessor rt in
        length (insns ci) < 2 ^ 16 \<and> insns ci \<noteq> [] \<and> ins_size ci \<le> registers_size ci \<and> laid_out (insns ci) \<and>
        (\<forall>pc < length (insns ci). insn_start (insns ci) pc \<longrightarrow> insn_ok ci pc \<and> indices_ok df (drop pc (insns ci))) \<and>
        (TriesSize ci \<noteq> 0 \<longrightarrow>
           (\<exists>n p hs. DecodeUnsignedLeb128 (handler_data ci) = Some (n, p) \<and> all_handlers (unat n) p = Some hs \<and>
              (\<forall>(ty, addr) \<in> set hs. unat addr < length (insns ci) \<and> insn_start (insns ci) (unat addr)))) \<and>
        flow_closed ci \<and> handlers_encoded ci)"

definition positions :: "CodeItemDataAccessor \<Rightarrow> int set" where
  "positions ci = int ` {q. q < length (insns ci) \<and> insn_start (insns ci) q \<and> flow_reach ci q}"

definition loop_inv :: "'w runtime \<Rightarrow> 'w interp \<Rightarrow> bool" where
  "loop_inv rt s \<longleftrightarrow> frame_wf (frame s) \<and> method_frame rt s \<and> next_inst s \<in> positions (accessor rt)"

text \<open>Where a turn may lead: along an edge of the control flow, or, for an invocation that is to be
  retried, to the same instruction.\<close>

definition edges :: "CodeItemDataAccessor \<Rightarrow> nat \<Rightarrow> int set" where
  "edges ci pc = int ` {q. q = pc \<and> retriable (Opcode (insns ci ! pc)) \<or>
     q < length (insns ci) \<and> insn_start (insns ci) q \<and> flow ci pc q}"

lemma int_positions: "int q \<in> positions ci \<longleftrightarrow> q < length (insns ci) \<and> insn_start (insns ci) q \<and> flow_reach ci q"
  by (auto simp: positions_def)

lemma int_edges: "int q \<in> edges ci pc \<longleftrightarrow>
    q = pc \<and> retriable (Opcode (insns ci ! pc)) \<or> q < length (insns ci) \<and> insn_start (insns ci) q \<and> flow ci pc q"
  by (auto simp: edges_def)

lemma edges_positions: "int pc \<in> positions ci \<Longrightarrow> edges ci pc \<subseteq> positions ci"
  unfolding int_positions by (auto simp: edges_def int_positions intro: flow_reach.step)

lemma Verify_verified_code:
  assumes "Verify code_flow df m v = Some (True, v')" "code_item m = Some (accessor rt)"
    and "length (insns (accessor rt)) < 2 ^ 16" "flow_closed (accessor rt)" "handlers_encoded (accessor rt)"
  shows "verified_code rt df"
proof -
  let ?ci = "accessor rt"
  let ?v0 = "v\<lparr>insn_flags := replicate (length (insns ?ci)) 0\<rparr>"
  have len: "length (insns ?ci) < 2 ^ 31" using assms(3) by simp
  obtain u where u: "static_pass df ?ci ?v0 = Some (True, u)" "\<not> registers_size ?ci < ins_size ?ci" "InsnsSizeInCodeUnits ?ci \<noteq> 0"
    using assms(1,2) by (auto simp: Verify_def accepted split: if_splits)
  have "insns ?ci \<noteq> []" using u(3) by (auto simp: InsnsSizeInCodeUnits_def)
  moreover have "laid_out (insns ?ci)"
    "\<forall>pc < length (insns ?ci). insn_start (insns ?ci) pc \<longrightarrow> insn_ok ?ci pc \<and> indices_ok df (drop pc (insns ?ci))"
    using static_pass_sound [OF u(1) _ len] by (auto simp: code_verified_def)
  moreover have "\<exists>n p hs. DecodeUnsignedLeb128 (handler_data ?ci) = Some (n, p) \<and> all_handlers (unat n) p = Some hs \<and>
      (\<forall>(ty, addr) \<in> set hs. unat addr < length (insns ?ci) \<and> insn_start (insns ?ci) (unat addr))" if "TriesSize ?ci \<noteq> 0"
    using static_pass_tries [OF u(1) _ len that] by (fastforce simp: handler_target_ok_def)
  ultimately show ?thesis using u(2) assms(3,4,5) by (simp add: verified_code_def Let_def not_less)
qed

lemma start_inv:
  assumes "verified_code rt df" "frame_wf (frame s)" "number_of_vregs (frame s) = ucast (registers_size (accessor rt))" "next_inst s = 0"
  shows "loop_inv rt s"
proof -
  have "int 0 \<in> positions (accessor rt)"
    using assms(1) unfolding int_positions by (auto simp: verified_code_def Let_def insn_start_def reach.here flow_reach.entry)
  then show ?thesis using assms by (simp add: loop_inv_def method_frame_def verified_code_def Let_def)
qed

lemma verified_catches:
  assumes "verified_code rt df" "int pc \<in> positions (accessor rt)"
  shows "\<exists>hs. catches (accessor rt) (of_nat pc) hs \<and> (\<forall>addr \<in> snd ` set hs. int (unat addr) \<in> edges (accessor rt) pc)"
proof -
  let ?ci = "accessor rt"
  have pc: "pc < length (insns ?ci)" "flow_reach ?ci pc" using assms(2) by (simp_all add: int_positions)
  have "handlers_encoded ?ci" using assms(1) by (simp add: verified_code_def Let_def)
  then obtain it hs last_it where it: "CatchHandlerIterator_at ?ci (of_nat pc) = Some it" "collect_handlers it = Some (hs, last_it)"
    "TriesSize ?ci \<noteq> 0 \<longrightarrow> (\<exists>n p all. DecodeUnsignedLeb128 (handler_data ?ci) = Some (n, p) \<and> all_handlers (unat n) p = Some all \<and>
       set hs \<subseteq> set all)"
    using pc(1) by (fastforce simp: handlers_encoded_def)
  have none: "hs = []" if "TriesSize ?ci = 0"
    using it(1,2) that
    by (auto simp: CatchHandlerIterator_at_def handler_offset_def CatchHandlerIterator_Init_def collect_handlers.simps HasNext_def)
  have ok: "unat addr < length (insns ?ci) \<and> insn_start (insns ?ci) (unat addr)" if h: "(ty, addr) \<in> set hs" for ty addr
  proof -
    have "TriesSize ?ci \<noteq> 0" using none h by force
    then obtain n p all where a: "DecodeUnsignedLeb128 (handler_data ?ci) = Some (n, p)" "all_handlers (unat n) p = Some all"
      "(ty, addr) \<in> set all" "\<forall>(ty, addr) \<in> set all. unat addr < length (insns ?ci) \<and> insn_start (insns ?ci) (unat addr)"
      using it(3) assms(1) h unfolding verified_code_def Let_def by fastforce
    then show ?thesis by blast
  qed
  have "flow ?ci pc (unat addr)" if "(ty, addr) \<in> set hs" for ty addr by (rule flow.caught [OF it(1,2) that])
  then have "\<forall>addr \<in> snd ` set hs. int (unat addr) \<in> edges ?ci pc" using ok unfolding int_edges by fastforce
  moreover have "catches ?ci (of_nat pc) hs" unfolding catches_def using it(1,2) ok by force
  ultimately show ?thesis by blast
qed

lemma verified_at_insn:
  assumes "verified_code rt df" "int pc \<in> positions (accessor rt)"
  shows "at_insn rt df pc" "flows_into rt pc (edges (accessor rt) pc)"
proof -
  show "at_insn rt df pc"
    using assms by (simp add: verified_code_def Let_def at_insn_def int_positions flow_closed_def)
  show "flows_into rt pc (edges (accessor rt) pc)"
    by (auto simp: flows_into_def edges_def)
qed

text \<open>Where the jump from the throwing instruction leads: the handlers compute it from 16 bits of the dex pc.\<close>

lemma displacement_exact:
  assumes "pc < 2 ^ 31" "unat (addr :: u32) < 2 ^ 31"
  shows "int pc + sint (addr - ucast (ucast (of_nat pc :: u32) :: u16)) = int (unat addr) + int (pc div 2 ^ 16 * 2 ^ 16)"
proof -
  let ?lo = "pc mod 2 ^ 16"
  have lo: "unat (ucast (ucast (of_nat pc :: u32) :: u16) :: u32) = ?lo"
    unfolding unsigned_ucast_eq unsigned_of_nat take_bit_take_bit by (simp add: take_bit_eq_mod)
  have "addr - ucast (ucast (of_nat pc :: u32) :: u16) = word_of_int (int (unat addr) - int ?lo)"
    unfolding lo [symmetric] by simp
  moreover have "sint (word_of_int (int (unat addr) - int ?lo) :: u32) = int (unat addr) - int ?lo"
  proof -
    have "int (unat addr) < 2 ^ 31" using assms(2) by (metis of_nat_less_iff of_nat_numeral of_nat_power)
    moreover have "int ?lo < 2 ^ 16" by (simp add: zmod_int)
    moreover have "(2 :: int) ^ 16 \<le> 2 ^ 31" by simp
    ultimately have "- (2 ^ 31) \<le> int (unat addr) - int ?lo" "int (unat addr) - int ?lo < 2 ^ 31" by linarith+
    then show ?thesis unfolding signed_of_int of_int_eq_id id_apply by (intro signed_take_bit_int_eq_self) simp_all
  qed
  ultimately have "sint (addr - ucast (ucast (of_nat pc :: u32) :: u16)) = int (unat addr) - int ?lo" by (simp only:)
  moreover have "int pc = int (pc div 2 ^ 16 * 2 ^ 16) + int ?lo" by (metis div_mult_mod_eq of_nat_add)
  ultimately show ?thesis by linarith
qed

lemma positions_cases:
  assumes "p \<in> positions ci"
  obtains pc where "p = int pc" "int pc \<in> positions ci" "pc < length (insns ci)"
  using assms by (auto simp: positions_def)

text \<open>The turns that overflow a signed integer.\<close>

definition turn_overflows :: "'w runtime \<Rightarrow> 'w interp \<Rightarrow> bool" where
  "turn_overflows rt s \<longleftrightarrow>
     (let pos = next_inst s; pc = (word_of_int pos :: u32); code = code_at (accessor rt) pos
      in \<exists>d t. Fetch16 code 0 = Some d \<and>
           Preamble rt (InstructionHandler_new kInvalidFormat pc pos code d)
             (s\<lparr>frame := SetDexPC (frame s) pc, exit_interpreter_loop := False\<rparr>) = Some (True, t) \<and>
           signed_overflow rt (InstructionHandler_new (FormatOf (Opcode d)) pc pos code d)
             (SetNextInstruction (pos + int (SizeInCodeUnitsOfFormat (FormatOf (Opcode d)))) t))"

lemma turn_overflows_undefined: "turn_overflows rt s \<Longrightarrow> switch_step rt s = None"
  using signed_overflow_undefined
  by (fastforce simp: turn_overflows_def switch_step_def Let_def InstructionHandler_new_def)

lemma turn_overflows_at:
  assumes "next_inst s = int pc" "pc < length (insns (accessor rt))"
    and "Preamble rt (InstructionHandler_new kInvalidFormat (of_nat pc) (int pc) (drop pc (insns (accessor rt))) (insns (accessor rt) ! pc))
      (s\<lparr>frame := SetDexPC (frame s) (of_nat pc), exit_interpreter_loop := False\<rparr>) = Some (True, t)"
    and "signed_overflow rt (handler_at rt pc)
      (SetNextInstruction (int pc + int (SizeInCodeUnitsOfFormat (FormatOf (Opcode (insns (accessor rt) ! pc))))) t)"
  shows "turn_overflows rt s"
proof -
  have "Fetch16 (drop pc (insns (accessor rt))) 0 = Some (insns (accessor rt) ! pc)" using assms(2) by (simp add: Fetch16_def)
  moreover have "code_at (accessor rt) (int pc) = drop pc (insns (accessor rt))" "(word_of_int (int pc) :: u32) = of_nat pc"
    by (simp_all add: code_at_def)
  ultimately show ?thesis using assms(3,4) unfolding turn_overflows_def Let_def assms(1) by (simp add: handler_at_def Let_def)
qed

lemma turn_safe:
  assumes "verified_code rt df" "runtime_ok rt" "method_ok rt df" "loop_inv rt s" "next_inst s = int pc" "\<not> turn_overflows rt s"
  defines "s0 \<equiv> s\<lparr>frame := SetDexPC (frame s) (of_nat pc), exit_interpreter_loop := False\<rparr>"
    and "h0 \<equiv> InstructionHandler_new kInvalidFormat (of_nat pc) (int pc) (drop pc (insns (accessor rt))) (insns (accessor rt) ! pc)"
    and "fmt \<equiv> FormatOf (Opcode (insns (accessor rt) ! pc))"
  shows "\<exists>success u.
    do { (ok, t) \<leftarrow> Preamble rt h0 s0;
         if ok then OPCODE_CASE (Opcode (insns (accessor rt) ! pc)) rt (handler_at rt pc)
                      (SetNextInstruction (int pc + int (SizeInCodeUnitsOfFormat fmt)) t)
         else Some (False, t) } = Some (success, u) \<and>
    moved s u \<and> (success \<or> \<not> halted u \<longrightarrow> next_inst u \<in> edges (accessor rt) pc) \<and>
    (\<not> success \<longrightarrow> GetDexPC (frame u) = of_nat pc)"
proof -
  let ?T = "edges (accessor rt) pc"
  have pos: "int pc \<in> positions (accessor rt)" and mf: "method_frame rt s" using assms(4,5) by (simp_all add: loop_inv_def)
  note insn = verified_at_insn [OF assms(1) pos]
  have s0: "moved s s0" "GetDexPC (frame s0) = of_nat pc" "next_inst s0 = int pc"
    using assms(5) by (simp_all add: s0_def moved_def SetDexPC_def GetDexPC_def frame_wf_def CheckConsistentVRegs_def)
  note mf0 = moved_frame [OF mf s0(1)]
  obtain ok t where t: "Preamble rt h0 s0 = Some (ok, t)" "kept s0 t" "\<not> ok \<longrightarrow> halted t"
    using Preamble_halts [OF assms(2,3) mf0, of h0] by (auto simp: halts_def)
  have mt: "moved s t" by (rule moved_trans [OF s0(1) kept_moved [OF t(2)]])
  have pct: "GetDexPC (frame t) = of_nat pc" using s0(2) t(2) by (simp add: kept_def GetDexPC_def)
  show ?thesis
  proof (cases ok)
    case True
    let ?t = "SetNextInstruction (int pc + int (SizeInCodeUnitsOfFormat fmt)) t"
    have m: "moved s ?t" "GetDexPC (frame ?t) = of_nat pc" using mt pct by (simp_all add: moved_def SetNextInstruction_def)
    then have mft: "method_frame rt ?t" using moved_frame [OF mf] by blast
    have "pc < length (insns (accessor rt))" "Preamble rt h0 s0 = Some (True, t)"
      using pos t(1) True by (simp_all add: int_positions)
    then have "\<not> signed_overflow rt (handler_at rt pc) ?t"
      using turn_overflows_at [OF assms(5)] assms(6) unfolding h0_def s0_def fmt_def by blast
    then have "safe ?T ?t (OPCODE_CASE (Opcode (insns (accessor rt) ! pc)) rt (handler_at rt pc) ?t)"
      by (intro case_safe [OF insn assms(2,3) mft method_frame_nregs [OF mft]]) (simp_all add: SetNextInstruction_def fmt_def)
    then show ?thesis using t(1) True m by (auto simp: safe_def moved_def GetDexPC_def)
  next
    case False
    then show ?thesis using t mt pct by (intro exI [of _ False] exI [of _ t]) simp
  qed
qed

lemma turn_exception:
  assumes "verified_code rt df" "runtime_ok rt" "method_ok rt df" "method_frame rt u" "GetDexPC (frame u) = of_nat pc"
    and "int pc \<in> positions (accessor rt)"
  defines "h0 \<equiv> InstructionHandler_new kInvalidFormat (of_nat pc) (int pc) (drop pc (insns (accessor rt))) (insns (accessor rt) ! pc)"
  shows "\<exists>ok w. HandlePendingException rt h0 u = Some (ok, w) \<and> moved u w \<and> (ok \<longrightarrow> next_inst w \<in> edges (accessor rt) pc)"
proof -
  let ?ci = "accessor rt"
  obtain hs where hs: "catches ?ci (GetDexPC (frame u)) hs" "\<forall>addr \<in> snd ` set hs. int (unat addr) \<in> edges ?ci pc"
    using verified_catches [OF assms(1,6)] assms(5) by auto
  have len: "length (insns ?ci) < 2 ^ 16" using assms(1) by (simp add: verified_code_def Let_def)
  have pc: "pc < 2 ^ 16" using assms(6) len unfolding int_positions by linarith
  have "int pc + sint (addr - dex_pc h0) = int (unat addr)" if "int (unat addr) \<in> edges ?ci pc" for addr :: u32
  proof -
    have "int (unat addr) \<in> positions ?ci" using that edges_positions [OF assms(6)] by blast
    then have "unat addr < 2 ^ 31" "pc < 2 ^ 31" using pc len unfolding int_positions by simp_all
    then show ?thesis using displacement_exact [of pc addr] pc by (simp add: h0_def InstructionHandler_new_def)
  qed
  moreover have "inst_pos h0 = int pc" by (simp add: h0_def InstructionHandler_new_def)
  ultimately show ?thesis using HandlePendingException_ok [OF assms(2,3,4) hs(1), of h0] hs(2) by fastforce
qed

lemma switch_step_at:
  assumes "next_inst s = int pc" "pc < length (insns (accessor rt))" "length (insns (accessor rt)) < 2 ^ 16"
  defines "d \<equiv> insns (accessor rt) ! pc"
    and "h0 \<equiv> InstructionHandler_new kInvalidFormat (of_nat pc) (int pc) (drop pc (insns (accessor rt))) (insns (accessor rt) ! pc)"
  shows "switch_step rt s =
    do { (success, s) \<leftarrow>
           do { (ok, t) \<leftarrow> Preamble rt h0 (s\<lparr>frame := SetDexPC (frame s) (of_nat pc), exit_interpreter_loop := False\<rparr>);
                if ok then OPCODE_CASE (Opcode d) rt (handler_at rt pc)
                       (SetNextInstruction (int pc + int (SizeInCodeUnitsOfFormat (FormatOf (Opcode d)))) t)
                else Some (False, t) };
         if success then Some (Running s)
         else if exit_interpreter_loop s then Some (Returned (s\<lparr>frame := SetDexPC (frame s) kDexNoIndex\<rparr>))
         else if IsExceptionPending s then
           (if virtual_threads rt \<and> IsVirtualThreadParking rt s then Some (Returned s)
            else do {
              (ok, s) \<leftarrow> HandlePendingException rt h0 s;
              if ok then Some (Running s)
              else Some (Returned (s\<lparr>frame := SetDexPC (frame s) kDexNoIndex\<rparr>)) })
         else Some (Running s) }"
proof -
  have f: "Fetch16 (drop pc (insns (accessor rt))) 0 = Some d" using assms(2) by (simp add: Fetch16_def d_def)
  have c: "code_at (accessor rt) (int pc) = drop pc (insns (accessor rt))" "(word_of_int (int pc) :: u32) = of_nat pc"
    by (simp_all add: code_at_def)
  show ?thesis unfolding switch_step_def Let_def assms(1) c f bind.bind_lunit h0_def d_def handler_at_def
    by (simp add: case_prod_unfold)
qed

text \<open>A turn fails only by a signed overflow, keeps the frame, and goes on, if it does, along the
  control flow.\<close>

definition turn_ok :: "'w runtime \<Rightarrow> 'w interp \<Rightarrow> 'w outcome \<Rightarrow> bool" where
  "turn_ok rt s r =
     (case r of Running u \<Rightarrow> loop_inv rt u \<and> next_inst u \<in> edges (accessor rt) (nat (next_inst s)) | Returned u \<Rightarrow> moved s u)"

lemma switch_step_ok:
  assumes "verified_code rt df" "runtime_ok rt" "method_ok rt df" "loop_inv rt s" "\<not> turn_overflows rt s"
  shows "\<exists>r. switch_step rt s = Some r \<and> turn_ok rt s r"
proof -
  let ?ci = "accessor rt"
  obtain pc where pc: "next_inst s = int pc" "int pc \<in> positions ?ci" "pc < length (insns ?ci)"
    using assms(4) positions_cases unfolding loop_inv_def by metis
  have len: "length (insns ?ci) < 2 ^ 16" using assms(1) by (simp add: verified_code_def Let_def)
  have wf: "frame_wf (frame s)" "method_frame rt s" using assms(4) by (simp_all add: loop_inv_def)
  obtain success u where u: "moved s u" "success \<or> \<not> halted u \<longrightarrow> next_inst u \<in> edges ?ci pc"
    "\<not> success \<longrightarrow> GetDexPC (frame u) = of_nat pc"
    and run: "do { (ok, t) \<leftarrow> Preamble rt (InstructionHandler_new kInvalidFormat (of_nat pc) (int pc) (drop pc (insns ?ci)) (insns ?ci ! pc))
           (s\<lparr>frame := SetDexPC (frame s) (of_nat pc), exit_interpreter_loop := False\<rparr>);
         if ok then OPCODE_CASE (Opcode (insns ?ci ! pc)) rt (handler_at rt pc)
                      (SetNextInstruction (int pc + int (SizeInCodeUnitsOfFormat (FormatOf (Opcode (insns ?ci ! pc))))) t)
         else Some (False, t) } = Some (success, u)"
    using turn_safe [OF assms(1-4) pc(1) assms(5)] by blast
  have inv: "loop_inv rt w" if "moved s w" "next_inst w \<in> edges ?ci pc" for w
    using that wf moved_frame [OF wf(2)] edges_positions [OF pc(2)] by (auto simp: loop_inv_def moved_def)
  have leave: "moved s (w\<lparr>frame := SetDexPC (frame w) kDexNoIndex\<rparr>)" if "moved s w" for w
    by (rule moved_updates [OF that])
  show ?thesis
  proof (cases "\<not> success \<and> \<not> exit_interpreter_loop u \<and> IsExceptionPending u")
    case True
    then obtain ok w where w: "HandlePendingException rt
        (InstructionHandler_new kInvalidFormat (of_nat pc) (int pc) (drop pc (insns ?ci)) (insns ?ci ! pc)) u = Some (ok, w)"
      "moved u w" "ok \<longrightarrow> next_inst w \<in> edges ?ci pc"
      using turn_exception [OF assms(1-3) moved_frame [OF wf(2) u(1)] _ pc(2)] u(3) by blast
    then show ?thesis unfolding switch_step_at [OF pc(1,3) len] run
      using True u(1) inv leave moved_trans [OF u(1) w(2)] pc(1) by (simp add: turn_ok_def)
  next
    case False
    then show ?thesis unfolding switch_step_at [OF pc(1,3) len] run
      using u inv leave pc(1) by (auto simp: turn_ok_def halted_def)
  qed
qed

lemma switch_step_undefined:
  assumes "verified_code rt df" "runtime_ok rt" "method_ok rt df" "loop_inv rt s"
  shows "switch_step rt s = None \<longleftrightarrow> turn_overflows rt s"
  using switch_step_ok [OF assms] turn_overflows_undefined by fastforce

lemma switch_step_turn_ok:
  assumes "verified_code rt df" "runtime_ok rt" "method_ok rt df" "loop_inv rt s" "switch_step rt s = Some r"
  shows "turn_ok rt s r"
  using switch_step_ok [OF assms(1-4)] switch_step_undefined [OF assms(1-4)] assms(5) by auto

lemma reachable_inv:
  assumes "verified_code rt df" "runtime_ok rt" "method_ok rt df" "loop_inv rt s" "reachable rt s t"
  shows "loop_inv rt t"
  using assms(5)
proof induction
  case (turn t u)
  then show ?case using switch_step_turn_ok [OF assms(1-3), of t "Running u"] by (simp add: turn_ok_def)
qed (rule assms(4))

section \<open>Code without loops\<close>

text \<open>A run goes along the control flow; where that only goes forward, each turn that goes on comes
  closer to the end of the code or retries an invocation.  \<open>retries\<close> counts the latter among the first
  turns of a run.\<close>

definition forward_only :: "CodeItemDataAccessor \<Rightarrow> bool" where
  "forward_only ci \<longleftrightarrow> (\<forall>pc q. flow_reach ci pc \<longrightarrow> flow ci pc q \<longrightarrow> pc < q)"

primrec retries :: "'w runtime \<Rightarrow> nat \<Rightarrow> 'w interp \<Rightarrow> nat" where
  "retries rt 0 s = 0"
| "retries rt (Suc n) s =
     (case switch_step rt s of
        Some (Running u) \<Rightarrow>
          (if next_inst u = next_inst s \<and> retriable (Opcode (insns (accessor rt) ! nat (next_inst s))) then 1 else 0) + retries rt n u
      | _ \<Rightarrow> 0)"

lemma switch_loop_ends:
  assumes "verified_code rt df" "runtime_ok rt" "method_ok rt df" "forward_only (accessor rt)"
    and "loop_inv rt s" "int (length (insns (accessor rt))) - next_inst s + int (retries rt n s) \<le> int n"
  shows "(\<exists>t. switch_loop rt n s = Some (Returned t) \<and> moved s t) \<or>
    switch_loop rt n s = None \<and> (\<exists>t. reachable rt s t \<and> turn_overflows rt t)"
  using assms(5,6)
proof (induction n arbitrary: s)
  case 0
  then show ?case by (auto simp: loop_inv_def int_positions elim: positions_cases)
next
  case (Suc n)
  let ?ci = "accessor rt"
  show ?case
  proof (cases "switch_step rt s")
    case None
    then show ?thesis using switch_step_undefined [OF assms(1-3) Suc.prems(1)] reachable.start by fastforce
  next
    case (Some r)
    note r = Some switch_step_turn_ok [OF assms(1-3) Suc.prems(1) Some]
    show ?thesis
    proof (cases r)
      case (Running u)
      obtain pc where pc: "next_inst s = int pc" "int pc \<in> positions ?ci" using Suc.prems(1) by (auto simp: loop_inv_def elim: positions_cases)
      have step: "switch_step rt s = Some (Running u)" using r(1) Running by simp
      have u: "loop_inv rt u" "next_inst u \<in> edges ?ci pc" using r(2) Running pc(1) by (simp_all add: turn_ok_def)
      have "int pc < next_inst u \<or> next_inst u = int pc \<and> retriable (Opcode (insns ?ci ! pc))"
        using u(2) pc(2) assms(4) by (auto simp: edges_def int_positions forward_only_def)
      then have "int (length (insns ?ci)) - next_inst u + int (retries rt n u) \<le> int n"
        using Suc.prems(2) pc(1) step by auto
      note ends = Suc.IH [OF u(1) this]
      have "moved s u" using u(1) Suc.prems(1) by (simp add: moved_def loop_inv_def method_frame_def)
      then show ?thesis using ends moved_trans reachable_step [OF step] unfolding switch_loop_Suc(1) [OF step] by blast
    next
      case (Returned t)
      then show ?thesis using r by (simp add: turn_ok_def)
    qed
  qed
qed

end
