(* ===== verification/InterpreterExample.thy ===== *)
theory InterpreterExample
  imports InterpreterRun
begin

text \<open>
  A runtime without listeners in which nothing can be resolved, allocated or called, and the
  methods that the properties of the interpreter are applied to.
\<close>

section \<open>A quiet runtime\<close>

definition quiet_runtime :: "CodeItemDataAccessor \<Rightarrow> 'w runtime" where
  "quiet_runtime ci =
     \<lparr>accessor = ci, method_is_static = True, SkipAccessChecks = True, MustCountLocks = False, virtual_threads = False,
      target_sdk_version = 29, Throw = (\<lambda>k. SetException 1), AllowThreadSuspension = id,
      IsExceptionThrownByCurrentMethod = (\<lambda>_ _. False), IsVirtualThreadParking = (\<lambda>_. False),
      MonitorEnter = (\<lambda>_. id), MonitorExit = (\<lambda>_. id), HasListeners = (\<lambda>_ _. False), Event = (\<lambda>_. id),
      MethodExitEvent = Pair, MaybeDoOnStackReplacement = (\<lambda>_ _. Pair None), AddSamples = id,
      ResolveVerifyAndClinit = (\<lambda>_ s. (0, SetException 1 s)), ResolveClassFromTypeIndex = (\<lambda>_ s. (0, SetException 1 s)),
      ResolveReturnType = (\<lambda>s. (0, SetException 1 s)), ResolveMethodHandle = (\<lambda>_ s. (0, SetException 1 s)),
      ResolveMethodType = (\<lambda>_ s. (0, SetException 1 s)), StringClassIsVisiblyInitialized = (\<lambda>_. True),
      EnsureStringClassInitialized = Pair True, ClassLinker_ResolveString = (\<lambda>_ s. (0, SetException 1 s)),
      InterpreterCache_Get = (\<lambda>_ _. None), NterpGetStaticField = (\<lambda>_ _ s. (0, SetException 1 s)),
      NterpGetInstanceFieldOffset = (\<lambda>_ s. (0, SetException 1 s)),
      ResolveFieldWithAccessChecks = (\<lambda>_ _ _ s. (0, SetException 1 s)), Field_GetOffset = (\<lambda>_. 8),
      Field_GetDeclaringClass = (\<lambda>_. 0), Field_IsStatic = (\<lambda>_. False), Field_ResolveType = (\<lambda>_ s. (0, SetException 1 s)),
      IsAssignableFrom = (\<lambda>_ _. False), IsInterface = (\<lambda>_. False), IsArrayClass = (\<lambda>_. False), GetComponentType = id,
      GetPrimitiveType = (\<lambda>_. kPrimNot), IsStringClass = (\<lambda>_. False), IsThrowableClass = (\<lambda>_. False),
      AllocObjectFromCode = (\<lambda>_ s. (0, SetException 1 s)), AllocEmptyString = (\<lambda>s. (0, SetException 1 s)),
      AllocArrayFromCode = (\<lambda>_ _ s. (0, SetException 1 s)), Array_Alloc = (\<lambda>_ _ s. (0, SetException 1 s)),
      FindMethodToCall = (\<lambda>_ _ _ s. (0, False, SetException 1 s)), DoCall = (\<lambda>_ _ _ _ s. (False, SetException 1 s)),
      DoInvokePolymorphic = (\<lambda>_ _ s. (False, SetException 1 s)), DoInvokeCustom_operands = (\<lambda>_ _ s. (False, SetException 1 s)),
      FindLocksAtDexPc = (\<lambda>_. [])\<rparr>"

lemma quiet_accessor [simp]: "accessor (quiet_runtime ci) = ci"
  by (simp add: quiet_runtime_def)

lemma quiet_keeps: "callouts_keep (quiet_runtime ci)"
  by (simp add: callouts_keep_def quiet_runtime_def kept_def SetException_def)

lemma quiet_runtime_ok: "runtime_ok (quiet_runtime ci :: 'w runtime)"
proof -
  have "listeners_settle (quiet_runtime ci :: 'w runtime)"
    by (simp add: listeners_settle_def pop_requested_def quiet_runtime_def)
  then show ?thesis using quiet_keeps by (simp add: runtime_ok_def quiet_runtime_def IsExceptionPending_def SetException_def)
qed

lemma quiet_method_ok: "method_ok (quiet_runtime ci) df"
  by (simp add: method_ok_def quiet_runtime_def)

text \<open>A thread about to run a method with a new frame.\<close>

definition start_state :: "CodeItemDataAccessor \<Rightarrow> unit interp" where
  "start_state ci =
     \<lparr>frame = CreateShadowFrame (ucast (registers_size ci)) 0, result_register = 0, ctx_result = 0, exception = 0,
      async_exception = 0, heap = (\<lambda>_ _. 0), next_inst = 0, exit_interpreter_loop = False, world = ()\<rparr>"

lemma start_state_ok:
  "frame_wf (frame (start_state ci))" "number_of_vregs (frame (start_state ci)) = ucast (registers_size ci)"
  "next_inst (start_state ci) = 0"
  by (simp_all add: start_state_def CreateShadowFrame_def frame_wf_def CheckConsistentVRegs_def)

section \<open>Evaluating the tables\<close>

lemma example_flags:
  "CanFlowThrough 0x12" "\<not> IsBranch 0x12" "SizeInCodeUnitsOfFormat (FormatOf 0x12) = 1"
  by code_simp+

lemma example_handlers:
  "CatchHandlerIterator_at example_code 0 =
     Some \<lparr>handler_type_idx = kDexNoIndex16, handler_address = 1, current_data = [], remaining_count = 0, catch_all = False\<rparr>"
  "collect_handlers \<lparr>handler_type_idx = kDexNoIndex16, handler_address = 1, current_data = [], remaining_count = 0, catch_all = False\<rparr> =
     Some ([(kDexNoIndex16, 1)], \<lparr>handler_type_idx = kDexNoIndex16, handler_address = 1, current_data = [], remaining_count = -1, catch_all = False\<rparr>)"
  "collect_handlers \<lparr>handler_type_idx = kDexNoIndex16, handler_address = -1, current_data = [], remaining_count = -1, catch_all = False\<rparr> =
     Some ([], \<lparr>handler_type_idx = kDexNoIndex16, handler_address = -1, current_data = [], remaining_count = -1, catch_all = False\<rparr>)"
  by code_simp+

section \<open>A method without a loop\<close>

definition forward_code :: CodeItemDataAccessor where
  "forward_code = \<lparr>registers_size = 1, ins_size = 0, outs_size = 0, insns = [0x0012, 0x000E], try_items = [], handler_data = []\<rparr>"

definition forward_method :: verified_method where
  "forward_method = \<lparr>method_access_flags = 9, native_access_flags = 0, GetMethodShorty = ''V'', code_item = Some forward_code\<rparr>"

lemma forward_descriptors: "VerifyFlagsOf 0x0E = 0" "IsReturnOf 0x0E"
  by code_simp+

lemma forward_verify:
  "Verify (\<lambda>v. Some (True, v)) example_dex_file forward_method example_verifier =
     Some (True, example_verifier\<lparr>insn_flags := [20, 36]\<rparr>)"
proof -
  have widths: "ComputeWidthsAndCountOps forward_code (v\<lparr>insn_flags := [0, 0]\<rparr>) = Some (True, v\<lparr>insn_flags := [4, 4]\<rparr>)" for v
    by (simp add: ComputeWidthsAndCountOps_def ComputeWidthsLoop.simps [of _ 0] ComputeWidthsLoop.simps [of _ 1]
        ComputeWidthsLoop.simps [of _ 2] instruction_width_def InsnsSizeInCodeUnits_def InstructionAt_def
        forward_code_def Fetch16_def Opcode_def example_descriptors SizeInCodeUnitsOfFormat_def Let_def ModifyInstructionFlags_def
        SetIsOpcode_def)
  have c: "InsnsSizeInCodeUnits forward_code = 2" "InstructionAt forward_code 0 = [0x0012, 0x000E]" "InstructionAt forward_code 1 = [0x000E]"
    by (simp_all add: InsnsSizeInCodeUnits_def forward_code_def InstructionAt_def)
  have d: "Opcode 0x0012 = 0x12" "Opcode 0x000E = 0x0E" "Fetch16 [0x0012, 0x000E] 0 = Some 0x0012" "Fetch16 [0x000E] 0 = Some 0x000E"
    "walk_size 0x12 [0x0012, 0x000E] = Some 1" "walk_size 0x0E [0x000E] = Some 1"
    by (simp_all add: Opcode_def Fetch16_def walk_size_def example_descriptors SizeInCodeUnitsOfFormat_def)
  have i: "VerifyInstruction 0x12 df forward_code 0 2 inst 0x12 u = Some (True, u)"
    "VerifyInstruction 0x0E df forward_code 1 2 inst 0x000E u = Some (True, u)" for df inst u
    by (simp_all add: verify_defs example_descriptors forward_descriptors CheckRegisterIndex_def VRegA_def vreg_defs InstA_def forward_code_def)
  have loop: "VerifyInstructionsLoop df forward_code 0 (v\<lparr>insn_flags := [20, 4]\<rparr>) = Some (True, v\<lparr>insn_flags := [20, 36]\<rparr>)" for df v
    by (subst VerifyInstructionsLoop.simps, simp add: Let_def c d dispatch_simps i example_descriptors,
       subst VerifyInstructionsLoop.simps, simp add: Let_def c d dispatch_simps i example_descriptors forward_descriptors ModifyInstructionFlags_def SetReturn_def,
       subst VerifyInstructionsLoop.simps, simp add: Let_def c)
  have "VerifyInstructions df forward_code (v\<lparr>insn_flags := [4, 4]\<rparr>) = Some (True, v\<lparr>insn_flags := [20, 36]\<rparr>)" for df v
    using loop [of df v] by (simp add: VerifyInstructions_def ModifyInstructionFlags_def SetBranchTarget_def)
  moreover have "ScanTryCatchBlocks forward_code v = Some (True, v)" for v
    by (simp add: ScanTryCatchBlocks_def TriesSize_def forward_code_def)
  moreover have "length (insns forward_code) = 2" "registers_size forward_code = 1" "ins_size forward_code = 0"
    by (simp_all add: forward_code_def)
  ultimately show ?thesis
    by (simp add: Verify_def static_pass_def forward_method_def and_then_def widths c numeral_2_eq_2)
qed

lemma forward_insns: "length (insns forward_code) = 2" "insns forward_code ! 0 = 0x0012" "insns forward_code ! Suc 0 = 0x000E"
  by (simp_all add: forward_code_def)

lemma forward_flags: "\<not> CanFlowThrough 0x0E" "\<not> IsBranch 0x0E"
  by code_simp+

lemma forward_handlers:
  "CatchHandlerIterator_at forward_code a =
     Some \<lparr>handler_type_idx = kDexNoIndex16, handler_address = -1, current_data = [], remaining_count = -1, catch_all = False\<rparr>"
  by (simp add: CatchHandlerIterator_at_def handler_offset_def forward_code_def TriesSize_def CatchHandlerIterator_Init_def)

lemma forward_flow: "flow forward_code pc q \<Longrightarrow> pc < 2 \<Longrightarrow> pc = 0 \<and> q = 1"
proof -
  assume "flow forward_code pc q" "pc < 2"
  then have pc: "pc = 0 \<or> pc = 1" by auto
  from \<open>flow forward_code pc q\<close> show ?thesis
  proof cases
    case (caught it hs last_it ty addr)
    then show ?thesis by (auto simp: forward_handlers example_handlers(3))
  qed (use pc example_flags forward_flags in \<open>auto simp: forward_insns Opcode_def\<close>)
qed

lemma forward_reach: "flow_reach forward_code pc \<Longrightarrow> pc < 2"
  by (induction rule: flow_reach.induct) (use forward_flow in fastforce)+

lemma forward_flow_closed: "flow_closed forward_code"
proof -
  have "\<not> is_payload (insns forward_code ! pc) \<and>
    (CanFlowThrough (Opcode (insns forward_code ! pc)) \<longrightarrow>
       pc + SizeInCodeUnitsOfFormat (FormatOf (Opcode (insns forward_code ! pc))) < length (insns forward_code))"
    if "flow_reach forward_code pc" for pc
  proof -
    have "pc = 0 \<or> pc = 1" using forward_reach [OF that] by auto
    then show ?thesis using example_flags forward_flags by (auto simp: forward_insns Opcode_def is_payload_def)
  qed
  then show ?thesis by (simp add: flow_closed_def)
qed

lemma forward_handlers_encoded: "handlers_encoded forward_code"
proof -
  have "TriesSize forward_code = 0" by (simp add: TriesSize_def forward_code_def)
  then show ?thesis by (simp add: handlers_encoded_def forward_handlers example_handlers(3))
qed

lemma forward_verified: "verified_code (quiet_runtime forward_code) example_dex_file"
  by (rule Verify_verified_code [OF forward_verify])
    (simp_all add: forward_method_def forward_flow_closed forward_handlers_encoded forward_insns)

lemma Preamble_quiet: "frame_flags (frame s) = 0 \<Longrightarrow> Preamble rt h s = Some (True, s)"
  by (simp add: Preamble_def CheckForceReturn_def GetForcePopFrame_def GetNotifyExceptionHandledEvent_def GetNotifyDexPcMoveEvents_def
      GetFrameFlag_def)

lemma opcode_cases: "OPCODE_CASE 0x12 = OP_CONST" "OPCODE_CASE 0x0E = OP_RETURN_VOID"
  by (simp_all add: OPCODE_CASE_def handlers_00_7F_def)

lemma forward_steps:
  "switch_step (quiet_runtime forward_code) (start_state forward_code) =
     Some (Running ((start_state forward_code)\<lparr>next_inst := 1\<rparr>))"
  "switch_step (quiet_runtime forward_code) ((start_state forward_code)\<lparr>next_inst := 1\<rparr>) =
     Some (Returned ((start_state forward_code)\<lparr>frame := CreateShadowFrame 1 kDexNoIndex, next_inst := 2, exit_interpreter_loop := True\<rparr>))"
proof -
  let ?s = "start_state forward_code"
  show "switch_step (quiet_runtime forward_code) ?s = Some (Running (?s\<lparr>next_inst := 1\<rparr>))"
    by (subst switch_step_at [of _ 0])
      (simp_all add: start_state_ok forward_insns forward_code_def start_state_def CreateShadowFrame_def Preamble_quiet
        SetDexPC_def Opcode_def opcode_cases example_descriptors OP_CONST_def operand_A_def operand_B_def handler_at_fields VRegA_def VRegB_def vreg_defs
        InstA_def InstB_def SetVReg_A_def SetVReg_def SetNextInstruction_def SizeInCodeUnitsOfFormat_def)
  show "switch_step (quiet_runtime forward_code) (?s\<lparr>next_inst := 1\<rparr>) = Some (Returned (?s\<lparr>frame := CreateShadowFrame 1 kDexNoIndex, next_inst := 2, exit_interpreter_loop := True\<rparr>))"
    by (subst switch_step_at [of _ 1])
      (simp_all add: start_state_ok forward_insns forward_code_def start_state_def CreateShadowFrame_def Preamble_quiet
        SetDexPC_def Opcode_def opcode_cases example_descriptors OP_RETURN_VOID_def HandleReturn_def quiet_runtime_def DoMonitorCheckOnExit_def NeedsMethodExitEvent_def
        ExitInterpreterLoop_def NeedsNotifyPop_def GetFrameFlag_def SetNextInstruction_def SizeInCodeUnitsOfFormat_def)
qed

lemma forward_reachable:
  assumes "reachable (quiet_runtime forward_code) (start_state forward_code) t"
  shows "t = start_state forward_code \<or> t = (start_state forward_code)\<lparr>next_inst := 1\<rparr>"
  using assms by induction (auto simp: forward_steps simp del: One_nat_def)

lemma forward_defined:
  "reachable (quiet_runtime forward_code) (start_state forward_code) t \<Longrightarrow> \<not> turn_overflows (quiet_runtime forward_code) t"
  using forward_reachable [of t] turn_overflows_undefined [of "quiet_runtime forward_code" t] by (auto simp: forward_steps)

lemma forward_retries: "retries (quiet_runtime forward_code) 2 (start_state forward_code) = 0"
  by (simp add: numeral_2_eq_2 forward_steps start_state_ok)

lemma forward_forward_only: "forward_only forward_code"
  using forward_flow forward_reach by (fastforce simp: forward_only_def)

section \<open>A method with a handler far before the throwing instruction\<close>

definition far_code :: CodeItemDataAccessor where
  "far_code = \<lparr>registers_size = 1, ins_size = 0, outs_size = 0, insns = replicate 65537 0,
     try_items = [\<lparr>start_addr = 65536, insn_count = 1, handler_off = 1\<rparr>], handler_data = [1, 0, 1]\<rparr>"

definition far_state :: "unit interp" where
  "far_state = (start_state far_code)\<lparr>frame := CreateShadowFrame 1 65536, exception := 1\<rparr>"

definition far_handler :: InstructionHandler where
  "far_handler = InstructionHandler_new kInvalidFormat 65536 65536 [0] 0"

lemma far_catches: "catches far_code 65536 [(kDexNoIndex16, 1)]"
proof -
  have "handler_offset far_code 65536 = Some 1" by (simp add: handler_offset_def far_code_def TriesSize_def try_end_def)
  moreover have "CatchHandlerIterator_Init far_code 1 = CatchHandlerIterator_Init example_code 1"
    by (simp add: CatchHandlerIterator_Init_def GetCatchHandlerData_def far_code_def example_code_def)
  moreover have "CatchHandlerIterator_Init example_code 1 = CatchHandlerIterator_at example_code 0"
    by (simp add: CatchHandlerIterator_at_def handler_offset_def example_code_def TriesSize_def try_end_def)
  ultimately have "CatchHandlerIterator_at far_code 65536 = CatchHandlerIterator_at example_code 0"
    by (simp add: CatchHandlerIterator_at_def)
  then show ?thesis using example_handlers(1,2) by (simp add: catches_def far_code_def)
qed

lemma far_exception:
  "HandlePendingException (quiet_runtime far_code) far_handler far_state =
     Some (True, far_state\<lparr>frame := CreateShadowFrame 1 1, exception := 0, next_inst := 65537\<rparr>)"
proof -
  obtain it last_it where it: "CatchHandlerIterator_at far_code 65536 = Some it" "collect_handlers it = Some ([(kDexNoIndex16, 1)], last_it)"
    using far_catches by (auto simp: catches_def)
  have fetch: "Fetch16 (InstructionAt far_code 1) 0 = Some 0" by (simp add: InstructionAt_def far_code_def Fetch16_def)
  have loop: "FindCatchBlockLoop m it s = Some (1, s)" for m and s :: "unit interp"
    by (simp add: FindCatchBlockLoop_collect [OF it(2)])
  have "find_catch_block (quiet_runtime far_code) k 65536 s = Some (1, True, s)" if "exception s \<noteq> 0" for k and s :: "unit interp"
    using loop it(1) fetch that
    by (simp add: find_catch_block_def FindCatchBlock_def Let_def SetException_def ClearException_def Opcode_def)
  then show ?thesis
    by (simp add: HandlePendingException_def far_state_def far_handler_def InstructionHandler_new_def Let_def CheckTransactionAbort_def
        IsTransactionAborted_def CheckForceReturn_def GetForcePopFrame_def GetFrameFlag_def CreateShadowFrame_def
        GetSkipNextExceptionEvent_def SetSkipNextExceptionEvent_def UpdateFrameFlag_def MoveToExceptionHandler_def quiet_runtime_def
        GetDexPC_def SetDexPC_def SetNextInstruction_def ClearException_def start_state_def)
qed

end
