(* ===== verification/OperationProps.thy ===== *)
theory OperationProps
  imports InterpreterExample "HOL-Library.Multiset"
begin

text \<open>
  The functional behaviour of the operations of the interpreter: registers, arithmetic, switches,
  arrays, fields and monitors.
\<close>

section \<open>Division\<close>

definition min_word :: "'a::len word" where
  "min_word = push_bit (LENGTH('a) - 1) 1"

lemma cdiv_cmod: "cdiv a b * b + cmod a b = a"
proof -
  have "cdiv a b * b = sgn a * (\<bar>a\<bar> div \<bar>b\<bar> * \<bar>b\<bar>)" by (simp add: cdiv_def abs_sgn mult.commute mult.left_commute)
  then show ?thesis by (simp add: cmod_def distrib_left [symmetric] sgn_mult_abs)
qed

lemma cmod_bounds:
  assumes "b \<noteq> 0"
  shows "\<bar>cmod a b\<bar> < \<bar>b\<bar>" "cmod a b = 0 \<or> sgn (cmod a b) = sgn a"
proof -
  have "0 \<le> \<bar>a\<bar> mod \<bar>b\<bar>" "\<bar>a\<bar> mod \<bar>b\<bar> < \<bar>b\<bar>" using assms by simp_all
  then show "\<bar>cmod a b\<bar> < \<bar>b\<bar>" by (cases "a = 0") (simp_all add: cmod_def abs_mult assms)
  show "cmod a b = 0 \<or> sgn (cmod a b) = sgn a"
    using \<open>0 \<le> \<bar>a\<bar> mod \<bar>b\<bar>\<close> by (cases "\<bar>a\<bar> mod \<bar>b\<bar> = 0") (auto simp: cmod_def sgn_mult)
qed

text \<open>The quotient and the remainder of two words as the interpreter computes them.\<close>

definition word_quotient :: "'a::len word \<Rightarrow> 'a word \<Rightarrow> 'a word" where
  "word_quotient a b = (if a = min_word \<and> b = - 1 then min_word else word_of_int (cdiv (sint a) (sint b)))"

definition word_remainder :: "'a::len word \<Rightarrow> 'a word \<Rightarrow> 'a word" where
  "word_remainder a b = (if a = min_word \<and> b = - 1 then 0 else word_of_int (cmod (sint a) (sint b)))"

lemma sint_remainder:
  fixes a b :: "'a::len word"
  assumes "b \<noteq> 0" "a \<noteq> min_word \<or> b \<noteq> - 1"
  shows "sint (word_remainder a b) = cmod (sint a) (sint b)"
proof -
  have b: "sint b \<noteq> 0" using assms(1) by (simp add: signed_eq_0_iff)
  note r = cmod_bounds [OF b, of "sint a"]
  have range: "- (2 ^ (LENGTH('a) - 1)) \<le> sint b" "sint b < 2 ^ (LENGTH('a) - 1)" using sint_ge [of b] sint_lt [of b] by simp_all
  then have "\<bar>sint b\<bar> \<le> 2 ^ (LENGTH('a) - 1)" by linarith
  then have "- (2 ^ (LENGTH('a) - 1)) \<le> cmod (sint a) (sint b)" "cmod (sint a) (sint b) < 2 ^ (LENGTH('a) - 1)"
    using r(1) by linarith+
  then show ?thesis using assms(2) by (auto simp: word_remainder_def signed_of_int signed_take_bit_int_eq_self)
qed

lemma quotient_remainder:
  fixes a b :: "'a::len word"
  assumes "b \<noteq> 0"
  shows "word_quotient a b * b + word_remainder a b = a"
    "\<bar>sint (word_remainder a b)\<bar> < \<bar>sint b\<bar>"
    "word_remainder a b = 0 \<or> sgn (sint (word_remainder a b)) = sgn (sint a)"
proof -
  have b: "sint b \<noteq> 0" using assms by (simp add: signed_eq_0_iff)
  show "word_quotient a b * b + word_remainder a b = a"
  proof (cases "a = min_word \<and> b = - 1")
    case True
    have "- (min_word :: 'a word) = min_word"
    proof -
      have "min_word + min_word = (2 :: 'a word) * 2 ^ (LENGTH('a) - 1)" by (simp add: min_word_def push_bit_eq_mult)
      also have "\<dots> = 2 ^ LENGTH('a)" by (metis One_nat_def Suc_pred len_gt_0 power_Suc)
      also have "\<dots> = 0" by simp
      finally show ?thesis by (simp add: add_eq_0_iff)
    qed
    then show ?thesis using True by (simp add: word_quotient_def word_remainder_def)
  next
    case False
    have "word_of_int (cdiv (sint a) (sint b) * sint b + cmod (sint a) (sint b)) = a"
      unfolding cdiv_cmod by simp
    then show ?thesis using False by (auto simp: word_quotient_def word_remainder_def)
  qed
  show "\<bar>sint (word_remainder a b)\<bar> < \<bar>sint b\<bar>" "word_remainder a b = 0 \<or> sgn (sint (word_remainder a b)) = sgn (sint a)"
    using cmod_bounds [OF b, of "sint a"] sint_remainder [OF assms] b
    by (cases "a = min_word \<and> b = - 1"; force simp: word_remainder_def)+
qed


lemma divide_words:
  "DoIntDivide rt r a b s =
     (if b = 0 then Some (False, Throw rt ArithmeticExceptionDivideByZero s)
      else map_option (\<lambda>f. (True, s\<lparr>frame := f\<rparr>)) (SetVReg (frame s) r (word_quotient a b)))"
  "DoIntRemainder rt r a b s =
     (if b = 0 then Some (False, Throw rt ArithmeticExceptionDivideByZero s)
      else map_option (\<lambda>f. (True, s\<lparr>frame := f\<rparr>)) (SetVReg (frame s) r (word_remainder a b)))"
  "DoLongDivide rt r c d s =
     (if d = 0 then Some (False, Throw rt ArithmeticExceptionDivideByZero s)
      else map_option (\<lambda>f. (True, s\<lparr>frame := f\<rparr>)) (SetVRegLong (frame s) r (word_quotient c d)))"
  "DoLongRemainder rt r c d s =
     (if d = 0 then Some (False, Throw rt ArithmeticExceptionDivideByZero s)
      else map_option (\<lambda>f. (True, s\<lparr>frame := f\<rparr>)) (SetVRegLong (frame s) r (word_remainder c d)))"
  by (simp_all add: DoIntDivide_def DoIntRemainder_def DoLongDivide_def DoLongRemainder_def word_quotient_def word_remainder_def
      min_word_def map_conv_bind_option comp_def)

text \<open>
  C23.  Integer division and remainder.  A zero divisor throws \<open>ArithmeticException\<close> and leaves the
  registers; otherwise the quotient and the remainder are written, with dividend = quotient *
  divisor + remainder in the arithmetic of the width, the remainder smaller in magnitude than the
  divisor and of the sign of the dividend.  The overflowing division of the least integer by -1 is included.
\<close>

theorem int_division:
  assumes "frame_wf (frame s)" "r < unat (number_of_vregs (frame s))"
  shows "(b = 0 \<longrightarrow> DoIntDivide rt r a b s = Some (False, Throw rt ArithmeticExceptionDivideByZero s) \<and>
      DoIntRemainder rt r a b s = Some (False, Throw rt ArithmeticExceptionDivideByZero s)) \<and>
    (b \<noteq> 0 \<longrightarrow> (\<exists>t u q m. DoIntDivide rt r a b s = Some (True, t) \<and> DoIntRemainder rt r a b s = Some (True, u) \<and>
      GetVReg (frame t) r = Some q \<and> GetVReg (frame u) r = Some m \<and> q * b + m = a \<and>
      \<bar>sint m\<bar> < \<bar>sint b\<bar> \<and> (m = 0 \<or> sgn (sint m) = sgn (sint a))))"
proof (intro conjI impI)
  assume b: "b \<noteq> 0"
  obtain f g where fg: "SetVReg (frame s) r (word_quotient a b) = Some f" "SetVReg (frame s) r (word_remainder a b) = Some g"
    using assms(2) by (simp add: SetVReg_def)
  then have "GetVReg f r = Some (word_quotient a b)" "GetVReg g r = Some (word_remainder a b)"
    using GetVReg_SetVReg(1) [OF assms(1)] by simp_all
  then show "\<exists>t u q m. DoIntDivide rt r a b s = Some (True, t) \<and> DoIntRemainder rt r a b s = Some (True, u) \<and>
      GetVReg (frame t) r = Some q \<and> GetVReg (frame u) r = Some m \<and> q * b + m = a \<and>
      \<bar>sint m\<bar> < \<bar>sint b\<bar> \<and> (m = 0 \<or> sgn (sint m) = sgn (sint a))"
    using b fg quotient_remainder [OF b, of a] by (simp add: divide_words)
qed (simp_all add: divide_words)

theorem int_division_witness:
  "\<exists>t q. DoIntDivide (quiet_runtime forward_code) 0 0x80000000 (-1) (start_state forward_code) = Some (True, t) \<and>
    GetVReg (frame t) 0 = Some q \<and> q * (-1) = 0x80000000"
proof -
  have "\<exists>t u q m. DoIntDivide (quiet_runtime forward_code) 0 0x80000000 (-1) (start_state forward_code) = Some (True, t) \<and>
      DoIntRemainder (quiet_runtime forward_code) 0 0x80000000 (-1) (start_state forward_code) = Some (True, u) \<and>
      GetVReg (frame t) 0 = Some q \<and> GetVReg (frame u) 0 = Some m \<and> q * (-1) + m = 0x80000000 \<and>
      \<bar>sint m\<bar> < \<bar>sint (-1 :: u32)\<bar> \<and> (m = 0 \<or> sgn (sint m) = sgn (sint (0x80000000 :: u32)))"
    using int_division [of "start_state forward_code" 0 "-1" "quiet_runtime forward_code" "0x80000000"] start_state_ok
    by (simp add: forward_code_def)
  moreover have "m = 0" if "\<bar>sint m\<bar> < \<bar>sint (-1 :: u32)\<bar>" for m :: u32
    using that by (simp add: signed_eq_0_iff)
  ultimately show ?thesis by fastforce
qed

section \<open>Arrays\<close>

text \<open>A store of elements: what is read at an index is what was last written there.  The contents
  of an array of \<open>n\<close> elements are then a list that a write updates at its index.\<close>

locale element_store =
  fixes get :: "'m \<Rightarrow> u32 \<Rightarrow> 'v" and put :: "'m \<Rightarrow> u32 \<Rightarrow> 'v \<Rightarrow> 'm" and norm :: "'v \<Rightarrow> 'v"
  assumes get_put: "get (put m i v) i = norm v"
    and get_put_other: "i \<noteq> j \<Longrightarrow> get (put m i v) j = get m j"
begin

lemma put_refines:
  assumes "n < 2 ^ 32"
  shows "map (\<lambda>k. get (put m i v) (of_nat k)) [0..<n] = (map (\<lambda>k. get m (of_nat k)) [0..<n])[unat i := norm v]"
proof (rule nth_equalityI)
  fix k assume k: "k < length (map (\<lambda>k. get (put m i v) (of_nat k)) [0..<n])"
  then have "unat (of_nat k :: u32) = k" using assms by (simp add: unat_of_nat take_bit_nat_eq_self_iff)
  then have "i = of_nat k \<longleftrightarrow> unat i = k" by (metis word_of_nat_eq_iff ucast_id of_nat_unat)
  then show "map (\<lambda>k. get (put m i v) (of_nat k)) [0..<n] ! k = (map (\<lambda>k. get m (of_nat k)) [0..<n])[unat i := norm v] ! k"
    using k by (auto simp: nth_list_update get_put get_put_other)
qed simp

lemma put_put: "get (put (put m i v) i w) j = get (put m i w) j"
  by (cases "j = i") (simp_all add: get_put get_put_other)

end

interpretation primitive_elements: element_store
  "\<lambda>h. PrimitiveArray_GetWithoutChecks n h a" "\<lambda>h. PrimitiveArray_SetWithoutChecks n h a" "take_bit (8 * n)" for n a
proof
  fix h and i :: u32 and v
  show "PrimitiveArray_GetWithoutChecks n (PrimitiveArray_SetWithoutChecks n h a i v) a i = take_bit (8 * n) v"
    by (simp add: PrimitiveArray_GetWithoutChecks_def PrimitiveArray_SetWithoutChecks_def load_store_same)
next
  fix h and i j :: u32 and v assume "i \<noteq> j"
  then have "unat i \<noteq> unat j" using unsigned_word_eqI by blast
  then show "PrimitiveArray_GetWithoutChecks n (PrimitiveArray_SetWithoutChecks n h a i v) a j = PrimitiveArray_GetWithoutChecks n h a j"
    using elements_disjoint [of "unat i" "unat j" n]
    by (auto simp: PrimitiveArray_GetWithoutChecks_def PrimitiveArray_SetWithoutChecks_def intro!: load_store_other)
qed

lemma object_element: "OffsetOfElement i = GetRawData 4 (unat i)"
  by (simp add: OffsetOfElement_def GetRawData_def)

interpretation object_elements: element_store
  "\<lambda>h. ObjectArray_GetWithoutChecks h a" "\<lambda>h. ObjectArray_SetWithoutChecks h a" id for a
proof
  fix h and i :: u32 and v
  show "ObjectArray_GetWithoutChecks (ObjectArray_SetWithoutChecks h a i v) a i = id v"
    by (simp add: ObjectArray_GetWithoutChecks_def ObjectArray_SetWithoutChecks_def)
next
  fix h and i j :: u32 and v assume "i \<noteq> j"
  then have "unat i \<noteq> unat j" using unsigned_word_eqI by blast
  then show "ObjectArray_GetWithoutChecks (ObjectArray_SetWithoutChecks h a i v) a j = ObjectArray_GetWithoutChecks h a j"
    using elements_disjoint [of "unat i" "unat j" 4]
    by (auto simp: ObjectArray_GetWithoutChecks_def ObjectArray_SetWithoutChecks_def GetFieldObject_def SetFieldObject_def
        object_element load_store_other)
qed

definition array_elements :: "nat \<Rightarrow> heap_memory \<Rightarrow> u32 \<Rightarrow> u64 list" where
  "array_elements n h a = map (\<lambda>k. PrimitiveArray_GetWithoutChecks n h a (of_nat k)) [0..<unat (GetLength h a)]"

lemma length_array_elements [simp]: "length (array_elements n h a) = unat (GetLength h a)"
  by (simp add: array_elements_def)

lemma put_keeps_length:
  assumes "n \<in> {1, 2, 4, 8}"
  shows "GetLength (PrimitiveArray_SetWithoutChecks n h a i v) b = GetLength h b"
  using element_behind_length [OF assms, of "unat i"]
  by (simp add: GetLength_def GetField32_def PrimitiveArray_SetWithoutChecks_def load_store_other)

lemma put_refines_array:
  assumes "n \<in> {1, 2, 4, 8}"
  shows "array_elements n (PrimitiveArray_SetWithoutChecks n h a i v) a = (array_elements n h a)[unat i := take_bit (8 * n) v]"
    "b \<noteq> a \<Longrightarrow> array_elements m (PrimitiveArray_SetWithoutChecks n h a i v) b = array_elements m h b"
proof -
  have "unat (GetLength h a) < 2 ^ 32" using unsigned_less [of "GetLength h a", where ?'a = nat] by simp
  then show "array_elements n (PrimitiveArray_SetWithoutChecks n h a i v) a = (array_elements n h a)[unat i := take_bit (8 * n) v]"
    unfolding array_elements_def put_keeps_length [OF assms] by (rule primitive_elements.put_refines)
  show "array_elements m (PrimitiveArray_SetWithoutChecks n h a i v) b = array_elements m h b" if "b \<noteq> a"
    using that unfolding array_elements_def put_keeps_length [OF assms]
    by (simp add: PrimitiveArray_GetWithoutChecks_def PrimitiveArray_SetWithoutChecks_def load_store_other)
qed

text \<open>
  C19.  Storing into an array of primitive elements refines the update of a list: a null array and an
  index that is not below the length throw and change nothing, otherwise the contents of the array
  change at the index to the low bytes of the value and no other array changes.
\<close>

theorem array_put_refines:
  assumes "GetVRegReference_B h s = Some a" "GetVReg_C h s = Some i" "n \<in> {1, 2, 4, 8}"
  shows "(a = 0 \<longrightarrow> HandleAPut n v rt h s = Some (False, Throw rt NullPointerException s)) \<and>
    (a \<noteq> 0 \<and> length (array_elements n (heap s) a) \<le> unat i \<longrightarrow>
       HandleAPut n v rt h s = Some (False, Throw rt (ArrayIndexOutOfBoundsException i (GetLength (heap s) a)) s)) \<and>
    (a \<noteq> 0 \<and> unat i < length (array_elements n (heap s) a) \<longrightarrow>
       (\<exists>m. HandleAPut n v rt h s = Some (True, s\<lparr>heap := m\<rparr>) \<and>
          array_elements n m a = (array_elements n (heap s) a)[unat i := take_bit (8 * n) v] \<and>
          (\<forall>b k. b \<noteq> a \<longrightarrow> array_elements k m b = array_elements k (heap s) b)))"
  using put_refines_array [OF assms(3)]
  by (auto simp: HandleAPut_def assms(1,2) IsValidIndex_def word_le_nat_alt WriteConstraint_def)

definition array_frame :: ShadowFrame where
  "array_frame = \<lparr>number_of_vregs = 3, frame_dex_pc = 0, frame_flags = 0, monitors = None, vregs = [7, 64, 1], references = [0, 64, 0]\<rparr>"

definition array_state :: "unit interp" where
  "array_state = (start_state forward_code)\<lparr>frame := array_frame, heap := SetField32 (\<lambda>_ _. 0) 64 LengthOffset 2\<rparr>"

definition array_handler :: InstructionHandler where
  "array_handler = InstructionHandler_new k23x 0 0 [0x004B, 0x0201] 0x004B"

lemma array_operands: "GetVRegReference_B array_handler array_state = Some 64" "GetVReg_C array_handler array_state = Some 1"
  "GetLength (heap array_state) 64 = 2"
  by (simp_all add: array_handler_def array_state_def array_frame_def InstructionHandler_new_def GetVRegReference_B_def GetVReg_C_def
      operand_B_def operand_C_def VRegB_def VRegC_def vreg_defs Fetch16_def InstAA_def GetVRegReference_def GetVReg_def GetLength_def)

theorem array_put_refines_witness:
  "\<exists>m. HandleAPut 4 7 (quiet_runtime forward_code) array_handler array_state = Some (True, array_state\<lparr>heap := m\<rparr>) \<and>
    array_elements 4 m 64 ! 1 = 7"
proof -
  let ?e = "array_elements 4 (heap array_state) 64"
  have "length ?e = 2" by (simp add: array_operands)
  moreover have "(64 :: u32) \<noteq> 0 \<and> unat (1 :: u32) < length ?e \<longrightarrow>
      (\<exists>m. HandleAPut 4 7 (quiet_runtime forward_code) array_handler array_state = Some (True, array_state\<lparr>heap := m\<rparr>) \<and>
        array_elements 4 m 64 = ?e[unat (1 :: u32) := take_bit (8 * 4) 7] \<and>
        (\<forall>b k. b \<noteq> 64 \<longrightarrow> array_elements k m b = array_elements k (heap array_state) b))"
    using array_put_refines [OF array_operands(1,2), of 4 7 "quiet_runtime forward_code"] by blast
  ultimately show ?thesis by (auto simp: take_bit_eq_mod)
qed

text \<open>The elements of a payload: groups of bytes, least significant first.\<close>

primrec bytes_value :: "u8 list \<Rightarrow> u64" where
  "bytes_value [] = 0"
| "bytes_value (b # bs) = ucast b OR push_bit 8 (bytes_value bs)"

definition payload_element :: "u16 list \<Rightarrow> nat \<Rightarrow> nat \<Rightarrow> u64" where
  "payload_element payload w k = bytes_value (map (\<lambda>j. code_byte (drop 4 payload) (k * w + j)) [0..<w])"

lemma load_bytes_value: "load_bytes h obj offset n = bytes_value (map (\<lambda>j. h obj (offset + j)) [0..<n])"
proof (induction n arbitrary: offset)
  case (Suc n)
  have "map (\<lambda>j. h obj (offset + j)) [0..<Suc n] = h obj offset # map (\<lambda>j. h obj (offset + 1 + j)) [0..<n]"
    by (simp add: upt_conv_Cons map_Suc_upt [symmetric] comp_def del: upt_Suc)
  then show ?case using Suc by (simp del: upt_Suc)
qed simp

lemma copied_element:
  assumes "(k + 1) * w \<le> n"
  shows "load_bytes (copy_bytes h a (GetRawData w 0) (map (code_byte (drop 4 p)) [0..<n])) a (GetRawData w k) w = payload_element p w k"
proof -
  have "copy_bytes h a (GetRawData w 0) (map (code_byte (drop 4 p)) [0..<n]) a (GetRawData w k + j) = code_byte (drop 4 p) (k * w + j)"
    if "j < w" for j
    using assms that by (simp add: copy_bytes_apply GetRawData_def)
  then show ?thesis unfolding load_bytes_value payload_element_def by (intro arg_cong [where f = bytes_value] map_cong) simp_all
qed

lemma not_copied:
  assumes "b \<noteq> a \<or> j + m \<le> offset \<or> offset + length bs \<le> j"
  shows "load_bytes (copy_bytes h a offset bs) b j m = load_bytes h b j m"
  using assms by (intro load_bytes_cong) (auto simp: copy_bytes_apply)

lemma sint_nonneg:
  fixes x :: u32
  shows "0 \<le> sint x \<Longrightarrow> sint x = int (unat x)" "unat x < 2 ^ 31 \<Longrightarrow> sint x = int (unat x)"
proof -
  show "sint x = int (unat x)" if "0 \<le> sint x"
  proof -
    have "uint x = sint x" using that sint_lt [of x] by (subst uint_sint) (simp add: take_bit_int_eq_self_iff)
    then show ?thesis by simp
  qed
  show "sint x = int (unat x)" if "unat x < 2 ^ 31"
  proof -
    have "uint x < 2 ^ 31" using that by (metis of_nat_less_iff of_nat_numeral of_nat_power uint_nat)
    moreover have "- (2 ^ 31) \<le> uint x" by (rule order_trans [OF _ uint_ge_0]) simp
    ultimately show ?thesis using signed_take_bit_int_eq_self [of 31 "uint x"] by (simp add: sint_uint)
  qed
qed

lemma copied_array:
  fixes p :: "u16 list"
  assumes "w \<in> {1, 2, 4, 8}" "c \<le> unat (GetLength h a)"
  defines "m \<equiv> copy_bytes h a (GetRawData w 0) (map (code_byte (drop 4 p)) [0..<c * w])"
  shows "GetLength m b = GetLength h b"
    "array_elements w m a = map (payload_element p w) [0..<c] @ drop c (array_elements w h a)"
    "b \<noteq> a \<Longrightarrow> array_elements k m b = array_elements k h b"
proof -
  have len: "GetLength m b = GetLength h b" for b
    using element_behind_length [OF assms(1), of 0] by (simp add: m_def GetLength_def GetField32_def not_copied)
  then show "GetLength m b = GetLength h b" .
  show "array_elements w m a = map (payload_element p w) [0..<c] @ drop c (array_elements w h a)"
  proof (rule nth_equalityI)
    fix k assume "k < length (array_elements w m a)"
    then have k: "k < unat (GetLength h a)" "unat (of_nat k :: u32) = k"
      using len unsigned_less [of "GetLength h a", where ?'a = nat] by (simp_all add: unat_of_nat take_bit_nat_eq_self_iff)
    have "PrimitiveArray_GetWithoutChecks w m a (of_nat k) = (if k < c then payload_element p w k
        else PrimitiveArray_GetWithoutChecks w h a (of_nat k))"
    proof (cases "k < c")
      case True
      then have "(k + 1) * w \<le> c * w" by (intro mult_le_mono1) simp
      then show ?thesis using True k(2) copied_element [of k w "c * w" h a p] by (simp add: PrimitiveArray_GetWithoutChecks_def m_def)
    next
      case False
      then have "c * w \<le> k * w" by simp
      then show ?thesis using False k(2) by (simp add: PrimitiveArray_GetWithoutChecks_def m_def not_copied GetRawData_def)
    qed
    then show "array_elements w m a ! k = (map (payload_element p w) [0..<c] @ drop c (array_elements w h a)) ! k"
      using k(1) len assms(2) by (auto simp: array_elements_def nth_append)
  qed (use len assms(2) in simp)
  show "b \<noteq> a \<Longrightarrow> array_elements k m b = array_elements k h b"
    using len by (simp add: array_elements_def PrimitiveArray_GetWithoutChecks_def m_def not_copied)
qed

text \<open>
  C20.  \<open>fill-array-data\<close>: a null array and an array shorter than the payload throw; otherwise the first
  elements of the array become the elements of the payload, in order and at the payload's element
  width, and the rest of the array and all other arrays stay.  The payload lies in the code, which has
  fewer than \<open>2\<^sup>3\<^sup>0\<close> units.
\<close>

theorem fill_array_data_correct:
  assumes "Fetch16 p 1 = Some w" "Fetch32 p 2 = Some c" "8 + unat w * unat c \<le> 2 * length p" "length p < 2 ^ 30"
    and "unat w \<in> {1, 2, 4, 8}" "a \<noteq> 0" "0 \<le> sint (GetLength (heap s) a)"
  shows "(sint (GetLength (heap s) a) < sint c \<longrightarrow> FillArrayData rt a p s =
       Some (False, Throw rt (ArrayIndexOutOfBoundsException c (GetLength (heap s) a)) s)) \<and>
    (sint c \<le> sint (GetLength (heap s) a) \<longrightarrow> (\<exists>m. FillArrayData rt a p s = Some (True, s\<lparr>heap := m\<rparr>) \<and>
       array_elements (unat w) m a =
         map (payload_element p (unat w)) [0..<unat c] @ drop (unat c) (array_elements (unat w) (heap s) a) \<and>
       (\<forall>b k. b \<noteq> a \<longrightarrow> array_elements k m b = array_elements k (heap s) b)))"
proof (intro conjI impI)
  show "FillArrayData rt a p s = Some (False, Throw rt (ArrayIndexOutOfBoundsException c (GetLength (heap s) a)) s)"
    if "sint (GetLength (heap s) a) < sint c"
    using that assms(6) by (simp add: FillArrayData_def assms(1,2) del: One_nat_def)
  assume le: "sint c \<le> sint (GetLength (heap s) a)"
  have "unat c \<le> unat w * unat c" using assms(5) by auto
  moreover have wc: "unat w * unat c < 2 ^ 31" using assms(3,4) by simp
  ultimately have c: "unat c < 2 ^ 31" by linarith
  have "sint c = int (unat c)" by (rule sint_nonneg(2) [OF c])
  moreover have "sint (GetLength (heap s) a) = int (unat (GetLength (heap s) a))"
    by (rule sint_nonneg(1) [OF assms(7)])
  ultimately have n: "unat c \<le> unat (GetLength (heap s) a)" using le by linarith
  have size: "unat (c * ucast w) = unat c * unat w"
    using wc by (subst unat_mult_lem [THEN iffD1]) (simp_all add: unat_ucast_up mult.commute)
  let ?m = "copy_bytes (heap s) a (GetRawData (unat w) 0) (map (code_byte (drop 4 p)) [0..<unat c * unat w])"
  have "code_bytes (drop 4 p) (unat c * unat w) = Some (map (code_byte (drop 4 p)) [0..<unat c * unat w])"
    using assms(3) by (simp add: code_bytes_def mult.commute)
  then have "FillArrayData rt a p s = Some (True, s\<lparr>heap := ?m\<rparr>)"
    using le assms(6) by (simp add: FillArrayData_def assms(1,2) Let_def size del: One_nat_def)
  then show "\<exists>m. FillArrayData rt a p s = Some (True, s\<lparr>heap := m\<rparr>) \<and>
       array_elements (unat w) m a =
         map (payload_element p (unat w)) [0..<unat c] @ drop (unat c) (array_elements (unat w) (heap s) a) \<and>
       (\<forall>b k. b \<noteq> a \<longrightarrow> array_elements k m b = array_elements k (heap s) b)"
    using copied_array [OF assms(5) n] by blast
qed

definition fill_payload :: "u16 list" where
  "fill_payload = [0x0300, 2, 2, 0, 5, 6]"

theorem fill_array_data_correct_witness:
  "\<exists>m. FillArrayData (quiet_runtime forward_code) 64 fill_payload array_state = Some (True, array_state\<lparr>heap := m\<rparr>) \<and>
    array_elements 2 m 64 = [5, 6]"
proof -
  have p: "Fetch16 fill_payload 1 = Some 2" "Fetch32 fill_payload 2 = Some 2" "8 + unat (2 :: u16) * unat (2 :: u32) \<le> 2 * length fill_payload"
    "length fill_payload < 2 ^ 30" "unat (2 :: u16) \<in> {1, 2, 4, 8}"
    by (simp_all add: fill_payload_def Fetch16_def Fetch32_def)
  have len: "GetLength (heap array_state) 64 = 2" "0 \<le> sint (GetLength (heap array_state) 64)"
    "sint (2 :: u32) \<le> sint (GetLength (heap array_state) 64)"
    by (simp_all add: array_operands(3))
  obtain m where m: "FillArrayData (quiet_runtime forward_code) 64 fill_payload array_state = Some (True, array_state\<lparr>heap := m\<rparr>)"
    "array_elements (unat (2 :: u16)) m 64 = map (payload_element fill_payload (unat (2 :: u16))) [0..<unat (2 :: u32)] @
        drop (unat (2 :: u32)) (array_elements (unat (2 :: u16)) (heap array_state) 64)"
    using fill_array_data_correct [OF p _ len(2), of "quiet_runtime forward_code"] len(3) by fastforce
  have "map (payload_element fill_payload (unat (2 :: u16))) [0..<unat (2 :: u32)] = [5, 6]" by code_simp
  then have "array_elements 2 m 64 = [5, 6]" using m(2) len(1) by simp
  then show ?thesis using m(1) by blast
qed

section \<open>Registers\<close>

text \<open>The frame after a write to the registers \<open>rs\<close>: the other registers are unchanged, and \<open>ref\<close> is
  the reference the collector finds in each of \<open>rs\<close>.\<close>

definition written :: "ShadowFrame \<Rightarrow> nat set \<Rightarrow> u32 \<Rightarrow> ShadowFrame \<Rightarrow> bool" where
  "written f rs ref g \<longleftrightarrow> frame_wf g \<and> number_of_vregs g = number_of_vregs f \<and>
     (\<forall>j. (j \<notin> rs \<longrightarrow> GetVReg g j = GetVReg f j) \<and>
          GetVRegReference g j = (if j \<in> rs then Some ref else GetVRegReference f j))"

lemma float_registers:
  "SetVRegFloat f i x = SetVReg f i x" "SetVRegDouble f i y = SetVRegLong f i y"
  "GetVRegFloat f i = GetVReg f i" "GetVRegDouble f i = GetVRegLong f i"
  by (simp_all add: SetVRegFloat_def SetVReg_def SetVRegDouble_def SetVRegLong_def GetVRegFloat_def GetVReg_def GetVRegDouble_def GetVRegLong_def)

text \<open>
  C21.  The register file is typed.  Each of the five writers keeps the two arrays consistent and the
  other registers, and what is read back is what was written.  The reference the collector finds is the
  one that was written; a write of an \<open>int\<close> or a \<open>float\<close> clears it, a write of a \<open>long\<close> or a
  \<open>double\<close> clears those of both registers.
\<close>

theorem register_file:
  assumes "frame_wf f"
  shows "(SetVReg f i x = Some g \<longrightarrow> written f {i} 0 g \<and> GetVReg g i = Some x) \<and>
    (SetVRegFloat f i x = Some g \<longrightarrow> written f {i} 0 g \<and> GetVRegFloat g i = Some x) \<and>
    (SetVRegReference f i x = Some g \<longrightarrow> written f {i} x g \<and> GetVReg g i = Some x) \<and>
    (SetVRegLong f i y = Some g \<longrightarrow> written f {i, i + 1} 0 g \<and> GetVRegLong g i = Some y) \<and>
    (SetVRegDouble f i y = Some g \<longrightarrow> written f {i, i + 1} 0 g \<and> GetVRegDouble g i = Some y)"
  using SetVReg_regs_only [of f i x g] SetVRegReference_regs_only [of f i x g] SetVRegLong_regs_only [of f i y g]
    GetVReg_SetVReg [OF assms, of i x g] GetVReg_SetVRegReference [OF assms, of i x g] GetVRegLong_SetVRegLong [OF assms, of i y g] assms
  by (auto simp: regs_only_def written_def float_registers)

theorem register_file_witness:
  "\<exists>g. SetVRegLong (CreateShadowFrame 3 0) 1 0x0000000500000007 = Some g \<and> written (CreateShadowFrame 3 0) {1, 2} 0 g \<and>
    GetVRegLong g 1 = Some 0x0000000500000007"
proof -
  obtain g where g: "SetVRegLong (CreateShadowFrame 3 0) 1 0x0000000500000007 = Some g"
    by (simp add: SetVRegLong_def CreateShadowFrame_def)
  then show ?thesis using register_file [OF CreateShadowFrame_wf, of 3 0 1 0 g "0x0000000500000007"] by (auto simp: numeral_2_eq_2)
qed

section \<open>Switches\<close>

text \<open>
  C10.  \<open>packed-switch\<close>: the branch offset is the entry of the table at the distance of the value from the
  first key, or 3, the size of the instruction, when the value is outside the keys or the table is
  empty.  The distance is a difference of \<open>int32_t\<close>: where it is not a 32-bit number the switch is
  undefined, also for a value that is outside the keys.
\<close>

theorem packed_switch_correct:
  assumes "packed_payload p k ts"
    and "VRegB_31t i = Some offset" "code_at acc (pos + sint offset) = p" "GetVReg f (unat (VRegA_31t d)) = Some v"
  shows "DoPackedSwitch acc pos i d f =
    (if ts = [] \<or> in_int32 (sint v - sint k) then Some (packed_lookup k ts v) else None)"
  by (rule DoPackedSwitch_lookup [OF assms])

definition packed_code :: CodeItemDataAccessor where
  "packed_code = \<lparr>registers_size = 1, ins_size = 0, outs_size = 0,
     insns = [0x002B, 4, 0, 0x000E, 0x0100, 2, 0xFFFF, 0xFFFF, 3, 0, 5, 0], try_items = [], handler_data = []\<rparr>"

theorem packed_switch_correct_witness:
  "DoPackedSwitch packed_code 0 (insns packed_code) 0x002B (CreateShadowFrame 1 0) = Some 5"
proof -
  let ?p = "[0x0100, 2, 0xFFFF, 0xFFFF, 3, 0, 5, 0] :: u16 list"
  have "PackedSwitch_first_key ?p = Some (-1)" by code_simp
  then have p: "packed_payload ?p (-1) [3, 5]"
    by (simp add: packed_payload_def Fetch16_def Fetch32_def PackedSwitch_targets_def less_Suc_eq)
  have i: "VRegB_31t (insns packed_code) = Some 4" "code_at packed_code (0 + sint (4 :: u32)) = ?p"
    "GetVReg (CreateShadowFrame 1 0) (unat (VRegA_31t 0x002B)) = Some 0"
    by (simp_all add: packed_code_def vreg_defs Fetch32_def Fetch16_def code_at_def GetVReg_def CreateShadowFrame_def InstAA_def)
  show ?thesis using packed_switch_correct [OF p i] by (simp add: packed_lookup_def in_int32_def)
qed

text \<open>
  C9.  \<open>sparse-switch\<close>: the binary search in the sorted keys finds the target that a lookup in the
  table of keys and targets finds, and gives 3, the size of the instruction, for a value that is no key.
\<close>

theorem sparse_switch_correct:
  assumes "sparse_payload p ks ts" "signed_increasing ks"
    and "VRegB_31t i = Some offset" "code_at acc (pos + sint offset) = p" "GetVReg f (unat (VRegA_31t d)) = Some v"
  shows "DoSparseSwitch acc pos i d f = Some (table_lookup ks ts v)"
  by (rule DoSparseSwitch_lookup [OF assms])

definition sparse_code :: CodeItemDataAccessor where
  "sparse_code = \<lparr>registers_size = 1, ins_size = 0, outs_size = 0,
     insns = [0x002C, 4, 0, 0x000E, 0x0200, 2, 0xFFFF, 0xFFFF, 0, 0, 9, 0, 7, 0], try_items = [], handler_data = []\<rparr>"

theorem sparse_switch_correct_witness:
  "DoSparseSwitch sparse_code 0 (insns sparse_code) 0x002C (CreateShadowFrame 1 0) = Some 7"
proof -
  let ?p = "[0x0200, 2, 0xFFFF, 0xFFFF, 0, 0, 9, 0, 7, 0] :: u16 list"
  have "SparseSwitch_GetKeys ?p 0 = Some (-1)" by code_simp
  then have p: "sparse_payload ?p [-1, 0] [9, 7]"
    by (simp add: sparse_payload_def less_Suc_eq SparseSwitch_GetKeys_def SparseSwitch_GetTargets_def SparseSwitch_case_count_def
        Fetch16_def Fetch32_def)
  have k: "signed_increasing [-1, 0]" by (simp add: signed_increasing_def)
  have i: "VRegB_31t (insns sparse_code) = Some 4" "code_at sparse_code (0 + sint (4 :: u32)) = ?p"
    "GetVReg (CreateShadowFrame 1 0) (unat (VRegA_31t 0x002C)) = Some 0"
    by (simp_all add: sparse_code_def vreg_defs Fetch32_def Fetch16_def code_at_def GetVReg_def CreateShadowFrame_def InstAA_def)
  show ?thesis using sparse_switch_correct [OF p k i] by (simp add: table_lookup_def)
qed

section \<open>Fields\<close>

definition field_norm :: "PrimitiveType \<Rightarrow> JValue \<Rightarrow> JValue" where
  "field_norm field_type v =
     (case field_type of
        kPrimBoolean \<Rightarrow> JValue_SetZ (JValue_GetZ v) | kPrimByte \<Rightarrow> JValue_SetB (JValue_GetB v)
      | kPrimChar \<Rightarrow> JValue_SetC (JValue_GetC v) | kPrimShort \<Rightarrow> JValue_SetS (JValue_GetS v)
      | kPrimInt \<Rightarrow> JValue_SetI (JValue_GetI v) | kPrimNot \<Rightarrow> JValue_SetL (JValue_GetL v) | _ \<Rightarrow> v)"

definition field_size :: "PrimitiveType \<Rightarrow> nat" where
  "field_size field_type =
     (case field_type of kPrimBoolean \<Rightarrow> 1 | kPrimByte \<Rightarrow> 1 | kPrimChar \<Rightarrow> 2 | kPrimShort \<Rightarrow> 2 | kPrimLong \<Rightarrow> 8 | _ \<Rightarrow> 4)"

lemma field_get_set_same:
  assumes "field_set t h obj offset v = Some m" shows "field_get t m obj offset = Some (field_norm t v)"
  using assms by (cases t) (auto simp: field_set_def field_get_def field_norm_def JValue_SetJ_def JValue_GetJ_def)

lemma field_get_set_other:
  assumes "field_set t h obj offset v = Some m" "p \<noteq> obj \<or> offset + field_size t \<le> j \<or> j + field_size u \<le> offset"
  shows "field_get u m p j = field_get u h p j"
proof -
  obtain w where "m = store_bytes h obj offset (field_size t) w"
    using assms(1) by (cases t) (auto simp: field_set_def field_size_def SetFieldBoolean_def SetFieldByte_def SetFieldChar_def
        SetFieldShort_def SetField32_def SetField64_def SetFieldObject_def simp del: store_bytes.simps One_nat_def)
  then have "load_bytes m p j (field_size u) = load_bytes h p j (field_size u)" using assms(2) load_store_other by blast
  then show ?thesis
    by (cases u) (simp_all add: field_get_def field_size_def GetFieldBoolean_def GetFieldByte_def GetFieldChar_def GetFieldShort_def
        GetField32_def GetField64_def GetFieldObject_def)
qed

text \<open>
  C22.  A field that was put and is got reads back as the value at the width of its type, and no field
  that does not overlap it changes, whatever types the two have.  No listener watches the write or the
  read: one may ask for the frame to be popped, and then the put answers true without writing.  The
  other fields are compared with those before the put where it resolves no type, which may run code.
\<close>

theorem field_roundtrip:
  assumes "DoFieldPutCommon rt t obj field v s = Some (True, u)"
    and "\<not> HasListeners rt FieldWriteListeners s" "\<not> HasListeners rt FieldReadListeners u"
  shows "DoFieldGetCommon rt t obj field u = Some (Some (field_norm t v), u) \<and>
    (SkipAccessChecks rt \<or> t \<noteq> kPrimNot \<or> JValue_GetL v = 0 \<longrightarrow>
      (\<forall>p k x. p \<noteq> obj \<or> Field_GetOffset rt field + field_size t \<le> Field_GetOffset rt k \<or>
           Field_GetOffset rt k + field_size x \<le> Field_GetOffset rt field \<longrightarrow>
         DoFieldGetCommon rt x p k u = map_option (\<lambda>y. (Some y, u)) (field_get x (heap s) p (Field_GetOffset rt k))))"
proof -
  let ?check = "t = kPrimNot \<and> JValue_GetL v \<noteq> 0 \<and> \<not> SkipAccessChecks rt"
  define w where "w = snd (if ?check then Field_ResolveType rt field s else (0, s))"
  obtain m where m: "field_set t (heap w) obj (Field_GetOffset rt field) v = Some m" "u = w\<lparr>heap := m\<rparr>"
    using assms(1,2) unfolding DoFieldPutCommon_def Let_def case_prod_beta w_def
    by (auto simp: bind_eq_Some_conv split: if_splits)
  have get: "DoFieldGetCommon rt x p k u = map_option (\<lambda>y. (Some y, u)) (field_get x m p (Field_GetOffset rt k))" for x p k
    using assms(3) m(2) by (simp add: DoFieldGetCommon_def Let_def map_conv_bind_option comp_def)
  have "w = s" if "SkipAccessChecks rt \<or> t \<noteq> kPrimNot \<or> JValue_GetL v = 0" using that by (auto simp: w_def)
  then show ?thesis unfolding get using field_get_set_same [OF m(1)] field_get_set_other [OF m(1)] by auto
qed

theorem field_roundtrip_witness:
  "\<exists>u. DoFieldPutCommon (quiet_runtime forward_code) kPrimByte 64 0 (JValue_SetB 0x85) array_state = Some (True, u) \<and>
    DoFieldGetCommon (quiet_runtime forward_code) kPrimByte 64 0 u = Some (Some 0xFFFFFFFFFFFFFF85, u)"
proof -
  obtain u where u: "DoFieldPutCommon (quiet_runtime forward_code) kPrimByte 64 0 (JValue_SetB 0x85) array_state = Some (True, u)"
    by (simp add: DoFieldPutCommon_def quiet_runtime_def field_set_def Let_def)
  have b: "JValue_SetB 0x85 = 0xFFFFFFFFFFFFFF85" by code_simp
  have "field_norm kPrimByte (JValue_SetB 0x85) = JValue_SetB 0x85" by (simp add: field_norm_def)
  then have "field_norm kPrimByte (JValue_SetB 0x85) = 0xFFFFFFFFFFFFFF85" unfolding b .
  then show ?thesis using field_roundtrip [OF u] u by (simp add: quiet_runtime_def)
qed

section \<open>Monitors\<close>

text \<open>The monitors counted for a frame.\<close>

definition held :: "'w interp \<Rightarrow> u32 list" where
  "held s = (case monitors (frame s) of None \<Rightarrow> [] | Some ms \<Rightarrow> ms)"

text \<open>What the two monitor operations promise, where \<open>owns\<close> tells which monitors the thread owns:
  entering a monitor makes the thread own it; leaving one raises \<open>IllegalMonitorStateException\<close> for a
  monitor that the thread does not own, and nothing for one that it owns.  Neither touches the frame.\<close>

definition monitors_ok :: "'w runtime \<Rightarrow> ('w \<Rightarrow> u32 \<Rightarrow> bool) \<Rightarrow> bool" where
  "monitors_ok rt owns \<longleftrightarrow>
     (\<forall>obj s. frame (MonitorEnter rt obj s) = frame s \<and> exception (MonitorEnter rt obj s) = exception s \<and>
        owns (world (MonitorEnter rt obj s)) obj \<and> frame (MonitorExit rt obj s) = frame s \<and>
        (if owns (world s) obj then exception (MonitorExit rt obj s) = exception s else IsExceptionPending (MonitorExit rt obj s)))"

text \<open>
  C26.  Lock counting.  Entering and leaving a monitor restores the multiset of counted monitors and
  raises nothing, also for a monitor that is held already.  Leaving a counted monitor takes it off the
  count and raises nothing if the thread owns it, an exception if not.  Leaving one that is not counted
  throws \<open>IllegalMonitorStateException\<close>.  The monitor operations keep their promise
  \<open>monitors_ok\<close>.
\<close>

theorem lock_counting:
  assumes "MustCountLocks rt" "monitors_ok rt owns" "obj \<noteq> 0" "exception s = 0"
  shows "held (DoMonitorEnter rt obj s) = held s @ [obj] \<and>
    mset (held (DoMonitorExit rt obj (DoMonitorEnter rt obj s))) = mset (held s) \<and>
    exception (DoMonitorExit rt obj (DoMonitorEnter rt obj s)) = 0 \<and>
    (obj \<in> set (held s) \<longrightarrow> held (DoMonitorExit rt obj s) = remove1 obj (held s) \<and>
       (exception (DoMonitorExit rt obj s) = 0 \<longleftrightarrow> owns (world s) obj)) \<and>
    (obj \<notin> set (held s) \<longrightarrow>
       DoMonitorExit rt obj s = Throw rt (IllegalMonitorStateException obj) (ClearException (MonitorExit rt obj s)))"
proof -
  let ?t = "DoMonitorEnter rt obj s"
  have m: "frame (MonitorEnter rt obj t) = frame t" "exception (MonitorEnter rt obj t) = exception t"
    "owns (world (MonitorEnter rt obj t)) obj" "frame (MonitorExit rt obj t) = frame t"
    "owns (world t) obj \<Longrightarrow> exception (MonitorExit rt obj t) = exception t"
    "\<not> owns (world t) obj \<Longrightarrow> exception (MonitorExit rt obj t) \<noteq> 0" for t
    using assms(2) by (auto simp: monitors_ok_def IsExceptionPending_def split: if_splits)
  have enter: "held ?t = held s @ [obj]" "exception ?t = 0" "owns (world ?t) obj"
    using assms(1,3,4) m by (auto simp: DoMonitorEnter_def Let_def AddMonitor_def IsExceptionPending_def held_def split: option.splits)
  have leave: "DoMonitorExit rt obj t = (if obj \<in> set (held t)
      then (MonitorExit rt obj t)\<lparr>frame := (frame t)\<lparr>monitors := Some (remove1 obj (held t))\<rparr>\<rparr>
      else Throw rt (IllegalMonitorStateException obj) (ClearException (MonitorExit rt obj t)))" for t
    using assms(1,3) m(4) by (auto simp: DoMonitorExit_def Let_def RemoveMonitorOrThrow_def held_def split: option.splits)
  have counted: "held (DoMonitorExit rt obj t) = remove1 obj (held t)" "exception (DoMonitorExit rt obj t) = exception (MonitorExit rt obj t)"
    if "obj \<in> set (held t)" for t
    using that unfolding leave by (simp_all add: held_def)
  have "held (DoMonitorExit rt obj ?t) = remove1 obj (held s @ [obj])" "exception (DoMonitorExit rt obj ?t) = 0"
    using counted [of ?t] enter m(5) [of ?t] by simp_all
  moreover have "exception (MonitorExit rt obj s) = 0 \<longleftrightarrow> owns (world s) obj" using m(5,6) [of s] assms(4) by auto
  ultimately show ?thesis using enter(1) leave [of s] counted [of s] by simp
qed

text \<open>A runtime whose \<open>world\<close> is the list of the monitors that the thread owns.\<close>

definition counting_runtime :: "u32 list runtime" where
  "counting_runtime = (quiet_runtime forward_code)\<lparr>MustCountLocks := True,
     MonitorEnter := (\<lambda>obj s. s\<lparr>world := obj # world s\<rparr>),
     MonitorExit := (\<lambda>obj s. if obj \<in> set (world s) then s\<lparr>world := remove1 obj (world s)\<rparr> else SetException 1 s)\<rparr>"

definition counting_state :: "u32 list interp" where
  "counting_state =
     \<lparr>frame = CreateShadowFrame 1 0, result_register = 0, ctx_result = 0, exception = 0, async_exception = 0,
      heap = (\<lambda>_ _. 0), next_inst = 0, exit_interpreter_loop = False, world = []\<rparr>"

lemma counting_runtime_ok: "MustCountLocks counting_runtime" "monitors_ok counting_runtime (\<lambda>w obj. obj \<in> set w)"
  by (simp_all add: counting_runtime_def monitors_ok_def SetException_def IsExceptionPending_def)

theorem lock_counting_witness:
  "held (DoMonitorEnter counting_runtime 64 counting_state) = [64] \<and>
   mset (held (DoMonitorExit counting_runtime 64 (DoMonitorEnter counting_runtime 64 counting_state))) = {#}"
proof -
  have "held counting_state = []" by (simp add: held_def counting_state_def CreateShadowFrame_def)
  then show ?thesis using lock_counting [OF counting_runtime_ok, of 64 counting_state] by (simp add: counting_state_def)
qed

text \<open>
  C40.  \<open>UnlockHeldMonitors\<close> has no defined result when it counts locks and a monitor is held: the visitor
  removes the monitor from the vector that \<open>VisitMonitors\<close> iterates over, which invalidates the iterator
  before it is advanced.
\<close>

theorem unlock_held_undefined:
  assumes "MustCountLocks rt" "\<And>t. frame (MonitorExit rt obj t) = frame t" "monitors (frame s) = Some (obj # ms)" "obj \<noteq> 0"
  shows "UnlockHeldMonitors rt s = None"
proof -
  have "monitors (frame (DoMonitorExit rt obj s)) = Some ms"
    using assms by (simp add: DoMonitorExit_def Let_def RemoveMonitorOrThrow_def)
  then show ?thesis using assms(1,3) by (simp add: UnlockHeldMonitors_def unlock_visited.simps Let_def)
qed

theorem unlock_held_undefined_witness:
  "UnlockHeldMonitors counting_runtime (DoMonitorEnter counting_runtime 64 counting_state) = None"
  by (rule unlock_held_undefined [OF counting_runtime_ok(1), of 64 _ "[]"])
    (simp_all add: DoMonitorEnter_def counting_runtime_def SetException_def AddMonitor_def IsExceptionPending_def counting_state_def
      CreateShadowFrame_def)

section \<open>Leaving a method\<close>

text \<open>
  C27.  The do-while loop that reports the exit of a method ends, when the listeners of the exit ask
  only finitely often for the frame to be popped; then no such request is left, the frame is kept, and
  the answer is whether the method may return: an exception is pending if it may not.
\<close>

theorem exit_events_end:
  assumes "callouts_keep rt" "listeners_settle rt"
  shows "\<exists>ok v u. SendMethodExitEvents rt result s = Some (ok, v, u) \<and> \<not> GetForcePopFrame (frame u) \<and>
    (\<not> ok \<longrightarrow> IsExceptionPending u) \<and> number_of_vregs (frame u) = number_of_vregs (frame s) \<and>
    GetDexPC (frame u) = GetDexPC (frame s) \<and> (frame_wf (frame s) \<longrightarrow> frame_wf (frame u))"
proof -
  obtain y where y: "exit_events_loop rt (False, result, s) = Some y" "kept s (snd (snd y))" "\<not> GetForcePopFrame (frame (snd (snd y)))"
    using exit_events_loop_ok [OF assms, of "(False, result, s)"] by auto
  then show ?thesis by (cases y) (auto simp: SendMethodExitEvents_def kept_def GetDexPC_def)
qed

text \<open>A runtime whose \<open>world\<close> is the number of times its exit listener will still ask for a pop.\<close>

definition popping_runtime :: "nat runtime" where
  "popping_runtime = (quiet_runtime forward_code)\<lparr>HasListeners := (\<lambda>l _. l = MethodExitListeners),
     MethodExitEvent := (\<lambda>v s. (v, if 0 < world s then s\<lparr>frame := SetForcePopFrame (frame s) True, world := world s - 1\<rparr> else s))\<rparr>"

definition popping_state :: "nat interp" where
  "popping_state =
     \<lparr>frame = CreateShadowFrame 1 0, result_register = 0, ctx_result = 0, exception = 0, async_exception = 0,
      heap = (\<lambda>_ _. 0), next_inst = 0, exit_interpreter_loop = False, world = 2\<rparr>"

lemma popping_runtime_ok: "callouts_keep popping_runtime" "listeners_settle popping_runtime"
proof -
  show "callouts_keep popping_runtime"
    by (simp add: callouts_keep_def popping_runtime_def quiet_runtime_def kept_def SetException_def SetForcePopFrame_def)
  show "listeners_settle popping_runtime"
    unfolding listeners_settle_def
    by (rule exI [of _ id]) (auto simp: pop_requested_def popping_runtime_def quiet_runtime_def)
qed

theorem exit_events_end_witness:
  "\<exists>ok v u. SendMethodExitEvents popping_runtime 0 popping_state = Some (ok, v, u) \<and> \<not> GetForcePopFrame (frame u)"
  using exit_events_end [OF popping_runtime_ok, of 0 popping_state] by blast

end
