(* ===== verification/FloatProps.thy ===== *)
theory FloatProps
  imports Complex_Main InterpreterLoop
begin

text \<open>
  The floating-point operations of the interpreter against the real numbers their operands stand
  for: comparison, and the saturating conversions to integers.
\<close>

section \<open>Floating point\<close>

text \<open>The real number a finite value stands for, and its integer part.\<close>

fun fp_real :: "fp \<Rightarrow> real" where
  "fp_real (Fin s m e) = real_of_int (fp_signed s m) * 2 powi e"
| "fp_real w = 0"

definition integer_part :: "real \<Rightarrow> int" where
  "integer_part r = (if 0 \<le> r then \<lfloor>r\<rfloor> else \<lceil>r\<rceil>)"

lemma scale_real:
  "min e f = x \<Longrightarrow> real_of_int (fp_signed s (m * 2 ^ nat (e - x))) * 2 powi x = fp_real (Fin s m e)"
proof -
  assume x: "min e f = x"
  then have "0 \<le> e - x" by linarith
  then have "(2 :: real) ^ nat (e - x) * 2 powi x = 2 powi (e - x + x)" by (subst power_int_add) (simp_all add: power_int_def)
  then show ?thesis by (simp add: fp_signed_def mult.assoc)
qed

lemma fp_compare_real:
  "fp_less (Fin s m e) (Fin t n f) \<longleftrightarrow> fp_real (Fin s m e) < fp_real (Fin t n f)"
  "fp_equal (Fin s m e) (Fin t n f) \<longleftrightarrow> fp_real (Fin s m e) = fp_real (Fin t n f)"
proof -
  define x where "x = min e f"
  have "0 < (2 :: real) powi x" by simp
  moreover note a = scale_real [OF x_def [symmetric], of s m] and b = scale_real [of f e x t n]
  moreover have "min f e = x" by (simp add: x_def min.commute)
  ultimately show "fp_less (Fin s m e) (Fin t n f) \<longleftrightarrow> fp_real (Fin s m e) < fp_real (Fin t n f)"
    "fp_equal (Fin s m e) (Fin t n f) \<longleftrightarrow> fp_real (Fin s m e) = fp_real (Fin t n f)"
    by (simp_all add: x_def [symmetric] Let_def a [symmetric] b [symmetric] del: fp_real.simps)
qed

lemma fp_trunc_real:
  assumes "0 \<le> m" shows "fp_trunc (Fin s m e) = integer_part (fp_real (Fin s m e))"
proof -
  have "(if 0 \<le> e then m * 2 ^ nat e else m div 2 ^ nat (- e)) = \<lfloor>real_of_int m * 2 powi e\<rfloor>"
  proof (cases "0 \<le> e")
    case True
    then have "real_of_int m * 2 powi e = real_of_int (m * 2 ^ nat e)" by (simp add: power_int_def)
    then show ?thesis using True by (simp del: of_int_mult of_int_power)
  next
    case False
    then have "real_of_int m * 2 powi e = real_of_int m / real_of_int (2 ^ nat (- e))" by (simp add: power_int_def field_simps)
    then show ?thesis using False by (simp add: floor_divide_of_int_eq del: of_int_power)
  qed
  moreover have "0 \<le> real_of_int m * 2 powi e" using assms by simp
  ultimately show ?thesis by (auto simp: integer_part_def fp_signed_def ceiling_minus le_less)
qed

fun saturate :: "int \<Rightarrow> int \<Rightarrow> fp \<Rightarrow> int" where
  "saturate lo hi NaN = 0"
| "saturate lo hi (Inf s) = (if s then lo else hi)"
| "saturate lo hi (Fin s m e) = max lo (min hi (integer_part (fp_real (Fin s m e))))"

lemma integer_part_bounds:
  "real_of_int k < r \<Longrightarrow> k \<le> 0 \<Longrightarrow> k \<le> integer_part r" "r \<le> real_of_int k \<Longrightarrow> k \<le> 0 \<Longrightarrow> integer_part r \<le> k"
  "r < real_of_int k + 1 \<Longrightarrow> 0 \<le> k \<Longrightarrow> integer_part r \<le> k" "real_of_int k \<le> r \<Longrightarrow> 0 \<le> k \<Longrightarrow> k \<le> integer_part r"
  by (auto simp: integer_part_def) linarith+

lemma art_float_to_integral_saturates:
  assumes lo: "as_float lo = Fin True ml el" "fp_real (as_float lo) = real_of_int lo" "lo \<le> 0"
    and hi: "as_float hi = Fin False mh eh" "real_of_int hi \<le> fp_real (as_float hi)" "fp_real (as_float hi) \<le> real_of_int hi + 1" "0 \<le> hi"
    and v: "\<And>s m e. v = Fin s m e \<Longrightarrow> 0 \<le> m"
  shows "art_float_to_integral as_float lo hi v = saturate lo hi v"
proof (cases v)
  case (Fin s m e)
  let ?r = "fp_real (Fin s m e)"
  note cmp = fp_compare_real [of True ml el s m e, folded lo(1), unfolded lo(2)] fp_compare_real [of s m e False mh eh, folded hi(1)]
  have t: "fp_trunc v = integer_part ?r" using fp_trunc_real v Fin by blast
  consider "?r \<le> real_of_int lo" | "real_of_int lo < ?r" "?r < fp_real (as_float hi)" | "fp_real (as_float hi) \<le> ?r" "real_of_int lo < ?r"
    by linarith
  then show ?thesis
  proof cases
    case 1
    then have "integer_part ?r \<le> lo" using integer_part_bounds(2) lo(3) by blast
    moreover have "fp_equal v v" using Fin by simp
    ultimately show ?thesis using 1 Fin cmp lo(3) hi(4) by (simp add: art_float_to_integral_def del: fp_real.simps fp_less.simps fp_equal.simps)
  next
    case 2
    have "integer_part ?r \<le> hi" using integer_part_bounds(3) [of ?r hi] 2(2) hi(3,4) by linarith
    moreover have "lo \<le> integer_part ?r" by (rule integer_part_bounds(1) [OF 2(1) lo(3)])
    ultimately show ?thesis using 2 Fin cmp t by (simp add: art_float_to_integral_def del: fp_real.simps fp_less.simps fp_trunc.simps)
  next
    case 3
    have "hi \<le> integer_part ?r" using integer_part_bounds(4) [of hi ?r] 3(1) hi(2,4) by linarith
    then show ?thesis using 3 Fin cmp lo(3) hi(4) by (simp add: art_float_to_integral_def del: fp_real.simps fp_less.simps)
  qed
qed (use lo(1) hi(1) in \<open>auto simp: art_float_to_integral_def\<close>)

lemma decode_magnitude: "fp_decode E F b = Fin s m e \<Longrightarrow> 0 \<le> m"
  by (auto simp: fp_decode_def Let_def split: if_splits)

lemma bounds_as_float:
  "float_val (int_to_float (- (2 ^ 31))) = Fin True 8388608 8" "float_val (int_to_float (2 ^ 31 - 1)) = Fin False 8388608 8"
  "float_val (int_to_float (- (2 ^ 63))) = Fin True 8388608 40" "float_val (int_to_float (2 ^ 63 - 1)) = Fin False 8388608 40"
  "double_val (int_to_double (- (2 ^ 31))) = Fin True 4503599627370496 (- 21)" "double_val (int_to_double (2 ^ 31 - 1)) = Fin False 9007199250546688 (-22)"
  "double_val (int_to_double (- (2 ^ 63))) = Fin True 4503599627370496 11" "double_val (int_to_double (2 ^ 63 - 1)) = Fin False 4503599627370496 11"
  by code_simp+

lemma saturate_bounds: "lo \<le> 0 \<Longrightarrow> 0 \<le> hi \<Longrightarrow> lo \<le> saturate lo hi v \<and> saturate lo hi v \<le> hi"
  by (cases v) (auto simp: max_def min_def)

lemma sint_saturated:
  assumes "lo = - (2 ^ (LENGTH('a) - 1))" "hi = 2 ^ (LENGTH('a) - 1) - 1"
  shows "sint (word_of_int (saturate lo hi v) :: 'a::len word) = saturate lo hi v"
proof -
  have "0 \<le> hi" "lo \<le> 0" using assms by simp_all
  then have "lo \<le> saturate lo hi v" "saturate lo hi v \<le> hi" using saturate_bounds by blast+
  then show ?thesis using assms by (simp add: signed_of_int signed_take_bit_int_eq_self)
qed

text \<open>
  C24.  The conversions of \<open>float\<close> and \<open>double\<close> to \<open>int\<close> and \<open>long\<close> give the integer part of the value
  where it fits, the nearest bound of the integer type where it does not, and 0 for NaN, although the
  greatest \<open>int\<close> and the greatest \<open>long\<close> are not values of \<open>float\<close>, nor the greatest \<open>long\<close> of \<open>double\<close>.
\<close>

theorem conversions_saturate:
  "sint (float_to_int32 a) = saturate (- (2 ^ 31)) (2 ^ 31 - 1) (float_val a) \<and>
   sint (float_to_int64 a) = saturate (- (2 ^ 63)) (2 ^ 63 - 1) (float_val a) \<and>
   sint (double_to_int32 b) = saturate (- (2 ^ 31)) (2 ^ 31 - 1) (double_val b) \<and>
   sint (double_to_int64 b) = saturate (- (2 ^ 63)) (2 ^ 63 - 1) (double_val b)"
proof -
  have a: "\<And>s m e. float_val a = Fin s m e \<Longrightarrow> 0 \<le> m" and b: "\<And>s m e. double_val b = Fin s m e \<Longrightarrow> 0 \<le> m"
    by (auto simp: float_val_def double_val_def dest: decode_magnitude)
  have "float_to_int32 a = word_of_int (saturate (- (2 ^ 31)) (2 ^ 31 - 1) (float_val a))"
    unfolding float_to_int32_def
    by (subst art_float_to_integral_saturates [OF bounds_as_float(1) _ _ bounds_as_float(2)])
      (simp_all add: bounds_as_float [simplified] a fp_signed_def)
  moreover have "float_to_int64 a = word_of_int (saturate (- (2 ^ 63)) (2 ^ 63 - 1) (float_val a))"
    unfolding float_to_int64_def
    by (subst art_float_to_integral_saturates [OF bounds_as_float(3) _ _ bounds_as_float(4)])
      (simp_all add: bounds_as_float [simplified] a fp_signed_def)
  moreover have "double_to_int32 b = word_of_int (saturate (- (2 ^ 31)) (2 ^ 31 - 1) (double_val b))"
    unfolding double_to_int32_def
    by (subst art_float_to_integral_saturates [OF bounds_as_float(5) _ _ bounds_as_float(6)])
      (simp_all add: bounds_as_float [simplified] b fp_signed_def power_int_def power_divide)
  moreover have "double_to_int64 b = word_of_int (saturate (- (2 ^ 63)) (2 ^ 63 - 1) (double_val b))"
    unfolding double_to_int64_def
    by (subst art_float_to_integral_saturates [OF bounds_as_float(7) _ _ bounds_as_float(8)])
      (simp_all add: bounds_as_float [simplified] b fp_signed_def)
  ultimately show ?thesis by (simp add: sint_saturated del: saturate.simps)
qed

section \<open>Comparison\<close>

lemma fp_trichotomy:
  assumes "v \<noteq> NaN" "w \<noteq> NaN"
  shows "fp_less w v \<longleftrightarrow> \<not> fp_less v w \<and> \<not> fp_equal v w"
proof (cases v)
  case (Fin s m e)
  then show ?thesis using assms by (cases w) (auto simp: fp_compare_real simp del: fp_real.simps fp_less.simps(1) fp_equal.simps(1))
qed (use assms in \<open>cases w; auto\<close>)+

lemma fp_equal_commute: "fp_equal v w = fp_equal w v"
  by (cases v; cases w) (auto simp: Let_def min.commute)

text \<open>
  C25.  The comparisons of \<open>float\<close> and \<open>double\<close>: the \<open>cmpl\<close> and \<open>cmpg\<close> instructions write the same
  answer, -1, 0 or 1 by the order of the two real numbers, and differ only where an operand is NaN:
  there \<open>cmpl\<close> writes -1 and \<open>cmpg\<close> 1.
\<close>

theorem comparisons_correct:
  "(v = NaN \<or> w = NaN \<longrightarrow>
      HandleCmpl fp_less fp_equal v w rt h s = SetVReg_A h (- 1) s \<and> HandleCmpg fp_less fp_equal v w rt h s = SetVReg_A h 1 s) \<and>
   (v \<noteq> NaN \<and> w \<noteq> NaN \<longrightarrow> HandleCmpl fp_less fp_equal v w rt h s = HandleCmpg fp_less fp_equal v w rt h s) \<and>
   (\<forall>a m e b n f. v = Fin a m e \<longrightarrow> w = Fin b n f \<longrightarrow>
      HandleCmpl fp_less fp_equal v w rt h s =
        SetVReg_A h (if fp_real v < fp_real w then - 1 else if fp_real v = fp_real w then 0 else 1) s)"
proof (intro conjI impI allI)
  assume "v = NaN \<or> w = NaN"
  then show "HandleCmpl fp_less fp_equal v w rt h s = SetVReg_A h (- 1) s" "HandleCmpg fp_less fp_equal v w rt h s = SetVReg_A h 1 s"
    by (cases v; cases w; auto simp: HandleCmpl_def HandleCmpg_def)+
next
  assume "v \<noteq> NaN \<and> w \<noteq> NaN"
  then show "HandleCmpl fp_less fp_equal v w rt h s = HandleCmpg fp_less fp_equal v w rt h s"
    using fp_trichotomy [of v w] fp_trichotomy [of w v] fp_equal_commute [of v w] by (auto simp: HandleCmpl_def HandleCmpg_def)
next
  fix a m e b n f assume "v = Fin a m e" "w = Fin b n f"
  then show "HandleCmpl fp_less fp_equal v w rt h s =
      SetVReg_A h (if fp_real v < fp_real w then - 1 else if fp_real v = fp_real w then 0 else 1) s"
    using fp_compare_real [of b n f a m e] fp_compare_real [of a m e b n f] by (auto simp: HandleCmpl_def simp del: fp_real.simps fp_less.simps fp_equal.simps)
qed

theorem comparisons_correct_witness:
  "\<forall>(rt :: unit runtime) h s. HandleCmpl fp_less fp_equal (float_val 0x7FC00000) (float_val 0x3F800000) rt h s = SetVReg_A h (- 1) s"
proof (intro allI)
  fix rt :: "unit runtime" and h s
  have "float_val 0x7FC00000 = NaN" by code_simp
  then show "HandleCmpl fp_less fp_equal (float_val 0x7FC00000) (float_val 0x3F800000) rt h s = SetVReg_A h (- 1) s"
    using comparisons_correct [of "float_val 0x7FC00000" "float_val 0x3F800000" rt h s] by simp
qed

end
