(* ===== verification/Utf.thy ===== *)
theory Utf
  imports Prelude "HOL-Library.List_Lexorder"
begin

text \<open>
  \<open>libdexfile/dex/utf.h\<close>, \<open>utf-inl.h\<close> and \<open>utf.cc\<close>: the modified UTF-8 of dex files and of the
  runtime's strings.  A C string is the list of its bytes, the terminating zero included, and a
  pointer into it is the list of the bytes from there on; a read behind the list is \<open>None\<close>.  The
  functions that write return what they write.  Sizes (\<open>size_t\<close>) count elements of buffers in
  memory and are natural numbers.  Shown here: the conversions are inverse to each other and the
  two counting functions size their buffers, the comparisons order strings by their UTF-16 code
  units, and the hash of a string does not depend on its representation.
\<close>

section \<open>Reading modified UTF-8\<close>

definition GetTrailingUtf16Char :: "u32 \<Rightarrow> u16" where
  "GetTrailingUtf16Char maybe_pair = ucast (drop_bit 16 maybe_pair)"

definition GetLeadingUtf16Char :: "u32 \<Rightarrow> u16" where
  "GetLeadingUtf16Char maybe_pair = ucast (maybe_pair AND 0x0000FFFF)"

text \<open>The reading of one byte through a pointer, \<open>*p\<close>, and the reading that advances it, \<open>*p++\<close>.\<close>

primrec deref :: "u8 list \<Rightarrow> u8 option" where
  "deref [] = None"
| "deref (b # p) = Some b"

primrec deref_inc :: "u8 list \<Rightarrow> (u8 \<times> u8 list) option" where
  "deref_inc [] = None"
| "deref_inc (b # p) = Some (b, p)"

definition GetUtf16FromUtf8 :: "u8 list \<Rightarrow> (u32 \<times> u8 list) option" where
  "GetUtf16FromUtf8 utf8_data =
     do { (one, utf8_data) \<leftarrow> deref_inc utf8_data;
          if one AND 0x80 = 0 then Some (ucast one, utf8_data)
          else do { (two, utf8_data) \<leftarrow> deref_inc utf8_data;
          if one AND 0x20 = 0
          then Some (push_bit 6 (ucast (one AND 0x1f)) OR ucast (two AND 0x3f), utf8_data)
          else do { (three, utf8_data) \<leftarrow> deref_inc utf8_data;
          if one AND 0x10 = 0
          then Some (push_bit 12 (ucast (one AND 0x0f)) OR push_bit 6 (ucast (two AND 0x3f))
                       OR ucast (three AND 0x3f), utf8_data)
          else do { (four, utf8_data) \<leftarrow> deref_inc utf8_data;
                    let code_point = (push_bit 18 (ucast (one AND 0x0f)) OR push_bit 12 (ucast (two AND 0x3f))
                                        OR push_bit 6 (ucast (three AND 0x3f)) OR ucast (four AND 0x3f) :: u32);
                    let surrogate_pair = (drop_bit 10 code_point + 0xd7c0) AND 0xffff;
                    let surrogate_pair = surrogate_pair OR push_bit 16 ((code_point AND 0x03ff) + 0xdc00);
                    Some (surrogate_pair, utf8_data) } } } }"

text \<open>Every character read takes at least a byte, so the loops over a string come to an end.\<close>

lemma deref_inc_Some: "deref_inc p = Some (b, q) \<longleftrightarrow> p = b # q"
  by (cases p) auto

lemma GetUtf16FromUtf8_shorter: "GetUtf16FromUtf8 p = Some (c, q) \<Longrightarrow> length q < length p"
  by (auto simp: GetUtf16FromUtf8_def Let_def bind_eq_Some_conv deref_inc_Some split: if_splits)

primrec strlen :: "u8 list \<Rightarrow> nat option" where
  "strlen [] = None"
| "strlen (b # p) = (if b = 0 then Some 0 else map_option Suc (strlen p))"

text \<open>
  \<open>CountModifiedUtf8Chars\<close>: the number of UTF-16 units of the characters that begin in the first
  \<open>byte_count\<close> bytes.  The last character may end behind them, so the distance to the end stops
  at zero.
\<close>

function CountModifiedUtf8CharsLoop :: "u8 list \<Rightarrow> nat \<Rightarrow> nat \<Rightarrow> nat option" where
  "CountModifiedUtf8CharsLoop utf8 byte_count len =
     (if 0 < byte_count then
        do { ic \<leftarrow> deref utf8;
             let len = len + 1;
             if ic AND 0x80 = 0 then CountModifiedUtf8CharsLoop (drop 1 utf8) (byte_count - 1) len
             else if ic AND 0x20 = 0 then CountModifiedUtf8CharsLoop (drop 2 utf8) (byte_count - 2) len
             else if ic AND 0x10 = 0 then CountModifiedUtf8CharsLoop (drop 3 utf8) (byte_count - 3) len
             else CountModifiedUtf8CharsLoop (drop 4 utf8) (byte_count - 4) (len + 1) }
      else Some len)"
  by pat_completeness auto
termination by (relation "measure (\<lambda>(utf8, byte_count, len). byte_count)") auto

declare CountModifiedUtf8CharsLoop.simps [simp del]

definition CountModifiedUtf8Chars_sized :: "u8 list \<Rightarrow> nat \<Rightarrow> nat option" where
  "CountModifiedUtf8Chars_sized utf8 byte_count = CountModifiedUtf8CharsLoop utf8 byte_count 0"

definition CountModifiedUtf8Chars :: "u8 list \<Rightarrow> nat option" where
  "CountModifiedUtf8Chars utf8 =
     do { byte_count \<leftarrow> strlen utf8; CountModifiedUtf8Chars_sized utf8 byte_count }"

section \<open>Conversions\<close>

text \<open>The units that a character read from modified UTF-8 stands for.\<close>

definition store_units :: "u32 \<Rightarrow> u16 list" where
  "store_units ch =
     (let leading = GetLeadingUtf16Char ch; trailing = GetTrailingUtf16Char ch
      in leading # (if trailing \<noteq> 0 then [trailing] else []))"

function ConvertModifiedUtf8ToUtf16 :: "u8 list \<Rightarrow> u16 list option" where
  "ConvertModifiedUtf8ToUtf16 utf8_data =
     do { b \<leftarrow> deref utf8_data;
          if b \<noteq> 0 then
            do { (ch, utf8_data) \<leftarrow> GetUtf16FromUtf8 utf8_data;
                 out \<leftarrow> ConvertModifiedUtf8ToUtf16 utf8_data;
                 Some (store_units ch @ out) }
          else Some [] }"
  by pat_completeness auto
termination by (relation "measure length") (auto dest: GetUtf16FromUtf8_shorter)

declare ConvertModifiedUtf8ToUtf16.simps [simp del]

text \<open>
  The version with sizes copies the bytes when there are as many units as bytes.  The copy is a
  checked cast from \<open>char\<close>, which is signed here: it fails on a byte with the high bit.
\<close>

primrec copy_ascii :: "u8 list \<Rightarrow> nat \<Rightarrow> u16 list option" where
  "copy_ascii p 0 = Some []"
| "copy_ascii p (Suc n) =
     do { (c, p) \<leftarrow> deref_inc p;
          if c < 0x80 then do { out \<leftarrow> copy_ascii p n; Some (ucast c # out) } else None }"

function ConvertModifiedUtf8ToUtf16Loop :: "u8 list \<Rightarrow> nat \<Rightarrow> u16 list option" where
  "ConvertModifiedUtf8ToUtf16Loop p in_bytes =
     (if 0 < in_bytes then
        do { (ch, p') \<leftarrow> GetUtf16FromUtf8 p;
             out \<leftarrow> ConvertModifiedUtf8ToUtf16Loop p' (in_bytes - (length p - length p'));
             Some (store_units ch @ out) }
      else Some [])"
  by pat_completeness auto
termination
  by (relation "measure (\<lambda>(p, in_bytes). length p)") (auto dest: GetUtf16FromUtf8_shorter)

declare ConvertModifiedUtf8ToUtf16Loop.simps [simp del]

definition ConvertModifiedUtf8ToUtf16_sized :: "nat \<Rightarrow> u8 list \<Rightarrow> nat \<Rightarrow> u16 list option" where
  "ConvertModifiedUtf8ToUtf16_sized out_chars utf8_data_in in_bytes =
     (if out_chars = in_bytes then copy_ascii utf8_data_in in_bytes
      else ConvertModifiedUtf8ToUtf16Loop utf8_data_in in_bytes)"

text \<open>The local helpers of \<open>ConvertUtf16ToUtf8\<close>.\<close>

definition is_lead :: "u16 \<Rightarrow> bool" where
  "is_lead ch = (ch AND 0xfc00 = 0xd800)"

definition is_trail :: "u16 \<Rightarrow> bool" where
  "is_trail ch = (ch AND 0xfc00 = 0xdc00)"

definition is_surrogate :: "u16 \<Rightarrow> bool" where
  "is_surrogate ch = (ch AND 0xf800 = 0xd800)"

definition is_surrogate_lead :: "u16 \<Rightarrow> bool" where
  "is_surrogate_lead ch = (ch AND 0x0400 = 0)"

definition get_supplementary :: "u16 \<Rightarrow> u16 \<Rightarrow> u32" where
  "get_supplementary lead trail =
     (let offset = push_bit 10 0xd800 + 0xdc00 - 0x10000
      in push_bit 10 (ucast lead) + ucast trail - offset)"

definition has_trail :: "u16 list \<Rightarrow> bool" where
  "has_trail rest = (rest \<noteq> [] \<and> is_trail (hd rest))"

text \<open>The template arguments are \<open>kUseShortZero\<close>, \<open>kUse4ByteSequence\<close> and \<open>kReplaceBadSurrogates\<close>.\<close>

fun ConvertUtf16ToUtf8 :: "bool \<Rightarrow> bool \<Rightarrow> bool \<Rightarrow> u16 list \<Rightarrow> u8 list" where
  "ConvertUtf16ToUtf8 short_zero use4 replace [] = []"
| "ConvertUtf16ToUtf8 short_zero use4 replace (ch # rest) =
     (if ch < 0x80 \<and> (short_zero \<or> ch \<noteq> 0) then
        ucast ch # ConvertUtf16ToUtf8 short_zero use4 replace rest
      else if ch < 0x800 then
        ucast (drop_bit 6 ch OR 0xc0) # ucast ((ch AND 0x3f) OR 0x80)
        # ConvertUtf16ToUtf8 short_zero use4 replace rest
      else if (if replace then is_surrogate ch else use4 \<and> is_lead ch \<and> has_trail rest) then
        (if replace \<and> (\<not> is_surrogate_lead ch \<or> \<not> has_trail rest) then
           0x3f # ConvertUtf16ToUtf8 short_zero use4 replace rest
         else let code_point = get_supplementary ch (hd rest) in
           ucast (drop_bit 18 code_point OR 0xf0)
           # ucast ((drop_bit 12 code_point AND 0x3f) OR 0x80)
           # ucast ((drop_bit 6 code_point AND 0x3f) OR 0x80)
           # ucast ((code_point AND 0x3f) OR 0x80)
           # ConvertUtf16ToUtf8 short_zero use4 replace (tl rest))
      else
        ucast (drop_bit 12 ch OR 0xe0) # ucast ((drop_bit 6 ch AND 0x3f) OR 0x80)
        # ucast ((ch AND 0x3f) OR 0x80) # ConvertUtf16ToUtf8 short_zero use4 replace rest)"

declare ConvertUtf16ToUtf8.simps(2) [simp del]

definition CountModifiedUtf8BytesInUtf16 :: "u16 list \<Rightarrow> nat" where
  "CountModifiedUtf8BytesInUtf16 chars = length (ConvertUtf16ToUtf8 False True False chars)"

primrec narrow_ascii :: "u16 list \<Rightarrow> u8 list option" where
  "narrow_ascii [] = Some []"
| "narrow_ascii (ch # chars) =
     (if ch < 0x80 then do { out \<leftarrow> narrow_ascii chars; Some (ucast ch # out) } else None)"

definition ConvertUtf16ToModifiedUtf8 :: "nat \<Rightarrow> u16 list \<Rightarrow> u8 list option" where
  "ConvertUtf16ToModifiedUtf8 byte_count utf16_in =
     (if byte_count = length utf16_in then narrow_ascii utf16_in
      else Some (ConvertUtf16ToUtf8 False True False utf16_in))"

section \<open>Comparisons\<close>

function CompareModifiedUtf8ToModifiedUtf8AsUtf16CodePointValues :: "u8 list \<Rightarrow> u8 list \<Rightarrow> u32 option" where
  "CompareModifiedUtf8ToModifiedUtf8AsUtf16CodePointValues utf8_1 utf8_2 =
     do { c1 \<leftarrow> deref utf8_1;
          c2 \<leftarrow> deref utf8_2;
          if c1 = 0 then Some (if c2 = 0 then 0 else - 1)
          else if c2 = 0 then Some 1
          else do {
            (c1, utf8_1) \<leftarrow> GetUtf16FromUtf8 utf8_1;
            (c2, utf8_2) \<leftarrow> GetUtf16FromUtf8 utf8_2;
            if c1 = c2 then CompareModifiedUtf8ToModifiedUtf8AsUtf16CodePointValues utf8_1 utf8_2
            else let leading_surrogate_diff = ucast (GetLeadingUtf16Char c1) - ucast (GetLeadingUtf16Char c2)
                 in if leading_surrogate_diff \<noteq> 0 then Some leading_surrogate_diff
                    else Some (ucast (GetTrailingUtf16Char c1) - ucast (GetTrailingUtf16Char c2)) } }"
  by pat_completeness auto
termination
  by (relation "measure (\<lambda>(utf8_1, utf8_2). length utf8_1)") (auto dest: GetUtf16FromUtf8_shorter)

declare CompareModifiedUtf8ToModifiedUtf8AsUtf16CodePointValues.simps [simp del]

function CompareModifiedUtf8ToUtf16AsCodePointValues :: "u8 list \<Rightarrow> u16 list \<Rightarrow> u32 option" where
  "CompareModifiedUtf8ToUtf16AsCodePointValues utf8 utf16 =
     do { b \<leftarrow> deref utf8;
          if b = 0 then Some (if utf16 = [] then 0 else - 1)
          else case utf16 of
            [] \<Rightarrow> Some 1
          | rhs # utf16 \<Rightarrow>
              do { (pair, utf8) \<leftarrow> GetUtf16FromUtf8 utf8;
                   let lhs = GetLeadingUtf16Char pair;
                   if lhs \<noteq> rhs then Some (if rhs < lhs then 1 else - 1)
                   else let lhs2 = GetTrailingUtf16Char pair in
                     if lhs2 \<noteq> 0 then
                       (case utf16 of
                          [] \<Rightarrow> Some 1
                        | rhs2 # utf16 \<Rightarrow>
                            if lhs2 \<noteq> rhs2 then Some (if rhs2 < lhs2 then 1 else - 1)
                            else CompareModifiedUtf8ToUtf16AsCodePointValues utf8 utf16)
                     else CompareModifiedUtf8ToUtf16AsCodePointValues utf8 utf16 } }"
  by pat_completeness auto
termination
  by (relation "measure (\<lambda>(utf8, utf16). length utf16)") auto

declare CompareModifiedUtf8ToUtf16AsCodePointValues.simps [simp del]

section \<open>Hashes\<close>

definition ComputeUtf16Hash :: "u16 list \<Rightarrow> u32" where
  "ComputeUtf16Hash chars = foldl (\<lambda>hash c. hash * 31 + ucast c) 0 chars"

function ComputeUtf16HashLoop :: "u8 list \<Rightarrow> nat \<Rightarrow> u32 \<Rightarrow> u32 option" where
  "ComputeUtf16HashLoop utf8 utf16_length hash =
     (if utf16_length \<noteq> 0 then
        do { (pair, utf8) \<leftarrow> GetUtf16FromUtf8 utf8;
             let first = GetLeadingUtf16Char pair;
             let hash = hash * 31 + ucast first;
             let utf16_length = utf16_length - 1;
             let second = GetTrailingUtf16Char pair;
             if second \<noteq> 0 then
               (if utf16_length \<noteq> 0
                then ComputeUtf16HashLoop utf8 (utf16_length - 1) (hash * 31 + ucast second)
                else None)
             else ComputeUtf16HashLoop utf8 utf16_length hash }
      else Some hash)"
  by pat_completeness auto
termination by (relation "measure (\<lambda>(utf8, utf16_length, hash). utf16_length)") auto

declare ComputeUtf16HashLoop.simps [simp del]

definition ComputeUtf16HashFromModifiedUtf8 :: "u8 list \<Rightarrow> nat \<Rightarrow> u32 option" where
  "ComputeUtf16HashFromModifiedUtf8 utf8 utf16_length = ComputeUtf16HashLoop utf8 utf16_length 0"

definition StartModifiedUtf8Hash :: u32 where
  "StartModifiedUtf8Hash = 0"

definition UpdateModifiedUtf8Hash :: "u32 \<Rightarrow> u8 \<Rightarrow> u32" where
  "UpdateModifiedUtf8Hash hash c = hash * 31 + ucast c"

definition UpdateModifiedUtf8Hash_view :: "u32 \<Rightarrow> u8 list \<Rightarrow> u32" where
  "UpdateModifiedUtf8Hash_view hash chars = foldl UpdateModifiedUtf8Hash hash chars"

primrec ComputeModifiedUtf8HashLoop :: "u8 list \<Rightarrow> u32 \<Rightarrow> u32 option" where
  "ComputeModifiedUtf8HashLoop [] hash = None"
| "ComputeModifiedUtf8HashLoop (c # chars) hash =
     (if c \<noteq> 0 then ComputeModifiedUtf8HashLoop chars (UpdateModifiedUtf8Hash hash c) else Some hash)"

definition ComputeModifiedUtf8Hash :: "u8 list \<Rightarrow> u32 option" where
  "ComputeModifiedUtf8Hash chars = ComputeModifiedUtf8HashLoop chars StartModifiedUtf8Hash"

definition ComputeModifiedUtf8Hash_view :: "u8 list \<Rightarrow> u32" where
  "ComputeModifiedUtf8Hash_view chars = UpdateModifiedUtf8Hash_view StartModifiedUtf8Hash chars"


section \<open>The bytes of a character\<close>

text \<open>What the payload bits of the bytes of a sequence are, and that they make up the character.\<close>

lemma mask_numerals: "(0x3f :: 'a::len word) = mask 6" "(0x1f :: 'a::len word) = mask 5" "(0x0f :: 'a::len word) = mask 4"
  by (simp_all add: mask_eq_exp_minus_1)

lemma mask16: "(0xFFFF :: u32) = mask 16"
  by (simp add: mask_eq_exp_minus_1)

lemma u8_eqI:
  assumes "bit a 0 = bit b 0" "bit a 1 = bit b 1" "bit a 2 = bit b 2" "bit a 3 = bit b 3"
    "bit a 4 = bit b 4" "bit a 5 = bit b 5" "bit a 6 = bit b 6" "bit a 7 = bit b 7"
  shows "(a :: u8) = b"
proof (rule bit_word_eqI)
  fix n assume "n < LENGTH(8)"
  then have "n \<in> {0, 1, 2, 3, 4, 5, 6, 7}" by auto
  then show "bit a n = bit b n" using assms by auto
qed

lemma payload16:
  fixes x :: u16
  shows "(ucast ((x AND 0x3f) OR 0x80) :: u8) AND 0x3f = ucast (x AND 0x3f)"
    "(ucast (x OR 0xe0) :: u8) AND 0x0f = ucast (x AND 0x0f)"
    "(ucast (x OR 0xc0) :: u8) AND 0x1f = ucast (x AND 0x1f)"
  by (rule u8_eqI; simp add: bit_simps)+
lemma payload32:
  fixes x :: u32
  shows "(ucast ((x AND 0x3f) OR 0x80) :: u8) AND 0x3f = ucast (x AND 0x3f)"
    "(ucast (x OR 0xf0) :: u8) AND 0x0f = ucast (x AND 0x0f)"
  by (rule u8_eqI; simp add: bit_simps)+




lemma through_byte: "k \<le> 8 \<Longrightarrow> ucast (ucast (w AND mask k) :: u8) = take_bit k (ucast (w :: 'a::len word) :: u32)"
  by (rule bit_word_eqI) (auto simp: bit_simps dest: bit_imp_le_length)

lemma take_bit_join:
  fixes x :: u32
  shows "push_bit 6 (take_bit m (drop_bit 6 x)) OR take_bit 6 x = take_bit (6 + m) x"
    "push_bit 12 (take_bit m (drop_bit 12 x)) OR take_bit 12 x = take_bit (12 + m) x"
    "push_bit 18 (take_bit m (drop_bit 18 x)) OR take_bit 18 x = take_bit (18 + m) x"
  by (rule bit_word_eqI; force simp: bit_simps)+

lemma ucast_drop_bit: "ucast (drop_bit k (ch :: u16)) = (drop_bit k (ucast ch) :: u32)"
  by (rule bit_word_eqI) (auto simp: bit_simps dest: bit_imp_le_length)

lemma take_bit_below: "x < 2 ^ k \<Longrightarrow> k < 32 \<Longrightarrow> take_bit k (x :: u32) = x"
  by (simp add: less_mask_eq take_bit_eq_mask)

lemmas join_rules = mask_numerals through_byte ucast_drop_bit take_bit_join

lemma join3:
  fixes ch :: u16
  shows "push_bit 12 (ucast (ucast (drop_bit 12 ch AND 0x0f) :: u8)) OR push_bit 6 (ucast (ucast (drop_bit 6 ch AND 0x3f) :: u8))
    OR ucast (ucast (ch AND 0x3f) :: u8) = (ucast ch :: u32)"
proof -
  have "(ucast ch :: u32) < 2 ^ 16" using unsigned_less [of ch] by (simp add: word_less_nat_alt unat_ucast_up)
  then show ?thesis using take_bit_below [of "ucast ch" 16] by (simp add: join_rules)
qed
lemma join2: 
  fixes ch :: u16
  assumes "ch < 0x800"
  shows "push_bit 6 (ucast (ucast (drop_bit 6 ch AND 0x1f)  :: u8)) OR ucast (ucast (ch AND 0x3f) :: u8) = (ucast ch :: u32)"
proof -
  have "(ucast ch :: u32) < 2 ^ 11" using assms by (simp add: word_less_nat_alt unat_ucast_up)
  then show ?thesis using take_bit_below [of "ucast ch" 11] by (simp add: join_rules)
qed
lemma join4: 
  fixes cp :: u32
  assumes "cp < 0x400000"
  shows "push_bit 18 (ucast (ucast (drop_bit 18 cp AND 0x0f) :: u8)) OR push_bit 12 (ucast (ucast (drop_bit 12 cp AND 0x3f) :: u8)) 
    OR push_bit 6 (ucast (ucast (drop_bit 6 cp AND 0x3f) :: u8)) OR ucast (ucast (cp AND 0x3f) :: u8) = cp"
  using take_bit_below [of cp 22] assms by (simp add: join_rules)


text \<open>Surrogates: the ranges the masks describe, and the arithmetic of a pair.\<close>

lemma high6: "unat ((ch :: u16) AND 0xfc00) = 1024 * (unat ch div 1024)"
proof -
  have m: "(0xfc00 :: u16) = push_bit 10 (mask 6)" by (simp add: mask_eq_exp_minus_1)
  have "ch AND 0xfc00 = push_bit 10 (drop_bit 10 ch)"
    unfolding m by (rule bit_word_eqI) (auto simp: bit_simps)
  moreover have "unat ch < 65536" using unsigned_less [of ch] by simp
  ultimately show ?thesis
    by (simp add: unat_drop_bit_eq push_bit_eq_mult drop_bit_eq_div unat_word_ariths)
qed

lemma is_lead_iff: "is_lead ch \<longleftrightarrow> unat ch div 1024 = 54"
  using high6 [of ch] by (auto simp: is_lead_def word_unat_eq_iff)

lemma is_trail_iff: "is_trail ch \<longleftrightarrow> unat ch div 1024 = 55"
  using high6 [of ch] by (auto simp: is_trail_def word_unat_eq_iff)


lemma surrogates:
  assumes "is_lead l" "is_trail t"
  obtains a b where "unat l = 0xd800 + a" "unat t = 0xdc00 + b" "a < 1024" "b < 1024"
    "get_supplementary l t = of_nat (0x10000 + 1024 * a + b)"
proof -
  define a b where "a = unat l mod 1024" and "b = unat t mod 1024"
  have ab: "a < 1024" "b < 1024" by (simp_all add: a_def b_def)
  have l: "unat l = 0xd800 + a" and t: "unat t = 0xdc00 + b"
    using assms div_mult_mod_eq [of "unat l" 1024] div_mult_mod_eq [of "unat t" 1024]
    by (simp_all add: is_lead_iff is_trail_iff a_def b_def)
  have "(ucast l :: u32) = of_nat (0xd800 + a)" "(ucast t :: u32) = of_nat (0xdc00 + b)"
    using l t by (metis of_nat_unat)+
  then have "get_supplementary l t = of_nat (0x10000 + 1024 * a + b)"
    by (simp add: get_supplementary_def push_bit_eq_mult algebra_simps)
  then show thesis using that l t ab by blast
qed

lemma surrogate_pair:
  assumes "is_lead l" "is_trail t"
  defines "cp \<equiv> get_supplementary l t"
  shows "cp < 0x400000" "0x10000 \<le> cp"
    "((drop_bit 10 cp + 0xd7c0) AND 0xffff) OR push_bit 16 ((cp AND 0x03ff) + 0xdc00) = ucast l OR push_bit 16 (ucast t)"
proof -
  obtain a b where ab: "unat l = 0xd800 + a" "unat t = 0xdc00 + b" "a < 1024" "b < 1024"
    "cp = of_nat (0x10000 + 1024 * a + b)" using assms(1,2) unfolding cp_def by (rule surrogates)
  have u: "unat cp = 0x10000 + 1024 * a + b"
    unfolding ab(5) by (subst unat_of_nat) (use ab(3,4) in simp)
  then show "cp < 0x400000" "0x10000 \<le> cp" using ab(3,4) by (simp_all add: word_less_nat_alt word_le_nat_alt)
  have r: "(65536 + 1024 * a + b) mod 1024 = b"
    using ab(4) mod_mult_self2 [of b 1024 "64 + a"] by (simp add: algebra_simps)
  have m: "(0x03ff :: u32) = mask 10" "(0xffff :: u32) = mask 16" by (simp_all add: mask_eq_exp_minus_1)
  have "(drop_bit 10 cp + 0xd7c0) AND 0xffff = ucast l" "(cp AND 0x03ff) + 0xdc00 = ucast t"
    unfolding m word_unat_eq_iff take_bit_eq_mask [symmetric] using u ab(1-4) r
    by (simp_all add: unat_drop_bit_eq drop_bit_eq_div unat_word_ariths unat_ucast_up unsigned_take_bit_eq take_bit_eq_mod)
  then show "((drop_bit 10 cp + 0xd7c0) AND 0xffff) OR push_bit 16 ((cp AND 0x03ff) + 0xdc00) = ucast l OR push_bit 16 (ucast t)"
    by simp
qed


text \<open>
  The first character of a string of UTF-16 units, as the value \<open>GetUtf16FromUtf8\<close> returns for it,
  and the units behind it.
\<close>

fun next_char :: "u16 list \<Rightarrow> u32 \<times> u16 list" where
  "next_char [] = (0, [])"
| "next_char [u] = (ucast u, [])"
| "next_char (u # t # us) =
     (if is_lead u \<and> is_trail t then (ucast u OR push_bit 16 (ucast t), us) else (ucast u, t # us))"

lemma parts_single: "GetLeadingUtf16Char (ucast (u :: u16)) = u" "GetTrailingUtf16Char (ucast (u :: u16)) = 0"
proof -
  have "ucast ((ucast u :: u32) AND 0xFFFF) = u" "(drop_bit 16 (ucast u) :: u32) = 0"
    unfolding mask16 by (rule bit_word_eqI; auto simp: bit_simps dest: bit_imp_le_length)+
  then show "GetLeadingUtf16Char (ucast u) = u" "GetTrailingUtf16Char (ucast u) = 0"
    by (simp_all add: GetLeadingUtf16Char_def GetTrailingUtf16Char_def)
qed

lemma parts_pair:
  "GetLeadingUtf16Char (ucast (u :: u16) OR push_bit 16 (ucast t)) = u"
  "GetTrailingUtf16Char (ucast u OR push_bit 16 (ucast (t :: u16))) = t"
  unfolding GetLeadingUtf16Char_def GetTrailingUtf16Char_def mask16
  by (rule bit_word_eqI; auto simp: bit_simps dest: bit_imp_le_length)+

lemma trail_nonzero: "is_trail t \<Longrightarrow> t \<noteq> 0"
  by (auto simp: is_trail_iff)

lemma units_single: "store_units (ucast (u :: u16)) = [u]"
  by (simp add: store_units_def parts_single)

lemma units_pair: "is_trail t \<Longrightarrow> store_units (ucast (u :: u16) OR push_bit 16 (ucast t)) = [u, t]"
  by (simp add: store_units_def parts_pair trail_nonzero)

lemma next_char_cases:
  assumes "us \<noteq> []"
  obtains (single) u us' where "us = u # us'" "next_char us = (ucast u, us')" "\<not> (is_lead u \<and> has_trail us')"
  | (pair) l t us' where "us = l # t # us'" "is_lead l" "is_trail t"
      "next_char us = (ucast l OR push_bit 16 (ucast t), us')"
proof (cases us rule: next_char.cases)
  case (3 u t us')
  then show thesis by (cases "is_lead u \<and> is_trail t") (auto simp: has_trail_def intro: that)
qed (use assms in \<open>auto simp: has_trail_def intro: that\<close>)

lemma next_char_units: "us \<noteq> [] \<Longrightarrow> store_units (fst (next_char us)) @ snd (next_char us) = us"
  by (cases us rule: next_char.cases) (simp_all add: units_single units_pair)


abbreviation encode :: "u16 list \<Rightarrow> u8 list" where
  "encode \<equiv> ConvertUtf16ToUtf8 False True False"

text \<open>
  What a sequence of bytes is for the readers: its first byte tells its length and how many units
  its character has, \<open>GetUtf16FromUtf8\<close> reads the character and stops behind it, and it has no
  zero byte.
\<close>

lemma test_bits:
  "(b :: u8) AND 0x80 = 0 \<longleftrightarrow> \<not> bit b 7" "b AND 0x20 = 0 \<longleftrightarrow> \<not> bit b 5" "b AND 0x10 = 0 \<longleftrightarrow> \<not> bit b 4"
  using and_exp_eq_0_iff_not_bit [of b 7] and_exp_eq_0_iff_not_bit [of b 5] and_exp_eq_0_iff_not_bit [of b 4]
  by simp_all

definition sequence_length :: "u8 \<Rightarrow> nat" where
  "sequence_length b = (if \<not> bit b 7 then 1 else if \<not> bit b 5 then 2 else if \<not> bit b 4 then 3 else 4)"

definition sequence_of :: "u8 list \<Rightarrow> u32 \<Rightarrow> bool" where
  "sequence_of bs c \<longleftrightarrow>
     bs \<noteq> [] \<and> 0 \<notin> set bs \<and> length bs = sequence_length (hd bs) \<and>
     length (store_units c) = (if sequence_length (hd bs) = 4 then 2 else 1) \<and>
     (length bs = 1 \<longrightarrow> c = ucast (hd bs)) \<and>
     (\<forall>rest. GetUtf16FromUtf8 (bs @ rest) = Some (c, rest))"

lemma first_bits:
  fixes x :: u16 and y :: u32
  shows "bit (ucast (x OR 0xc0) :: u8) 7" "bit (ucast (x OR 0xc0) :: u8) 5 = bit x 5"
    "bit (ucast (x OR 0xe0) :: u8) 7" "bit (ucast (x OR 0xe0) :: u8) 5" "bit (ucast (x OR 0xe0) :: u8) 4 = bit x 4"
    "bit (ucast (y OR 0xf0) :: u8) 7" "bit (ucast (y OR 0xf0) :: u8) 5" "bit (ucast (y OR 0xf0) :: u8) 4"
    "bit (ucast (x OR 0x80) :: u8) 7" "bit (ucast (y OR 0x80) :: u8) 7"
  by (simp_all add: bit_simps)

lemma bit_nonzero: "bit (b :: u8) k \<Longrightarrow> b \<noteq> 0" "bit (b :: u8) k \<Longrightarrow> 0 \<noteq> b"
  by auto

lemmas sequence_rules = sequence_of_def sequence_length_def GetUtf16FromUtf8_def Let_def test_bits first_bits
  payload16 payload32 units_single units_pair

lemma one_byte:
  assumes "u < 0x80" "u \<noteq> 0"
  shows "sequence_of [ucast (u :: u16)] (ucast u)"
proof -
  have b: "bit u n \<Longrightarrow> n < 8" "\<not> bit u 7" for n
    using bit_below [of u 7 n] bit_below [of u 7 7] assms by (auto simp: word_less_nat_alt)
  then have "\<not> bit (ucast u :: u8) 7" by (simp add: bit_simps)
  moreover have "(ucast (ucast u :: u8) :: u32) = ucast u" "ucast (ucast u :: u8) = u"
    using b by (auto intro!: bit_word_eqI simp: bit_simps)
  moreover have "(0 :: u8) \<noteq> ucast u" using assms(2) calculation(3) by auto
  ultimately show ?thesis by (simp add: sequence_rules)
qed

lemma two_bytes:
  assumes "u < 0x800"
  shows "sequence_of [ucast (drop_bit 6 u OR 0xc0), ucast ((u AND 0x3f) OR 0x80)] (ucast (u :: u16))"
proof -
  have "\<not> bit u 11" using bit_below [of u 11 11] assms by (auto simp: word_less_nat_alt)
  then have "\<not> bit (drop_bit 6 u) 5" by (simp add: bit_simps)
  then show ?thesis using join2 [OF assms] by (simp add: sequence_rules bit_nonzero [OF first_bits(1)] bit_nonzero [OF first_bits(9)])
qed

lemma three_bytes:
  "sequence_of [ucast (drop_bit 12 u OR 0xe0), ucast ((drop_bit 6 u AND 0x3f) OR 0x80), ucast ((u AND 0x3f) OR 0x80)]
     (ucast (u :: u16))"
proof -
  have "\<not> bit (drop_bit 12 u) 4" using bit_imp_le_length [of u 16] by (auto simp: bit_simps)
  then show ?thesis using join3 [of u] by (simp add: sequence_rules bit_nonzero [OF first_bits(3)] bit_nonzero [OF first_bits(9)])
qed

lemma four_bytes:
  assumes "is_lead l" "is_trail t"
  defines "cp \<equiv> get_supplementary l t"
  shows "sequence_of [ucast (drop_bit 18 cp OR 0xf0), ucast ((drop_bit 12 cp AND 0x3f) OR 0x80),
      ucast ((drop_bit 6 cp AND 0x3f) OR 0x80), ucast ((cp AND 0x3f) OR 0x80)] (ucast l OR push_bit 16 (ucast t))"
  using surrogate_pair [OF assms(1,2)] assms(2) unfolding cp_def [symmetric]
  by (simp add: sequence_rules bit_nonzero [OF first_bits(6)] bit_nonzero [OF first_bits(10)] join4
      del: drop_bit_or)

lemma encode_step:
  assumes "us \<noteq> []"
  obtains bs where "encode us = bs @ encode (snd (next_char us))" "sequence_of bs (fst (next_char us))"
proof -
  obtain u rest where us: "us = u # rest" using assms by (cases us) auto
  show thesis
  proof (cases "is_lead u \<and> has_trail rest")
    case True
    then obtain t r where r: "rest = t # r" "is_lead u" "is_trail t" by (cases rest) (auto simp: has_trail_def)
    then have "\<not> u < 0x800" by (auto simp: is_lead_iff word_less_nat_alt)
    then have "\<not> u < 0x80" by (auto simp: word_less_nat_alt)
    with \<open>\<not> u < 0x800\<close> r show ?thesis
      using four_bytes [OF r(2,3)] by (intro that) (simp_all add: us ConvertUtf16ToUtf8.simps(2) has_trail_def Let_def)
  next
    case False
    then have n: "next_char us = (ucast u, rest)" unfolding us by (cases rest) (auto simp: has_trail_def)
    consider "u < 0x80 \<and> u \<noteq> 0" | "\<not> (u < 0x80 \<and> u \<noteq> 0)" "u < 0x800" | "\<not> (u < 0x80 \<and> u \<noteq> 0)" "\<not> u < 0x800" by blast
    then show ?thesis
    proof cases
      case 1 then show ?thesis using one_byte [of u] by (intro that) (simp_all add: us n [unfolded us] ConvertUtf16ToUtf8.simps(2))
    next
      case 2 then show ?thesis using two_bytes [of u] by (intro that) (simp_all add: us n [unfolded us] ConvertUtf16ToUtf8.simps(2))
    next
      case 3 then show ?thesis using three_bytes [of u] False by (intro that) (auto simp: us n [unfolded us] ConvertUtf16ToUtf8.simps(2))
    qed
  qed
qed

text \<open>Strings are taken apart by their characters.\<close>

lemma next_char_shorter: "us \<noteq> [] \<Longrightarrow> length (snd (next_char us)) < length us"
  by (cases us rule: next_char.cases) simp_all

lemma next_char_induct [case_names Nil Char]:
  assumes "P []" "\<And>us. us \<noteq> [] \<Longrightarrow> P (snd (next_char us)) \<Longrightarrow> P us"
  shows "P us"
  by (induction us rule: length_induct) (metis assms next_char_shorter)

lemma encode_nonzero: "0 \<notin> set (encode us)"
  by (induction us rule: next_char_induct) (auto elim!: encode_step simp: sequence_of_def)

lemma encode_head:
  assumes "us \<noteq> []"
  obtains b bs where "encode us = b # bs" "b \<noteq> 0"
  using encode_step [OF assms] encode_nonzero [of us]
  by (metis append_is_Nil_conv list.set_intros(1) neq_Nil_conv sequence_of_def)

lemma decode_encode:
  "us \<noteq> [] \<Longrightarrow>
   GetUtf16FromUtf8 (encode us @ rest) = Some (fst (next_char us), encode (snd (next_char us)) @ rest)"
  by (erule encode_step) (simp add: sequence_of_def)

section \<open>The conversions are inverse to each other\<close>

lemma strlen_append: "0 \<notin> set bs \<Longrightarrow> strlen (bs @ 0 # rest) = Some (length bs)"
  by (induction bs) auto

lemma count_step:
  assumes "sequence_of bs c" "length bs \<le> n"
  shows "CountModifiedUtf8CharsLoop (bs @ rest) n len =
    CountModifiedUtf8CharsLoop rest (n - length bs) (len + length (store_units c))"
proof -
  obtain b bs' where bs: "bs = b # bs'" using assms(1) by (cases bs) (auto simp: sequence_of_def)
  have d: "drop (Suc (length bs')) (b # bs' @ rest) = rest" by simp
  show ?thesis using assms d unfolding bs sequence_of_def
    by (subst CountModifiedUtf8CharsLoop.simps) (auto simp: sequence_length_def test_bits split: if_splits)
qed

lemma count_encode:
  "CountModifiedUtf8CharsLoop (encode us @ rest) (length (encode us)) len = Some (len + length us)"
proof (induction us arbitrary: len rule: next_char_induct)
  case Nil then show ?case by (simp add: CountModifiedUtf8CharsLoop.simps)
next
  case (Char us)
  then obtain bs where bs: "encode us = bs @ encode (snd (next_char us))" "sequence_of bs (fst (next_char us))"
    by (auto elim: encode_step)
  have "length (store_units (fst (next_char us))) + length (snd (next_char us)) = length us"
    using next_char_units [OF Char.hyps] by (metis length_append)
  then show ?case using count_step [OF bs(2)] Char.IH by (simp add: bs(1))
qed

lemma convert_encode: "ConvertModifiedUtf8ToUtf16 (encode us @ 0 # rest) = Some us"
proof (induction us rule: next_char_induct)
  case Nil then show ?case by (simp add: ConvertModifiedUtf8ToUtf16.simps)
next
  case (Char us)
  obtain b bs where b: "encode us = b # bs" "b \<noteq> 0" using Char.hyps by (rule encode_head)
  show ?case
    using Char decode_encode [OF Char.hyps, of "0 # rest"] next_char_units [OF Char.hyps] b
    by (subst ConvertModifiedUtf8ToUtf16.simps) simp
qed

lemma convert_loop_encode: "ConvertModifiedUtf8ToUtf16Loop (encode us @ rest) (length (encode us)) = Some us"
proof (induction us rule: next_char_induct)
  case Nil then show ?case by (simp add: ConvertModifiedUtf8ToUtf16Loop.simps)
next
  case (Char us)
  then obtain bs where bs: "encode us = bs @ encode (snd (next_char us))" "sequence_of bs (fst (next_char us))"
    by (auto elim: encode_step)
  show ?case using bs Char decode_encode [OF Char.hyps, of rest] next_char_units [OF Char.hyps]
    by (subst ConvertModifiedUtf8ToUtf16Loop.simps) (auto simp: sequence_of_def)
qed

text \<open>There are as many bytes as units only when every unit is an ASCII character.\<close>

definition ascii :: "u16 list \<Rightarrow> bool" where
  "ascii us = list_all (\<lambda>u. u < 0x80 \<and> u \<noteq> 0) us"

lemma byte_unit:
  fixes b :: u8
  assumes "\<not> bit b 7" "b \<noteq> 0"
  shows "(ucast b :: u16) < 0x80 \<and> (ucast b :: u16) \<noteq> 0" "(ucast b :: u32) = ucast (ucast b :: u16)"
proof -
  have "unat b < 256" using unsigned_less [of b] by simp
  moreover have "even (unat b div 128)"
    using assms(1) bit_iff_odd [of "unat b" 7] by (simp add: bit_unsigned_iff)
  moreover have "unat b div 128 < 2" using \<open>unat b < 256\<close> by (intro less_mult_imp_div_less) simp
  ultimately have "unat b div 128 = 0" by (auto simp: less_2_cases_iff)
  then have "unat b < 128" by (simp add: div_eq_0_iff)
  then show "(ucast b :: u16) < 0x80 \<and> (ucast b :: u16) \<noteq> 0"
    using assms(2) by (simp add: word_less_nat_alt unat_ucast_up word_unat_eq_iff)
  show "(ucast b :: u32) = ucast (ucast b :: u16)" by (simp add: word_unat_eq_iff unat_ucast_up)
qed

lemma encode_length: "length us \<le> length (encode us) \<and> (length (encode us) = length us \<longrightarrow> ascii us)"
proof (induction us rule: next_char_induct)
  case Nil then show ?case by (simp add: ascii_def)
next
  case (Char us)
  then obtain bs where bs: "encode us = bs @ encode (snd (next_char us))" "sequence_of bs (fst (next_char us))"
    by (auto elim: encode_step)
  define c where "c = fst (next_char us)"
  have seq: "0 \<notin> set bs" "bs \<noteq> []" "length bs = sequence_length (hd bs)" "length bs = 1 \<longrightarrow> c = ucast (hd bs)"
    "length (store_units c) = (if sequence_length (hd bs) = 4 then 2 else 1)"
    using bs(2) unfolding sequence_of_def c_def by blast+
  have us: "store_units c @ snd (next_char us) = us" using next_char_units [OF Char.hyps] by (simp add: c_def)
  then have len: "length us = length (store_units c) + length (snd (next_char us))" by (metis length_append)
  have le: "length (store_units c) \<le> length bs" "length (store_units c) = length bs \<Longrightarrow> length bs = 1"
    using seq(3,5) by (auto simp: sequence_length_def split: if_splits)
  moreover have "ascii (store_units c)" if "length bs = 1"
  proof -
    have "sequence_length (hd bs) = 1" using seq(3) that by simp
    then have b1: "\<not> bit (hd bs) 7" by (simp add: sequence_length_def split: if_splits)
    have b2: "hd bs \<noteq> 0" using seq(1,2) hd_in_set [of bs] by metis
    have b3: "c = ucast (hd bs)" using seq(4) that by (rule mp)
    have "store_units c = [ucast (hd bs)]"
      by (rule trans [OF arg_cong [where f = store_units, OF trans [OF b3 byte_unit(2) [OF b1 b2]]] units_single])
    then show ?thesis using byte_unit(1) [OF b1 b2] by (simp add: ascii_def)
  qed
  moreover have "ascii us \<longleftrightarrow> ascii (store_units c) \<and> ascii (snd (next_char us))"
    unfolding ascii_def list_all_append [symmetric] us by (rule refl)
  moreover have "length (encode us) = length bs + length (encode (snd (next_char us)))" by (simp add: bs(1))
  ultimately show ?case using Char.IH len by simp
qed

lemma ascii_encode: "ascii us \<Longrightarrow> encode us = map ucast us"
  by (induction us) (auto simp: ascii_def ConvertUtf16ToUtf8.simps(2))

lemma narrow_unit: "u < 0x80 \<Longrightarrow> ucast (ucast u :: u8) = (u :: u16) \<and> (ucast u :: u8) < 0x80"
  by (simp add: word_less_nat_alt word_unat_eq_iff unat_ucast_up unsigned_ucast_eq
      unsigned_take_bit_eq take_bit_nat_eq_self)

lemma ascii_copy: "ascii us \<Longrightarrow> copy_ascii (map ucast us @ rest) (length us) = Some us"
  by (induction us) (auto simp: ascii_def narrow_unit)

lemma ascii_narrow: "ascii us \<Longrightarrow> narrow_ascii us = Some (map ucast us)"
  by (induction us) (auto simp: ascii_def)

text \<open>
  C14. For every string of UTF-16 units: \<open>ConvertUtf16ToModifiedUtf8\<close> with the size that
  \<open>CountModifiedUtf8BytesInUtf16\<close> computes fills exactly that many bytes, none of them zero;
  \<open>CountModifiedUtf8Chars\<close> counts the units in them, and both versions of
  \<open>ConvertModifiedUtf8ToUtf16\<close> give the string back, unpaired surrogates included.
\<close>

theorem utf16_roundtrip:
  "\<exists>bytes. ConvertUtf16ToModifiedUtf8 (CountModifiedUtf8BytesInUtf16 us) us = Some bytes \<and>
     length bytes = CountModifiedUtf8BytesInUtf16 us \<and> 0 \<notin> set bytes \<and>
     CountModifiedUtf8Chars (bytes @ 0 # rest) = Some (length us) \<and>
     ConvertModifiedUtf8ToUtf16 (bytes @ 0 # rest) = Some us \<and>
     ConvertModifiedUtf8ToUtf16_sized (length us) (bytes @ rest) (length bytes) = Some us"
proof (intro exI conjI)
  have a: "length (encode us) = length us \<longleftrightarrow> ascii us"
    using encode_length [of us] ascii_encode [of us] by (metis length_map)
  show "ConvertUtf16ToModifiedUtf8 (CountModifiedUtf8BytesInUtf16 us) us = Some (encode us)"
    unfolding ConvertUtf16ToModifiedUtf8_def CountModifiedUtf8BytesInUtf16_def a
    using ascii_narrow [of us] ascii_encode [of us] by (cases "ascii us") simp_all
  show "ConvertModifiedUtf8ToUtf16_sized (length us) (encode us @ rest) (length (encode us)) = Some us"
    unfolding ConvertModifiedUtf8ToUtf16_sized_def eq_commute [of "length us"] a convert_loop_encode
    using ascii_copy [of us rest] ascii_encode [of us] by (cases "ascii us") simp_all
qed (simp_all only: CountModifiedUtf8BytesInUtf16_def CountModifiedUtf8Chars_def CountModifiedUtf8Chars_sized_def
    encode_nonzero strlen_append count_encode convert_encode bind.bind_lunit not_False_eq_True add_0)


section \<open>The comparisons\<close>

text \<open>The order of two UTF-16 strings by their units, as the comparisons report it.\<close>

definition units_order :: "u16 list \<Rightarrow> u16 list \<Rightarrow> u32" where
  "units_order us vs = (if us = vs then 0 else if us < vs then - 1 else 1)"

lemma units_order_simps [simp]:
  "units_order [] [] = 0" "units_order [] (v # vs) = - 1" "units_order (u # us) [] = 1"
  "units_order (u # us) (v # vs) = (if u = v then units_order us vs else if v < u then 1 else - 1)"
  by (auto simp: units_order_def)

text \<open>
  C15. \<open>CompareModifiedUtf8ToUtf16AsCodePointValues\<close> orders the string that the bytes encode and
  the UTF-16 string lexicographically by their units: 0 exactly when they are equal, \<open>-1\<close> when
  the first comes before the second, 1 otherwise.
\<close>

theorem utf8_utf16_order:
  "CompareModifiedUtf8ToUtf16AsCodePointValues (ConvertUtf16ToUtf8 False True False us @ 0 # rest) vs =
     Some (if us = vs then 0 else if us < vs then - 1 else 1)"
  unfolding units_order_def [symmetric]
proof (induction us arbitrary: vs rule: next_char_induct)
  case Nil then show ?case by (cases vs) (simp_all add: CompareModifiedUtf8ToUtf16AsCodePointValues.simps)
next
  case (Char us)
  obtain b bs where b: "encode us = b # bs" "b \<noteq> 0" using Char.hyps by (rule encode_head)
  note d = decode_encode [OF Char.hyps, of "0 # rest"]
  from Char.hyps show ?case
  proof (cases rule: next_char_cases)
    case (single u us')
    then show ?thesis using Char.IH [of "tl vs"] b d
      by (subst CompareModifiedUtf8ToUtf16AsCodePointValues.simps) (cases vs; simp add: Let_def parts_single)
  next
    case (pair l t us')
    then show ?thesis using Char.IH [of "tl (tl vs)"] b d trail_nonzero [of t]
      by (subst CompareModifiedUtf8ToUtf16AsCodePointValues.simps)
        (cases vs; cases "tl vs"; simp add: Let_def parts_pair)
  qed
qed

text \<open>A string without unpaired surrogates.\<close>

fun paired :: "u16 list \<Rightarrow> bool" where
  "paired [] = True"
| "paired [u] = (\<not> is_lead u)"
| "paired (u # t # us) = (if is_lead u \<and> is_trail t then paired us else \<not> is_lead u \<and> paired (t # us))"

lemma paired_single: "paired (u # us) \<Longrightarrow> \<not> (is_lead u \<and> has_trail us) \<Longrightarrow> \<not> is_lead u \<and> paired us"
  by (cases us) (auto simp: has_trail_def split: if_splits)

lemma char_eq: "(ucast (u :: u16) :: u32) = ucast v \<longleftrightarrow> u = v"
  by (metis parts_single(1))

lemma unit_difference:
  fixes x y :: u16
  shows "(ucast x - ucast y :: u32) <s 0 \<longleftrightarrow> x < y" "(ucast x - ucast y :: u32) = 0 \<longleftrightarrow> x = y"
proof -
  have "uint x < 65536" "uint y < 65536" "0 \<le> uint x" "0 \<le> uint y"
    using unsigned_less [of x] unsigned_less [of y] by simp_all
  then have d: "uint x - uint y < 65536" "- 65536 < uint x - uint y" by linarith+
  have s: "sint (ucast x :: u32) = uint x" "sint (ucast y :: u32) = uint y" by (simp_all add: sint_ucast_up)
  have "sint (ucast x - ucast y :: u32) = uint x - uint y"
    using d by (subst sint_diff_in_range) (simp_all add: s)
  then show "(ucast x - ucast y :: u32) <s 0 \<longleftrightarrow> x < y" by (simp add: word_sless_alt word_less_def)
  show "(ucast x - ucast y :: u32) = 0 \<longleftrightarrow> x = y" unfolding right_minus_eq by (rule char_eq)
qed

lemma char_neq: "u \<noteq> l \<Longrightarrow> (ucast (u :: u16) :: u32) \<noteq> ucast l OR push_bit 16 (ucast (t :: u16))"
  by (metis parts_pair(1) parts_single(1))

lemma pair_eq:
  "(ucast (l :: u16) OR push_bit 16 (ucast (t :: u16)) :: u32) = ucast m OR push_bit 16 (ucast (k :: u16)) \<longleftrightarrow>
   l = (m :: u16) \<and> t = k"
  by (metis parts_pair)

text \<open>The answer of the other comparison: its sign is the order of the units.\<close>

definition ordered :: "u32 \<Rightarrow> u16 list \<Rightarrow> u16 list \<Rightarrow> bool" where
  "ordered r us vs = ((r = 0 \<longleftrightarrow> us = vs) \<and> (r <s 0 \<longleftrightarrow> us < vs))"

lemma ordered_simps [simp]:
  "ordered 0 [] []" "ordered (- 1) [] (v # vs)" "ordered 1 (u # us) []"
  "ordered r (u # us) (u # vs) = ordered r us vs"
  "u \<noteq> v \<Longrightarrow> ordered (ucast u - ucast v) (u # us) (v # vs)"
  using unit_difference [of u v] by (auto simp: ordered_def word_sless_alt)

lemma compare_step:
  assumes "us \<noteq> []" "vs \<noteq> []" "next_char us = (c1, us')" "next_char vs = (c2, vs')"
  shows "CompareModifiedUtf8ToModifiedUtf8AsUtf16CodePointValues (encode us @ 0 # r) (encode vs @ 0 # q) =
    (if c1 = c2 then CompareModifiedUtf8ToModifiedUtf8AsUtf16CodePointValues (encode us' @ 0 # r) (encode vs' @ 0 # q)
     else let d = ucast (GetLeadingUtf16Char c1) - ucast (GetLeadingUtf16Char c2)
          in Some (if d \<noteq> 0 then d else ucast (GetTrailingUtf16Char c1) - ucast (GetTrailingUtf16Char c2)))"
proof -
  obtain b bs where b: "encode us = b # bs" "b \<noteq> 0" using assms(1) by (rule encode_head)
  obtain a as where a: "encode vs = a # as" "a \<noteq> 0" using assms(2) by (rule encode_head)
  show ?thesis
    using a b decode_encode [OF assms(1), of "0 # r"] decode_encode [OF assms(2), of "0 # q"]
    by (subst CompareModifiedUtf8ToModifiedUtf8AsUtf16CodePointValues.simps) (simp add: Let_def assms(3,4))
qed

text \<open>
  Two strings begin with the same character, and the rest decides, or the first characters decide.
\<close>

lemma compare_first:
  fixes r q :: "u8 list"
  assumes "us \<noteq> []" "vs \<noteq> []" "paired us" "paired vs"
  defines "us' \<equiv> snd (next_char us)" and "vs' \<equiv> snd (next_char vs)"
    and "result \<equiv> CompareModifiedUtf8ToModifiedUtf8AsUtf16CodePointValues (encode us @ 0 # r) (encode vs @ 0 # q)"
  shows "(\<exists>r. result = Some r \<and> ordered r us vs) \<or>
    paired us' \<and> paired vs' \<and> (\<forall>r. ordered r us' vs' \<longrightarrow> ordered r us vs) \<and>
    result = CompareModifiedUtf8ToModifiedUtf8AsUtf16CodePointValues (encode us' @ 0 # r) (encode vs' @ 0 # q)"
  using assms(1)
proof (cases rule: next_char_cases)
  note step = compare_step [OF assms(1,2), of _ _ _ _ r q]
  case (single u rest)
  note us = this
  have u: "\<not> is_lead u" "paired rest" using assms(3) us(3) paired_single unfolding us(1) by blast+
  from assms(2) show ?thesis
  proof (cases rule: next_char_cases)
    case (single v rest')
    have "paired rest'" using assms(4) single(3) paired_single unfolding single(1) by blast
    then show ?thesis unfolding result_def us'_def vs'_def step [OF us(2) single(2)] us(2) single(2) unfolding us(1) single(1)
      using u by (cases "u = v") (simp_all add: parts_single Let_def char_eq)
  next
    case (pair l t rest')
    then show ?thesis unfolding result_def step [OF us(2) pair(4)] unfolding us(1) pair(1)
      using u by (cases "u = l") (simp_all add: parts_single parts_pair Let_def char_eq char_neq)
  qed
next
  note step = compare_step [OF assms(1,2), of _ _ _ _ r q]
  case (pair l t rest)
  note us = this
  from assms(2) show ?thesis
  proof (cases rule: next_char_cases)
    case (single v rest')
    have "\<not> is_lead v" using assms(4) single(3) paired_single unfolding single(1) by blast
    then show ?thesis unfolding result_def step [OF us(4) single(2)] unfolding us(1) single(1)
      using us(2) by (cases "l = v") (simp_all add: parts_single parts_pair Let_def char_eq char_neq [symmetric])
  next
    case (pair m k rest')
    then show ?thesis using assms(3,4) us(2,3)
      unfolding result_def us'_def vs'_def step [OF us(4) pair(4)] us(4) pair(4) unfolding us(1) pair(1)
      by (cases "l = m"; cases "t = k") (simp_all add: parts_pair Let_def pair_eq char_eq)
  qed
qed

text \<open>
  C16. On strings without unpaired leading surrogates,
  \<open>CompareModifiedUtf8ToModifiedUtf8AsUtf16CodePointValues\<close> returns zero exactly when the strings
  are equal and a negative number exactly when the first comes before the second in the
  lexicographic order of the units.
\<close>

theorem utf8_order:
  assumes "paired us" "paired vs"
  shows "\<exists>r. CompareModifiedUtf8ToModifiedUtf8AsUtf16CodePointValues
      (ConvertUtf16ToUtf8 False True False us @ 0 # rest) (ConvertUtf16ToUtf8 False True False vs @ 0 # rest') = Some r \<and>
    (r = 0 \<longleftrightarrow> us = vs) \<and> (r <s 0 \<longleftrightarrow> us < vs)"
  using assms unfolding ordered_def [symmetric]
proof (induction us arbitrary: vs rule: next_char_induct)
  case Nil
  show ?case
  proof (cases vs)
    case (Cons v vs')
    then obtain b bs where "encode vs = b # bs" "b \<noteq> 0" using encode_head [of vs] by blast
    then show ?thesis using Cons by (simp add: CompareModifiedUtf8ToModifiedUtf8AsUtf16CodePointValues.simps)
  qed (simp add: CompareModifiedUtf8ToModifiedUtf8AsUtf16CodePointValues.simps)
next
  case (Char us)
  show ?case
  proof (cases "vs = []")
    case True
    obtain b bs where "encode us = b # bs" "b \<noteq> 0" using Char.hyps by (rule encode_head)
    moreover obtain u us' where "us = u # us'" using Char.hyps by (cases us) auto
    ultimately show ?thesis using True
      by (simp add: CompareModifiedUtf8ToModifiedUtf8AsUtf16CodePointValues.simps)
  next
    case False
    then show ?thesis using compare_first [OF Char.hyps False Char.prems, of rest rest'] Char.IH by metis
  qed
qed

theorem utf8_order_witness:
  "\<exists>r. CompareModifiedUtf8ToModifiedUtf8AsUtf16CodePointValues
      (ConvertUtf16ToUtf8 False True False [0x61, 0xd83d, 0xde00] @ 0 # [])
      (ConvertUtf16ToUtf8 False True False [0x61, 0xe9] @ 0 # []) = Some r \<and>
    (r = 0 \<longleftrightarrow> [0x61, 0xd83d, 0xde00 :: u16] = [0x61, 0xe9]) \<and> (r <s 0 \<longleftrightarrow> [0x61, 0xd83d, 0xde00 :: u16] < [0x61, 0xe9])"
proof -
  have "paired [0x61, 0xd83d, 0xde00]" "paired [0x61, 0xe9]" by code_simp+
  then show ?thesis by (rule utf8_order)
qed

text \<open>
  With an unpaired leading surrogate the two comparisons disagree: one compares the next unit of
  the first string, the other takes the single surrogate to come before every pair.
\<close>

lemma unpaired_order:
  "CompareModifiedUtf8ToUtf16AsCodePointValues (encode [0xd800, 0xe000] @ [0]) [0xd800, 0xdc00] = Some 1"
  "CompareModifiedUtf8ToModifiedUtf8AsUtf16CodePointValues
     (encode [0xd800, 0xe000] @ [0]) (encode [0xd800, 0xdc00] @ [0]) = Some (- 0xdc00)"
  by code_simp+

section \<open>The hashes\<close>

lemma hash_encode:
  "ComputeUtf16HashLoop (encode us @ rest) (length us) hash = Some (foldl (\<lambda>hash c. hash * 31 + ucast c) hash us)"
proof (induction us arbitrary: hash rule: next_char_induct)
  case Nil then show ?case by (simp add: ComputeUtf16HashLoop.simps)
next
  case (Char us)
  note d = decode_encode [OF Char.hyps, of rest]
  from Char.hyps show ?case
  proof (cases rule: next_char_cases)
    case (single u us')
    then show ?thesis using Char.IH d by (subst ComputeUtf16HashLoop.simps) (simp add: Let_def parts_single)
  next
    case (pair l t us')
    then show ?thesis using Char.IH d trail_nonzero [of t]
      by (subst ComputeUtf16HashLoop.simps) (simp add: Let_def parts_pair)
  qed
qed

lemma hash_bytes:
  "0 \<notin> set bs \<Longrightarrow> ComputeModifiedUtf8HashLoop (bs @ 0 # rest) hash = Some (UpdateModifiedUtf8Hash_view hash bs)"
  by (induction bs arbitrary: hash) (auto simp: UpdateModifiedUtf8Hash_view_def)

text \<open>
  C17. The hash of a string does not depend on its representation: computed from its modified
  UTF-8 it is the hash of its units, and the hash of the bytes is the same for a C string and for
  a view of it.
\<close>

theorem hashes_agree:
  "ComputeUtf16HashFromModifiedUtf8 (ConvertUtf16ToUtf8 False True False us @ rest) (length us) =
     Some (ComputeUtf16Hash us) \<and>
   ComputeModifiedUtf8Hash (ConvertUtf16ToUtf8 False True False us @ 0 # rest) =
     Some (ComputeModifiedUtf8Hash_view (ConvertUtf16ToUtf8 False True False us))"
  by (simp add: ComputeUtf16HashFromModifiedUtf8_def ComputeUtf16Hash_def hash_encode
      ComputeModifiedUtf8Hash_def ComputeModifiedUtf8Hash_view_def hash_bytes encode_nonzero)

end
