(* ===== verification/LockWord.thy ===== *)
theory LockWord
  imports Prelude
begin

text \<open>
  \<open>runtime/lock_word.h\<close> and \<open>lock_word-inl.h\<close>: the 32-bit lock word of an object.  The two
  highest bits tell what the word holds (a thin lock or nothing, a monitor, an identity hash code,
  a forwarding address), the two below them belong to the garbage collector, and the other 28 bits
  are the contents.  A failed \<open>CHECK\<close> is \<open>None\<close>; the \<open>DCHECK\<close>s on the state of the word are the
  hypotheses of the lemmas.  Shown here: every kind of word gives back what it was made of, and the
  setters of the collector's bits change nothing else.
\<close>

section \<open>Lock words\<close>

text \<open>The shifts of \<open>SizeShiftsAndMasks\<close>.\<close>

abbreviation kThinLockCountShift :: nat where "kThinLockCountShift \<equiv> 16"
abbreviation kReadBarrierStateShift :: nat where "kReadBarrierStateShift \<equiv> 28"
abbreviation kMarkBitStateShift :: nat where "kMarkBitStateShift \<equiv> 29"
abbreviation kGCStateShift :: nat where "kGCStateShift \<equiv> 28"
abbreviation kStateShift :: nat where "kStateShift \<equiv> 30"
abbreviation kForwardingAddressShift :: nat where "kForwardingAddressShift \<equiv> 3"
abbreviation kThinLockMaxOwner :: u32 where "kThinLockMaxOwner \<equiv> 0xffff"
abbreviation kThinLockMaxCount :: u32 where "kThinLockMaxCount \<equiv> 0xfff"
abbreviation kHashMask :: u32 where "kHashMask \<equiv> 0xfffffff"
abbreviation kGCStateMaskShifted :: u32 where "kGCStateMaskShifted \<equiv> 0x30000000"

definition FromThinLockId :: "u32 \<Rightarrow> u32 \<Rightarrow> u32 \<Rightarrow> u32 option" where
  "FromThinLockId thread_id count gc_state =
     (if thread_id \<le> kThinLockMaxOwner \<and> count \<le> kThinLockMaxCount
      then Some (thread_id OR push_bit kThinLockCountShift count OR push_bit kGCStateShift gc_state
                 OR push_bit kStateShift 0)
      else None)"

definition FromForwardingAddress :: "u32 \<Rightarrow> u32" where
  "FromForwardingAddress target = drop_bit kForwardingAddressShift target OR push_bit kStateShift 3"

definition FromHashCode :: "u32 \<Rightarrow> u32 \<Rightarrow> u32 option" where
  "FromHashCode hash_code gc_state =
     (if hash_code \<le> kHashMask
      then Some (hash_code OR push_bit kGCStateShift gc_state OR push_bit kStateShift 2)
      else None)"

definition FromDefault :: "u32 \<Rightarrow> u32" where
  "FromDefault gc_state = push_bit kGCStateShift gc_state"

text \<open>The constructor for a monitor takes the monitor's id.\<close>

definition LockWord_fat :: "u32 \<Rightarrow> u32 \<Rightarrow> u32" where
  "LockWord_fat monitor_id gc_state = monitor_id OR push_bit kGCStateShift gc_state OR push_bit kStateShift 1"

datatype LockState = kUnlocked | kThinLocked | kFatLocked | kHashCode | kForwardingAddress

text \<open>The flag says that the collector uses its bits: \<open>gUseReadBarrier || gUseUserfaultfd\<close>.\<close>

definition GetState :: "bool \<Rightarrow> u32 \<Rightarrow> LockState" where
  "GetState gc_bits value =
     (if (if gc_bits then value AND NOT kGCStateMaskShifted = 0 else value = 0) then kUnlocked
      else let internal_state = drop_bit kStateShift value AND 3 in
        if internal_state = 0 then kThinLocked
        else if internal_state = 2 then kHashCode
        else if internal_state = 3 then kForwardingAddress
        else kFatLocked)"

definition ReadBarrierState :: "u32 \<Rightarrow> u32" where
  "ReadBarrierState value = drop_bit kReadBarrierStateShift value AND 1"

definition GCState :: "u32 \<Rightarrow> u32" where
  "GCState value = drop_bit kGCStateShift (value AND kGCStateMaskShifted)"

definition SetReadBarrierState :: "u32 \<Rightarrow> u32 \<Rightarrow> u32" where
  "SetReadBarrierState rb_state value =
     (value AND NOT (push_bit kReadBarrierStateShift 1)) OR push_bit kReadBarrierStateShift (rb_state AND 1)"

definition MarkBitState :: "u32 \<Rightarrow> u32" where
  "MarkBitState value = drop_bit kMarkBitStateShift value AND 1"

definition SetMarkBitState :: "u32 \<Rightarrow> u32 \<Rightarrow> u32" where
  "SetMarkBitState mark_bit value =
     (value AND NOT (push_bit kMarkBitStateShift 1)) OR push_bit kMarkBitStateShift mark_bit"

definition ThinLockOwner :: "u32 \<Rightarrow> u32" where
  "ThinLockOwner value = value AND kThinLockMaxOwner"

definition ThinLockCount :: "u32 \<Rightarrow> u32" where
  "ThinLockCount value = drop_bit kThinLockCountShift value AND kThinLockMaxCount"

definition FatLockMonitor :: "u32 \<Rightarrow> u32" where
  "FatLockMonitor value = value AND kHashMask"

definition ForwardingAddress :: "u32 \<Rightarrow> u32" where
  "ForwardingAddress value = push_bit kForwardingAddressShift value"

definition GetHashCode :: "u32 \<Rightarrow> u32" where
  "GetHashCode value = value AND kHashMask"

definition LockWord_Equal :: "bool \<Rightarrow> u32 \<Rightarrow> u32 \<Rightarrow> bool" where
  "LockWord_Equal include_read_barrier_state lw1 lw2 =
     (if include_read_barrier_state then lw1 = lw2
      else lw1 AND NOT kGCStateMaskShifted = lw2 AND NOT kGCStateMaskShifted)"

section \<open>The three parts of a word\<close>

text \<open>
  The contents, the collector's bits and the state of a word, read as numbers of 28, 2 and 2 bits.
\<close>

definition contents :: "u32 \<Rightarrow> u32" where
  "contents w = take_bit 28 w"

definition gc_of :: "u32 \<Rightarrow> u32" where
  "gc_of w = take_bit 2 (drop_bit 28 w)"

definition tag_of :: "u32 \<Rightarrow> u32" where
  "tag_of w = drop_bit 30 w"

definition make_word :: "u32 \<Rightarrow> u32 \<Rightarrow> u32 \<Rightarrow> u32" where
  "make_word c g s = c OR push_bit 28 g OR push_bit 30 s"

lemma make_word_parts:
  assumes "c < 0x10000000" "g < 4" "s < 4"
  shows "contents (make_word c g s) = c" "gc_of (make_word c g s) = g" "tag_of (make_word c g s) = s"
proof -
  have b [simp]: "28 \<le> n \<Longrightarrow> \<not> bit c n" "2 \<le> n \<Longrightarrow> \<not> bit g n" "2 \<le> n \<Longrightarrow> \<not> bit s n" for n
    using bit_below [of c 28 n] bit_below [of g 2 n] bit_below [of s 2 n] assms by (auto simp: word_less_nat_alt)
  show "contents (make_word c g s) = c"
    unfolding contents_def make_word_def by (rule bit_word_eqI) (auto simp: bit_simps not_less [symmetric])
  show "gc_of (make_word c g s) = g"
    unfolding gc_of_def make_word_def by (rule bit_word_eqI) (auto simp: bit_simps not_less [symmetric])
  show "tag_of (make_word c g s) = s"
    unfolding tag_of_def make_word_def
    by (rule bit_word_eqI) (use bit_below [of s 2] assms(3) in \<open>auto simp: bit_simps word_less_nat_alt\<close>)
qed

lemma word_parts: "make_word (contents w) (gc_of w) (tag_of w) = w"
proof (rule bit_word_eqI)
  fix n assume "n < LENGTH(32)"
  then show "bit (make_word (contents w) (gc_of w) (tag_of w)) n = bit w n"
    unfolding contents_def gc_of_def tag_of_def make_word_def
    by (cases "n < 28"; cases "n < 30") (auto simp: bit_simps)
qed


lemma mask_words:
  "(0xffff :: u32) = mask 16" "(0xfff :: u32) = mask 12" "(0xfffffff :: u32) = mask 28"
  "(3 :: u32) = mask 2" "(0x30000000 :: u32) = push_bit 28 (mask 2)"
  by (simp_all add: mask_eq_exp_minus_1)

text \<open>The accessors read the parts.\<close>

named_theorems lock_word_rules \<open>accessors and constructors of lock words in terms of their parts\<close>

lemma GCState_eq [lock_word_rules]: "GCState w = gc_of w"
  unfolding GCState_def gc_of_def mask_words by (rule bit_word_eqI) (auto simp: bit_simps)

lemma tag_eq: "drop_bit 30 w AND 3 = tag_of w"
  unfolding tag_of_def mask_words by (rule bit_word_eqI) (auto simp: bit_simps dest: bit_imp_le_length)

lemma content_rules [lock_word_rules]:
  "FatLockMonitor w = contents w" "GetHashCode w = contents w"
  "ThinLockOwner w = take_bit 16 (contents w)" "ThinLockCount w = take_bit 12 (drop_bit 16 (contents w))"
  unfolding FatLockMonitor_def GetHashCode_def ThinLockOwner_def ThinLockCount_def contents_def mask_words
  by (rule bit_word_eqI; auto simp: bit_simps)+

lemma without_gc: "w AND NOT 0x30000000 = make_word (contents w) 0 (tag_of w)"
proof (rule bit_word_eqI)
  fix n assume "n < LENGTH(32)"
  then show "bit (w AND NOT 0x30000000) n = bit (make_word (contents w) 0 (tag_of w)) n"
    unfolding contents_def tag_of_def make_word_def mask_words
    by (cases "n < 28"; cases "n < 30") (auto simp: bit_simps)
qed

lemma parts_bounded: "contents w < 0x10000000" "gc_of w < 4" "tag_of w < 4"
proof -
  show "contents w < 0x10000000" "gc_of w < 4"
    using take_bit_nat_less_exp [of 28 "unat w"] take_bit_nat_less_exp [of 2 "unat (drop_bit 28 w)"]
    by (simp_all add: contents_def gc_of_def word_less_nat_alt unsigned_take_bit_eq)
  have "unat w < 4 * 1073741824" using unsigned_less [of w] by simp
  then have "unat w div 1073741824 < 4" by (rule less_mult_imp_div_less)
  then show "tag_of w < 4" by (simp add: tag_of_def word_less_nat_alt unat_drop_bit_eq drop_bit_eq_div [of _ "unat w"])
qed

lemma word_eq_iff_parts: "v = w \<longleftrightarrow> contents v = contents w \<and> gc_of v = gc_of w \<and> tag_of v = tag_of w"
proof
  assume "contents v = contents w \<and> gc_of v = gc_of w \<and> tag_of v = tag_of w"
  then have "make_word (contents v) (gc_of v) (tag_of v) = make_word (contents w) (gc_of w) (tag_of w)" by simp
  then show "v = w" by (simp only: word_parts)
qed simp

lemma without_gc_eq: "v AND NOT 0x30000000 = w AND NOT 0x30000000 \<longleftrightarrow> contents v = contents w \<and> tag_of v = tag_of w"
  unfolding without_gc by (subst word_eq_iff_parts) (simp add: make_word_parts parts_bounded)

lemma Equal_iff [lock_word_rules]:
  "LockWord_Equal False v w \<longleftrightarrow> contents v = contents w \<and> tag_of v = tag_of w"
  unfolding LockWord_Equal_def if_False by (rule without_gc_eq)

lemma GetState_eq [lock_word_rules]:
  "GetState True w =
     (if contents w = 0 \<and> tag_of w = 0 then kUnlocked
      else if tag_of w = 0 then kThinLocked else if tag_of w = 2 then kHashCode
      else if tag_of w = 3 then kForwardingAddress else kFatLocked)"
proof -
  have "w AND NOT 0x30000000 = 0 \<longleftrightarrow> contents w = 0 \<and> tag_of w = 0"
    using without_gc_eq [of w 0] by (simp add: contents_def tag_of_def)
  then show ?thesis by (simp add: GetState_def tag_eq Let_def)
qed

text \<open>The constructors put words together.\<close>

definition thin_contents :: "u32 \<Rightarrow> u32 \<Rightarrow> u32" where
  "thin_contents thread_id count = thread_id OR push_bit 16 count"

lemma thin_contents_parts:
  assumes "t \<le> kThinLockMaxOwner" "c \<le> kThinLockMaxCount"
  shows "take_bit 16 (thin_contents t c) = t" "take_bit 12 (drop_bit 16 (thin_contents t c)) = c"
    "thin_contents t c < 0x10000000"
proof -
  have b [simp]: "16 \<le> n \<Longrightarrow> \<not> bit t n" "12 \<le> n \<Longrightarrow> \<not> bit c n" for n
    using bit_below [of t 16 n] bit_below [of c 12 n] assms by (auto simp: word_le_nat_alt)
  show "take_bit 16 (thin_contents t c) = t" "take_bit 12 (drop_bit 16 (thin_contents t c)) = c"
    unfolding thin_contents_def
    by (rule bit_word_eqI; use bit_below [of t 16] bit_below [of c 12] assms in \<open>fastforce simp: bit_simps word_le_nat_alt\<close>)+
  have "take_bit 28 (thin_contents t c) = thin_contents t c"
    unfolding thin_contents_def
    by (rule bit_word_eqI) (use bit_below [of t 16] bit_below [of c 12] assms in \<open>fastforce simp: bit_simps word_le_nat_alt\<close>)
  then show "thin_contents t c < 0x10000000" using parts_bounded(1) [of "thin_contents t c"] by (simp add: contents_def)
qed

lemma thin_contents_eq_0: "t \<le> kThinLockMaxOwner \<Longrightarrow> c \<le> kThinLockMaxCount \<Longrightarrow> thin_contents t c = 0 \<longleftrightarrow> t = 0 \<and> c = 0"
  by (metis (no_types) drop_bit_of_0 or.right_neutral push_bit_of_0 take_bit_of_0 thin_contents_def thin_contents_parts(1,2))

lemma constructor_rules [lock_word_rules]:
  "t \<le> kThinLockMaxOwner \<Longrightarrow> c \<le> kThinLockMaxCount \<Longrightarrow> FromThinLockId t c g = Some (make_word (thin_contents t c) g 0)"
  "h \<le> kHashMask \<Longrightarrow> FromHashCode h g = Some (make_word h g 2)"
  "FromDefault g = make_word 0 g 0" "LockWord_fat m g = make_word m g 1"
  by (simp_all add: FromThinLockId_def FromHashCode_def FromDefault_def LockWord_fat_def make_word_def
      thin_contents_def or.assoc)

lemma thin_word:
  "contents w = thin_contents (ThinLockOwner w) (ThinLockCount w)"
  "ThinLockOwner w \<le> kThinLockMaxOwner" "ThinLockCount w \<le> kThinLockMaxCount"
proof -
  show "contents w = thin_contents (ThinLockOwner w) (ThinLockCount w)"
    unfolding lock_word_rules thin_contents_def contents_def
    by (rule bit_word_eqI) (auto simp: bit_simps)
  show "ThinLockOwner w \<le> kThinLockMaxOwner" "ThinLockCount w \<le> kThinLockMaxCount"
    unfolding ThinLockOwner_def ThinLockCount_def by (rule word_and_le1)+
qed

lemma forwarding_word:
  "GetState True (FromForwardingAddress target) = kForwardingAddress"
  "target AND 7 = 0 \<Longrightarrow> ForwardingAddress (FromForwardingAddress target) = target"
proof -
  have "tag_of (FromForwardingAddress target) = 3"
    unfolding tag_of_def FromForwardingAddress_def mask_words
    by (rule bit_word_eqI) (auto simp: bit_simps dest: bit_imp_le_length)
  then show "GetState True (FromForwardingAddress target) = kForwardingAddress" by (simp add: GetState_eq)
  assume "target AND 7 = 0"
  then have "take_bit 3 target = 0" by (simp add: take_bit_eq_mask mask_eq_exp_minus_1)
  then have low: "n < 3 \<Longrightarrow> \<not> bit target n" for n by (metis bit_0_eq bit_take_bit_iff bot_apply bot_bool_def)
  define three :: u32 where "three = 3"
  have three: "bit three n \<longleftrightarrow> n < 2" for n unfolding three_def mask_words by (auto simp: bit_simps)
  show "ForwardingAddress (FromForwardingAddress target) = target"
    unfolding ForwardingAddress_def FromForwardingAddress_def three_def [symmetric]
  proof (rule bit_word_eqI)
    fix n assume "n < LENGTH(32)"
    then show "bit (push_bit 3 (drop_bit 3 target OR push_bit 30 three)) n = bit target n"
      using low [of n] by (cases "n < 3") (auto simp: bit_simps three)
  qed
qed

lemma setters_keep:
  assumes "r < 2"
  shows "contents (SetReadBarrierState r w) = contents w" "tag_of (SetReadBarrierState r w) = tag_of w"
    "MarkBitState (SetReadBarrierState r w) = MarkBitState w" "ReadBarrierState (SetReadBarrierState r w) = r"
    "contents (SetMarkBitState r w) = contents w" "tag_of (SetMarkBitState r w) = tag_of w"
    "ReadBarrierState (SetMarkBitState r w) = ReadBarrierState w" "MarkBitState (SetMarkBitState r w) = r"
proof -
  define one :: u32 where "one = 1"
  have b: "bit one n \<longleftrightarrow> n = 0" "bit r n \<Longrightarrow> n = 0" for n
    using bit_below [of r 1 n] assms by (auto simp: one_def bit_1_iff word_less_nat_alt)
  show "contents (SetReadBarrierState r w) = contents w" "tag_of (SetReadBarrierState r w) = tag_of w"
    "MarkBitState (SetReadBarrierState r w) = MarkBitState w" "ReadBarrierState (SetReadBarrierState r w) = r"
    "contents (SetMarkBitState r w) = contents w" "tag_of (SetMarkBitState r w) = tag_of w"
    "ReadBarrierState (SetMarkBitState r w) = ReadBarrierState w" "MarkBitState (SetMarkBitState r w) = r"
    unfolding contents_def tag_of_def SetReadBarrierState_def SetMarkBitState_def ReadBarrierState_def
      MarkBitState_def one_def [symmetric]
    by (rule bit_word_eqI; auto simp: bit_simps b dest: b(2) bit_imp_le_length)+
qed


section \<open>Round trips\<close>

lemma thin_lock_word:
  assumes "t \<le> kThinLockMaxOwner" "c \<le> kThinLockMaxCount" "g < 4"
  defines "w \<equiv> make_word (thin_contents t c) g 0"
  shows "GetState True w = (if t = 0 \<and> c = 0 then kUnlocked else kThinLocked)"
    "ThinLockOwner w = t" "ThinLockCount w = c" "GCState w = g"
  using assms thin_contents_parts [OF assms(1,2)] thin_contents_eq_0 [OF assms(1,2)]
  by (simp_all add: lock_word_rules make_word_parts w_def)

text \<open>
  C18. Lock words: a thin lock word gives back its owner, recursion count and collector bits and
  is unlocked only for owner and count zero; a word with a hash code or a monitor id gives it back
  in its own state; the forwarding address of an aligned object comes back; and the setters of the
  read barrier state and of the mark bit change that bit only, so they keep the state and what the
  word holds.
\<close>

theorem lock_word_roundtrip:
  assumes "thread_id \<le> kThinLockMaxOwner" "count \<le> kThinLockMaxCount" "gc_state < 4"
    and "hash \<le> kHashMask" "target AND 7 = 0" "r < 2"
  shows "\<exists>thin hashed. FromThinLockId thread_id count gc_state = Some thin \<and> FromHashCode hash gc_state = Some hashed \<and>
    GetState True thin = (if thread_id = 0 \<and> count = 0 then kUnlocked else kThinLocked) \<and>
    ThinLockOwner thin = thread_id \<and> ThinLockCount thin = count \<and> GCState thin = gc_state \<and>
    GetState True hashed = kHashCode \<and> GetHashCode hashed = hash \<and> GCState hashed = gc_state \<and>
    GetState True (LockWord_fat hash gc_state) = kFatLocked \<and> FatLockMonitor (LockWord_fat hash gc_state) = hash \<and>
    GCState (LockWord_fat hash gc_state) = gc_state \<and>
    GetState True (FromDefault gc_state) = kUnlocked \<and> GCState (FromDefault gc_state) = gc_state \<and>
    GetState True (FromForwardingAddress target) = kForwardingAddress \<and>
    ForwardingAddress (FromForwardingAddress target) = target \<and>
    LockWord_Equal False (SetReadBarrierState r w) w \<and> ReadBarrierState (SetReadBarrierState r w) = r \<and>
    MarkBitState (SetReadBarrierState r w) = MarkBitState w \<and>
    LockWord_Equal False (SetMarkBitState r w) w \<and> MarkBitState (SetMarkBitState r w) = r \<and>
    ReadBarrierState (SetMarkBitState r w) = ReadBarrierState w"
proof -
  have h: "hash < 0x10000000" using assms(4) by (simp add: word_less_nat_alt word_le_nat_alt)
  note parts = make_word_parts [OF h assms(3)] make_word_parts [OF _ assms(3), of 0]
  show ?thesis
    using thin_lock_word [OF assms(1-3)] forwarding_word [of target] setters_keep [OF assms(6)] assms(5)
    by (simp add: constructor_rules assms(1-4) parts GetState_eq GCState_eq content_rules Equal_iff)
qed

theorem lock_word_roundtrip_witness:
  "\<exists>thin hashed. FromThinLockId 7 2 1 = Some thin \<and> FromHashCode 0x1234567 1 = Some hashed \<and>
    GetState True thin = (if (7 :: u32) = 0 \<and> (2 :: u32) = 0 then kUnlocked else kThinLocked) \<and>
    ThinLockOwner thin = 7 \<and> ThinLockCount thin = 2 \<and> GCState thin = 1 \<and>
    GetState True hashed = kHashCode \<and> GetHashCode hashed = 0x1234567 \<and> GCState hashed = 1 \<and>
    GetState True (LockWord_fat 0x1234567 1) = kFatLocked \<and> FatLockMonitor (LockWord_fat 0x1234567 1) = 0x1234567 \<and>
    GCState (LockWord_fat 0x1234567 1) = 1 \<and>
    GetState True (FromDefault 1) = kUnlocked \<and> GCState (FromDefault 1) = 1 \<and>
    GetState True (FromForwardingAddress 0x70001238) = kForwardingAddress \<and>
    ForwardingAddress (FromForwardingAddress 0x70001238) = 0x70001238 \<and>
    LockWord_Equal False (SetReadBarrierState 1 0x20007) 0x20007 \<and> ReadBarrierState (SetReadBarrierState 1 0x20007) = 1 \<and>
    MarkBitState (SetReadBarrierState 1 0x20007) = MarkBitState 0x20007 \<and>
    LockWord_Equal False (SetMarkBitState 1 0x20007) 0x20007 \<and> MarkBitState (SetMarkBitState 1 0x20007) = 1 \<and>
    ReadBarrierState (SetMarkBitState 1 0x20007) = ReadBarrierState 0x20007"
  by (rule lock_word_roundtrip) code_simp+

end
