(* ===== verification/Monitor.thy ===== *)
theory Monitor
  imports LockWord
begin

text \<open>
  Object locks: \<open>Monitor::MonitorEnter\<close>, \<open>MonitorExit\<close> and what they call in
  \<open>runtime/monitor.cc\<close>, and \<open>Object::IdentityHashCodeHelper\<close> of \<open>runtime/mirror/object.cc\<close>, for
  one object and any number of threads.  The threads share the lock word of the object and the
  monitors; each of them is at a \<open>point\<close> of the code, and a step is one access to what they share.
  A compare-and-set that may fail spuriously and every choice that depends on timing (whether a
  contended thread spins or inflates, whether another thread could be suspended) have several
  outcomes, so the operations return the list of their outcomes.

  The model covers builds in which the collector uses its bits of the lock word; \<open>rb\<close> is
  \<open>gUseReadBarrier\<close>.  Memory is sequentially consistent.  Waiting and notification, tracing,
  profiling of contention and the counter that bounds spinning are left out.
\<close>

section \<open>State\<close>

text \<open>Threads are named by their thread id; 0 stands for no thread.\<close>

abbreviation valid_thread :: "u32 \<Rightarrow> bool" where
  "valid_thread t \<equiv> t \<noteq> 0 \<and> t \<le> kThinLockMaxOwner"

record Monitor =
  monitor_lock :: u32
  num_waiters :: nat
  monitor_owner :: u32
  lock_count :: u32
  hash_code :: u32

record object_state =
  lock_word :: u32
  monitors :: "u32 \<Rightarrow> Monitor option"

text \<open>The operations that loop on the lock word: \<open>MonitorEnter\<close> with its argument \<open>trylock\<close> and its
  variable \<open>inflation_attempt\<close>, and \<open>IdentityHashCodeHelper\<close> with its argument \<open>kAllowInflation\<close>.\<close>

datatype call = Enter bool nat | IdentityHash bool

abbreviation (input) kMaxInflationAttempts :: nat where "kMaxInflationAttempts \<equiv> 100"

datatype point =
    Outside                          \<comment> \<open>in none of the operations\<close>
  | Loop call                        \<comment> \<open>before the read of the lock word\<close>
  | Switch call u32                  \<comment> \<open>has read the lock word\<close>
  | Spinning call                    \<comment> \<open>\<open>CheckSuspend\<close> and \<open>sched_yield\<close>\<close>
  | Suspending call u32 u32          \<comment> \<open>in \<open>SuspendThreadByThreadId\<close>: owner and hash code\<close>
  | Suspended call u32 u32           \<comment> \<open>has suspended the owner, not yet runnable itself\<close>
  | Recheck call u32 u32             \<comment> \<open>runnable, before it reads the lock word again\<close>
  | Create call u32 u32              \<comment> \<open>in \<open>Inflate\<close>: owner (or 0) and hash code\<close>
  | Install call u32 u32 u32         \<comment> \<open>has created the monitor with this id\<close>
  | Publish call u32 u32 u32 u32     \<comment> \<open>has read the lock word in \<open>Install\<close>\<close>
  | Resume call u32 bool             \<comment> \<open>after \<open>Install\<close>, with its answer\<close>
  | TryOwner bool u32                \<comment> \<open>\<open>TryLock\<close>: before the read of the owner\<close>
  | TryMutex bool u32                \<comment> \<open>\<open>TryLock\<close>: before \<open>ExclusiveTryLock\<close>\<close>
  | StoreOwner u32                   \<comment> \<open>\<open>TryLock\<close>: has the mutex\<close>
  | Contend u32                      \<comment> \<open>\<open>Lock\<close>: before it counts itself as a waiter\<close>
  | Blocked u32                      \<comment> \<open>\<open>Lock\<close>: waits for the mutex, not runnable\<close>
  | Woken u32                        \<comment> \<open>\<open>Lock\<close>: has the mutex, not yet runnable\<close>
  | Unwait u32                       \<comment> \<open>\<open>Lock\<close>: has stored the owner\<close>
  | ExitLoop
  | ExitSwitch u32
  | UnlockOwner u32
  | UnlockMutex u32
  | MonitorHash u32                  \<comment> \<open>\<open>Monitor::GetHashCode\<close>: before the first read\<close>
  | MonitorHashCheck u32 u32         \<comment> \<open>has read this hash code, before \<open>HasHashCode\<close> reads again\<close>
  | MonitorHashSet u32
  | MonitorHashLoad u32
  | Overflow                         \<comment> \<open>abort: the recursion count of a monitor wrapped\<close>
  | TooManyAttempts                  \<comment> \<open>abort: too many inflation attempts\<close>
  | Abort                            \<comment> \<open>another \<open>CHECK\<close> failed or \<open>LOG(FATAL)\<close> was reached\<close>

text \<open>What a step reports: the end of an operation with its answer.\<close>

datatype event = Tau | Entered | NotEntered | Exited | NotExited | Hashed u32

type_synonym outcome = "point \<times> object_state \<times> event"

section \<open>Operations\<close>

definition CasLockWord :: "bool \<Rightarrow> u32 \<Rightarrow> u32 \<Rightarrow> object_state \<Rightarrow> (bool \<times> object_state) list" where
  "CasLockWord weak old_val new_val s =
     (if lock_word s = old_val
      then (True, s\<lparr>lock_word := new_val\<rparr>) # (if weak then [(False, s)] else [])
      else [(False, s)])"

text \<open>The owner inflates its lock itself; another thread has to suspend the owner first.\<close>

definition InflateThinLocked :: "call \<Rightarrow> u32 \<Rightarrow> u32 \<Rightarrow> u32 \<Rightarrow> object_state \<Rightarrow> outcome list" where
  "InflateThinLocked c self lw hash s =
     (let owner_thread_id = ThinLockOwner lw in
      if owner_thread_id = self then [(Create c self hash, s, Tau)]
      else [(Suspending c owner_thread_id hash, s, Tau)])"

definition InflateThinLocked_recheck :: "call \<Rightarrow> u32 \<Rightarrow> u32 \<Rightarrow> object_state \<Rightarrow> outcome list" where
  "InflateThinLocked_recheck c owner_thread_id hash s =
     (let lw = lock_word s in
      if GetState True lw = kThinLocked \<and> ThinLockOwner lw = owner_thread_id
      then [(Create c owner_thread_id hash, s, Tau)]
      else [(Resume c owner_thread_id False, s, Tau)])"

definition Install_read ::
  "(u32 \<Rightarrow> bool) \<Rightarrow> u32 \<Rightarrow> call \<Rightarrow> u32 \<Rightarrow> u32 \<Rightarrow> u32 \<Rightarrow> object_state \<Rightarrow> outcome list" where
  "Install_read is_suspended self c owner hash m s =
     (let lw = lock_word s in
      if \<not> (owner = 0 \<or> owner = self \<or> is_suspended owner) then [(Abort, s, Tau)]
      else case GetState True lw of
        kThinLocked \<Rightarrow> (if owner \<noteq> 0 \<and> owner = ThinLockOwner lw then [(Publish c owner hash m lw, s, Tau)]
                        else [(Abort, s, Tau)])
      | kHashCode \<Rightarrow> (if hash = GetHashCode lw then [(Publish c owner hash m lw, s, Tau)] else [(Abort, s, Tau)])
      | kFatLocked \<Rightarrow> [(Resume c owner False, s, Tau)]
      | _ \<Rightarrow> [(Abort, s, Tau)])"

definition Install_publish :: "call \<Rightarrow> u32 \<Rightarrow> u32 \<Rightarrow> u32 \<Rightarrow> u32 \<Rightarrow> object_state \<Rightarrow> outcome list" where
  "Install_publish c owner hash m lw s =
     (let thin = (GetState True lw = kThinLocked);
          monitor = \<lparr>monitor_lock = (if thin then owner else 0), num_waiters = 0, monitor_owner = owner,
            lock_count = (if thin then ThinLockCount lw else 0), hash_code = hash\<rparr>
      in map (\<lambda>(success, s).
             if success then (Resume c owner True, s\<lparr>monitors := (monitors s)(m \<mapsto> monitor)\<rparr>, Tau)
             else (Resume c owner False, s, Tau))
           (CasLockWord True lw (LockWord_fat m (GCState lw)) s))"

definition Inflate_finish :: "call \<Rightarrow> bool \<Rightarrow> object_state \<Rightarrow> outcome list" where
  "Inflate_finish c installed s =
     (if installed \<and> GetState True (lock_word s) \<noteq> kFatLocked then [(Abort, s, Tau)] else [(Loop c, s, Tau)])"

text \<open>A turn of the loop of \<open>MonitorEnter\<close> after its read of the lock word; each inflation of a thin lock
  counts as an attempt.  What precedes the read, the check of the number of attempts, is the step
  at \<open>Loop\<close> in \<open>thread_step\<close>.\<close>

definition MonitorEnter :: "bool \<Rightarrow> u32 \<Rightarrow> bool \<Rightarrow> nat \<Rightarrow> u32 \<Rightarrow> object_state \<Rightarrow> outcome list" where
  "MonitorEnter rb self trylock attempt lw s =
     (let again = Enter trylock attempt;
          cas = (\<lambda>thin. map (\<lambda>(success, s). if success then (Outside, s, Entered) else (Loop again, s, Tau))
                          (CasLockWord True lw thin s)) in
      case GetState True lw of
        kUnlocked \<Rightarrow> (case FromThinLockId self 0 (GCState lw) of None \<Rightarrow> [(Abort, s, Tau)] | Some thin \<Rightarrow> cas thin)
      | kThinLocked \<Rightarrow>
          (if ThinLockOwner lw = self then
             let new_count = ThinLockCount lw + 1 in
             if new_count \<le> kThinLockMaxCount then
               (case FromThinLockId self new_count (GCState lw) of
                  None \<Rightarrow> [(Abort, s, Tau)]
                | Some thin \<Rightarrow> if \<not> rb then [(Outside, s\<lparr>lock_word := thin\<rparr>, Entered)] else cas thin)
             else InflateThinLocked (Enter trylock (attempt + 1)) self lw 0 s
           else if trylock then [(Outside, s, NotEntered)]
           else (Loop again, s, Tau) # (Spinning again, s, Tau)
             # InflateThinLocked (Enter trylock (attempt + 1)) self lw 0 s)
      | kFatLocked \<Rightarrow> [(TryOwner trylock (FatLockMonitor lw), s, Tau)]
      | kHashCode \<Rightarrow> [(Create again 0 (GetHashCode lw), s, Tau)]
      | kForwardingAddress \<Rightarrow> [(Abort, s, Tau)])"

definition MonitorExit :: "bool \<Rightarrow> u32 \<Rightarrow> u32 \<Rightarrow> object_state \<Rightarrow> outcome list" where
  "MonitorExit rb self lw s =
     (case GetState True lw of
        kHashCode \<Rightarrow> [(Outside, s, NotExited)]
      | kUnlocked \<Rightarrow> [(Outside, s, NotExited)]
      | kThinLocked \<Rightarrow>
          (if ThinLockOwner lw \<noteq> self then [(Outside, s, NotExited)]
           else case (if ThinLockCount lw \<noteq> 0 then FromThinLockId self (ThinLockCount lw - 1) (GCState lw)
                      else Some (FromDefault (GCState lw))) of
               None \<Rightarrow> [(Abort, s, Tau)]
             | Some new_lw \<Rightarrow>
                 if \<not> rb then [(Outside, s\<lparr>lock_word := new_lw\<rparr>, Exited)]
                 else map (\<lambda>(success, s). if success then (Outside, s, Exited) else (ExitLoop, s, Tau))
                        (CasLockWord True lw new_lw s))
      | kFatLocked \<Rightarrow> [(UnlockOwner (FatLockMonitor lw), s, Tau)]
      | kForwardingAddress \<Rightarrow> [(Abort, s, Tau)])"

definition IdentityHashCodeHelper :: "bool \<Rightarrow> u32 \<Rightarrow> u32 \<Rightarrow> u32 \<Rightarrow> object_state \<Rightarrow> outcome list" where
  "IdentityHashCodeHelper allow_inflation self generated lw s =
     (case GetState True lw of
        kUnlocked \<Rightarrow>
          (case FromHashCode generated (GCState lw) of
             None \<Rightarrow> [(Abort, s, Tau)]
           | Some hash_word \<Rightarrow>
               map (\<lambda>(success, s). if success then (Outside, s, Hashed (GetHashCode hash_word))
                                   else (Loop (IdentityHash allow_inflation), s, Tau))
                 (CasLockWord False lw hash_word s))
      | kThinLocked \<Rightarrow>
          (if \<not> allow_inflation then [(Outside, s, Hashed 0)]
           else InflateThinLocked (IdentityHash allow_inflation) self lw generated s)
      | kFatLocked \<Rightarrow> [(MonitorHash (FatLockMonitor lw), s, Tau)]
      | kHashCode \<Rightarrow> [(Outside, s, Hashed (GetHashCode lw))]
      | kForwardingAddress \<Rightarrow> [(Abort, s, Tau)])"

text \<open>A step inside a monitor; a pointer to a monitor that is gone is \<open>Abort\<close>.\<close>

definition with_monitor :: "u32 \<Rightarrow> object_state \<Rightarrow> (Monitor \<Rightarrow> (point \<times> Monitor \<times> event) list) \<Rightarrow> outcome list" where
  "with_monitor m s f =
     (case monitors s m of
        None \<Rightarrow> [(Abort, s, Tau)]
      | Some mon \<Rightarrow> map (\<lambda>(p, mon, e). (p, s\<lparr>monitors := (monitors s)(m \<mapsto> mon)\<rparr>, e)) (f mon))"

definition TryLock_owner :: "u32 \<Rightarrow> bool \<Rightarrow> u32 \<Rightarrow> Monitor \<Rightarrow> (point \<times> Monitor \<times> event) list" where
  "TryLock_owner self trylock m mon =
     (if monitor_owner mon = self then
        (if lock_count mon + 1 \<noteq> 0 then [(Outside, mon\<lparr>lock_count := lock_count mon + 1\<rparr>, Entered)]
         else [(Overflow, mon, Tau)])
      else [(TryMutex trylock m, mon, Tau)])"

definition TryLock_mutex :: "u32 \<Rightarrow> bool \<Rightarrow> u32 \<Rightarrow> Monitor \<Rightarrow> (point \<times> Monitor \<times> event) list" where
  "TryLock_mutex self trylock m mon =
     (if monitor_lock mon = 0 then [(StoreOwner m, mon\<lparr>monitor_lock := self\<rparr>, Tau)]
      else if trylock then [(Outside, mon, NotEntered)]
      else [(Contend m, mon, Tau)])"

definition TryLock_store :: "u32 \<Rightarrow> Monitor \<Rightarrow> (point \<times> Monitor \<times> event) list" where
  "TryLock_store self mon =
     (if lock_count mon = 0 then [(Outside, mon\<lparr>monitor_owner := self\<rparr>, Entered)] else [(Abort, mon, Tau)])"

definition Lock_block :: "u32 \<Rightarrow> u32 \<Rightarrow> Monitor \<Rightarrow> (point \<times> Monitor \<times> event) list" where
  "Lock_block self m mon =
     (if monitor_lock mon = 0 then [(Woken m, mon\<lparr>monitor_lock := self\<rparr>, Tau)] else [])"

definition Unlock :: "u32 \<Rightarrow> u32 \<Rightarrow> Monitor \<Rightarrow> (point \<times> Monitor \<times> event) list" where
  "Unlock self m mon =
     (if monitor_owner mon = self then
        (if lock_count mon = 0 then [(UnlockMutex m, mon\<lparr>monitor_owner := 0\<rparr>, Tau)]
         else [(Outside, mon\<lparr>lock_count := lock_count mon - 1\<rparr>, Exited)])
      else [(Outside, mon, NotExited)])"

text \<open>\<open>GetHashCode\<close> after its first read, of \<open>hc\<close>.\<close>

definition Monitor_GetHashCode :: "u32 \<Rightarrow> u32 \<Rightarrow> Monitor \<Rightarrow> (point \<times> Monitor \<times> event) list" where
  "Monitor_GetHashCode m hc mon =
     (if hash_code mon \<noteq> 0 then [(Outside, mon, Hashed hc)] else [(MonitorHashSet m, mon, Tau)])"

text \<open>
  The outcomes of the next step of a thread.  Which threads are suspended, the id of a new monitor
  and a generated hash code are arguments.
\<close>

fun thread_step :: "bool \<Rightarrow> (u32 \<Rightarrow> bool) \<Rightarrow> u32 \<Rightarrow> u32 \<Rightarrow> u32 \<Rightarrow> point \<Rightarrow> object_state \<Rightarrow> outcome list" where
  "thread_step rb is_suspended self new_id generated (Loop c) s =
     (case c of
        Enter trylock attempt \<Rightarrow>
          (if kMaxInflationAttempts \<le> attempt then [(TooManyAttempts, s, Tau)] else [(Switch c (lock_word s), s, Tau)])
      | IdentityHash allow \<Rightarrow> [(Switch c (lock_word s), s, Tau)])"
| "thread_step rb is_suspended self new_id generated (Switch (Enter trylock attempt) lw) s =
     MonitorEnter rb self trylock attempt lw s"
| "thread_step rb is_suspended self new_id generated (Switch (IdentityHash allow) lw) s =
     IdentityHashCodeHelper allow self generated lw s"
| "thread_step rb is_suspended self new_id generated (Spinning c) s = [(Loop c, s, Tau)]"
| "thread_step rb is_suspended self new_id generated (Suspending c owner hash) s = [(Loop c, s, Tau)]"
| "thread_step rb is_suspended self new_id generated (Suspended c owner hash) s = [(Recheck c owner hash, s, Tau)]"
| "thread_step rb is_suspended self new_id generated (Recheck c owner hash) s = InflateThinLocked_recheck c owner hash s"
| "thread_step rb is_suspended self new_id generated (Create c owner hash) s =
     (if owner = 0 \<or> owner = self \<or> is_suspended owner then [(Install c owner hash new_id, s, Tau)] else [(Abort, s, Tau)])"
| "thread_step rb is_suspended self new_id generated (Install c owner hash m) s = Install_read is_suspended self c owner hash m s"
| "thread_step rb is_suspended self new_id generated (Publish c owner hash m lw) s = Install_publish c owner hash m lw s"
| "thread_step rb is_suspended self new_id generated (Resume c owner installed) s = Inflate_finish c installed s"
| "thread_step rb is_suspended self new_id generated (TryOwner trylock m) s = with_monitor m s (TryLock_owner self trylock m)"
| "thread_step rb is_suspended self new_id generated (TryMutex trylock m) s = with_monitor m s (TryLock_mutex self trylock m)"
| "thread_step rb is_suspended self new_id generated (StoreOwner m) s = with_monitor m s (TryLock_store self)"
| "thread_step rb is_suspended self new_id generated (Contend m) s =
     with_monitor m s (\<lambda>mon. [(Blocked m, mon\<lparr>num_waiters := num_waiters mon + 1\<rparr>, Tau)])"
| "thread_step rb is_suspended self new_id generated (Blocked m) s = with_monitor m s (Lock_block self m)"
| "thread_step rb is_suspended self new_id generated (Woken m) s =
     with_monitor m s (\<lambda>mon. [(Unwait m, mon\<lparr>monitor_owner := self\<rparr>, Tau)])"
| "thread_step rb is_suspended self new_id generated (Unwait m) s =
     with_monitor m s (\<lambda>mon. [(Outside, mon\<lparr>num_waiters := num_waiters mon - 1\<rparr>, Entered)])"
| "thread_step rb is_suspended self new_id generated ExitLoop s = [(ExitSwitch (lock_word s), s, Tau)]"
| "thread_step rb is_suspended self new_id generated (ExitSwitch lw) s = MonitorExit rb self lw s"
| "thread_step rb is_suspended self new_id generated (UnlockOwner m) s = with_monitor m s (Unlock self m)"
| "thread_step rb is_suspended self new_id generated (UnlockMutex m) s =
     with_monitor m s (\<lambda>mon. [(Outside, mon\<lparr>monitor_lock := 0\<rparr>, Exited)])"
| "thread_step rb is_suspended self new_id generated (MonitorHash m) s =
     with_monitor m s (\<lambda>mon. [(MonitorHashCheck m (hash_code mon), mon, Tau)])"
| "thread_step rb is_suspended self new_id generated (MonitorHashCheck m hc) s = with_monitor m s (Monitor_GetHashCode m hc)"
| "thread_step rb is_suspended self new_id generated (MonitorHashSet m) s =
     with_monitor m s (\<lambda>mon. [(MonitorHashLoad m, if hash_code mon = 0 then mon\<lparr>hash_code := generated\<rparr> else mon, Tau)])"
| "thread_step rb is_suspended self new_id generated (MonitorHashLoad m) s =
     with_monitor m s (\<lambda>mon. [(Outside, mon, Hashed (hash_code mon))])"
| "thread_step rb is_suspended self new_id generated p s = []"

text \<open>
  \<open>Deflate\<close>, which runs while the threads are suspended.  Its answer is whether the object has no
  monitor afterwards.
\<close>

definition Deflate :: "object_state \<Rightarrow> (bool \<times> object_state) option" where
  "Deflate s =
     (let lw = lock_word s in
      if GetState True lw = kFatLocked then
        (case monitors s (FatLockMonitor lw) of
           None \<Rightarrow> None
         | Some mon \<Rightarrow>
             if 0 < num_waiters mon then Some (False, s)
             else if monitor_lock mon \<noteq> 0 then Some (False, s)
             else do { new_lw \<leftarrow> (if hash_code mon \<noteq> 0 then FromHashCode (hash_code mon) (GCState lw)
                                 else Some (FromDefault (GCState lw)));
                       Some (True, s\<lparr>lock_word := new_lw, monitors := (monitors s)(FatLockMonitor lw := None)\<rparr>) })
      else Some (True, s))"

section \<open>The system\<close>

record system =
  obj :: object_state
  point_of :: "u32 \<Rightarrow> point"
  held :: "u32 \<Rightarrow> nat"

text \<open>
  Where a thread can be suspended: outside, at a suspension check, and where it has given up the
  right to run managed code.  The thread that a thread keeps suspended.
\<close>

fun stoppable :: "point \<Rightarrow> bool" where
  "stoppable Outside = True"
| "stoppable (Spinning c) = True"
| "stoppable (Suspending c t h) = True"
| "stoppable (Suspended c t h) = True"
| "stoppable (Blocked m) = True"
| "stoppable (Woken m) = True"
| "stoppable p = False"

fun holding :: "u32 \<Rightarrow> point \<Rightarrow> u32 option" where
  "holding self (Suspended c t h) = Some t"
| "holding self (Recheck c t h) = Some t"
| "holding self (Create c t h) = (if t = 0 \<or> t = self then None else Some t)"
| "holding self (Install c t h m) = (if t = 0 \<or> t = self then None else Some t)"
| "holding self (Publish c t h m lw) = (if t = 0 \<or> t = self then None else Some t)"
| "holding self (Resume c t b) = (if t = 0 \<or> t = self then None else Some t)"
| "holding self p = None"

definition suspended :: "system \<Rightarrow> u32 \<Rightarrow> bool" where
  "suspended y t \<longleftrightarrow> (\<exists>u. holding u (point_of y u) = Some t)"

definition IsSuspended :: "system \<Rightarrow> u32 \<Rightarrow> bool" where
  "IsSuspended y t \<longleftrightarrow> suspended y t \<and> stoppable (point_of y t)"

fun private_id :: "point \<Rightarrow> u32 option" where
  "private_id (Install c t h m) = Some m"
| "private_id (Publish c t h m lw) = Some m"
| "private_id p = None"

definition unused_id :: "system \<Rightarrow> u32 \<Rightarrow> bool" where
  "unused_id y m \<longleftrightarrow> m \<le> kHashMask \<and> monitors (obj y) m = None \<and> (\<forall>u. private_id (point_of y u) \<noteq> Some m)"

fun count_event :: "event \<Rightarrow> nat \<Rightarrow> nat" where
  "count_event Entered n = n + 1"
| "count_event Exited n = n - 1"
| "count_event e n = n"

text \<open>
  The steps of the system: a thread outside calls an operation; a thread makes its next step, when
  it is not suspended or waits for a mutex; a thread suspends another one; the collector changes
  its bits of the lock word, with a read barrier at any time and otherwise while the threads are
  suspended; the collector deflates the monitor while the threads are suspended.
\<close>

inductive step :: "bool \<Rightarrow> system \<Rightarrow> u32 \<Rightarrow> event \<Rightarrow> system \<Rightarrow> bool" for rb where
  call: "valid_thread t \<Longrightarrow> \<not> suspended y t \<Longrightarrow> point_of y t = Outside \<Longrightarrow>
    p \<in> {Loop (Enter trylock 1), Loop (IdentityHash allow), ExitLoop} \<Longrightarrow>
    step rb y t Tau (y\<lparr>point_of := (point_of y)(t := p)\<rparr>)"
| run: "valid_thread t \<Longrightarrow> \<not> suspended y t \<or> point_of y t = Blocked b \<Longrightarrow>
    unused_id y new_id \<Longrightarrow> generated \<noteq> 0 \<Longrightarrow> generated \<le> kHashMask \<Longrightarrow>
    (p, s, e) \<in> set (thread_step rb (IsSuspended y) t new_id generated (point_of y t) (obj y)) \<Longrightarrow>
    step rb y t e \<lparr>obj = s, point_of = (point_of y)(t := p), held = (held y)(t := count_event e (held y t))\<rparr>"
| suspend: "valid_thread t \<Longrightarrow> point_of y t = Suspending c owner h \<Longrightarrow> owner \<noteq> t \<Longrightarrow> stoppable (point_of y owner) \<Longrightarrow>
    step rb y t Tau (y\<lparr>point_of := (point_of y)(t := Suspended c owner h)\<rparr>)"
| collect: "rb \<or> (\<forall>t. stoppable (point_of y t)) \<Longrightarrow> r < 2 \<Longrightarrow>
    lw = SetReadBarrierState r (lock_word (obj y)) \<or> lw = SetMarkBitState r (lock_word (obj y)) \<Longrightarrow>
    step rb y 0 Tau (y\<lparr>obj := (obj y)\<lparr>lock_word := lw\<rparr>\<rparr>)"
| deflate: "\<forall>t. stoppable (point_of y t) \<Longrightarrow> Deflate (obj y) = Some (b, s) \<Longrightarrow>
    step rb y 0 Tau (y\<lparr>obj := s\<rparr>)"

text \<open>A fresh object: nobody holds its lock and it has no hash code.\<close>

definition fresh_object :: "u32 \<Rightarrow> system" where
  "fresh_object gc_state =
     \<lparr>obj = \<lparr>lock_word = FromDefault gc_state, monitors = (\<lambda>m. None)\<rparr>, point_of = (\<lambda>t. Outside), held = (\<lambda>t. 0)\<rparr>"

inductive reaches :: "bool \<Rightarrow> system \<Rightarrow> bool" for rb where
  fresh: "gc_state < 4 \<Longrightarrow> reaches rb (fresh_object gc_state)"
| next_step: "reaches rb y \<Longrightarrow> step rb y t e y' \<Longrightarrow> reaches rb y'"

end
