(* ===== verification/MonitorInv.thy ===== *)
theory MonitorInv
  imports Monitor
begin

text \<open>
  The invariant of the threads at an object lock: an abstract view of lock words, what each point
  of the code may rely on, what a thread guarantees the others, and that the kinds of changes of
  the shared state keep the invariant.
\<close>

section \<open>What a lock word stands for\<close>

datatype word_view = VUnlocked | VThin u32 u32 | VFat u32 | VHash u32 | VForward

definition view :: "u32 \<Rightarrow> word_view" where
  "view w = (case GetState True w of
       kUnlocked \<Rightarrow> VUnlocked
     | kThinLocked \<Rightarrow> VThin (ThinLockOwner w) (ThinLockCount w)
     | kFatLocked \<Rightarrow> VFat (FatLockMonitor w)
     | kHashCode \<Rightarrow> VHash (GetHashCode w)
     | kForwardingAddress \<Rightarrow> VForward)"

lemma view_cases:
  "view w = VUnlocked \<Longrightarrow> GetState True w = kUnlocked"
  "view w = VThin t c \<Longrightarrow> GetState True w = kThinLocked \<and> ThinLockOwner w = t \<and> ThinLockCount w = c"
  "view w = VFat m \<Longrightarrow> GetState True w = kFatLocked \<and> FatLockMonitor w = m"
  "view w = VHash h \<Longrightarrow> GetState True w = kHashCode \<and> GetHashCode w = h"
  "view w = VForward \<Longrightarrow> GetState True w = kForwardingAddress"
  by (simp_all add: view_def split: LockState.splits)

lemma view_bounds: "view w = VThin t c \<Longrightarrow> c \<le> kThinLockMaxCount" "view w = VHash h \<Longrightarrow> h \<le> kHashMask"
proof -
  show "view w = VThin t c \<Longrightarrow> c \<le> kThinLockMaxCount" using thin_word(3) [of w] by (auto dest!: view_cases)
  have "GetHashCode w \<le> kHashMask" unfolding GetHashCode_def by (rule word_and_le1)
  then show "view w = VHash h \<Longrightarrow> h \<le> kHashMask" by (auto dest!: view_cases)
qed

lemma view_thin:
  assumes "valid_thread t" "c \<le> kThinLockMaxCount"
  obtains w where "FromThinLockId t c (GCState v) = Some w" "view w = VThin t c" "gc_of w = gc_of v"
  using thin_lock_word [OF conjunct2 [OF assms(1)] assms(2) parts_bounded(2) [of v]] assms
  by (auto simp: constructor_rules GCState_eq view_def)

lemma contents_bound: "h \<le> kHashMask \<Longrightarrow> h < 0x10000000"
  by (simp add: word_less_nat_alt word_le_nat_alt)

lemma view_words:
  "view (FromDefault (GCState v)) = VUnlocked" "gc_of (FromDefault (GCState v)) = gc_of v"
  "h \<le> kHashMask \<Longrightarrow> view (LockWord_fat h (GCState v)) = VFat h" "h \<le> kHashMask \<Longrightarrow> gc_of (LockWord_fat h (GCState v)) = gc_of v"
  using make_word_parts [OF contents_bound parts_bounded(2)]
    make_word_parts [of 0 "gc_of v" 0] parts_bounded(2) [of v]
  by (simp_all add: constructor_rules GCState_eq view_def GetState_eq content_rules make_word_parts contents_bound)

lemma view_hash:
  assumes "h \<le> kHashMask"
  obtains w where "FromHashCode h (GCState v) = Some w" "view w = VHash h" "gc_of w = gc_of v" "GetHashCode w = h"
  using assms make_word_parts [OF contents_bound [OF assms] parts_bounded(2) [of v]]
  by (simp add: constructor_rules GCState_eq view_def GetState_eq content_rules)

lemma view_setters: "r < 2 \<Longrightarrow> view (SetReadBarrierState r w) = view w" "r < 2 \<Longrightarrow> view (SetMarkBitState r w) = view w"
  by (simp_all add: view_def GetState_eq content_rules setters_keep)

lemma view_fresh: "g < 4 \<Longrightarrow> view (FromDefault g) = VUnlocked"
  by (simp add: view_def constructor_rules GetState_eq make_word_parts)

text \<open>The abstract lock: who holds it and how often; and the identity hash code of the object.\<close>

definition lock_state :: "object_state \<Rightarrow> (u32 \<times> nat) option" where
  "lock_state s =
     (case view (lock_word s) of
        VThin t c \<Rightarrow> Some (t, unat c + 1)
      | VFat m \<Rightarrow> (case monitors s m of
          Some mon \<Rightarrow> if monitor_lock mon = 0 then None else Some (monitor_lock mon, unat (lock_count mon) + 1)
        | None \<Rightarrow> None)
      | _ \<Rightarrow> None)"

definition depth :: "object_state \<Rightarrow> u32 \<Rightarrow> nat" where
  "depth s t = (case lock_state s of Some (u, n) \<Rightarrow> if u = t then n else 0 | None \<Rightarrow> 0)"

definition object_hash :: "object_state \<Rightarrow> u32" where
  "object_hash s =
     (case view (lock_word s) of
        VHash h \<Rightarrow> h
      | VFat m \<Rightarrow> (case monitors s m of Some mon \<Rightarrow> hash_code mon | None \<Rightarrow> 0)
      | _ \<Rightarrow> 0)"


section \<open>The invariant\<close>

definition is_fat :: "object_state \<Rightarrow> bool" where
  "is_fat s \<longleftrightarrow> (\<exists>m. view (lock_word s) = VFat m)"

definition monitor_ok :: "Monitor \<Rightarrow> bool" where
  "monitor_ok mon \<longleftrightarrow>
     (monitor_owner mon \<noteq> 0 \<longrightarrow> monitor_owner mon = monitor_lock mon) \<and>
     (monitor_owner mon = 0 \<longrightarrow> lock_count mon = 0) \<and> hash_code mon \<le> kHashMask"

definition word_ok :: "object_state \<Rightarrow> bool" where
  "word_ok s =
     (case view (lock_word s) of
        VUnlocked \<Rightarrow> True
      | VThin t c \<Rightarrow> valid_thread t
      | VFat m \<Rightarrow> (\<exists>mon. monitors s m = Some mon \<and> monitor_ok mon)
      | VHash h \<Rightarrow> h \<noteq> 0
      | VForward \<Rightarrow> False)"

text \<open>
  What a thread that has read the lock word still knows: its own thin lock is unchanged (and
  without a read barrier so are the collector's bits), a monitor is still there, a hash code is
  still the one of the object, and a word that is not the thread's means that it has no lock.
\<close>

definition read_ok :: "bool \<Rightarrow> object_state \<Rightarrow> u32 \<Rightarrow> u32 \<Rightarrow> bool" where
  "read_ok rb s t lw =
     (case view lw of
        VUnlocked \<Rightarrow> depth s t = 0
      | VThin u c \<Rightarrow> valid_thread u \<and>
          (if u = t then view (lock_word s) = VThin u c \<and> (rb \<or> gc_of (lock_word s) = gc_of lw) else depth s t = 0)
      | VFat m \<Rightarrow> view (lock_word s) = VFat m
      | VHash h \<Rightarrow> h \<noteq> 0 \<and> object_hash s = h \<and> depth s t = 0
      | VForward \<Rightarrow> False)"

definition install_ok :: "object_state \<Rightarrow> u32 \<Rightarrow> u32 \<Rightarrow> bool" where
  "install_ok s t h \<longleftrightarrow> h \<le> kHashMask \<and>
     (is_fat s \<or> t \<noteq> 0 \<and> (\<exists>c. view (lock_word s) = VThin t c) \<or> t = 0 \<and> view (lock_word s) = VHash h)"

definition has_mutex :: "object_state \<Rightarrow> u32 \<Rightarrow> u32 \<Rightarrow> u32 \<Rightarrow> bool" where
  "has_mutex s m t u \<longleftrightarrow> view (lock_word s) = VFat m \<and>
     (\<exists>mon. monitors s m = Some mon \<and> monitor_lock mon = t \<and> monitor_owner mon = u)"

fun point_ok :: "bool \<Rightarrow> object_state \<Rightarrow> u32 \<Rightarrow> point \<Rightarrow> bool" where
  "point_ok rb s t (Switch c lw) = read_ok rb s t lw"
| "point_ok rb s t (ExitSwitch lw) = read_ok rb s t lw"
| "point_ok rb s t (Suspending c u h) = (u \<noteq> t \<and> u \<noteq> 0 \<and> h \<le> kHashMask)"
| "point_ok rb s t (Suspended c u h) = (u \<noteq> t \<and> u \<noteq> 0 \<and> h \<le> kHashMask)"
| "point_ok rb s t (Recheck c u h) = (u \<noteq> t \<and> u \<noteq> 0 \<and> h \<le> kHashMask)"
| "point_ok rb s t (Create c u h) = install_ok s u h"
| "point_ok rb s t (Install c u h m) = install_ok s u h"
| "point_ok rb s t (Publish c u h m lw) =
     (install_ok s u h \<and> (u \<noteq> 0 \<and> (\<exists>c. view lw = VThin u c) \<or> u = 0 \<and> view lw = VHash h))"
| "point_ok rb s t (Resume c u b) = (b \<longrightarrow> is_fat s)"
| "point_ok rb s t (TryOwner b m) = (view (lock_word s) = VFat m)"
| "point_ok rb s t (TryMutex b m) = (view (lock_word s) = VFat m \<and> depth s t = 0)"
| "point_ok rb s t (StoreOwner m) = has_mutex s m t 0"
| "point_ok rb s t (Contend m) = (view (lock_word s) = VFat m)"
| "point_ok rb s t (Blocked m) = (view (lock_word s) = VFat m)"
| "point_ok rb s t (Woken m) = has_mutex s m t 0"
| "point_ok rb s t (Unwait m) = has_mutex s m t t"
| "point_ok rb s t (UnlockOwner m) = (view (lock_word s) = VFat m)"
| "point_ok rb s t (UnlockMutex m) = has_mutex s m t 0"
| "point_ok rb s t (MonitorHash m) = (view (lock_word s) = VFat m)"
| "point_ok rb s t (MonitorHashCheck m hc) = (view (lock_word s) = VFat m \<and> (hc \<noteq> 0 \<longrightarrow> object_hash s = hc))"
| "point_ok rb s t (MonitorHashSet m) = (view (lock_word s) = VFat m)"
| "point_ok rb s t (MonitorHashLoad m) = (view (lock_word s) = VFat m \<and> object_hash s \<noteq> 0)"
| "point_ok rb s t Abort = False"
| "point_ok rb s t p = True"

text \<open>
  The points at which a thread counts as a waiter, those at which it has the mutex but is not the
  owner, and those at which it has the lock but its call has not returned.
\<close>

fun waits :: "point \<Rightarrow> bool" where
  "waits (Blocked m) = True"
| "waits (Woken m) = True"
| "waits (Unwait m) = True"
| "waits p = False"

fun between :: "point \<Rightarrow> bool" where
  "between (StoreOwner m) = True"
| "between (Woken m) = True"
| "between (UnlockMutex m) = True"
| "between p = False"

fun pending :: "point \<Rightarrow> nat" where
  "pending (StoreOwner m) = 1"
| "pending (Woken m) = 1"
| "pending (Unwait m) = 1"
| "pending p = 0"

definition waiters_ok :: "object_state \<Rightarrow> (u32 \<Rightarrow> point) \<Rightarrow> bool" where
  "waiters_ok s pts \<longleftrightarrow>
     (\<forall>m mon. view (lock_word s) = VFat m \<longrightarrow> monitors s m = Some mon \<longrightarrow> num_waiters mon = card {t. waits (pts t)})"

definition mutex_ok :: "object_state \<Rightarrow> (u32 \<Rightarrow> point) \<Rightarrow> bool" where
  "mutex_ok s pts \<longleftrightarrow>
     (\<forall>m t. t \<noteq> 0 \<longrightarrow> has_mutex s m t 0 \<longrightarrow> between (pts t))"

definition ids_ok :: "object_state \<Rightarrow> (u32 \<Rightarrow> point) \<Rightarrow> bool" where
  "ids_ok s pts \<longleftrightarrow>
     (\<forall>t m. private_id (pts t) = Some m \<longrightarrow>
        monitors s m = None \<and> m \<le> kHashMask \<and> (\<forall>u. private_id (pts u) = Some m \<longrightarrow> u = t))"

definition holds_ok :: "(u32 \<Rightarrow> point) \<Rightarrow> bool" where
  "holds_ok pts \<longleftrightarrow> (\<forall>t u. holding t (pts t) = Some u \<longrightarrow> stoppable (pts u))"

definition lock_inv :: "bool \<Rightarrow> system \<Rightarrow> bool" where
  "lock_inv rb y \<longleftrightarrow>
     word_ok (obj y) \<and> (\<forall>t. point_ok rb (obj y) t (point_of y t)) \<and> waiters_ok (obj y) (point_of y) \<and>
     mutex_ok (obj y) (point_of y) \<and> ids_ok (obj y) (point_of y) \<and> holds_ok (point_of y) \<and>
     (\<forall>t. depth (obj y) t = held y t + pending (point_of y t)) \<and>
     (\<forall>t. point_of y t \<noteq> Outside \<longrightarrow> valid_thread t)"

section \<open>What a thread does to the others\<close>

text \<open>
  The changes of the shared state that a thread may make at a point: it keeps monitors, hash codes,
  the locks of others and what they have stored; it inflates the lock of a thread that it has
  suspended; and it makes at most one monitor, with its own id.
\<close>

definition guarantee :: "u32 \<Rightarrow> point \<Rightarrow> object_state \<Rightarrow> object_state \<Rightarrow> bool" where
  "guarantee t p s s' \<longleftrightarrow>
     gc_of (lock_word s') = gc_of (lock_word s) \<and>
     (object_hash s \<noteq> 0 \<longrightarrow> object_hash s' = object_hash s) \<and>
     (\<forall>m. view (lock_word s) = VFat m \<longrightarrow> view (lock_word s') = VFat m) \<and>
     (\<forall>h. view (lock_word s) = VHash h \<longrightarrow> view (lock_word s') = VHash h \<or> is_fat s') \<and>
     (\<forall>u c. u \<noteq> t \<longrightarrow> view (lock_word s) = VThin u c \<longrightarrow>
        view (lock_word s') = VThin u c \<or> holding t p = Some u \<and> is_fat s') \<and>
     (\<forall>u. u \<noteq> t \<longrightarrow> depth s' u = depth s u) \<and>
     (\<forall>m u v. u \<noteq> t \<longrightarrow> u \<noteq> 0 \<longrightarrow> has_mutex s m u v \<longrightarrow> has_mutex s' m u v) \<and>
     (\<forall>m u. u \<noteq> t \<longrightarrow> u \<noteq> 0 \<longrightarrow> has_mutex s' m u 0 \<longrightarrow> has_mutex s m u 0) \<and>
     (\<forall>m. monitors s m = None \<longrightarrow> monitors s' m = None \<or> private_id p = Some m)"

lemma guarantee_refl: "guarantee t p s s"
  by (simp add: guarantee_def)

lemma read_ok_stable:
  assumes "guarantee t p s s'" "u \<noteq> t" "read_ok rb s u lw" "holding t p \<noteq> Some u"
  shows "read_ok rb s' u lw"
  using assms unfolding guarantee_def read_ok_def by (cases "view lw") auto

lemma install_ok_stable:
  assumes "guarantee t p s s'" "v \<noteq> t \<or> view (lock_word s') = view (lock_word s)" "install_ok s v h"
  shows "install_ok s' v h"
  using assms unfolding guarantee_def install_ok_def is_fat_def by metis

lemma point_ok_stable:
  assumes g: "guarantee t p s s'" "u \<noteq> t" "u \<noteq> 0" "t \<noteq> 0" and ok: "point_ok rb s u q"
    and h: "holding t p = Some u \<Longrightarrow> stoppable q" "holding u q = Some t \<Longrightarrow> view (lock_word s') = view (lock_word s)"
  shows "point_ok rb s' u q"
proof (cases q)
  case (Switch c lw) then show ?thesis using read_ok_stable [OF g(1,2), of rb lw] ok h by auto
next
  case (ExitSwitch lw) then show ?thesis using read_ok_stable [OF g(1,2), of rb lw] ok h by auto
next
  case (Create c v h) then show ?thesis using install_ok_stable [OF g(1), of v h] ok assms by (auto split: if_splits)
next
  case (Install c v h m) then show ?thesis using install_ok_stable [OF g(1), of v h] ok assms by (auto split: if_splits)
next
  case (Publish c v h m lw) then show ?thesis using install_ok_stable [OF g(1), of v h] ok assms by (auto split: if_splits)
next
  case (Resume c v b) then show ?thesis using g ok by (auto simp: guarantee_def is_fat_def)
qed (use g ok in \<open>auto simp: guarantee_def\<close>)


lemma card_waits:
  fixes pts :: "u32 \<Rightarrow> point"
  shows "card {u. waits ((pts(t := p)) u)} + of_bool (waits (pts t)) = card {u. waits (pts u)} + of_bool (waits p)"
proof -
  let ?A = "{u. u \<noteq> t \<and> waits (pts u)}"
  have c: "card {u. waits ((pts(t := q)) u)} = card ?A + of_bool (waits q)" for q
  proof (cases "waits q")
    case True
    then have "{u. waits ((pts(t := q)) u)} = insert t ?A" by auto
    then show ?thesis using True by (simp add: card_insert_if)
  next
    case False
    then have "{u. waits ((pts(t := q)) u)} = ?A" by auto
    then show ?thesis using False by simp
  qed
  show ?thesis using c [of p] c [of "pts t"] by simp
qed

text \<open>
  A step of a thread that keeps the guarantee keeps the invariant, if it does so for the thread
  itself.
\<close>

lemma inv_update:
  assumes inv: "lock_inv rb y" "valid_thread t" and g: "guarantee t (point_of y t) (obj y) s'"
    and susp: "suspended y t \<Longrightarrow> view (lock_word s') = view (lock_word (obj y)) \<and> stoppable p'"
    and word: "word_ok s'" and point: "point_ok rb s' t p'"
    and mutex: "\<And>m. has_mutex s' m t 0 \<Longrightarrow> between p'"
    and hold: "\<And>u. holding t p' = Some u \<Longrightarrow> holding t (point_of y t) = Some u \<or> u \<noteq> t \<and> stoppable (point_of y u)"
    and ids: "\<And>m. private_id p' = Some m \<Longrightarrow> (private_id (point_of y t) = Some m \<or> unused_id y m) \<and> monitors s' m = None"
    and waiters: "\<And>m mon. view (lock_word s') = VFat m \<Longrightarrow> monitors s' m = Some mon \<Longrightarrow>
      num_waiters mon + of_bool (waits (point_of y t)) = card {u. waits (point_of y u)} + of_bool (waits p')"
    and count: "depth s' t = n + pending p'"
  shows "lock_inv rb \<lparr>obj = s', point_of = (point_of y)(t := p'), held = (held y)(t := n)\<rparr>"
proof -
  note old = inv(1) [unfolded lock_inv_def]
  have t: "t \<noteq> 0" using inv(2) by simp
  have others: "point_ok rb s' u (point_of y u)" if "u \<noteq> t" for u
  proof (cases "point_of y u = Outside")
    case False
    then have u: "u \<noteq> 0" using old by auto
    show ?thesis
    proof (rule point_ok_stable [OF g that u t])
      show "point_ok rb (obj y) u (point_of y u)" using old by blast
      show "stoppable (point_of y u)" if "holding t (point_of y t) = Some u" using old that unfolding holds_ok_def by blast
      show "view (lock_word s') = view (lock_word (obj y))" if "holding u (point_of y u) = Some t"
        using susp that unfolding suspended_def by blast
    qed
  qed simp
  have "waiters_ok s' ((point_of y)(t := p'))"
    unfolding waiters_ok_def
  proof (intro allI impI)
    fix m mon assume "view (lock_word s') = VFat m" "monitors s' m = Some mon"
    from waiters [OF this] card_waits [of "point_of y" t p']
    show "num_waiters mon = card {u. waits (((point_of y)(t := p')) u)}" by simp
  qed
  moreover have "mutex_ok s' ((point_of y)(t := p'))"
    using old g mutex unfolding mutex_ok_def guarantee_def by (metis fun_upd_apply)
  moreover have "ids_ok s' ((point_of y)(t := p'))"
  proof -
    have i: "ids_ok (obj y) (point_of y)" using old by blast
    have new: "monitors s' m = None \<and> m \<le> kHashMask \<and> (\<forall>u. u \<noteq> t \<longrightarrow> private_id (point_of y u) \<noteq> Some m)"
      if "private_id p' = Some m" for m
      using ids [OF that] i unfolding ids_ok_def unused_id_def by blast
    have other: "monitors s' m = None \<and> m \<le> kHashMask \<and> (\<forall>v. v \<noteq> t \<longrightarrow> private_id (point_of y v) = Some m \<longrightarrow> v = u)"
      if "u \<noteq> t" "private_id (point_of y u) = Some m" for u m
      using that i g unfolding ids_ok_def guarantee_def by blast
    show ?thesis unfolding ids_ok_def
    proof (intro allI impI)
      fix u m assume a: "private_id (((point_of y)(t := p')) u) = Some m"
      show "monitors s' m = None \<and> m \<le> kHashMask \<and> (\<forall>v. private_id (((point_of y)(t := p')) v) = Some m \<longrightarrow> v = u)"
      proof (cases "u = t")
        case True then show ?thesis using a new [of m] by simp
      next
        case False then show ?thesis using a new [of m] other [of u m] by (metis fun_upd_apply)
      qed
    qed
  qed
  moreover have "holds_ok ((point_of y)(t := p'))"
    unfolding holds_ok_def
  proof (intro allI impI)
    fix u v assume h: "holding u (((point_of y)(t := p')) u) = Some v"
    have s: "v = t \<Longrightarrow> u \<noteq> t \<Longrightarrow> stoppable p'" using h susp unfolding suspended_def by auto
    show "stoppable (((point_of y)(t := p')) v)"
    proof (cases "u = t")
      case True
      then have "v \<noteq> t" using h point by (cases p') (auto split: if_splits)
      then show ?thesis using True h hold [of v] old unfolding holds_ok_def by auto
    next
      case False
      then show ?thesis using h s old unfolding holds_ok_def by auto
    qed
  qed
  ultimately show ?thesis
    unfolding lock_inv_def using word point others old count g inv(2) by (simp add: guarantee_def)
qed


lemma lock_invD:
  assumes "lock_inv rb y"
  shows "word_ok (obj y)" "point_ok rb (obj y) t (point_of y t)" "waiters_ok (obj y) (point_of y)"
    "mutex_ok (obj y) (point_of y)" "ids_ok (obj y) (point_of y)" "holds_ok (point_of y)"
    "depth (obj y) t = held y t + pending (point_of y t)" "point_of y t \<noteq> Outside \<Longrightarrow> valid_thread t"
  using assms unfolding lock_inv_def by blast+

text \<open>The owner of a lock that is inflated is suspended.\<close>

lemma owner_suspended:
  assumes "lock_inv rb y" "holding t (point_of y t) = Some u"
  shows "IsSuspended y u"
  using assms lock_invD(6) [OF assms(1)] unfolding IsSuspended_def suspended_def holds_ok_def by blast

text \<open>A step that changes nothing shared.\<close>

lemma inv_stay:
  assumes inv: "lock_inv rb y" "valid_thread t" and susp: "suspended y t \<Longrightarrow> stoppable p'"
    and point: "point_ok rb (obj y) t p'" "between (point_of y t) \<Longrightarrow> between p'" "waits p' = waits (point_of y t)"
    and hold: "\<And>u. holding t p' = Some u \<Longrightarrow> holding t (point_of y t) = Some u \<or> u \<noteq> t \<and> stoppable (point_of y u)"
    and ids: "\<And>m. private_id p' = Some m \<Longrightarrow> private_id (point_of y t) = Some m \<or> unused_id y m"
    and count: "held y t + pending (point_of y t) = n + pending p'"
  shows "lock_inv rb \<lparr>obj = obj y, point_of = (point_of y)(t := p'), held = (held y)(t := n)\<rparr>"
proof (rule inv_update [OF inv guarantee_refl _ lock_invD(1) [OF inv(1)] point(1) _ hold])
  show "between p'" if "has_mutex (obj y) m t 0" for m
    using that lock_invD(4) [OF inv(1)] inv(2) point(2) unfolding mutex_ok_def by blast
  show "(private_id (point_of y t) = Some m \<or> unused_id y m) \<and> monitors (obj y) m = None" if "private_id p' = Some m" for m
    using ids [OF that] lock_invD(5) [OF inv(1)] unfolding ids_ok_def unused_id_def by blast
  show "num_waiters mon + of_bool (waits (point_of y t)) = card {u. waits (point_of y u)} + of_bool (waits p')"
    if "view (lock_word (obj y)) = VFat m" "monitors (obj y) m = Some mon" for m mon
    using lock_invD(3) [OF inv(1)] that point(3) unfolding waiters_ok_def by simp
  show "depth (obj y) t = n + pending p'" using lock_invD(7) [OF inv(1), of t] count by simp
qed (use susp in auto)

text \<open>A step that changes the monitor.\<close>

lemma inv_monitor:
  assumes inv: "lock_inv rb y" "valid_thread t" and susp: "suspended y t \<Longrightarrow> stoppable p'"
    and fat: "view (lock_word (obj y)) = VFat m" "monitors (obj y) m = Some mon"
    and ok: "monitor_ok mon'" and hash: "hash_code mon \<noteq> 0 \<Longrightarrow> hash_code mon' = hash_code mon"
    and own: "monitor_lock mon' = monitor_lock mon \<and> monitor_owner mon' = monitor_owner mon \<and> lock_count mon' = lock_count mon \<or>
      monitor_lock mon \<in> {0, t} \<and> monitor_lock mon' \<in> {0, t}"
    and point: "point_ok rb ((obj y)\<lparr>monitors := (monitors (obj y))(m \<mapsto> mon')\<rparr>) t p'"
    and mutex: "monitor_lock mon' = t \<Longrightarrow> monitor_owner mon' = 0 \<Longrightarrow> between p'"
    and hold: "holding t p' = None" and ids: "private_id p' = None"
    and waiters: "num_waiters mon' + of_bool (waits (point_of y t)) = num_waiters mon + of_bool (waits p')"
    and count: "(if monitor_lock mon' = t then unat (lock_count mon') + 1 else 0) = n + pending p'"
  shows "lock_inv rb \<lparr>obj = (obj y)\<lparr>monitors := (monitors (obj y))(m \<mapsto> mon')\<rparr>,
    point_of = (point_of y)(t := p'), held = (held y)(t := n)\<rparr>"
proof (rule inv_update [OF inv])
  let ?s' = "(obj y)\<lparr>monitors := (monitors (obj y))(m \<mapsto> mon')\<rparr>"
  have t: "t \<noteq> 0" using inv(2) by simp
  show "guarantee t (point_of y t) (obj y) ?s'"
    using fat own hash t
    by (auto simp: guarantee_def is_fat_def object_hash_def depth_def lock_state_def has_mutex_def split: if_splits)
  show "word_ok ?s'" using fat ok by (simp add: word_ok_def)
  show "num_waiters k + of_bool (waits (point_of y t)) = card {u. waits (point_of y u)} + of_bool (waits p')"
    if "view (lock_word ?s') = VFat l" "monitors ?s' l = Some k" for l k
    using that fat lock_invD(3) [OF inv(1)] waiters unfolding waiters_ok_def by (auto split: if_splits)
  show "depth ?s' t = n + pending p'" using fat count t by (auto simp: depth_def lock_state_def split: if_splits)
  show "between p'" if "has_mutex ?s' l t 0" for l using that fat mutex by (auto simp: has_mutex_def)
qed (use susp hold ids point in auto)

text \<open>A step that changes the lock word between free, its own thin lock and a hash code.\<close>

lemma inv_word:
  assumes inv: "lock_inv rb y" "valid_thread t" "\<not> suspended y t"
    and old: "view (lock_word (obj y)) = VUnlocked \<or> view (lock_word (obj y)) = VThin t c"
    and new: "view w = VUnlocked \<or> view w = VThin t c' \<or> view w = VHash h \<and> h \<noteq> 0" and gc: "gc_of w = gc_of (lock_word (obj y))"
    and count: "(case view w of VThin u k \<Rightarrow> unat k + 1 | _ \<Rightarrow> 0) = n"
  shows "lock_inv rb \<lparr>obj = (obj y)\<lparr>lock_word := w\<rparr>, point_of = (point_of y)(t := Outside), held = (held y)(t := n)\<rparr>"
proof (rule inv_update [OF inv(1,2)])
  let ?s' = "(obj y)\<lparr>lock_word := w\<rparr>"
  show "guarantee t (point_of y t) (obj y) ?s'"
    using old new gc
    by (auto simp: guarantee_def is_fat_def object_hash_def depth_def lock_state_def has_mutex_def split: if_splits)
  show "word_ok ?s'" using new inv(2) by (auto simp: word_ok_def)
  show "depth ?s' t = n + pending Outside" using new count by (auto simp: depth_def lock_state_def)
qed (use inv(3) new in \<open>auto simp: has_mutex_def\<close>)


text \<open>A step that publishes a monitor.\<close>

lemma no_waiters:
  assumes "lock_inv rb y" "\<not> is_fat (obj y)"
  shows "{u. waits (point_of y u)} = {}"
proof -
  have "\<not> waits (point_of y u)" for u
    using lock_invD(2) [OF assms(1), of u] assms(2) by (cases "point_of y u") (auto simp: is_fat_def has_mutex_def)
  then show ?thesis by simp
qed

definition published :: "u32 \<Rightarrow> u32 \<Rightarrow> u32 \<Rightarrow> object_state \<Rightarrow> object_state" where
  "published u h m s = s\<lparr>lock_word := LockWord_fat m (GCState (lock_word s)),
     monitors := (monitors s)(m \<mapsto>
       \<lparr>monitor_lock = (if GetState True (lock_word s) = kThinLocked then u else 0), num_waiters = 0, monitor_owner = u,
        lock_count = (if GetState True (lock_word s) = kThinLocked then ThinLockCount (lock_word s) else 0), hash_code = h\<rparr>)\<rparr>"

lemma publish_guarantee:
  assumes inv: "lock_inv rb y" "valid_thread t" and p: "point_of y t = Publish c u h m (lock_word (obj y))"
  defines "s' \<equiv> published u h m (obj y)"
  shows "guarantee t (point_of y t) (obj y) s' \<and> word_ok s' \<and> \<not> is_fat (obj y) \<and>
    depth s' t = depth (obj y) t \<and> (\<forall>l. \<not> has_mutex s' l t 0) \<and> view (lock_word s') = VFat m"
proof -
  have m: "monitors (obj y) m = None" "m \<le> kHashMask"
    using lock_invD(5) [OF inv(1)] p unfolding ids_ok_def by (metis private_id.simps(2))+
  have w: "view (LockWord_fat m (GCState v)) = VFat m" "gc_of (LockWord_fat m (GCState v)) = gc_of v" for v
    using view_words(3,4) [OF m(2)] by blast+
  have "point_ok rb (obj y) t (Publish c u h m (lock_word (obj y)))" using lock_invD(2) [OF inv(1), of t] p by simp
  then consider (thin) k where "u \<noteq> 0" "view (lock_word (obj y)) = VThin u k" "h \<le> kHashMask"
    | (hash) "u = 0" "view (lock_word (obj y)) = VHash h" "h \<le> kHashMask"
    by (auto simp: install_ok_def)
  then show ?thesis
  proof cases
    case thin
    then show ?thesis using m view_cases(2) [OF thin(2)] inv(2)
      by (auto simp: guarantee_def is_fat_def object_hash_def depth_def lock_state_def has_mutex_def w s'_def published_def
          word_ok_def monitor_ok_def p)
  next
    case hash
    then show ?thesis using m view_cases(4) [OF hash(2)] inv(2)
      by (auto simp: guarantee_def is_fat_def object_hash_def depth_def lock_state_def has_mutex_def w s'_def published_def
          word_ok_def monitor_ok_def p)
  qed
qed

lemma inv_publish:
  assumes inv: "lock_inv rb y" "valid_thread t" "\<not> suspended y t"
    and p: "point_of y t = Publish c u h m (lock_word (obj y))"
  shows "lock_inv rb \<lparr>obj = published u h m (obj y), point_of = (point_of y)(t := Resume c u True),
      held = (held y)(t := held y t)\<rparr>"
proof (rule inv_update [OF inv(1,2)])
  let ?s' = "published u h m (obj y)"
  note facts = publish_guarantee [OF inv(1,2) p]
  then have nf: "\<not> is_fat (obj y)" by blast
  from facts show "guarantee t (point_of y t) (obj y) ?s'" "word_ok ?s'" "depth ?s' t = held y t + pending (Resume c u True)"
    "\<And>l. has_mutex ?s' l t 0 \<Longrightarrow> between (Resume c u True)" "point_ok rb ?s' t (Resume c u True)"
    using lock_invD(7) [OF inv(1), of t] by (simp_all add: p is_fat_def)
  show "num_waiters k + of_bool (waits (point_of y t)) = card {v. waits (point_of y v)} + of_bool (waits (Resume c u True))"
    if "view (lock_word ?s') = VFat l" "monitors ?s' l = Some k" for l k
    using that facts no_waiters [OF inv(1) nf] by (auto simp: published_def p)
qed (use inv(3) p in auto)

end
