(* ===== verification/MonitorProps.thy ===== *)
theory MonitorProps
  imports MonitorInv
begin

text \<open>
  The object lock is a reentrant lock: every step keeps the invariant, at most one thread holds
  the lock, its recursion depth is what the lock word or the monitor records, every step is an
  acquisition, a release or invisible to the abstract lock, the identity hash code never changes,
  and no check of the code fails.
\<close>

section \<open>Every step keeps the invariant\<close>

text \<open>
  A thread's step.  The hypotheses of a step are collected in \<open>may_run\<close>; the lemmas take the
  operations one by one.
\<close>

definition may_run :: "bool \<Rightarrow> system \<Rightarrow> u32 \<Rightarrow> bool" where
  "may_run rb y t \<longleftrightarrow> lock_inv rb y \<and> valid_thread t \<and> \<not> suspended y t"

abbreviation after :: "system \<Rightarrow> u32 \<Rightarrow> outcome \<Rightarrow> system" where
  "after y t r \<equiv> \<lparr>obj = fst (snd r), point_of = (point_of y)(t := fst r),
     held = (held y)(t := count_event (snd (snd r)) (held y t))\<rparr>"

text \<open>What a call may answer as a hash code at the end of a step: the one of the object; or 0, where it
  may not inflate a thin lock, or where \<open>Monitor::GetHashCode\<close> has read 0 before another thread stored
  the hash code.\<close>

definition hash_answer :: "point \<Rightarrow> object_state \<Rightarrow> u32 \<Rightarrow> bool" where
  "hash_answer p s h \<longleftrightarrow>
     (if h \<noteq> 0 then object_hash s = h
      else (\<exists>lw. p = Switch (IdentityHash False) lw \<and> GetState True lw = kThinLocked) \<or>
           (\<exists>m. p = MonitorHashCheck m 0 \<and> object_hash s \<noteq> 0))"

definition keeps :: "bool \<Rightarrow> system \<Rightarrow> u32 \<Rightarrow> outcome \<Rightarrow> bool" where
  "keeps rb y t r \<longleftrightarrow>
     lock_inv rb (after y t r) \<and>
     gc_of (lock_word (fst (snd r))) = gc_of (lock_word (obj y)) \<and>
     (object_hash (obj y) \<noteq> 0 \<longrightarrow> object_hash (fst (snd r)) = object_hash (obj y)) \<and>
     (case snd (snd r) of
        Hashed h \<Rightarrow> hash_answer (point_of y t) (fst (snd r)) h
      | NotEntered \<Rightarrow> held y t = 0
      | Exited \<Rightarrow> 0 < held y t
      | NotExited \<Rightarrow> held y t = 0
      | _ \<Rightarrow> True)"

lemma keepsI:
  assumes "lock_inv rb (after y t (p', s', e))" "gc_of (lock_word s') = gc_of (lock_word (obj y))"
    "object_hash (obj y) \<noteq> 0 \<Longrightarrow> object_hash s' = object_hash (obj y)"
    "case e of Hashed h \<Rightarrow> hash_answer (point_of y t) s' h | NotEntered \<Rightarrow> held y t = 0 | Exited \<Rightarrow> 0 < held y t | NotExited \<Rightarrow> held y t = 0 | _ \<Rightarrow> True"
  shows "keeps rb y t (p', s', e)"
  using assms unfolding keeps_def fst_conv snd_conv by blast

lemma stay_runs:
  assumes "may_run rb y t" "point_ok rb (obj y) t p'" "\<not> between (point_of y t)" "\<not> waits (point_of y t)" "\<not> waits p'"
    "pending p' = 0" "\<And>u. holding t p' = Some u \<Longrightarrow> holding t (point_of y t) = Some u" 
    "\<And>m. private_id p' = Some m \<Longrightarrow> private_id (point_of y t) = Some m \<or> unused_id y m"
    "case e of Hashed h \<Rightarrow> hash_answer (point_of y t) (obj y) h | NotEntered \<Rightarrow> held y t = 0 | NotExited \<Rightarrow> held y t = 0 | Entered \<Rightarrow> False | Exited \<Rightarrow> False | _ \<Rightarrow> True"
  shows "keeps rb y t (p', obj y, e)"
proof -
  have "count_event e (held y t) = held y t" using assms(9) by (cases e) simp_all
  then have "lock_inv rb (after y t (p', obj y, e))"
    using inv_stay [of rb y t p' "count_event e (held y t)"] assms(1-8) unfolding may_run_def
    by (cases "point_of y t") auto
  then show ?thesis by (rule keepsI) (use assms(9) in \<open>cases e; simp\<close>)+
qed

lemma CasLockWord_outcomes:
  "(b, s') \<in> set (CasLockWord weak old new s) \<Longrightarrow> (b \<longrightarrow> lock_word s = old \<and> s' = s\<lparr>lock_word := new\<rparr>) \<and> (\<not> b \<longrightarrow> s' = s)"
  by (auto simp: CasLockWord_def split: if_splits)

lemma word_runs:
  assumes "may_run rb y t" "view (lock_word (obj y)) = VUnlocked \<or> view (lock_word (obj y)) = VThin t c"
    "view w = VUnlocked \<or> view w = VThin t c' \<or> view w = VHash h \<and> h \<noteq> 0" "gc_of w = gc_of (lock_word (obj y))"
    "(case view w of VThin u k \<Rightarrow> unat k + 1 | _ \<Rightarrow> 0) = count_event e (held y t)"
    "case e of Hashed g \<Rightarrow> view w = VHash g | NotEntered \<Rightarrow> False | NotExited \<Rightarrow> False | Exited \<Rightarrow> 0 < held y t | _ \<Rightarrow> True"
  shows "keeps rb y t (Outside, (obj y)\<lparr>lock_word := w\<rparr>, e)"
proof -
  have "lock_inv rb (after y t (Outside, (obj y)\<lparr>lock_word := w\<rparr>, e))"
    using inv_word [of rb y t c w c' h "count_event e (held y t)"] assms by (simp add: may_run_def)
  then show ?thesis by (rule keepsI) (use assms(2-6) in \<open>cases e; auto simp: object_hash_def hash_answer_def\<close>)+
qed

lemma cas_runs:
  assumes run: "may_run rb y t" and p: "\<not> between (point_of y t)" "\<not> waits (point_of y t)" "q = Loop d \<or> q = ExitLoop"
    and old: "view lw = VUnlocked \<or> view lw = VThin t c"
    and new: "view w = VUnlocked \<or> view w = VThin t c' \<or> view w = VHash h \<and> h \<noteq> 0" "gc_of w = gc_of lw"
    and count: "lock_word (obj y) = lw \<Longrightarrow> (case view w of VThin u k \<Rightarrow> unat k + 1 | _ \<Rightarrow> 0) = count_event e (held y t)"
    and event: "case e of Hashed g \<Rightarrow> view w = VHash g | NotEntered \<Rightarrow> False | NotExited \<Rightarrow> False | Exited \<Rightarrow> 0 < held y t | _ \<Rightarrow> True"
    and out: "r \<in> set (map (\<lambda>(success, s). if success then (Outside, s, e) else (q, s, Tau)) (CasLockWord weak lw w (obj y)))"
  shows "keeps rb y t r"
proof -
  from out consider "lock_word (obj y) = lw" "r = (Outside, (obj y)\<lparr>lock_word := w\<rparr>, e)" | "r = (q, obj y, Tau)"
    by (auto dest!: CasLockWord_outcomes split: if_splits)
  then show ?thesis
  proof cases
    case 1 then show ?thesis using word_runs [OF run, of c w c' h e] old new count event by simp
  next
    case 2 then show ?thesis using stay_runs [OF run, of q Tau] p by auto
  qed
qed

text \<open>What a thread that is not at one of the special points holds.\<close>

lemma held_depth:
  assumes "lock_inv rb y" "pending (point_of y t) = 0"
  shows "view (lock_word (obj y)) = VUnlocked \<Longrightarrow> held y t = 0"
    "view (lock_word (obj y)) = VThin t c \<Longrightarrow> held y t = unat c + 1"
  using lock_invD(7) [OF assms(1), of t] assms(2) by (simp_all add: depth_def lock_state_def)

lemma inflate_keeps:
  assumes run: "may_run rb y t" and p: "point_of y t = Switch c lw" and v: "view lw = VThin u k" and h: "h \<le> kHashMask"
    and out: "r \<in> set (InflateThinLocked d t lw h (obj y))"
  shows "keeps rb y t r"
proof -
  have ok: "read_ok rb (obj y) t lw" using lock_invD(2) [of rb y t] run p by (simp add: may_run_def)
  show ?thesis using out ok h v stay_runs [OF run, of "Create d t h" Tau] stay_runs [OF run, of "Suspending d u h" Tau]
    by (auto simp: InflateThinLocked_def view_cases Let_def read_ok_def install_ok_def p split: if_splits)
qed

lemma count_bounds:
  assumes "c \<le> kThinLockMaxCount"
  shows "unat (c + 1) = unat c + 1" "c \<noteq> 0 \<Longrightarrow> unat (c - 1) + 1 = unat c \<and> c - 1 \<le> kThinLockMaxCount"
proof -
  show "unat (c + 1) = unat c + 1" using assms by (simp add: word_le_nat_alt unat_word_ariths)
  assume "c \<noteq> 0"
  then have "unat (c - 1) = unat c - 1" "0 < unat c" by (simp_all add: unat_minus_one unat_gt_0)
  then show "unat (c - 1) + 1 = unat c \<and> c - 1 \<le> kThinLockMaxCount" using assms by (simp add: word_le_nat_alt)
qed

lemma hash_kept: "object_hash s \<noteq> 0 \<Longrightarrow> view (lock_word s) = VHash (object_hash s) \<or> is_fat s"
  by (auto simp: object_hash_def is_fat_def split: word_view.splits)

lemma enter_keeps:
  assumes run: "may_run rb y t" and p: "point_of y t = Switch (Enter b k) lw"
    and out: "r \<in> set (MonitorEnter rb t b k lw (obj y))"
  shows "keeps rb y t r"
proof -
  have inv: "lock_inv rb y" "valid_thread t" using run by (simp_all add: may_run_def)
  have ok: "read_ok rb (obj y) t lw" using lock_invD(2) [OF inv(1), of t] p by simp
  have held: "view (lock_word (obj y)) = VUnlocked \<Longrightarrow> held y t = 0"
    "view (lock_word (obj y)) = VThin t c \<Longrightarrow> held y t = unat c + 1" for c
    using held_depth [OF inv(1)] p by simp_all
  note stay = stay_runs [OF run] and cas = cas_runs [OF run, of "Loop (Enter b k)" "Enter b k" lw]
  show ?thesis
  proof (cases "view lw")
    case VUnlocked
    obtain w where w: "FromThinLockId t 0 (GCState lw) = Some w" "view w = VThin t 0" "gc_of w = gc_of lw"
      using inv(2) view_thin [of t 0 lw] by auto
    show ?thesis using out VUnlocked w held(1) by (intro cas [of _ w 0 _ Entered]) (auto simp: MonitorEnter_def view_cases Let_def p)
  next
    case (VThin u c)
    note v = view_cases(2) [OF VThin]
    show ?thesis
    proof (cases "u = t \<and> c + 1 \<le> kThinLockMaxCount")
      case True
      obtain w where w: "FromThinLockId t (c + 1) (GCState lw) = Some w" "view w = VThin t (c + 1)" "gc_of w = gc_of lw"
        using inv(2) view_thin [of t "c + 1" lw] True by auto
      have word: "view (lock_word (obj y)) = VThin t c" "rb \<or> gc_of (lock_word (obj y)) = gc_of lw"
        using ok VThin True by (auto simp: read_ok_def)
      have n: "unat (c + 1) + 1 = count_event Entered (held y t)"
        using held(2) [OF word(1)] count_bounds(1) [OF view_bounds(1) [OF VThin]] by simp
      show ?thesis
      proof (cases rb)
        case True
        then show ?thesis using out VThin v w word n \<open>u = t \<and> _\<close>
          by (intro cas [of c w "c + 1" _ Entered]) (auto simp: MonitorEnter_def Let_def p)
      next
        case False
        then show ?thesis using out VThin v w word n \<open>u = t \<and> _\<close> word_runs [OF run, of c w "c + 1" 0 Entered]
          by (auto simp: MonitorEnter_def Let_def p)
      qed
    next
      case False
      have none: "held y t = 0" if "u \<noteq> t" using that ok VThin lock_invD(7) [OF inv(1), of t] by (simp add: read_ok_def)
      from False show ?thesis using out v stay [of Outside NotEntered] stay [of "Loop (Enter b k)" Tau] stay [of "Spinning (Enter b k)" Tau]
          none inflate_keeps [OF run p VThin, of 0 r "Enter b (k + 1)"]
        by (auto simp: MonitorEnter_def Let_def p split: if_splits)
    qed
  next
    case (VFat m)
    then show ?thesis using out ok stay [of "TryOwner b m" Tau]
      by (auto simp: MonitorEnter_def view_cases Let_def read_ok_def p)
  next
    case (VHash h)
    then show ?thesis using out ok stay [of "Create (Enter b k) 0 h" Tau] view_bounds(2) [OF VHash]
        hash_kept [of "obj y"]
      by (auto simp: MonitorEnter_def view_cases Let_def read_ok_def install_ok_def p)
  next
    case VForward
    then show ?thesis using ok by (simp add: read_ok_def)
  qed
qed

lemma exit_keeps:
  assumes run: "may_run rb y t" and p: "point_of y t = ExitSwitch lw"
    and out: "r \<in> set (MonitorExit rb t lw (obj y))"
  shows "keeps rb y t r"
proof -
  have inv: "lock_inv rb y" "valid_thread t" using run by (simp_all add: may_run_def)
  have ok: "read_ok rb (obj y) t lw" using lock_invD(2) [OF inv(1), of t] p by simp
  note stay = stay_runs [OF run] and cas = cas_runs [OF run, of ExitLoop "Enter True 1" lw]
  show ?thesis
  proof (cases "\<exists>c. view lw = VThin t c")
    case True
    then obtain c where c: "view lw = VThin t c" by blast
    note v = view_cases(2) [OF c] and bounds = count_bounds [OF view_bounds(1) [OF c]]
    have word: "view (lock_word (obj y)) = VThin t c" "rb \<or> gc_of (lock_word (obj y)) = gc_of lw"
      using ok c by (auto simp: read_ok_def)
    have held: "held y t = unat c + 1" using held_depth(2) [OF inv(1) _ word(1)] p by simp
    obtain w where w: "(if c \<noteq> 0 then FromThinLockId t (c - 1) (GCState lw) else Some (FromDefault (GCState lw))) = Some w"
        "view w = (if c \<noteq> 0 then VThin t (c - 1) else VUnlocked)" "gc_of w = gc_of lw"
      using inv(2) view_thin [of t "c - 1" lw] bounds(2) view_words(1,2) [of lw] by (cases "c = 0") auto
    have n: "(case view w of VThin u k \<Rightarrow> unat k + 1 | _ \<Rightarrow> 0) = count_event Exited (held y t)"
      using w(2) held bounds(2) by simp
    show ?thesis
    proof (cases rb)
      case True
      then show ?thesis using out c v w n held by (intro cas [of c w "c - 1" _ Exited]) (auto simp: MonitorExit_def p)
    next
      case False
      then show ?thesis using out v w n word held word_runs [OF run, of c w "c - 1" 0 Exited]
        by (auto simp: MonitorExit_def p split: if_splits)
    qed
  next
    case False
    have none: "held y t = 0" if "depth (obj y) t = 0" using lock_invD(7) [OF inv(1), of t] that by simp
    from False show ?thesis using out ok none stay [of Outside NotExited] stay [of "UnlockOwner (FatLockMonitor lw)" Tau]
      by (cases "view lw") (auto simp: MonitorExit_def view_cases read_ok_def p)
  qed
qed

lemma hash_keeps:
  assumes run: "may_run rb y t" and p: "point_of y t = Switch (IdentityHash b) lw"
    and g: "g \<noteq> 0" "g \<le> kHashMask" and out: "r \<in> set (IdentityHashCodeHelper b t g lw (obj y))"
  shows "keeps rb y t r"
proof -
  have inv: "lock_inv rb y" using run by (simp add: may_run_def)
  have ok: "read_ok rb (obj y) t lw" using lock_invD(2) [OF inv, of t] p by simp
  note stay = stay_runs [OF run]
  show ?thesis
  proof (cases "view lw")
    case VUnlocked
    obtain w where w: "FromHashCode g (GCState lw) = Some w" "view w = VHash g" "gc_of w = gc_of lw" "GetHashCode w = g"
      using view_hash [OF g(2), of lw] by auto
    have "r \<in> set (map (\<lambda>(success, s). if success then (Outside, s, Hashed g) else (Loop (IdentityHash b), s, Tau))
        (CasLockWord False lw w (obj y)))"
      using out VUnlocked w(1) unfolding w(4) [symmetric] by (simp add: IdentityHashCodeHelper_def view_cases)
    then show ?thesis using VUnlocked w g(1) held_depth(1) [OF inv, of t]
      by (intro cas_runs [OF run, of "Loop (IdentityHash b)" "IdentityHash b" lw _ w _ g "Hashed g" r False]) (simp_all add: p)
  next
    case (VThin u c)
    then show ?thesis using out stay [of Outside "Hashed 0"] inflate_keeps [OF run p VThin g(2), of r "IdentityHash b"]
      by (auto simp: IdentityHashCodeHelper_def hash_answer_def view_cases p split: if_splits)
  next
    case (VFat m)
    then show ?thesis using out ok stay [of "MonitorHash m" Tau]
      by (auto simp: IdentityHashCodeHelper_def view_cases read_ok_def p)
  next
    case (VHash h)
    then show ?thesis using out ok stay [of Outside "Hashed h"] by (auto simp: IdentityHashCodeHelper_def hash_answer_def view_cases read_ok_def p)
  next
    case VForward
    then show ?thesis using ok by (simp add: read_ok_def)
  qed
qed

lemma install_keeps:
  assumes run: "may_run rb y t" and p: "point_of y t = Install c u h m"
    and out: "r \<in> set (Install_read (IsSuspended y) t c u h m (obj y))"
  shows "keeps rb y t r"
proof -
  have inv: "lock_inv rb y" using run by (simp add: may_run_def)
  have ok: "install_ok (obj y) u h" "word_ok (obj y)"
    using lock_invD(2) [OF inv, of t] lock_invD(1) [OF inv] p by simp_all
  have "u = 0 \<or> u = t \<or> IsSuspended y u" using owner_suspended [OF inv, of t u] p by (cases "u = 0"; cases "u = t") simp_all
  then show ?thesis
    using out ok stay_runs [OF run, of "Publish c u h m (lock_word (obj y))" Tau] stay_runs [OF run, of "Resume c u False" Tau]
    by (cases "view (lock_word (obj y))")
      (auto simp: Install_read_def view_cases install_ok_def is_fat_def word_ok_def Let_def p split: if_splits)
qed

lemma publish_keeps:
  assumes run: "may_run rb y t" and p: "point_of y t = Publish c u h m lw"
    and out: "r \<in> set (Install_publish c u h m lw (obj y))"
  shows "keeps rb y t r"
proof -
  have inv: "lock_inv rb y" "valid_thread t" "\<not> suspended y t" using run by (simp_all add: may_run_def)
  from out consider "r = (Resume c u False, obj y, Tau)"
    | "lock_word (obj y) = lw" "r = (Resume c u True, published u h m (obj y), Tau)"
    by (auto simp: Install_publish_def Let_def published_def dest!: CasLockWord_outcomes split: if_splits)
  then show ?thesis
  proof cases
    case 1 then show ?thesis using stay_runs [OF run, of "Resume c u False" Tau] by (simp add: p)
  next
    case 2
    have q: "point_of y t = Publish c u h m (lock_word (obj y))" using p 2(1) by simp
    show ?thesis unfolding 2(2)
      by (rule keepsI) (use inv_publish [OF inv q] publish_guarantee [OF inv(1,2) q] in \<open>simp_all add: guarantee_def\<close>)
  qed
qed

text \<open>The steps inside a monitor.\<close>

lemma monitor_depth:
  assumes "lock_inv rb y" "view (lock_word (obj y)) = VFat m" "monitors (obj y) m = Some mon" "t \<noteq> 0"
  shows "held y t + pending (point_of y t) = (if monitor_lock mon = t then unat (lock_count mon) + 1 else 0)"
  using lock_invD(7) [OF assms(1), of t] assms(2-4)
  by (cases "monitor_lock mon = 0"; cases "monitor_lock mon = t") (simp_all add: depth_def lock_state_def)

lemma mutex_between:
  assumes "lock_inv rb y" "view (lock_word (obj y)) = VFat m" "monitors (obj y) m = Some mon" "t \<noteq> 0"
    "monitor_lock mon = t" "monitor_owner mon = 0"
  shows "between (point_of y t)"
  using lock_invD(4) [OF assms(1)] assms(2-) unfolding mutex_ok_def has_mutex_def by blast

definition monitor_step :: "bool \<Rightarrow> system \<Rightarrow> u32 \<Rightarrow> u32 \<Rightarrow> Monitor \<Rightarrow> point \<times> Monitor \<times> event \<Rightarrow> bool" where
  "monitor_step rb y t m mon = (\<lambda>(p', mon', e).
     monitor_ok mon' \<and> (hash_code mon \<noteq> 0 \<longrightarrow> hash_code mon' = hash_code mon) \<and>
     (monitor_lock mon' = monitor_lock mon \<and> monitor_owner mon' = monitor_owner mon \<and> lock_count mon' = lock_count mon \<or>
      monitor_lock mon \<in> {0, t} \<and> monitor_lock mon' \<in> {0, t}) \<and>
     point_ok rb ((obj y)\<lparr>monitors := (monitors (obj y))(m \<mapsto> mon')\<rparr>) t p' \<and>
     (monitor_lock mon' = t \<longrightarrow> monitor_owner mon' = 0 \<longrightarrow> between p') \<and>
     holding t p' = None \<and> private_id p' = None \<and>
     num_waiters mon' + of_bool (waits (point_of y t)) = num_waiters mon + of_bool (waits p') \<and>
     (if monitor_lock mon' = t then unat (lock_count mon') + 1 else 0) = count_event e (held y t) + pending p' \<and>
     (case e of
        Hashed h \<Rightarrow> hash_answer (point_of y t) ((obj y)\<lparr>monitors := (monitors (obj y))(m \<mapsto> mon')\<rparr>) h
      | NotEntered \<Rightarrow> held y t = 0 | Exited \<Rightarrow> 0 < held y t | NotExited \<Rightarrow> held y t = 0 | _ \<Rightarrow> True))"

lemma monitor_runs:
  assumes inv: "lock_inv rb y" "valid_thread t" and fat: "view (lock_word (obj y)) = VFat m" "monitors (obj y) m = Some mon"
    and susp: "suspended y t \<Longrightarrow> \<forall>(p', mon', e) \<in> set (f mon). stoppable p'"
    and ok: "\<forall>q \<in> set (f mon). monitor_step rb y t m mon q"
    and out: "r \<in> set (with_monitor m (obj y) f)"
  shows "keeps rb y t r"
proof -
  from out fat(2) obtain p' mon' e where o: "(p', mon', e) \<in> set (f mon)"
    and r: "r = (p', (obj y)\<lparr>monitors := (monitors (obj y))(m \<mapsto> mon')\<rparr>, e)"
    by (auto simp: with_monitor_def)
  have s: "monitor_step rb y t m mon (p', mon', e)" "suspended y t \<Longrightarrow> stoppable p'" using ok susp o by auto
  have "lock_inv rb (after y t r)"
    using inv_monitor [OF inv s(2) fat, of mon' "count_event e (held y t)"] s(1) unfolding monitor_step_def r by simp
  then show ?thesis unfolding r
    by (rule keepsI) (use s(1) fat in \<open>simp_all add: monitor_step_def object_hash_def split: event.splits\<close>)
qed

lemma last_waiter: "lock_inv rb y \<Longrightarrow> view (lock_word (obj y)) = VFat m \<Longrightarrow> monitors (obj y) m = Some mon \<Longrightarrow>
    waits (point_of y t) \<Longrightarrow> 0 < num_waiters mon"
  using lock_invD(3) [of rb y] by (auto simp: waiters_ok_def card_gt_0_iff)

lemma monitor_keeps:
  assumes inv: "lock_inv rb y" "valid_thread t" "\<not> suspended y t \<or> point_of y t = Blocked b"
    and p: "point_of y t \<in> {TryOwner d m, TryMutex d m, StoreOwner m, Contend m, Blocked m, Woken m, Unwait m,
      UnlockOwner m, UnlockMutex m, MonitorHash m, MonitorHashCheck m k, MonitorHashSet m, MonitorHashLoad m}"
    and g: "g \<noteq> 0" "g \<le> kHashMask"
    and out: "r \<in> set (thread_step rb (IsSuspended y) t i g (point_of y t) (obj y))"
  shows "keeps rb y t r"
proof -
  have t: "t \<noteq> 0" using inv(2) by simp
  have ok: "point_ok rb (obj y) t (point_of y t)" by (rule lock_invD(2) [OF inv(1)])
  then have fat: "view (lock_word (obj y)) = VFat m" using p by (auto simp: has_mutex_def)
  then obtain mon where mon: "monitors (obj y) m = Some mon" "monitor_ok mon"
    using lock_invD(1) [OF inv(1)] by (auto simp: word_ok_def)
  note d = monitor_depth [OF inv(1) fat mon(1) t] and bt = mutex_between [OF inv(1) fat mon(1) t]
    and lw = last_waiter [OF inv(1) fat mon(1)]
  note rules = monitor_step_def TryLock_owner_def TryLock_mutex_def TryLock_store_def Lock_block_def Unlock_def
    Monitor_GetHashCode_def has_mutex_def object_hash_def hash_answer_def monitor_ok_def depth_def lock_state_def
  note m = monitor_runs [OF inv(1,2) fat mon(1)]
  from p show ?thesis
  proof (elim insertE emptyE)
    assume q: "point_of y t = TryOwner d m"
    show ?thesis using out d bt mon fat inv(3) t unatSuc [of "lock_count mon"]
      by (intro m [of "TryLock_owner t d m"]) (auto simp: q rules add.commute [of 1] split: if_splits)
  next
    assume q: "point_of y t = TryMutex d m"
    show ?thesis using out ok d bt mon fat inv(3) g
      by (intro m [of "TryLock_mutex t d m"]) (auto simp: q rules split: if_splits)
  next
    assume q: "point_of y t = StoreOwner m"
    show ?thesis using out ok d bt mon fat inv(3) t
      by (intro m [of "TryLock_store t"]) (auto simp: q rules split: if_splits)
  next
    assume q: "point_of y t = Contend m"
    show ?thesis using out d bt mon fat inv(3)
      by (intro m [of "\<lambda>mon. [(Blocked m, mon\<lparr>num_waiters := num_waiters mon + 1\<rparr>, Tau)]"]) (auto simp: q rules split: if_splits)
  next
    assume q: "point_of y t = Blocked m"
    show ?thesis using out d bt mon fat inv(3) t
      by (intro m [of "Lock_block t m"]) (auto simp: q rules split: if_splits)
  next
    assume q: "point_of y t = Woken m"
    show ?thesis using out ok d bt mon fat inv(3) t
      by (intro m [of "\<lambda>mon. [(Unwait m, mon\<lparr>monitor_owner := t\<rparr>, Tau)]"]) (auto simp: q rules split: if_splits)
  next
    assume q: "point_of y t = Unwait m"
    show ?thesis using out ok d bt mon fat inv(3) t lw [of t]
      by (intro m [of "\<lambda>mon. [(Outside, mon\<lparr>num_waiters := num_waiters mon - 1\<rparr>, Entered)]"]) (auto simp: q rules split: if_splits)
  next
    assume q: "point_of y t = UnlockOwner m"
    have "\<forall>k \<in> set (Unlock t m mon). monitor_step rb y t m mon k"
      using d bt mon(2) fat q t unat_minus_one [of "lock_count mon"] unat_gt_0 [of "lock_count mon"]
      by (cases "monitor_owner mon = t"; cases "lock_count mon = 0") (auto simp: rules)
    then show ?thesis using out q inv(3) by (intro m [of "Unlock t m"]) simp_all
  next
    assume q: "point_of y t = UnlockMutex m"
    show ?thesis using out ok d bt mon fat inv(3) t
      by (intro m [of "\<lambda>mon. [(Outside, mon\<lparr>monitor_lock := 0\<rparr>, Exited)]"]) (auto simp: q rules split: if_splits)
  next
    assume q: "point_of y t = MonitorHash m"
    show ?thesis using out d bt mon fat inv(3)
      by (intro m [of "\<lambda>mon. [(MonitorHashCheck m (hash_code mon), mon, Tau)]"]) (auto simp: q rules split: if_splits)
  next
    assume q: "point_of y t = MonitorHashCheck m k"
    show ?thesis using out ok d bt mon fat inv(3)
      by (intro m [of "Monitor_GetHashCode m k"]) (auto simp: q rules split: if_splits)
  next
    assume q: "point_of y t = MonitorHashSet m"
    show ?thesis using out d bt mon fat inv(3) g
      by (intro m [of "\<lambda>mon. [(MonitorHashLoad m, if hash_code mon = 0 then mon\<lparr>hash_code := g\<rparr> else mon, Tau)]"])
        (auto simp: q rules split: if_splits)
  next
    assume q: "point_of y t = MonitorHashLoad m"
    show ?thesis using out ok d bt mon fat inv(3)
      by (intro m [of "\<lambda>mon. [(Outside, mon, Hashed (hash_code mon))]"]) (auto simp: q rules split: if_splits)
  qed
qed

lemma read_now: "word_ok s \<Longrightarrow> read_ok rb s t (lock_word s)"
  by (cases "view (lock_word s)") (simp_all add: read_ok_def word_ok_def object_hash_def depth_def lock_state_def)

lemma run_keeps:
  assumes inv: "lock_inv rb y" "valid_thread t" "\<not> suspended y t \<or> point_of y t = Blocked b"
    and g: "unused_id y i" "g \<noteq> 0" "g \<le> kHashMask"
    and out: "r \<in> set (thread_step rb (IsSuspended y) t i g (point_of y t) (obj y))"
  shows "keeps rb y t r"
proof -
  note monitor = monitor_keeps [OF inv _ g(2,3) out]
  have run: "may_run rb y t" if "\<And>m. point_of y t \<noteq> Blocked m" using inv that by (auto simp: may_run_def)
  have ok: "point_ok rb (obj y) t (point_of y t)" "word_ok (obj y)"
    using lock_invD(2) [OF inv(1)] lock_invD(1) [OF inv(1)] by blast+
  show ?thesis
  proof (cases "point_of y t")
    case (Loop c)
    have "read_ok rb (obj y) t (lock_word (obj y))" by (rule read_now [OF ok(2)])
    then show ?thesis
      using Loop out run stay_runs [of rb y t "Switch c (lock_word (obj y))" Tau] stay_runs [of rb y t TooManyAttempts Tau]
      by (auto split: call.splits if_splits)
  next
    case (Switch c lw)
    then show ?thesis using out run enter_keeps [of rb y t _ _ lw r] hash_keeps [of rb y t _ lw g r] g(2,3) by (cases c) simp_all
  next
    case (Spinning c)
    then show ?thesis using out run stay_runs [of rb y t "Loop c" Tau] by simp
  next
    case (Suspending c u h)
    then show ?thesis using out run stay_runs [of rb y t "Loop c" Tau] by simp
  next
    case (Suspended c u h)
    then show ?thesis using out run ok stay_runs [of rb y t "Recheck c u h" Tau] by simp
  next
    case (Recheck c u h)
    have "install_ok (obj y) u h" if "GetState True (lock_word (obj y)) = kThinLocked" "ThinLockOwner (lock_word (obj y)) = u"
      using ok Recheck that by (cases "view (lock_word (obj y))") (auto simp: install_ok_def view_cases)
    then show ?thesis using Recheck out run ok stay_runs [of rb y t "Create c u h" Tau] stay_runs [of rb y t "Resume c u False" Tau]
      by (auto simp: InflateThinLocked_recheck_def Let_def split: if_splits)
  next
    case (Create c u h)
    have "u = 0 \<or> u = t \<or> IsSuspended y u" using owner_suspended [OF inv(1), of t u] Create by (cases "u = 0"; cases "u = t") simp_all
    then show ?thesis using Create out run ok g(1) stay_runs [of rb y t "Install c u h i" Tau] by simp
  next
    case (Install c u h m)
    then show ?thesis using out run install_keeps [of rb y t c u h m r] by simp
  next
    case (Publish c u h m lw)
    then show ?thesis using out run publish_keeps [of rb y t c u h m lw r] by simp
  next
    case (Resume c u b)
    have "b \<Longrightarrow> GetState True (lock_word (obj y)) = kFatLocked" using ok Resume by (auto simp: is_fat_def view_cases)
    then show ?thesis using Resume out run stay_runs [of rb y t "Loop c" Tau] by (auto simp: Inflate_finish_def split: if_splits)
  next
    case ExitLoop
    have "read_ok rb (obj y) t (lock_word (obj y))" by (rule read_now [OF ok(2)])
    then show ?thesis using ExitLoop out run stay_runs [of rb y t "ExitSwitch (lock_word (obj y))" Tau] by simp
  next
    case (ExitSwitch lw)
    then show ?thesis using out run exit_keeps [of rb y t lw r] by simp
  qed (use out monitor in \<open>simp_all\<close>)
qed

lemma suspend_keeps:
  assumes inv: "lock_inv rb y" and p: "point_of y t = Suspending c u h" "u \<noteq> t" "stoppable (point_of y u)"
  shows "lock_inv rb (y\<lparr>point_of := (point_of y)(t := Suspended c u h)\<rparr>)"
proof -
  have "valid_thread t" using lock_invD(8) [OF inv, of t] p(1) by simp
  from inv_stay [OF inv this, of "Suspended c u h" "held y t"] lock_invD(2) [OF inv, of t] p
  show ?thesis by (cases y) simp
qed

lemma collect_same:
  assumes "view lw = view (lock_word s)"
  shows "lock_state (s\<lparr>lock_word := lw\<rparr>) = lock_state s" "object_hash (s\<lparr>lock_word := lw\<rparr>) = object_hash s"
    "depth (s\<lparr>lock_word := lw\<rparr>) t = depth s t"
  using assms by (cases "view (lock_word s)"; simp add: lock_state_def object_hash_def depth_def)+

lemma collect_keeps:
  assumes inv: "lock_inv rb y" and gc: "rb \<or> (\<forall>t. stoppable (point_of y t))" "view lw = view (lock_word (obj y))"
  shows "lock_inv rb (y\<lparr>obj := (obj y)\<lparr>lock_word := lw\<rparr>\<rparr>)"
proof -
  let ?s = "(obj y)\<lparr>lock_word := lw\<rparr>"
  have e: "is_fat ?s = is_fat (obj y)" "object_hash ?s = object_hash (obj y)" "depth ?s t = depth (obj y) t"
    "has_mutex ?s m t u = has_mutex (obj y) m t u" "word_ok ?s = word_ok (obj y)" "install_ok ?s t h = install_ok (obj y) t h" for t u m h
    using gc(2) by (cases "view (lock_word (obj y))";
        simp add: is_fat_def object_hash_def depth_def lock_state_def has_mutex_def word_ok_def install_ok_def)+
  have "point_ok rb ?s t (point_of y t)" for t
  proof -
    have "read_ok rb ?s t w = read_ok rb (obj y) t w" if "\<not> stoppable (point_of y t)" for w
      using gc that by (cases "view w") (auto simp: read_ok_def e(2,3))
    then show ?thesis using lock_invD(2) [OF inv, of t] gc(2) by (cases "point_of y t") (simp_all add: e)
  qed
  then show ?thesis using inv gc(2) unfolding lock_inv_def waiters_ok_def mutex_ok_def ids_ok_def by (simp add: e)
qed


lemma deflate_keeps:
  assumes inv: "lock_inv rb y" and stop: "\<forall>t. stoppable (point_of y t)" and d: "Deflate (obj y) = Some (b, s)"
  shows "lock_inv rb (y\<lparr>obj := s\<rparr>) \<and> (object_hash (obj y) \<noteq> 0 \<longrightarrow> object_hash s = object_hash (obj y)) \<and>
    lock_state s = lock_state (obj y) \<and> gc_of (lock_word s) = gc_of (lock_word (obj y))"
proof (cases "s = obj y")
  case True
  then show ?thesis using inv by (cases y) simp
next
  case False
  then obtain m where v: "view (lock_word (obj y)) = VFat m"
    using d by (cases "view (lock_word (obj y))") (auto simp: Deflate_def view_cases)
  obtain mon where mon: "monitors (obj y) m = Some mon" "monitor_ok mon"
    using lock_invD(1) [OF inv] v by (auto simp: word_ok_def)
  have free: "num_waiters mon = 0" "monitor_lock mon = 0"
    using d False v mon by (auto simp: Deflate_def view_cases Let_def split: if_splits)
  have h: "hash_code mon \<le> kHashMask" using mon(2) by (simp add: monitor_ok_def)
  obtain w where new: "(if hash_code mon \<noteq> 0 then FromHashCode (hash_code mon) (GCState (lock_word (obj y)))
      else Some (FromDefault (GCState (lock_word (obj y))))) = Some w"
    "view w = (if hash_code mon \<noteq> 0 then VHash (hash_code mon) else VUnlocked)" "gc_of w = gc_of (lock_word (obj y))"
  proof (cases "hash_code mon = 0")
    case True
    show thesis by (rule that [of "FromDefault (GCState (lock_word (obj y)))"]) (simp_all add: True view_words(1,2))
  next
    case False
    obtain v where "FromHashCode (hash_code mon) (GCState (lock_word (obj y))) = Some v" "view v = VHash (hash_code mon)"
      "gc_of v = gc_of (lock_word (obj y))" using view_hash [OF h] by metis
    then show thesis using False by (intro that [of v]) simp_all
  qed
  have w: "s = (obj y)\<lparr>lock_word := w, monitors := (monitors (obj y))(m := None)\<rparr>"
    using d unfolding Deflate_def Let_def view_cases(3) [OF v, THEN conjunct1] view_cases(3) [OF v, THEN conjunct2]
    by (simp add: mon(1) free new(1))
  note w = w new(2,3)
  have "{t. waits (point_of y t)} = {}" using lock_invD(3) [OF inv] v mon(1) free(1) by (simp add: waiters_ok_def)
  then have "\<not> waits (point_of y t)" for t by blast
  then have quiet: "point_of y t = Outside \<or> (\<exists>c. point_of y t = Spinning c) \<or> (\<exists>c u h. point_of y t = Suspending c u h) \<or>
      (\<exists>c u h. point_of y t = Suspended c u h)" for t
    using stop [rule_format, of t] by (cases "point_of y t") (metis stoppable.simps waits.simps)+
  have e: "lock_state s = None" "lock_state (obj y) = None" "\<not> has_mutex s l t u" "\<not> is_fat s" for l t u
    using w v mon free by (auto simp: lock_state_def has_mutex_def is_fat_def)
  have "point_ok rb s t (point_of y t)" for t using quiet [of t] lock_invD(2) [OF inv, of t] by auto
  moreover have "ids_ok s (point_of y)" using quiet unfolding ids_ok_def by (metis option.distinct(1) private_id.simps)
  moreover have "depth s t = depth (obj y) t" for t by (simp add: depth_def e)
  moreover have "word_ok s" using w(1,2) by (simp add: word_ok_def)
  moreover have "waiters_ok s (point_of y)" "mutex_ok s (point_of y)" using e by (auto simp: waiters_ok_def mutex_ok_def is_fat_def)
  ultimately have "lock_inv rb (y\<lparr>obj := s\<rparr>)" using inv unfolding lock_inv_def by simp
  moreover have "object_hash (obj y) \<noteq> 0 \<longrightarrow> object_hash s = object_hash (obj y)" using w v mon(1) by (simp add: object_hash_def)
  ultimately show ?thesis using e w by simp
qed

lemma deflate_defined:
  assumes inv: "lock_inv rb y"
  shows "Deflate (obj y) \<noteq> None"
proof (cases "view (lock_word (obj y))")
  case (VFat m)
  obtain mon where mon: "monitors (obj y) m = Some mon" "monitor_ok mon"
    using lock_invD(1) [OF inv] VFat by (auto simp: word_ok_def)
  then have "hash_code mon \<le> kHashMask" by (simp add: monitor_ok_def)
  then have "FromHashCode (hash_code mon) (GCState (lock_word (obj y))) \<noteq> None" using view_hash by (metis option.distinct(1))
  then show ?thesis using mon(1) by (auto simp: Deflate_def view_cases(3) [OF VFat] Let_def)
qed (auto simp: Deflate_def view_cases)

lemma step_keeps: "step rb y t e y' \<Longrightarrow> lock_inv rb y \<Longrightarrow> lock_inv rb y'"
proof (induction rule: step.induct)
  case (call t y p trylock allow)
  then show ?case using inv_stay [of rb y t p "held y t"] by (cases y) auto
next
  case (run t y b i g p s e)
  then show ?case using run_keeps [of rb y t b i g "(p, s, e)"] by (simp add: keeps_def)
next
  case (suspend t y c u h)
  then show ?case using suspend_keeps by blast
next
  case (collect y r lw)
  then show ?case using collect_keeps [of rb y lw] view_setters by auto
next
  case (deflate y b s)
  then show ?case using deflate_keeps by blast
qed

lemma fresh_keeps: "g < 4 \<Longrightarrow> lock_inv rb (fresh_object g)"
  by (simp add: lock_inv_def fresh_object_def word_ok_def view_fresh waiters_ok_def mutex_ok_def has_mutex_def
      ids_ok_def holds_ok_def depth_def lock_state_def)

lemma reaches_inv: "reaches rb y \<Longrightarrow> lock_inv rb y"
  by (induction rule: reaches.induct) (auto intro: fresh_keeps step_keeps)

section \<open>The abstract lock\<close>

text \<open>
  A reentrant lock is its holder and the recursion depth.  A step of a thread leaves it as it is,
  takes it when it is free or the thread's own, or gives up one level.
\<close>

definition lock_step :: "u32 \<Rightarrow> (u32 \<times> nat) option \<Rightarrow> (u32 \<times> nat) option \<Rightarrow> bool" where
  "lock_step t a a' \<longleftrightarrow>
     a' = a \<or> (a = None \<and> a' = Some (t, 1)) \<or> (\<exists>n > 0. a = Some (t, n) \<and> a' = Some (t, n + 1)) \<or>
     (\<exists>n > 0. a = Some (t, n + 1) \<and> a' = Some (t, n)) \<or> (a = Some (t, 1) \<and> a' = None)"

lemma depth_holder: "0 < n \<Longrightarrow> depth s t = n \<longleftrightarrow> lock_state s = Some (t, n)"
  by (auto simp: depth_def split: option.splits prod.splits)

lemma depth_free: "(\<forall>u. depth s u = 0) \<longleftrightarrow> lock_state s = None"
proof -
  have "0 < n" if "lock_state s = Some (u, n)" for u n
    using that by (auto simp: lock_state_def split: word_view.splits option.splits if_splits)
  moreover have "lock_state s = Some (u, n) \<Longrightarrow> depth s u = n" for u n by (simp add: depth_def)
  ultimately show ?thesis by (cases "lock_state s") (force simp: depth_def)+
qed

lemma lock_stepI:
  assumes others: "\<And>u. u \<noteq> t \<Longrightarrow> depth s' u = depth s u"
    and own: "depth s' t = depth s t \<or> depth s' t = depth s t + 1 \<or> depth s t = depth s' t + 1"
  shows "lock_step t (lock_state s) (lock_state s')"
proof (cases "\<exists>u n. u \<noteq> t \<and> 0 < n \<and> depth s u = n")
  case True
  then obtain u n where u: "u \<noteq> t" "0 < n" "depth s u = n" by blast
  then have "lock_state s = Some (u, n)" "lock_state s' = Some (u, n)" using others [of u] depth_holder [of n] by metis+
  then show ?thesis by (simp add: lock_step_def)
next
  case False
  then have zero: "depth s u = 0" "depth s' u = 0" if "u \<noteq> t" for u using others [OF that] that by auto
  have state: "lock_state x = (if depth x t = 0 then None else Some (t, depth x t))"
    if "\<And>u. u \<noteq> t \<Longrightarrow> depth x u = 0" for x
    using that depth_free [of x] depth_holder [of "depth x t" x t] by (metis not_gr_zero)
  show ?thesis using own by (auto simp: state [OF zero(1)] state [OF zero(2)] lock_step_def)
qed

text \<open>A call returns with nothing pending, and what is pending does not get lost before.\<close>

fun fits :: "point \<Rightarrow> outcome \<Rightarrow> bool" where
  "fits p (p', s', e) = (p' = Abort \<or>
     (case e of Entered \<Rightarrow> pending p' = 0 | Tau \<Rightarrow> pending p \<le> pending p' | _ \<Rightarrow> pending p = 0 \<and> pending p' = 0))"

lemma fits_operations:
  "\<forall>r \<in> set (InflateThinLocked c t lw h s). fits (Switch d v) r"
  "\<forall>r \<in> set (InflateThinLocked_recheck c u h s). fits (Recheck c u h) r"
  "\<forall>r \<in> set (Install_read susp t c u h m s). fits (Install c u h m) r"
  "\<forall>r \<in> set (Install_publish c u h m lw s). fits (Publish c u h m lw) r"
  "\<forall>r \<in> set (Inflate_finish c b s). fits (Resume c u b) r"
  "\<forall>r \<in> set (MonitorExit rb t lw s). fits (ExitSwitch lw) r"
  by (auto simp: InflateThinLocked_def InflateThinLocked_recheck_def Install_read_def Install_publish_def Inflate_finish_def
      MonitorExit_def Let_def split: LockState.splits option.splits if_splits)

lemma fits_calls:
  "\<forall>r \<in> set (MonitorEnter rb t b k lw s). fits (Switch c v) r"
  "\<forall>r \<in> set (IdentityHashCodeHelper b t g lw s). fits (Switch c v) r"
  by (auto simp: MonitorEnter_def IdentityHashCodeHelper_def InflateThinLocked_def Let_def
      split: LockState.splits option.splits if_splits)

lemma run_fits: "r \<in> set (thread_step rb susp t i g p s) \<Longrightarrow> fits p r"
proof (cases p)
  case (Switch c lw)
  then show "r \<in> set (thread_step rb susp t i g p s) \<Longrightarrow> fits p r" using fits_calls by (cases c) auto
next
  case (Loop c)
  then show "r \<in> set (thread_step rb susp t i g p s) \<Longrightarrow> fits p r" by (cases c) (auto split: if_splits)
qed (use fits_operations in \<open>auto simp: with_monitor_def TryLock_owner_def TryLock_mutex_def TryLock_store_def Lock_block_def
       Unlock_def Monitor_GetHashCode_def split: option.splits if_splits\<close>)

lemma pending_bound: "pending p \<le> 1"
  by (cases p) simp_all

lemma step_depth:
  assumes step: "step rb y t e y'" and inv: "lock_inv rb y" "lock_inv rb y'"
  shows "lock_step t (lock_state (obj y)) (lock_state (obj y'))"
  using step
proof cases
  case (run b i g p s)
  note y' = run(1)
  have "fits (point_of y t) (p, s, e)" using run_fits run by blast
  moreover have "p \<noteq> Abort" using lock_invD(2) [OF inv(2), of t] by (auto simp: y')
  moreover have "e = Exited \<Longrightarrow> 0 < held y t" using run_keeps [OF inv(1)] run unfolding keeps_def by fastforce
  moreover have d: "depth (obj y') t = count_event e (held y t) + pending p" "depth (obj y) t = held y t + pending (point_of y t)"
    using lock_invD(7) [OF inv(2), of t] lock_invD(7) [OF inv(1), of t] by (simp_all add: y')
  moreover have "pending p \<le> 1" "pending (point_of y t) \<le> 1" by (rule pending_bound)+
  ultimately have "depth (obj y') t = depth (obj y) t \<or> depth (obj y') t = depth (obj y) t + 1 \<or> depth (obj y) t = depth (obj y') t + 1"
    by (cases e) (simp_all, linarith+)
  moreover have "depth (obj y') u = depth (obj y) u" if "u \<noteq> t" for u
    using lock_invD(7) [OF inv(2), of u] lock_invD(7) [OF inv(1), of u] that by (simp add: y')
  ultimately show ?thesis by (intro lock_stepI)
next
  case (collect r lw)
  then have "view lw = view (lock_word (obj y))" using view_setters by auto
  then show ?thesis using collect by (simp add: lock_step_def collect_same)
next
  case (deflate b s)
  then show ?thesis using deflate_keeps [OF inv(1)] by (simp add: lock_step_def)
qed (simp_all add: lock_step_def)

lemma step_event:
  assumes "step rb y t e y'" "e \<noteq> Tau" "lock_inv rb y"
  shows "fits (point_of y t) (point_of y' t, obj y', e)" "held y' t = count_event e (held y t)"
    "keeps rb y t (point_of y' t, obj y', e)"
proof -
  from assms(1,2) obtain b i g p s where r: "valid_thread t" "\<not> suspended y t \<or> point_of y t = Blocked b" "unused_id y i"
      "g \<noteq> 0" "g \<le> kHashMask" "(p, s, e) \<in> set (thread_step rb (IsSuspended y) t i g (point_of y t) (obj y))"
    and y': "y' = \<lparr>obj = s, point_of = (point_of y)(t := p), held = (held y)(t := count_event e (held y t))\<rparr>"
    by (elim step.cases) blast+
  show "fits (point_of y t) (point_of y' t, obj y', e)" using run_fits [OF r(6)] by (simp add: y')
  show "held y' t = count_event e (held y t)" by (simp add: y')
  show "keeps rb y t (point_of y' t, obj y', e)" using run_keeps [OF assms(3) r] by (simp add: y')
qed

lemma step_reports:
  assumes step: "step rb y t e y'" and inv: "lock_inv rb y" "lock_inv rb y'"
  shows "e = Entered \<Longrightarrow> lock_state (obj y') = Some (t, held y t + 1)"
    "e = Exited \<Longrightarrow> lock_state (obj y) = Some (t, held y t)"
    "e = NotExited \<Longrightarrow> depth (obj y) t = 0" "e = NotEntered \<Longrightarrow> depth (obj y) t = 0"
proof -
  have d: "depth (obj y') t = held y' t + pending (point_of y' t)" "depth (obj y) t = held y t + pending (point_of y t)"
    using lock_invD(7) [OF inv(2), of t] lock_invD(7) [OF inv(1), of t] by simp_all
  have na: "point_of y' t \<noteq> Abort" using lock_invD(2) [OF inv(2), of t] by auto
  have facts: "fits (point_of y t) (point_of y' t, obj y', e)" "held y' t = count_event e (held y t)"
    "e = Exited \<Longrightarrow> 0 < held y t" "e = NotExited \<Longrightarrow> held y t = 0" "e = NotEntered \<Longrightarrow> held y t = 0" if "e \<noteq> Tau"
    using step_event [OF step that inv(1)] unfolding keeps_def by (simp_all only: fst_conv snd_conv event.case)
  show "e = Entered \<Longrightarrow> lock_state (obj y') = Some (t, held y t + 1)"
    using facts(1,2) d(1) na depth_holder [of "held y t + 1" "obj y'" t] by simp
  show "e = Exited \<Longrightarrow> lock_state (obj y) = Some (t, held y t)"
    using facts(1,3) d(2) na depth_holder [of "held y t" "obj y" t] by simp
  show "e = NotExited \<Longrightarrow> depth (obj y) t = 0" using facts(1,4) d(2) na by simp
  show "e = NotEntered \<Longrightarrow> depth (obj y) t = 0" using facts(1,5) d(2) na by simp
qed

lemma step_hash:
  assumes step: "step rb y t e y'" and inv: "lock_inv rb y"
  shows "(object_hash (obj y) \<noteq> 0 \<longrightarrow> object_hash (obj y') = object_hash (obj y)) \<and>
    (e = Hashed h \<longrightarrow> hash_answer (point_of y t) (obj y') h) \<and>
    (valid_thread t \<longrightarrow> gc_of (lock_word (obj y')) = gc_of (lock_word (obj y)))"
  using step
proof cases
  case (run b i g p s)
  have "keeps rb y t (p, s, e)" using run_keeps [OF inv] run by blast
  then show ?thesis using run(1) by (auto simp: keeps_def)
next
  case (collect r lw)
  then have "view lw = view (lock_word (obj y))" using view_setters by auto
  then show ?thesis using collect by (simp add: collect_same)
next
  case (deflate b s)
  then show ?thesis using deflate_keeps [OF inv] by simp
qed simp_all

section \<open>An example\<close>

text \<open>A thread that has read the lock word of a fresh object, and that has entered or hashed it.\<close>

definition calling :: "call \<Rightarrow> system" where
  "calling c = \<lparr>obj = \<lparr>lock_word = 0, monitors = (\<lambda>m. None)\<rparr>, point_of = (\<lambda>u. Outside)(1 := Switch c 0), held = (\<lambda>u. 0)\<rparr>"

definition entered :: system where
  "entered = \<lparr>obj = \<lparr>lock_word = 1, monitors = (\<lambda>m. None)\<rparr>, point_of = (\<lambda>u. Outside), held = (\<lambda>u. 0)(1 := 1)\<rparr>"

definition hashed :: system where
  "hashed = \<lparr>obj = \<lparr>lock_word = 0x80000005, monitors = (\<lambda>m. None)\<rparr>, point_of = (\<lambda>u. Outside), held = (\<lambda>u. 0)\<rparr>"

lemma calling_reached: "c \<in> {Enter b 1, IdentityHash b} \<Longrightarrow> reaches rb (calling c)"
proof -
  assume c: "c \<in> {Enter b 1, IdentityHash b}"
  have zero: "FromDefault 0 = 0" by (simp add: FromDefault_def)
  let ?y = "fresh_object 0" and ?z = "(fresh_object 0)\<lparr>point_of := (\<lambda>u. Outside)(1 := Loop c)\<rparr>"
  have "reaches rb ?y" by (rule reaches.fresh) simp
  moreover have "step rb ?y 1 Tau ?z"
    using step.call [of 1 ?y "Loop c" b b rb] c by (auto simp: fresh_object_def suspended_def)
  moreover have "step rb ?z 1 Tau (calling c)"
    using step.run [of 1 ?z 0 0 1 "Switch c 0" "obj ?z" Tau rb] c
    by (auto simp: fresh_object_def calling_def suspended_def unused_id_def zero fun_upd_idem)
  ultimately show ?thesis by (blast intro: reaches.next_step)
qed

lemma thin_one: "FromThinLockId 1 0 (GCState 0) = Some 1"
  by code_simp

lemma calling_enters: "step rb (calling (Enter b 1)) 1 Entered entered"
proof -
  have zero: "GetState True 0 = kUnlocked" by code_simp
  show ?thesis
    using step.run [of 1 "calling (Enter b 1)" 0 0 1 Outside "\<lparr>lock_word = 1, monitors = (\<lambda>m. None)\<rparr>" Entered rb]
    by (simp add: calling_def entered_def suspended_def unused_id_def MonitorEnter_def zero thin_one CasLockWord_def fun_upd_idem)
qed

lemma entered_reached: "reaches rb entered"
  by (rule reaches.next_step [OF calling_reached [of "Enter False 1" False] calling_enters]) simp

lemma calling_hashes: "step rb (calling (IdentityHash b)) 1 (Hashed 5) hashed"
proof -
  have zero: "GetState True 0 = kUnlocked" "FromHashCode 5 (GCState 0) = Some 0x80000005" "GetHashCode 0x80000005 = 5" by code_simp+
  show ?thesis
    using step.run [of 1 "calling (IdentityHash b)" 0 0 5 Outside "\<lparr>lock_word = 0x80000005, monitors = (\<lambda>m. None)\<rparr>" "Hashed 5" rb]
    by (simp add: calling_def hashed_def suspended_def unused_id_def IdentityHashCodeHelper_def zero CasLockWord_def fun_upd_idem)
qed

text \<open>The states of a run in which two threads ask for the hash code of an object that a third has
  inflated.\<close>

definition stage :: "u32 \<Rightarrow> Monitor option \<Rightarrow> (u32 \<Rightarrow> point) \<Rightarrow> system" where
  "stage w mon pts = \<lparr>obj = \<lparr>lock_word = w, monitors = (\<lambda>m. None)(0 := mon)\<rparr>, point_of = pts, held = (\<lambda>u. 0)(1 := 1)\<rparr>"

definition fat_monitor :: "u32 \<Rightarrow> Monitor" where
  "fat_monitor h = \<lparr>monitor_lock = 1, num_waiters = 0, monitor_owner = 1, lock_count = 0, hash_code = h\<rparr>"

lemma stage_call:
  assumes "reaches rb (stage w mon pts)" "valid_thread t" "\<not> suspended (stage w mon pts) t" "pts t = Outside"
    and "c \<in> {Enter b 1, IdentityHash b}"
  shows "reaches rb (stage w mon (pts(t := Loop c)))"
  using reaches.next_step [OF assms(1) step.call [of t _ "Loop c" b b]] assms(2-5) by (auto simp: stage_def)

lemma stage_run:
  assumes "reaches rb (stage w mon pts)" "valid_thread t" "\<not> suspended (stage w mon pts) t" "unused_id (stage w mon pts) i"
    and "(p, \<lparr>lock_word = w', monitors = (\<lambda>m. None)(0 := mon')\<rparr>, Tau) \<in>
      set (thread_step rb (IsSuspended (stage w mon pts)) t i 5 (pts t) \<lparr>lock_word = w, monitors = (\<lambda>m. None)(0 := mon)\<rparr>)"
  shows "reaches rb (stage w' mon' (pts(t := p)))"
  using reaches.next_step [OF assms(1) step.run [of t "stage w mon pts" 0 i 5 p _ Tau rb]] assms(2-5)
  by (simp add: stage_def fun_upd_idem)

lemma stage_suspend:
  assumes "reaches rb (stage w mon pts)" "valid_thread t" "pts t = Suspending c u h" "u \<noteq> t" "stoppable (pts u)"
  shows "reaches rb (stage w mon (pts(t := Suspended c u h)))"
  using reaches.next_step [OF assms(1) step.suspend [of t _ c u h]] assms(2-5) by (simp add: stage_def)

lemma stage_words:
  "GetState True 1 = kThinLocked" "ThinLockOwner 1 = 1" "ThinLockCount 1 = 0" "LockWord_fat 0 (GCState 1) = 0x40000000"
  "GetState True 0x40000000 = kFatLocked" "FatLockMonitor 0x40000000 = 0" "(0 :: u32) \<le> kHashMask" "(1 :: u32) \<le> kHashMask"
  by code_simp+

lemmas stage_rules = suspended_def IsSuspended_def unused_id_def stage_def stage_words MonitorEnter_def InflateThinLocked_def
  InflateThinLocked_recheck_def Install_read_def Install_publish_def CasLockWord_def Inflate_finish_def IdentityHashCodeHelper_def
  with_monitor_def Monitor_GetHashCode_def fat_monitor_def Let_def

lemma entered_stage: "entered = stage 1 None (\<lambda>u. Outside)"
  by (simp add: entered_def stage_def fun_upd_idem)

lemma stage_inflated: "reaches rb (stage 0x40000000 (Some (fat_monitor 0)) ((\<lambda>u. Outside)(2 := Loop (Enter False 2))))"
proof -
  let ?p = "\<lambda>q. (\<lambda>u. Outside)(2 := q)" and ?c = "Enter False 2"
  have "reaches rb (stage 1 None (\<lambda>u. Outside))" using entered_reached [of rb] by (simp add: entered_stage)
  from stage_call [OF this, of 2 "Enter False 1" False] have "reaches rb (stage 1 None (?p (Loop (Enter False 1))))"
    by (simp add: stage_rules)
  from stage_run [OF this, of 2 0 "Switch (Enter False 1) 1" 1 None] have "reaches rb (stage 1 None (?p (Switch (Enter False 1) 1)))"
    by (auto simp: stage_rules split: if_splits)
  from stage_run [OF this, of 2 0 "Suspending ?c 1 0" 1 None] have "reaches rb (stage 1 None (?p (Suspending ?c 1 0)))"
    by (auto simp: stage_rules split: if_splits)
  from stage_suspend [OF this, of 2 ?c 1 0] have "reaches rb (stage 1 None (?p (Suspended ?c 1 0)))" by simp
  from stage_run [OF this, of 2 0 "Recheck ?c 1 0" 1 None] have "reaches rb (stage 1 None (?p (Recheck ?c 1 0)))"
    by (auto simp: stage_rules split: if_splits)
  from stage_run [OF this, of 2 0 "Create ?c 1 0" 1 None] have "reaches rb (stage 1 None (?p (Create ?c 1 0)))"
    by (auto simp: stage_rules split: if_splits)
  from stage_run [OF this, of 2 0 "Install ?c 1 0 0" 1 None] have "reaches rb (stage 1 None (?p (Install ?c 1 0 0)))"
    by (auto simp: stage_rules split: if_splits)
  from stage_run [OF this, of 2 1 "Publish ?c 1 0 0 1" 1 None] have "reaches rb (stage 1 None (?p (Publish ?c 1 0 0 1)))"
    by (auto simp: stage_rules split: if_splits)
  from stage_run [OF this, of 2 1 "Resume ?c 1 True" "0x40000000" "Some (fat_monitor 0)"]
  have "reaches rb (stage 0x40000000 (Some (fat_monitor 0)) (?p (Resume ?c 1 True)))"
    by (auto simp: stage_rules split: if_splits)
  from stage_run [OF this, of 2 1 "Loop ?c" "0x40000000" "Some (fat_monitor 0)"] show ?thesis
    by (auto simp: stage_rules split: if_splits)
qed

text \<open>Thread 3 has read that there is no hash code, and then thread 1 has stored one.\<close>

definition raced :: "point \<Rightarrow> point \<Rightarrow> u32 \<Rightarrow> system" where
  "raced p r h = stage 0x40000000 (Some (fat_monitor h)) ((\<lambda>u. Outside)(2 := Loop (Enter False 2), 3 := r, 1 := p))"

lemma raced_reached: "reaches rb (raced (MonitorHashLoad 0) (MonitorHashCheck 0 0) 5)"
proof -
  let ?w = "0x40000000 :: u32" and ?m = "Some (fat_monitor 0)" and ?h = "IdentityHash True" and ?d = "MonitorHashCheck 0 0"
  let ?r = "\<lambda>r. (\<lambda>u. Outside)(2 := Loop (Enter False 2), 3 := r)"
  let ?p = "\<lambda>p. (\<lambda>u. Outside)(2 := Loop (Enter False 2), 3 := ?d, 1 := p)"
  from stage_call [OF stage_inflated, of 3 ?h True] have "reaches rb (stage ?w ?m (?r (Loop ?h)))"
    by (auto simp: stage_rules split: if_splits)
  from stage_run [OF this, of 3 1 "Switch ?h ?w" ?w ?m] have "reaches rb (stage ?w ?m (?r (Switch ?h ?w)))"
    by (auto simp: stage_rules split: if_splits)
  from stage_run [OF this, of 3 1 "MonitorHash 0" ?w ?m] have "reaches rb (stage ?w ?m (?r (MonitorHash 0)))"
    by (auto simp: stage_rules split: if_splits)
  from stage_run [OF this, of 3 1 ?d ?w ?m] have "reaches rb (stage ?w ?m (?r ?d))"
    by (auto simp: stage_rules split: if_splits)
  from stage_call [OF this, of 1 ?h True] have "reaches rb (stage ?w ?m (?p (Loop ?h)))"
    by (auto simp: stage_rules split: if_splits)
  from stage_run [OF this, of 1 1 "Switch ?h ?w" ?w ?m] have "reaches rb (stage ?w ?m (?p (Switch ?h ?w)))"
    by (auto simp: stage_rules split: if_splits)
  from stage_run [OF this, of 1 1 "MonitorHash 0" ?w ?m] have "reaches rb (stage ?w ?m (?p (MonitorHash 0)))"
    by (auto simp: stage_rules split: if_splits)
  from stage_run [OF this, of 1 1 ?d ?w ?m] have "reaches rb (stage ?w ?m (?p ?d))"
    by (auto simp: stage_rules split: if_splits)
  from stage_run [OF this, of 1 1 "MonitorHashSet 0" ?w ?m] have "reaches rb (stage ?w ?m (?p (MonitorHashSet 0)))"
    by (auto simp: stage_rules split: if_splits)
  from stage_run [OF this, of 1 1 "MonitorHashLoad 0" ?w "Some (fat_monitor 5)"] show ?thesis
    unfolding raced_def by (auto simp: stage_rules split: if_splits)
qed

lemma raced_answers_zero:
  "step rb (raced (MonitorHashLoad 0) (MonitorHashCheck 0 0) 5) 3 (Hashed 0) (raced (MonitorHashLoad 0) Outside 5)"
proof -
  let ?y = "raced (MonitorHashLoad 0) (MonitorHashCheck 0 0) 5"
  have "\<not> suspended ?y 3" "unused_id ?y 1" by (auto simp: raced_def stage_rules split: if_splits)
  then show ?thesis
    using step.run [of 3 ?y 0 1 5 Outside "obj ?y" "Hashed 0" rb]
    by (simp add: raced_def stage_rules fun_upd_idem fun_upd_twist)
qed

section \<open>Properties\<close>

text \<open>
  C11.  In every reachable state of the threads that enter, leave and hash an object, with the
  collector changing its bits and deflating, at most one thread is between an entry and the matching
  exit: if a thread is, no other thread is, and the lock word or the monitor names this thread as
  the holder, with its entries and the one it is about to finish as the recursion depth.  In no
  reachable state has a thread failed a \<open>CHECK\<close> or followed a pointer to a monitor that is gone, and
  deflation is defined.  Two aborts remain, of a recursion count that wraps (\<open>Overflow\<close>) and of too
  many attempts to inflate the lock (\<open>TooManyAttempts\<close>).
\<close>

theorem monitor_mutual_exclusion:
  assumes "reaches rb y"
  shows "(\<forall>t. 0 < held y t \<longrightarrow> lock_state (obj y) = Some (t, held y t + pending (point_of y t)) \<and>
      (\<forall>u. u \<noteq> t \<longrightarrow> held y u = 0 \<and> pending (point_of y u) = 0)) \<and>
    (\<forall>u. point_of y u \<noteq> Abort) \<and> Deflate (obj y) \<noteq> None"
proof (intro conjI allI impI)
  note inv = reaches_inv [OF assms]
  show "point_of y u \<noteq> Abort" for u using lock_invD(2) [OF inv, of u] by auto
  show "Deflate (obj y) \<noteq> None" by (rule deflate_defined [OF inv])
  show l: "lock_state (obj y) = Some (t, held y t + pending (point_of y t))" if "0 < held y t" for t
    using lock_invD(7) [OF inv, of t] that depth_holder [of "depth (obj y) t" "obj y" t] by simp
  show "held y u = 0" "pending (point_of y u) = 0" if "0 < held y t" "u \<noteq> t" for t u
    using lock_invD(7) [OF inv, of u] l [OF that(1)] that(2) by (simp_all add: depth_def)
qed

theorem monitor_mutual_exclusion_witness:
  "reaches True entered \<and> 0 < held entered 1 \<and> lock_state (obj entered) = Some (1, held entered 1 + pending (point_of entered 1))"
proof -
  have "0 < held entered 1" by (simp add: entered_def)
  then show ?thesis using monitor_mutual_exclusion [OF entered_reached [of True]] entered_reached [of True] by blast
qed

text \<open>
  C12.  The thin lock, the monitor and the changes between them implement one reentrant lock: every
  step from a reachable state leaves the abstract lock as it is, or is an acquisition or a release
  of one level by the thread that makes the step.  An entry that succeeds leaves the thread as the
  holder with one more level, one that is refused was tried by a thread that does not hold the lock;
  an exit succeeds only for the holder and is refused only to a thread that does not hold the lock.
\<close>

theorem monitor_refines_lock:
  assumes "reaches rb y" "step rb y t e y'"
  shows "lock_step t (lock_state (obj y)) (lock_state (obj y')) \<and>
    (e = Entered \<longrightarrow> lock_state (obj y') = Some (t, held y t + 1)) \<and>
    (e = NotEntered \<longrightarrow> depth (obj y) t = 0) \<and>
    (e = Exited \<longrightarrow> lock_state (obj y) = Some (t, held y t)) \<and>
    (e = NotExited \<longrightarrow> depth (obj y) t = 0)"
proof -
  note inv = reaches_inv [OF assms(1)] reaches_inv [OF reaches.next_step [OF assms]]
  show ?thesis using step_depth [OF assms(2) inv] step_reports [OF assms(2) inv] by blast
qed

theorem monitor_refines_lock_witness:
  "lock_step 1 (lock_state (obj (calling (Enter False 1)))) (lock_state (obj entered)) \<and> lock_state (obj entered) = Some (1, 1)"
  using monitor_refines_lock [OF calling_reached [of "Enter False 1" False] calling_enters [of False False]] by (auto simp: calling_def)

text \<open>
  C13.  The identity hash code of an object is chosen once: no step from a reachable state changes
  it, also when the lock is inflated or deflated, and a hash code that a call returns is the one of
  the object.  A call returns 0 in two cases: it may not inflate and has read a thin lock; or
  \<open>Monitor::GetHashCode\<close> read 0 and then, at \<open>HasHashCode\<close>, found the hash code that another thread
  had stored in between, so that it returns 0 although the object has a hash code.  No step of a thread
  changes the collector's bits of the lock word.
\<close>

theorem identity_hash_stable:
  assumes "reaches rb y" "step rb y t e y'"
  shows "(object_hash (obj y) \<noteq> 0 \<longrightarrow> object_hash (obj y') = object_hash (obj y)) \<and>
    (\<forall>h. e = Hashed h \<longrightarrow> h \<noteq> 0 \<and> object_hash (obj y') = h \<or>
       h = 0 \<and> (\<exists>lw. point_of y t = Switch (IdentityHash False) lw \<and> GetState True lw = kThinLocked) \<or>
       h = 0 \<and> (\<exists>m. point_of y t = MonitorHashCheck m 0) \<and> object_hash (obj y') \<noteq> 0) \<and>
    (valid_thread t \<longrightarrow> gc_of (lock_word (obj y')) = gc_of (lock_word (obj y)))"
  using step_hash [OF assms(2) reaches_inv [OF assms(1)]] unfolding hash_answer_def by (metis (no_types, lifting))

theorem identity_hash_stable_witness:
  "reaches True (raced (MonitorHashLoad 0) (MonitorHashCheck 0 0) 5) \<and>
   step True (raced (MonitorHashLoad 0) (MonitorHashCheck 0 0) 5) 3 (Hashed 0) (raced (MonitorHashLoad 0) Outside 5) \<and>
   object_hash (obj (raced (MonitorHashLoad 0) Outside 5)) \<noteq> 0 \<and>
   step True (calling (IdentityHash True)) 1 (Hashed 5) hashed \<and> object_hash (obj hashed) = 5"
proof -
  have "point_of (raced (MonitorHashLoad 0) (MonitorHashCheck 0 0) 5) 3 = MonitorHashCheck 0 0" by (simp add: raced_def stage_def)
  then have "object_hash (obj (raced (MonitorHashLoad 0) Outside 5)) \<noteq> 0"
    using identity_hash_stable [OF raced_reached raced_answers_zero] by simp
  moreover have "object_hash (obj hashed) = 5"
    using identity_hash_stable [OF calling_reached [of "IdentityHash True" True] calling_hashes [of True True]] by simp
  ultimately show ?thesis using raced_reached raced_answers_zero calling_hashes by blast
qed

end
