(* ===== verification/Spec2Isabelle.thy ===== *)
theory Spec2Isabelle
  imports Leb128 DexInstruction CodeItem VerifierProps InterpreterExample OperationProps FloatProps
    Utf MonitorProps
begin

text \<open>
  A verification library for the bytecode core of the Android runtime: the reading of dex code, its
  static verification, its execution by the switch interpreter, the strings of dex files, and the lock
  and identity hash code that every object has.

  \<^bold>\<open>The program.\<close>  A method's code is a list of 16-bit code units with a table of try ranges and a
  byte stream of catch handlers (\<open>libdexfile/dex\<close>).  Instructions are decoded by accessors per
  operand and format; a table gives each opcode its format, its flow flags and its verify flags.  The
  method verifier (\<open>runtime/verifier/method_verifier.cc\<close>) first makes a static pass over the code: it
  lays out the instructions, checks the try table and the handlers, and checks every operand, index,
  branch target and payload; its code-flow analysis over register types follows.  The switch interpreter
  (\<open>runtime/interpreter\<close>) then runs the code in a shadow frame, without checking what the verifier has
  checked: it reads operands, registers, payloads and handler lists unguarded.  The development shows
  that this trust is justified where it is, and where it is not.  Strings in dex files are modified UTF-8,
  compared and hashed as if they were UTF-16 (\<open>libdexfile/dex/utf.cc\<close>).  The lock word of an object
  (\<open>runtime/lock_word.h\<close>) holds a thin lock, a hash code or the id of a monitor; \<open>monitor-enter\<close>,
  \<open>monitor-exit\<close> and \<open>Object::IdentityHashCode\<close> change it by compare-and-swap, threads that contend
  suspend the owner and inflate its lock to a monitor, and the collector deflates idle monitors
  (\<open>runtime/monitor.cc\<close>).

  \<^bold>\<open>Theories.\<close>
  \<^item> \<open>Prelude\<close>: words, options and lists; the interface \<open>byte_codec\<close> of an encoder and decoder and the
    interface \<open>sorted_table\<close> of a binary search.
  \<^item> \<open>Leb128\<close>: the variable-length integers of \<open>libartbase/base/leb128.h\<close>, every encoder, decoder, size
    and update function.  Four interpretations of \<open>byte_codec\<close>; round trips, sizes, in-place update.
  \<^item> \<open>DexOpcodes\<close>, \<open>DexInstruction\<close>: the opcode table \<open>dex_instruction_list.h\<close>, the descriptors and
    classification of \<open>dex_instruction.h\<close>, every operand accessor of \<open>dex_instruction-inl.h\<close>, sizes, payload
    structures and setters.  Operands lie in their instruction; verify flags match the formats.
  \<^item> \<open>CodeItem\<close>: \<open>CodeItemDataAccessor\<close>, the search of the try table, \<open>CatchHandlerIterator\<close>,
    \<open>ArtMethod::FindCatchBlock\<close> and the end of the code item's data.
  \<^item> \<open>MethodVerifier\<close>: the static pass of \<open>method_verifier.cc\<close> as a state machine over the record
    \<open>verifier\<close> (instruction flags, failures), one definition per function, and the contract of accepted code
    (\<open>laid_out\<close>, \<open>insn_ok\<close>).  \<open>VerifierStatic\<close>, \<open>VerifierDispatch\<close>, \<open>VerifierSound\<close>: each pass establishes
    its part of the contract; \<open>VerifierProps\<close>: the properties.
  \<^item> \<open>ShadowFrame\<close>, \<open>ObjectMemory\<close>, \<open>Ieee754\<close>: registers and references of \<open>shadow_frame.h\<close> and
    \<open>jvalue.h\<close>, the fields and arrays of \<open>runtime/mirror\<close> as bytes in memory, and \<open>float\<close> and \<open>double\<close> as bit
    patterns with IEEE arithmetic.
  \<^item> \<open>InterpreterState\<close>, \<open>InterpreterCommon\<close>, \<open>InterpreterSwitch\<close>, \<open>InterpreterOps\<close>, \<open>InterpreterLoop\<close>:
    the state of a run (\<open>interp\<close>), the parts of the process it calls (\<open>runtime\<close>), the functions of
    \<open>interpreter_common\<close>, \<open>common_dex_operations.h\<close> and \<open>lock_count_data.cc\<close>, the helpers of
    \<open>InstructionHandler\<close>, one definition for each of its opcode methods, and \<open>ExecuteSwitchImplCpp\<close>.
    A turn of the loop is \<open>switch_step\<close>, and the loop \<open>switch_loop\<close> takes the number of turns it may make:
    \<open>Running\<close> is its answer when they are used up, so that nothing is claimed of a run that did not end.
  \<^item> \<open>InterpreterSafe\<close>, \<open>InterpreterHandlers\<close>, \<open>InterpreterTables\<close>: what the interpreter relies on of the
    runtime, that every handler is safe when its operands and targets fit, that the needs of all 256
    handlers follow from the rows of the opcode table, and that the searches in switch payloads are lookups
    (a second interpretation of \<open>sorted_table\<close>).
  \<^item> \<open>InterpreterVerified\<close>, \<open>InterpreterRun\<close>: code the verifier accepts meets those needs; pending
    exceptions; the invariant of the loop, its refinement of the control-flow graph, and its end on code
    without loops.  \<open>InterpreterExample\<close> has a concrete runtime and small methods.
  \<^item> \<open>OperationProps\<close>, \<open>FloatProps\<close>: the functional behaviour of the operations.  The interface
    \<open>element_store\<close>, interpreted on primitive and object arrays, gives the refinement of arrays by lists.
  \<^item> \<open>Utf\<close>: decoding, encoding, counting, comparing and hashing of modified UTF-8.  Round trips for every
    list of UTF-16 units; the comparisons are the lexicographic order of the units; the hashes agree.
  \<^item> \<open>LockWord\<close>: the constructors and accessors of lock words over their bit fields.
  \<^item> \<open>Monitor\<close>: the operations of \<open>monitor.cc\<close> and \<open>mirror/object.cc\<close> on one object, cut into steps at
    each access to shared state.  A \<open>point\<close> is where a thread stands in a call; each operation gives
    the list of its outcomes, so that a weak compare-and-swap may fail.  \<open>step\<close> interleaves any number of
    threads with suspension, the collector's bits and deflation, and \<open>reaches\<close> gives the reachable states.
    \<open>MonitorInv\<close>: the invariant, as what each point may rely on and what each thread guarantees the
    others.  \<open>MonitorProps\<close>: every step keeps it; mutual exclusion, the refinement of a reentrant lock,
    and stable hash codes follow, with a run in which a call answers 0 for an object that has one.
  \<^item> This theory: the properties that join verifier and interpreter.

  \<^bold>\<open>Conventions.\<close>  Machine integers are words of their width, \<open>int32_t\<close> as 32-bit words read with \<open>sint\<close>.
  \<open>None\<close> stands for what C++ leaves undefined or what ends the process: a read outside a buffer, a
  register outside the frame, a failed \<open>CHECK\<close>, an invalid iterator.  \<open>DCHECK\<close>s are not modelled.
  A pointer to an instruction is the index of its first code unit.  References are 32-bit values; objects
  do not move, so handles are plain values.  Transactions are inactive, as in
  \<open>interpreter_switch_impl0.cc\<close>.  C++ leaves open which NaN an operation returns: here one quiet NaN.
  A signed overflow, of \<open>neg-int\<close>, \<open>neg-long\<close> and the index of a packed switch, is undefined and so
  \<open>None\<close>.  The interpreter is one thread; what other threads, the collector and debuggers do happens
  inside the calls of the runtime.  The model of the object lock has all threads, and one step at a time
  on the shared words: weaker memory orders are not modelled.  Its threads have distinct ids from 1 to
  65535, and a monitor's id is one that no monitor in use has.

  \<^bold>\<open>Hypotheses.\<close>  \<open>flow_closed\<close> is a condition on the code: control reaches no payload and not the end
  of the code.  The code-flow analysis checks this of the instructions it reaches, but it follows a
  handler only from instructions that are flagged as throwing, while the interpreter also takes
  asynchronous exceptions and those of listeners there; \<open>flow\<close> has all these edges, so the condition is
  stronger than what the analysis checks.  \<open>handlers_encoded\<close> is what the dex file verifier checks of try
  items.  \<open>runtime_ok\<close> and \<open>method_ok\<close> are what the interpreter relies on: calls leave the frame its size,
  its dex pc and its consistency, throwing leaves an exception pending, exit listeners ask only finitely
  often for a pop (\<open>listeners_settle\<close>), locks are not counted, and returned objects are checked only for
  apps that tolerate a wrong one.  \<open>InterpreterExample\<close> shows that they can
  hold together.  Where locks are counted, \<open>monitors_ok\<close> is the contract of the monitor operations.  Code has fewer than \<open>2\<^sup>1\<^sup>6\<close> units in the safety theorem, since the instruction handlers
  keep only 16 bits of the dex pc.

  \<^bold>\<open>Bounds.\<close>  Loops over code and tables are functions with a termination proof; only the interpreter
  loop, which a program can keep running, takes a number of turns, and \<open>forward_code_returns\<close> shows that
  as many turns as the code has units and invocations are retried are enough for code without loops.

  \<^bold>\<open>Not modelled.\<close>  The code-flow analysis and the register types of the verifier; the dex file verifier
  and the parsing of dex files; class linking, allocation, garbage collection, JIT and ahead-of-time
  compilation, generated code and entry points, JNI, the assembly interpreter nterp, invocation of other
  methods (\<open>DoCall\<close>) and method handles, which are parameters of the model; \<open>Wait\<close> and \<open>Notify\<close>,
  the tracing and profiling of contention, and the number of spins before a lock is inflated; tools,
  services and tests of the repository, which are I/O around these parts.
\<close>

section \<open>Runs through verified code\<close>

text \<open>
  C1.  A method that the verifier accepts runs safely in the switch interpreter: in every state the
  loop reaches from the start of the method, the two register arrays agree and have the size of the
  frame, the next instruction is an instruction of the code, and the next turn reads no code unit
  outside the code, no register outside the frame, no opcode without a handler: it is undefined only
  where it overflows a signed integer, in \<open>neg-int\<close>, \<open>neg-long\<close> and \<open>packed-switch\<close>, and there it is.
  The conditions: the code has fewer than \<open>2\<^sup>1\<^sup>6\<close> code units; its control flow, with an edge to
  the handlers from every instruction of a try block, reaches no payload and not the end of the code
  (\<open>flow_closed\<close>, more than the code-flow analysis checks); try items lead to the encoded handlers,
  as the dex file verifier checks; the runtime keeps the frame, throws what it is asked to throw, its
  listeners settle and it counts no locks; returned objects are not checked, or by an app that targets
  at most version 29, since the code aborts for a wrong one in others; a method that is not static has a
  receiver, and its locks and array types are what the verifier has found.
\<close>

theorem verified_code_safe:
  assumes "Verify code_flow df m v = Some (True, v')" "code_item m = Some (accessor rt)"
    and "length (insns (accessor rt)) < 2 ^ 16" "flow_closed (accessor rt)" "handlers_encoded (accessor rt)"
    and "runtime_ok rt" "method_ok rt df"
    and "frame_wf (frame s)" "number_of_vregs (frame s) = ucast (registers_size (accessor rt))" "next_inst s = 0"
    and "reachable rt s t"
  shows "frame_wf (frame t) \<and> number_of_vregs (frame t) = ucast (registers_size (accessor rt)) \<and>
    (\<exists>pc < length (insns (accessor rt)). next_inst t = int pc \<and> insn_start (insns (accessor rt)) pc) \<and>
    (switch_step rt t = None \<longleftrightarrow> turn_overflows rt t)"
proof -
  have v: "verified_code rt df" by (rule Verify_verified_code [OF assms(1-5)])
  have inv: "loop_inv rt t" by (rule reachable_inv [OF v assms(6,7) start_inv [OF v assms(8-10)] assms(11)])
  then obtain pc where pc: "next_inst t = int pc" "int pc \<in> positions (accessor rt)" by (auto simp: loop_inv_def elim: positions_cases)
  have "pc < length (insns (accessor rt)) \<and> insn_start (insns (accessor rt)) pc" using pc(2) unfolding int_positions by blast
  moreover have "switch_step rt t = None \<longleftrightarrow> turn_overflows rt t" by (rule switch_step_undefined [OF v assms(6,7) inv])
  ultimately show ?thesis using inv pc(1) by (auto simp: loop_inv_def method_frame_def)
qed

theorem verified_code_safe_witness:
  "reachable (quiet_runtime forward_code) (start_state forward_code) ((start_state forward_code)\<lparr>next_inst := 1\<rparr>) \<and>
   switch_step (quiet_runtime forward_code) ((start_state forward_code)\<lparr>next_inst := 1\<rparr>) \<noteq> None"
proof -
  have r: "reachable (quiet_runtime forward_code) (start_state forward_code) ((start_state forward_code)\<lparr>next_inst := 1\<rparr>)"
    by (rule reachable.turn [OF reachable.start forward_steps(1)])
  then show ?thesis
    using verified_code_safe [OF forward_verify, of "quiet_runtime forward_code" "start_state forward_code"
        "(start_state forward_code)\<lparr>next_inst := 1\<rparr>"] forward_flow_closed forward_handlers_encoded
      start_state_ok forward_defined [OF r]
    by (simp add: forward_method_def forward_insns quiet_runtime_ok quiet_method_ok)
qed

text \<open>
  C3.  A run through verified code is a path of its control-flow graph: a turn that goes on goes to
  the next instruction, to a branch or switch target or to a handler of an enclosing try block, or
  stays where it is, and that only at an invocation, which is to be retried.
\<close>

theorem run_follows_flow:
  assumes "verified_code rt df" "runtime_ok rt" "method_ok rt df"
    and "frame_wf (frame s)" "number_of_vregs (frame s) = ucast (registers_size (accessor rt))" "next_inst s = 0"
    and "reachable rt s t" "switch_step rt t = Some (Running u)"
  shows "\<exists>pc q. next_inst t = int pc \<and> next_inst u = int q \<and> flow_reach (accessor rt) pc \<and>
    (flow (accessor rt) pc q \<or> q = pc \<and> retriable (Opcode (insns (accessor rt) ! pc)))"
proof -
  have inv: "loop_inv rt t" by (rule reachable_inv [OF assms(1-3) start_inv [OF assms(1,4-6)] assms(7)])
  then obtain pc where pc: "next_inst t = int pc" "int pc \<in> positions (accessor rt)" by (auto simp: loop_inv_def elim: positions_cases)
  have "next_inst u \<in> edges (accessor rt) pc"
    using switch_step_turn_ok [OF assms(1-3) inv assms(8)] pc(1) by (simp add: turn_ok_def)
  then show ?thesis using pc unfolding int_positions by (auto simp: edges_def)
qed

theorem run_follows_flow_witness: "flow forward_code 0 1"
proof -
  let ?rt = "quiet_runtime forward_code :: unit runtime" and ?s = "start_state forward_code"
  have "\<exists>pc q. next_inst ?s = int pc \<and> next_inst (?s\<lparr>next_inst := 1\<rparr>) = int q \<and> flow_reach (accessor ?rt) pc \<and>
      (flow (accessor ?rt) pc q \<or> q = pc \<and> retriable (Opcode (insns (accessor ?rt) ! pc)))"
    by (rule run_follows_flow [OF forward_verified quiet_runtime_ok quiet_method_ok _ _ _ reachable.start forward_steps(1)])
      (simp_all add: start_state_ok)
  then show ?thesis by (auto simp: start_state_ok)
qed

text \<open>
  C4.  Verified code whose control flow only goes forward ends: from the start of the method the loop
  has returned after as many turns as the code has code units and invocations were retried, unless a
  turn overflowed a signed integer.
\<close>

theorem forward_code_returns:
  assumes "verified_code rt df" "runtime_ok rt" "method_ok rt df" "forward_only (accessor rt)"
    and "frame_wf (frame s)" "number_of_vregs (frame s) = ucast (registers_size (accessor rt))" "next_inst s = 0"
    and "length (insns (accessor rt)) + retries rt n s \<le> n"
  shows "(\<exists>t. switch_loop rt n s = Some (Returned t) \<and> frame_wf (frame t)) \<or>
    switch_loop rt n s = None \<and> (\<exists>t. reachable rt s t \<and> turn_overflows rt t)"
proof -
  have inv: "loop_inv rt s" by (rule start_inv [OF assms(1,5-7)])
  show ?thesis using switch_loop_ends [OF assms(1-4) inv, of n] assms(5,7,8) by (auto simp: moved_def)
qed

theorem forward_code_returns_witness:
  "\<exists>t. switch_loop (quiet_runtime forward_code) 2 (start_state forward_code) = Some (Returned t)"
proof -
  let ?rt = "quiet_runtime forward_code" and ?s = "start_state forward_code"
  have "(\<exists>t. switch_loop ?rt 2 ?s = Some (Returned t) \<and> frame_wf (frame t)) \<or>
      switch_loop ?rt 2 ?s = None \<and> (\<exists>t. reachable ?rt ?s t \<and> turn_overflows ?rt t)"
    by (rule forward_code_returns [OF forward_verified quiet_runtime_ok quiet_method_ok])
      (simp_all add: start_state_ok forward_forward_only forward_insns forward_retries)
  then show ?thesis using forward_defined by blast
qed

section \<open>Exceptions\<close>

text \<open>
  C5.  Where a caught exception goes on.  The frame's dex pc is the address of a handler of an
  enclosing try block, but the next instruction is computed from the 16 bits of the dex pc that the
  instruction handler keeps: it is that address only for an instruction below \<open>2\<^sup>1\<^sup>6\<close>, and otherwise as
  many times \<open>2\<^sup>1\<^sup>6\<close> code units behind it as the throwing instruction's dex pc holds.
\<close>

theorem exception_transfer:
  assumes "runtime_ok rt" "method_ok rt df" "method_frame rt s" "GetDexPC (frame s) = of_nat pc"
    and "catches (accessor rt) (of_nat pc) hs" "length (insns (accessor rt)) < 2 ^ 31" "pc < length (insns (accessor rt))"
    and "HandlePendingException rt (InstructionHandler_new fmt (of_nat pc) (int pc) code d) s = Some (True, u)"
  shows "\<exists>addr \<in> snd ` set hs. GetDexPC (frame u) = addr \<and> next_inst u = int (unat addr) + int (pc div 2 ^ 16 * 2 ^ 16)"
proof -
  let ?h = "InstructionHandler_new fmt (of_nat pc) (int pc) code d"
  obtain addr where addr: "addr \<in> snd ` set hs" "GetDexPC (frame u) = addr" "next_inst u = inst_pos ?h + sint (addr - dex_pc ?h)"
    using HandlePendingException_ok [OF assms(1-3), of hs ?h] assms(4,5,8) by auto
  have "pc < 2 ^ 31" "unat addr < 2 ^ 31" using assms(5-7) addr(1) by (auto simp: catches_def)
  then show ?thesis using displacement_exact [of pc addr] addr by (auto simp: InstructionHandler_new_def)
qed

theorem exception_transfer_witness:
  "\<exists>u. HandlePendingException (quiet_runtime far_code) far_handler far_state = Some (True, u) \<and>
    GetDexPC (frame u) = 1 \<and> next_inst u = 1 + 65536 \<and> length (insns far_code) = 65537"
proof -
  let ?u = "far_state\<lparr>frame := CreateShadowFrame 1 1, exception := 0, next_inst := 65537\<rparr>"
  have far: "length (insns far_code) = 65537" "registers_size far_code = 1" "ins_size far_code = 0" by (simp_all add: far_code_def)
  have run: "HandlePendingException (quiet_runtime far_code)
      (InstructionHandler_new kInvalidFormat (of_nat 65536) (int 65536) [0] 0) far_state = Some (True, ?u)"
    using far_exception by (simp add: far_handler_def)
  have "\<exists>addr \<in> snd ` set [(kDexNoIndex16, 1 :: u32)]. GetDexPC (frame ?u) = addr \<and>
      next_inst ?u = int (unat addr) + int (65536 div 2 ^ 16 * 2 ^ 16)"
    by (rule exception_transfer [OF quiet_runtime_ok quiet_method_ok _ _ _ _ _ run])
      (simp_all add: method_frame_def far far_state_def CreateShadowFrame_def GetDexPC_def far_catches)
  then show ?thesis using far(1) far_exception by simp
qed

end
